(* ===== verification/Webcfg_Prelude.thy ===== *)
theory Webcfg_Prelude
  imports Main "HOL-Library.Word" "HOL-Library.Monad_Syntax"
begin

text \<open>
  What the components share: the C types and status codes, the C string functions the
  sources call (as functions on lists of bytes; a C string is the list of its bytes before
  the terminating NUL, a \<open>char *\<close> that may be NULL is a \<open>string option\<close>), and two
  interfaces several components implement: the list of nodes found by name
  (the tmp list, the timer list, the multipart list and the database list) and the
  queue a producer and a consumer thread share (events, notifications).
\<close>

section \<open>C integer types and status codes\<close>

type_synonym u8 = "8 word"
type_synonym u16 = "16 word"
type_synonym u32 = "32 word"
type_synonym u64 = "64 word"

datatype WEBCFG_STATUS = WEBCFG_SUCCESS | WEBCFG_FAILURE | WEBCFG_NO_CHANGE

named_theorems cstr_simps \<open>the C string functions\<close>
named_theorems frame_simps \<open>which part of the state an operation leaves alone\<close>
named_theorems step_defs \<open>definitions of the operations of a step\<close>

section \<open>C strings\<close>

abbreviation NUL :: char where "NUL \<equiv> CHR 0x00"

definition nul_free :: "string \<Rightarrow> bool" where
  "nul_free s \<longleftrightarrow> NUL \<notin> set s"

text \<open>\<open>strncmp (a, b, n) == 0\<close>; the end of a list stands for the terminating NUL.\<close>

fun strncmp_eq :: "string \<Rightarrow> string \<Rightarrow> nat \<Rightarrow> bool" where
  "strncmp_eq a b 0 = True"
| "strncmp_eq [] [] (Suc n) = True"
| "strncmp_eq [] (b # bs) (Suc n) = (b = NUL)"
| "strncmp_eq (a # as) [] (Suc n) = (a = NUL)"
| "strncmp_eq (a # as) (b # bs) (Suc n) = (a = b \<and> (a = NUL \<or> strncmp_eq as bs n))"

text \<open>\<open>strndup (p, n)\<close>: at most \<open>n\<close> bytes, up to the first NUL.\<close>

definition strndup :: "string \<Rightarrow> nat \<Rightarrow> string" where
  "strndup p n = takeWhile (\<lambda>c. c \<noteq> NUL) (take n p)"

text \<open>\<open>snprintf (buf, n, ...)\<close> and \<open>strncpy (buf, s, n - 1)\<close> into a zeroed buffer of
  \<open>n\<close> bytes keep the first \<open>n - 1\<close> bytes.\<close>

definition fit :: "nat \<Rightarrow> string \<Rightarrow> string" where
  "fit n s = take (n - 1) s"

text \<open>\<open>strstr (hay, needle)\<close>: the suffix of \<open>hay\<close> at the first occurrence.\<close>

fun strstr :: "string \<Rightarrow> string \<Rightarrow> string option" where
  "strstr [] needle = (if needle = [] then Some [] else None)"
| "strstr (c # cs) needle =
     (if take (length needle) (c # cs) = needle then Some (c # cs) else strstr cs needle)"

text \<open>\<open>strsep (&p, ",")\<close>: the token before the next separator and the new \<open>p\<close>, which
  is NULL once the last token was taken.\<close>

fun strsep :: "char \<Rightarrow> string option \<Rightarrow> string option \<times> string option" where
  "strsep d None = (None, None)"
| "strsep d (Some s) =
     (let t = takeWhile (\<lambda>c. c \<noteq> d) s; r = dropWhile (\<lambda>c. c \<noteq> d) s
      in (Some t, case r of [] \<Rightarrow> None | _ # r' \<Rightarrow> Some r'))"

text \<open>\<open>strtok\<close> and \<open>strtok_r\<close>: skip separators, take a token up to the next separator,
  and step over that separator. \<open>None\<close>: no token is left.\<close>

definition strtok :: "string \<Rightarrow> string \<Rightarrow> (string \<times> string) option" where
  "strtok delims s =
     (let s1 = dropWhile (\<lambda>c. c \<in> set delims) s
      in if s1 = [] then None
         else Some (takeWhile (\<lambda>c. c \<notin> set delims) s1,
                    drop 1 (dropWhile (\<lambda>c. c \<notin> set delims) s1)))"

lemma strtok_shorter: "strtok delims s = Some (t, r) \<Longrightarrow> length r < length s"
proof -
  assume a: "strtok delims s = Some (t, r)"
  let ?s1 = "dropWhile (\<lambda>c. c \<in> set delims) s"
  from a have ne: "?s1 \<noteq> []" and r: "r = drop 1 (dropWhile (\<lambda>c. c \<notin> set delims) ?s1)"
    by (auto simp: strtok_def Let_def split: if_splits)
  let ?n = "length (dropWhile (\<lambda>c. c \<notin> set delims) ?s1)"
  have "?n \<le> length ?s1" by (rule length_dropWhile_le)
  moreover have "length ?s1 \<le> length s" by (rule length_dropWhile_le)
  moreover have "0 < length ?s1" using ne by simp
  moreover have "length r = ?n - 1" by (simp only: r length_drop)
  ultimately show ?thesis by linarith
qed

text \<open>All the tokens of a string, as the \<open>strtok\<close> loops of the sources visit them.\<close>

function strtok_all :: "string \<Rightarrow> string \<Rightarrow> string list" where
  "strtok_all delims s =
     (case strtok delims s of None \<Rightarrow> [] | Some (t, r) \<Rightarrow> t # strtok_all delims r)"
  by pat_completeness auto
termination
proof (relation "measure (\<lambda>(d, s). length s)")
  fix delims s x t r
  assume "strtok delims s = Some x" and "(t, r) = x"
  then have "strtok delims s = Some (t, r)" by simp
  then show "((delims, r), (delims, s)) \<in> measure (\<lambda>(d, s). length s)"
    by (simp add: strtok_shorter)
qed simp

declare strtok_all.simps [simp del]

section \<open>Decimal printing and \<open>strtoul\<close> with base 0\<close>

definition digit_char :: "nat \<Rightarrow> char" where
  "digit_char d = char_of (48 + d)"

fun dec :: "nat \<Rightarrow> string" where
  "dec n = (if n < 10 then [digit_char n] else dec (n div 10) @ [digit_char (n mod 10)])"

declare dec.simps [simp del]

definition isspace :: "char \<Rightarrow> bool" where
  "isspace c \<longleftrightarrow> (let n = (of_char c :: nat) in n = 32 \<or> 9 \<le> n \<and> n \<le> 13)"

text \<open>The value of a digit of a base up to 36; 36 for a byte that is no digit.\<close>

definition digit_val :: "char \<Rightarrow> nat" where
  "digit_val c =
     (let n = (of_char c :: nat)
      in if 48 \<le> n \<and> n \<le> 57 then n - 48
         else if 97 \<le> n \<and> n \<le> 122 then n - 87
         else if 65 \<le> n \<and> n \<le> 90 then n - 55
         else 36)"

definition read_digits :: "nat \<Rightarrow> string \<Rightarrow> nat" where
  "read_digits base s =
     foldl (\<lambda>a c. a * base + digit_val c) 0 (takeWhile (\<lambda>c. digit_val c < base) s)"

definition strtoul_base :: "string \<Rightarrow> nat \<times> string" where
  "strtoul_base s =
     (case s of
        CHR ''0'' # x # d # r \<Rightarrow>
          if (x = CHR ''x'' \<or> x = CHR ''X'') \<and> digit_val d < 16 then (16, d # r) else (8, s)
      | CHR ''0'' # _ \<Rightarrow> (8, s)
      | _ \<Rightarrow> (10, s))"

definition strtoul_sign :: "string \<Rightarrow> bool \<times> string" where
  "strtoul_sign s =
     (case s of
        c # r \<Rightarrow> if c = CHR ''-'' then (True, r) else if c = CHR ''+'' then (False, r) else (False, s)
      | [] \<Rightarrow> (False, s))"

text \<open>\<open>strtoul (s, NULL, 0)\<close> for a 64-bit \<open>unsigned long\<close>: saturates at \<open>ULONG_MAX\<close>,
  negates modulo \<open>2 ^ 64\<close> after a minus sign.\<close>

definition strtoul0 :: "string \<Rightarrow> u64" where
  "strtoul0 s =
     (let (neg, s1) = strtoul_sign (dropWhile isspace s);
          (base, s2) = strtoul_base s1;
          v = read_digits base s2
      in if 2 ^ 64 \<le> v then - 1 else if neg then - of_nat v else of_nat v)"

lemma digit_val_digit_char: "d < 10 \<Longrightarrow> digit_val (digit_char d) = d"
  by (simp add: digit_val_def digit_char_def)

lemma digit_char_inj: "a < 10 \<Longrightarrow> b < 10 \<Longrightarrow> digit_char a = digit_char b \<longleftrightarrow> a = b"
  by (metis digit_val_digit_char)

lemma dec_nonempty: "dec n \<noteq> []"
  by (subst dec.simps) simp

lemma dec_digits: "c \<in> set (dec n) \<Longrightarrow> \<exists>d<10. c = digit_char d"
proof (induction n rule: dec.induct)
  case (1 n)
  show ?case
  proof (cases "n < 10")
    case True
    with "1.prems" show ?thesis by (auto simp: dec.simps [of n])
  next
    case False
    with "1.prems" have "c \<in> set (dec (n div 10)) \<or> c = digit_char (n mod 10)"
      by (auto simp: dec.simps [of n])
    with False "1.IH" show ?thesis by (auto intro: exI [of _ "n mod 10"])
  qed
qed

lemma foldl_digits_snoc:
  "foldl (\<lambda>a c. a * b + digit_val c) x (s @ [c]) = foldl (\<lambda>a c. a * b + digit_val c) x s * b + digit_val c"
  by simp

lemma foldl_dec: "foldl (\<lambda>a c. a * 10 + digit_val c) 0 (dec n) = n"
proof (induction n rule: dec.induct)
  case (1 n)
  show ?case
  proof (cases "n < 10")
    case True
    then show ?thesis by (simp add: dec.simps [of n] digit_val_digit_char)
  next
    case False
    with "1.IH" show ?thesis by (simp add: dec.simps [of n] digit_val_digit_char)
  qed
qed

lemma takeWhile_dec: "takeWhile (\<lambda>c. digit_val c < 10) (dec n) = dec n"
  by (rule takeWhile_eq_all_conv [THEN iffD2]) (auto dest!: dec_digits simp: digit_val_digit_char)

lemma of_char_digit_char: "d < 10 \<Longrightarrow> (of_char (digit_char d) :: nat) = 48 + d"
  by (simp add: digit_char_def)

lemma digit_char_neq: "d < 10 \<Longrightarrow> (of_char c :: nat) < 48 \<Longrightarrow> digit_char d \<noteq> c"
  using of_char_digit_char [of d] by auto

lemma digit_char_plain:
  assumes "d < 10"
  shows "digit_char d \<noteq> NUL" "\<not> isspace (digit_char d)" "digit_char d \<noteq> CHR '',''"
    "digit_char d \<noteq> CHR ''-''" "digit_char d \<noteq> CHR ''+''"
  using assms
  by (simp_all add: digit_char_neq isspace_def of_char_digit_char Let_def)

lemma dec_plain: "c \<in> set (dec n) \<Longrightarrow> c \<noteq> NUL \<and> \<not> isspace c \<and> c \<noteq> CHR '',''"
  by (auto dest!: dec_digits simp: digit_char_plain)

lemma char_colon_code: "(of_char (CHR '':'') :: nat) = 48 + 10"
  by simp

lemma dec_colon: "CHR '':'' \<notin> set (dec n)"
proof
  assume "CHR '':'' \<in> set (dec n)"
  then obtain d where "d < 10" "CHR '':'' = digit_char d" using dec_digits by blast
  with of_char_digit_char [of d] show False by (metis add_less_cancel_left char_colon_code less_irrefl)
qed

lemma digit_char_zero: "digit_char 0 = CHR ''0''"
  by code_simp

lemma hd_dec_zero: "hd (dec n) = CHR ''0'' \<longleftrightarrow> n = 0"
proof (induction n rule: dec.induct)
  case (1 n)
  show ?case
  proof (cases "n < 10")
    case True
    then show ?thesis
      using digit_char_inj [of n 0] by (simp add: dec.simps [of n] digit_char_zero)
  next
    case False
    with "1.IH" show ?thesis by (simp add: dec.simps [of n] dec_nonempty)
  qed
qed

lemma dec_zero: "dec 0 = ''0''"
  by (simp add: dec.simps digit_char_zero)

lemma strtoul_base_dec: "0 < n \<Longrightarrow> strtoul_base (dec n) = (10, dec n)"
proof -
  assume "0 < n"
  then have h: "hd (dec n) \<noteq> CHR ''0''" by (simp add: hd_dec_zero)
  obtain c cs where "dec n = c # cs" using dec_nonempty [of n] by (cases "dec n") auto
  with h show ?thesis by (simp add: strtoul_base_def split: list.splits char.splits bool.splits)
qed

lemma read_digits_dec: "read_digits 10 (dec n) = n"
  by (simp add: read_digits_def takeWhile_dec foldl_dec)

lemma length_dec: "n < 10 ^ Suc k \<Longrightarrow> length (dec n) \<le> Suc k"
proof (induction k arbitrary: n)
  case 0
  then show ?case by (simp add: dec.simps)
next
  case (Suc k)
  show ?case
  proof (cases "n < 10")
    case True
    then show ?thesis by (simp add: dec.simps)
  next
    case False
    have "n div 10 < 10 ^ Suc k" using Suc.prems by (simp add: less_mult_imp_div_less mult.commute)
    from Suc.IH [OF this] False show ?thesis by (subst dec.simps) simp
  qed
qed

lemma length_dec_u32: "n < 2 ^ 32 \<Longrightarrow> length (dec n) \<le> 10"
  using length_dec [of n 9] by simp

text \<open>What \<open>%lu\<close> prints is read back by \<open>strtoul\<close>.\<close>

lemma strtoul0_dec [cstr_simps]: "n < 2 ^ 64 \<Longrightarrow> strtoul0 (dec n) = of_nat n"
proof -
  assume n: "n < 2 ^ 64"
  obtain c cs where d: "dec n = c # cs" using dec_nonempty [of n] by (cases "dec n") auto
  then obtain k where k: "k < 10" "c = digit_char k" using dec_digits [of c n] by auto
  have sp: "dropWhile isspace (dec n) = dec n" using d k by (simp add: digit_char_plain)
  have sg: "strtoul_sign (dec n) = (False, dec n)"
    using d k by (simp add: strtoul_sign_def digit_char_plain)
  show ?thesis
  proof (cases "n = 0")
    case True
    then show ?thesis
      by (simp add: strtoul0_def dec_zero isspace_def strtoul_sign_def strtoul_base_def
          read_digits_def digit_val_def)
  next
    case False
    then show ?thesis
      using n by (simp add: strtoul0_def sp sg strtoul_base_dec read_digits_dec)
  qed
qed

lemma ucast_of_nat_u32 [simp]: "unsigned (word_of_nat n :: u64) = (word_of_nat n :: u32)"
  by transfer (simp add: take_bit_take_bit)

section \<open>Facts on \<open>strncmp\<close>\<close>

lemma strncmp_eq_refl [simp]: "strncmp_eq a a n"
proof (induction a arbitrary: n)
  case Nil
  show ?case by (cases n) simp_all
next
  case (Cons c a)
  then show ?case by (cases n) simp_all
qed

lemma strncmp_eq_take:
  "nul_free a \<Longrightarrow> nul_free b \<Longrightarrow> strncmp_eq a b n \<longleftrightarrow> take n a = take n b"
  by (induction a b n rule: strncmp_eq.induct) (auto simp: nul_free_def)

lemma strncmp_eq_numeral [simp]:
  "strncmp_eq [] [] (numeral k) = True"
  "strncmp_eq [] (b # bs) (numeral k) = (b = NUL)"
  "strncmp_eq (a # as) [] (numeral k) = (a = NUL)"
  "strncmp_eq (a # as) (b # bs) (numeral k) = (a = b \<and> (a = NUL \<or> strncmp_eq as bs (pred_numeral k)))"
  by (simp_all add: numeral_eq_Suc)

lemma strncmp_eq_full:
  assumes "nul_free a" "nul_free b" "length a < n" "length b < n"
  shows "strncmp_eq a b n \<longleftrightarrow> a = b"
  using assms by (simp add: strncmp_eq_take)

lemma strncmp_eq_prefix:
  assumes "nul_free a" "nul_free b"
  shows "strncmp_eq a b (length b) \<longleftrightarrow> (\<exists>r. a = b @ r)"
proof -
  have "take (length b) a = b \<longleftrightarrow> (\<exists>r. a = b @ r)"
    by (metis append_eq_conv_conj append_take_drop_id)
  with assms show ?thesis by (simp add: strncmp_eq_take)
qed

lemma strndup_all [simp]: "nul_free s \<Longrightarrow> strndup s (length s) = s"
  by (auto simp: strndup_def nul_free_def takeWhile_eq_all_conv)

lemma nul_free_strndup [simp]: "nul_free (strndup s n)"
  by (auto simp: strndup_def nul_free_def dest: set_takeWhileD)

lemma nul_free_take [simp]: "nul_free s \<Longrightarrow> nul_free (take n s)"
  by (auto simp: nul_free_def dest: in_set_takeD)

lemma nul_free_append [simp]: "nul_free (a @ b) \<longleftrightarrow> nul_free a \<and> nul_free b"
  by (auto simp: nul_free_def)

lemma nul_free_dec [simp]: "nul_free (dec n)"
  using dec_plain by (auto simp: nul_free_def)

section \<open>Joining and splitting with separators\<close>

fun join :: "string \<Rightarrow> string list \<Rightarrow> string" where
  "join d [] = []"
| "join d [x] = x"
| "join d (x # y # xs) = x @ d @ join d (y # xs)"

lemma strtok_last:
  assumes "x \<noteq> []" "c \<notin> set x"
  shows "strtok [c] x = Some (x, [])"
proof -
  have d: "dropWhile (\<lambda>y. y = c) x = x" using assms by (cases x) auto
  have t: "takeWhile (\<lambda>y. y \<noteq> c) x = x" using assms by (auto simp: takeWhile_eq_all_conv)
  have e: "dropWhile (\<lambda>y. y \<noteq> c) x = []" using assms by (auto simp: dropWhile_eq_Nil_conv)
  show ?thesis using assms(1) by (simp add: strtok_def d t e)
qed

lemma strtok_step:
  assumes "x \<noteq> []" "c \<notin> set x"
  shows "strtok [c] (x @ c # r) = Some (x, r)"
proof -
  have d: "dropWhile (\<lambda>y. y = c) (x @ c # r) = x @ c # r" using assms by (cases x) auto
  have t: "takeWhile (\<lambda>y. y \<noteq> c) (x @ c # r) = x" using assms by (subst takeWhile_append2) auto
  have e: "dropWhile (\<lambda>y. y \<noteq> c) (x @ c # r) = c # r" using assms by (subst dropWhile_append2) auto
  show ?thesis using assms(1) by (simp add: strtok_def d t e)
qed

lemma strtok_nil [simp]: "strtok d [] = None"
  by (simp add: strtok_def)

lemma strtok_all_nil [simp]: "strtok_all d [] = []"
  by (simp add: strtok_all.simps)

lemma strtok_all_join:
  "\<forall>x\<in>set xs. x \<noteq> [] \<and> c \<notin> set x \<Longrightarrow> strtok_all [c] (join [c] xs) = xs"
proof (induction xs rule: induct_list012)
  case 1
  then show ?case by simp
next
  case (2 x)
  then show ?case by (subst strtok_all.simps) (simp add: strtok_last)
next
  case (3 x y zs)
  have "strtok [c] (x @ c # join [c] (y # zs)) = Some (x, join [c] (y # zs))"
    using "3.prems" by (intro strtok_step) auto
  then show ?case using "3.IH"(2) "3.prems" by (subst strtok_all.simps) simp
qed

lemma join_append_last: "xs \<noteq> [] \<Longrightarrow> join d xs @ z = join d (butlast xs @ [last xs @ z])"
proof (induction xs rule: induct_list012)
  case (3 x y zs)
  then show ?case by (cases zs) auto
qed auto

lemma set_join: "c \<in> set (join d xs) \<Longrightarrow> c \<in> set d \<or> (\<exists>x\<in>set xs. c \<in> set x)"
  by (induction d xs rule: join.induct) auto

lemma strstr_None_hd: "c \<notin> set hay \<Longrightarrow> strstr hay (c # needle) = None"
  by (induction hay) auto

section \<open>Lists of nodes found by name\<close>

primrec find_idx :: "('a \<Rightarrow> bool) \<Rightarrow> 'a list \<Rightarrow> nat option" where
  "find_idx P [] = None"
| "find_idx P (x # xs) = (if P x then Some 0 else map_option Suc (find_idx P xs))"

primrec del_first :: "('a \<Rightarrow> bool) \<Rightarrow> 'a list \<Rightarrow> 'a list" where
  "del_first P [] = []"
| "del_first P (x # xs) = (if P x then xs else x # del_first P xs)"

text \<open>Update the node a pointer (an index) designates; a dangling index changes nothing.\<close>

definition upd_at :: "nat \<Rightarrow> ('a \<Rightarrow> 'a) \<Rightarrow> 'a list \<Rightarrow> 'a list" where
  "upd_at i f xs = (if i < length xs then xs[i := f (xs ! i)] else xs)"

lemma find_idx_Some:
  "find_idx P xs = Some i \<longleftrightarrow> i < length xs \<and> P (xs ! i) \<and> (\<forall>j<i. \<not> P (xs ! j))"
proof (induction xs arbitrary: i)
  case (Cons x xs)
  then show ?case by (cases i) (auto simp: less_Suc_eq_0_disj)
qed simp

lemma find_idx_None: "find_idx P xs = None \<longleftrightarrow> (\<forall>x\<in>set xs. \<not> P x)"
  by (induction xs) auto

lemma find_idx_snoc: "find_idx P (xs @ [x]) =
  (case find_idx P xs of Some i \<Rightarrow> Some i | None \<Rightarrow> if P x then Some (length xs) else None)"
proof (induction xs)
  case (Cons y ys)
  then show ?case by (cases "find_idx P ys") auto
qed simp

lemma find_idx_nth: "find_idx P xs = Some i \<Longrightarrow> i < length xs \<and> P (xs ! i)"
  by (simp add: find_idx_Some)

lemma find_idx_find: "map_option ((!) xs) (find_idx P xs) = find P xs"
proof (induction xs)
  case (Cons x xs)
  then show ?case by (cases "find_idx P xs") auto
qed simp

lemma del_first_split:
  "find_idx P xs = Some i \<Longrightarrow> del_first P xs = take i xs @ drop (Suc i) xs"
proof (induction xs arbitrary: i)
  case (Cons x xs)
  then show ?case by (cases "P x") (auto split: option.splits)
qed simp

lemma del_first_miss: "find_idx P xs = None \<Longrightarrow> del_first P xs = xs"
  by (induction xs) (auto split: if_splits)

lemma length_del_first:
  "length (del_first P xs) = (if find_idx P xs = None then length xs else length xs - 1)"
proof (induction xs)
  case (Cons x xs)
  then show ?case by (cases xs) auto
qed simp

lemma length_upd_at [simp]: "length (upd_at i f xs) = length xs"
  by (simp add: upd_at_def)

lemma map_upd_at: "(\<And>x. g (f x) = g x) \<Longrightarrow> map g (upd_at i f xs) = map g xs"
  by (simp add: upd_at_def map_update) (metis list_update_id nth_map)

lemma upd_at_nth: "i < length xs \<Longrightarrow> upd_at i f xs ! j = (if j = i then f (xs ! i) else xs ! j)"
  by (auto simp: upd_at_def nth_list_update)

lemma set_upd_at: "x \<in> set (upd_at i f xs) \<Longrightarrow> x \<in> set xs \<or> (i < length xs \<and> x = f (xs ! i))"
  by (auto simp: upd_at_def dest: set_update_subset_insert [THEN subsetD] split: if_splits)

text \<open>
  The interface of the four node lists of the program (tmp list, timer list, multipart
  list, database list): \<open>get\<close> finds the first node of a name, \<open>del\<close> unlinks it,
  \<open>add\<close> appends a node.
\<close>

locale doc_list =
  fixes key :: "'a \<Rightarrow> 'k"
    and get :: "'k \<Rightarrow> 'a list \<Rightarrow> nat option"
    and del :: "'k \<Rightarrow> 'a list \<Rightarrow> 'a list"
    and add :: "'a \<Rightarrow> 'a list \<Rightarrow> 'a list"
  assumes get_Some: "get d xs = Some i \<Longrightarrow> i < length xs \<and> key (xs ! i) = d \<and> (\<forall>j<i. key (xs ! j) \<noteq> d)"
    and get_None: "get d xs = None \<longleftrightarrow> d \<notin> key ` set xs"
    and del_hit: "get d xs = Some i \<Longrightarrow> del d xs = take i xs @ drop (Suc i) xs"
    and del_miss: "get d xs = None \<Longrightarrow> del d xs = xs"
    and add_last: "add x xs = xs @ [x]"
begin

lemma get_eq_find_idx: "get d xs = find_idx (\<lambda>x. key x = d) xs"
proof (cases "get d xs")
  case None
  then have "d \<notin> key ` set xs" by (simp add: get_None)
  then have "find_idx (\<lambda>x. key x = d) xs = None" by (auto simp: find_idx_None)
  with None show ?thesis by simp
next
  case (Some i)
  have "find_idx (\<lambda>x. key x = d) xs = Some i"
    using get_Some [OF Some] by (simp add: find_idx_Some)
  with Some show ?thesis by simp
qed

lemma del_eq_del_first: "del d xs = del_first (\<lambda>x. key x = d) xs"
  by (cases "get d xs") (simp_all add: del_miss del_hit get_eq_find_idx del_first_miss del_first_split)

lemma lookup_find: "map_option ((!) xs) (get d xs) = find (\<lambda>x. key x = d) xs"
  by (simp add: get_eq_find_idx find_idx_find)

lemma length_del: "length (del d xs) = (if get d xs = None then length xs else length xs - 1)"
  by (simp only: del_eq_del_first length_del_first get_eq_find_idx)

lemma set_del: "set (del d xs) \<subseteq> set xs"
  unfolding del_eq_del_first by (induction xs) auto

lemma distinct_del: "distinct (map key xs) \<Longrightarrow> distinct (map key (del d xs))"
  unfolding del_eq_del_first by (induction xs) (auto dest: set_del [unfolded del_eq_del_first, THEN subsetD])

lemma keys_del: "distinct (map key xs) \<Longrightarrow> key ` set (del d xs) = key ` set xs - {d}"
  unfolding del_eq_del_first by (induction xs) (auto intro: rev_image_eqI)

lemma get_del: "distinct (map key xs) \<Longrightarrow> get d (del d xs) = None"
  by (simp add: get_None keys_del)

lemma find_del_other: "e \<noteq> d \<Longrightarrow> find (\<lambda>x. key x = e) (del d xs) = find (\<lambda>x. key x = e) xs"
  unfolding del_eq_del_first by (induction xs) auto

lemma find_del:
  "distinct (map key xs) \<Longrightarrow>
   find (\<lambda>x. key x = e) (del d xs) = (if e = d then None else find (\<lambda>x. key x = e) xs)"
  using find_del_other get_del lookup_find by (metis option.map_disc_iff)

lemma get_add: "get d (add x xs) =
  (case get d xs of Some i \<Rightarrow> Some i | None \<Rightarrow> if key x = d then Some (length xs) else None)"
  by (simp add: get_eq_find_idx add_last find_idx_snoc)

lemma find_add: "find (\<lambda>y. key y = d) (add x xs) =
  (case find (\<lambda>y. key y = d) xs of Some y \<Rightarrow> Some y | None \<Rightarrow> if key x = d then Some x else None)"
  unfolding add_last by (induction xs) auto

lemma distinct_add: "distinct (map key xs) \<Longrightarrow> get (key x) xs = None \<Longrightarrow> distinct (map key (add x xs))"
  by (auto simp: add_last get_None)

end

text \<open>The two primitives the sources' traversals come to satisfy the interface.\<close>

lemma doc_listI:
  assumes "\<And>d xs. get d xs = find_idx (\<lambda>x. key x = d) xs"
    and "\<And>d xs. del d xs = del_first (\<lambda>x. key x = d) xs"
    and "\<And>x xs. add x xs = xs @ [x]"
  shows "doc_list key get del add"
  using assms
  by unfold_locales (auto simp: find_idx_Some find_idx_None del_first_split del_first_miss)

section \<open>Producer and consumer queues\<close>

text \<open>Take \<open>n\<close> messages off a queue.\<close>

primrec drain :: "('q \<Rightarrow> ('a \<times> 'q) option) \<Rightarrow> nat \<Rightarrow> 'q \<Rightarrow> 'a list" where
  "drain deq 0 q = []"
| "drain deq (Suc n) q = (case deq q of None \<Rightarrow> [] | Some (x, q') \<Rightarrow> x # drain deq n q')"

locale msg_queue =
  fixes enq :: "'a \<Rightarrow> 'q \<Rightarrow> 'q"
    and deq :: "'q \<Rightarrow> ('a \<times> 'q) option"
    and msgs :: "'q \<Rightarrow> 'a list"
  assumes msgs_enq: "msgs (enq x q) = msgs q @ [x]"
    and deq_None: "deq q = None \<longleftrightarrow> msgs q = []"
    and deq_Some: "deq q = Some (x, q') \<Longrightarrow> msgs q = x # msgs q'"
begin

lemma msgs_fold_enq: "msgs (fold enq xs q) = msgs q @ xs"
  by (induction xs arbitrary: q) (auto simp: msgs_enq)

lemma drain_msgs: "length xs = n \<Longrightarrow> msgs q = xs @ ys \<Longrightarrow> drain deq n q = xs"
proof (induction n arbitrary: xs q)
  case (Suc n)
  then obtain x xs' where xs: "xs = x # xs'" by (cases xs) auto
  then have "deq q \<noteq> None" using Suc.prems by (simp add: deq_None)
  then obtain y q' where d: "deq q = Some (y, q')" by (cases "deq q") auto
  from deq_Some [OF d] Suc.prems xs have "y = x" and "msgs q' = xs' @ ys" by auto
  with Suc.IH [of xs' q'] Suc.prems xs d show ?case by simp
qed simp

text \<open>The consumer gets what was pending, then the new messages, in order.\<close>

lemma fifo: "drain deq (length (msgs q) + length xs) (fold enq xs q) = msgs q @ xs"
  by (rule drain_msgs [where ys = "[]"]) (simp_all add: msgs_fold_enq)

end

end
