(* ===== verification/Msgpack.thy ===== *)
theory Msgpack
  imports Webcfg_Prelude
begin

text \<open>
  The msgpack objects the program reads and the calls it makes to the packer, and the
  decoding helper of \<open>src/src/webcfg_helpers.c\<close>. The library msgpack-c itself is not part
  of the repository: its object type is \<open>msgpack_object\<close>, a buffer is written by a
  parameter \<open>write\<close> from the list of packer calls and read back by a parameter
  \<open>unpack\<close> (\<open>None\<close> when \<open>msgpack_unpack_next\<close> does not return
  \<open>MSGPACK_UNPACK_SUCCESS\<close>, else the object and the offset behind it). What the code
  relies on is stated as \<open>msgpack_codec\<close>.
\<close>

unbundle bit_operations_syntax

section \<open>Objects\<close>

datatype msgpack_object =
    MpNil
  | MpBool bool
  | MpPosInt u64
  | MpNegInt int
  | MpFloat
  | MpStr string
  | MpBin string
  | MpExt string
  | MpArray "msgpack_object list"
  | MpMap "(msgpack_object \<times> msgpack_object) list"

datatype msgpack_object_type =
    MSGPACK_OBJECT_NIL | MSGPACK_OBJECT_BOOLEAN | MSGPACK_OBJECT_POSITIVE_INTEGER
  | MSGPACK_OBJECT_NEGATIVE_INTEGER | MSGPACK_OBJECT_FLOAT | MSGPACK_OBJECT_STR
  | MSGPACK_OBJECT_BIN | MSGPACK_OBJECT_EXT | MSGPACK_OBJECT_ARRAY | MSGPACK_OBJECT_MAP

fun mp_type :: "msgpack_object \<Rightarrow> msgpack_object_type" where
  "mp_type MpNil = MSGPACK_OBJECT_NIL"
| "mp_type (MpBool _) = MSGPACK_OBJECT_BOOLEAN"
| "mp_type (MpPosInt _) = MSGPACK_OBJECT_POSITIVE_INTEGER"
| "mp_type (MpNegInt _) = MSGPACK_OBJECT_NEGATIVE_INTEGER"
| "mp_type MpFloat = MSGPACK_OBJECT_FLOAT"
| "mp_type (MpStr _) = MSGPACK_OBJECT_STR"
| "mp_type (MpBin _) = MSGPACK_OBJECT_BIN"
| "mp_type (MpExt _) = MSGPACK_OBJECT_EXT"
| "mp_type (MpArray _) = MSGPACK_OBJECT_ARRAY"
| "mp_type (MpMap _) = MSGPACK_OBJECT_MAP"

type_synonym mp_kv = "msgpack_object \<times> msgpack_object"
type_synonym unpacker = "string \<Rightarrow> (msgpack_object \<times> nat) option"

section \<open>Packer calls\<close>

datatype pk_op =
    PkMap nat | PkArray nat | PkStr nat | PkStrBody string
  | PkUint64 u64 | PkUint32 u32 | PkUint16 u16

definition msgpack_pack_string :: "string \<Rightarrow> pk_op list" where
  "msgpack_pack_string s = [PkStr (length s), PkStrBody s]"

definition msgpack_pack_string_nvp :: "string option \<Rightarrow> string option \<Rightarrow> pk_op list" where
  "msgpack_pack_string_nvp token val =
     (case (token, val) of
        (Some t, Some v) \<Rightarrow> msgpack_pack_string t @ msgpack_pack_string v
      | _ \<Rightarrow> [])"

text \<open>The calls that write an object.\<close>

fun ops_of :: "msgpack_object \<Rightarrow> pk_op list" where
  "ops_of (MpStr s) = msgpack_pack_string s"
| "ops_of (MpPosInt w) = [PkUint64 w]"
| "ops_of (MpArray xs) = PkArray (length xs) # concat (map ops_of xs)"
| "ops_of (MpMap kvs) = PkMap (length kvs) # concat (map (\<lambda>(k, v). ops_of k @ ops_of v) kvs)"
| "ops_of _ = []"

text \<open>The objects the program writes: strings, integers, arrays and maps, with sizes that
  fit the 32-bit size fields of the format.\<close>

fun packable :: "msgpack_object \<Rightarrow> bool" where
  "packable (MpStr s) = (length s < 2 ^ 32)"
| "packable (MpPosInt w) = True"
| "packable (MpArray xs) = (length xs < 2 ^ 32 \<and> list_all packable xs)"
| "packable (MpMap kvs) =
     (length kvs < 2 ^ 32 \<and> list_all (\<lambda>(k, v). packable k \<and> packable v) kvs)"
| "packable _ = False"

text \<open>What the code relies on: the unpacker reads back what the packer wrote.\<close>

definition msgpack_codec :: "(pk_op list \<Rightarrow> string) \<Rightarrow> unpacker \<Rightarrow> bool" where
  "msgpack_codec write unpack \<longleftrightarrow>
     (\<forall>obj. packable obj \<longrightarrow>
        write (ops_of obj) \<noteq> [] \<and> (\<exists>off>0. unpack (write (ops_of obj)) = Some (obj, off)))"

lemma msgpack_codecD:
  assumes "msgpack_codec write unpack" "packable obj"
  obtains off where "0 < off" "unpack (write (ops_of obj)) = Some (obj, off)" "write (ops_of obj) \<noteq> []"
  using assms by (auto simp: msgpack_codec_def)

section \<open>The decoding helper (\<open>src/src/webcfg_helpers.c\<close>)\<close>

type_synonym errno = nat

definition HELPERS_OK :: errno where "HELPERS_OK = 0"
definition HELPERS_OUT_OF_MEMORY :: errno where "HELPERS_OUT_OF_MEMORY = 1"
definition HELPERS_INVALID_FIRST_ELEMENT :: errno where "HELPERS_INVALID_FIRST_ELEMENT = 2"
definition HELPERS_MISSING_WRAPPER :: errno where "HELPERS_MISSING_WRAPPER = 3"

lemmas helpers_errno =
  HELPERS_OK_def HELPERS_OUT_OF_MEMORY_def HELPERS_INVALID_FIRST_ELEMENT_def HELPERS_MISSING_WRAPPER_def

text \<open>The macro \<open>match (p, s)\<close>: the comparison is as long as the key in the message.\<close>

definition match_key :: "string \<Rightarrow> string \<Rightarrow> bool" where
  "match_key k s = strncmp_eq k s (length k)"

fun finder :: "string \<Rightarrow> msgpack_object_type \<Rightarrow> mp_kv list \<Rightarrow> errno \<Rightarrow> msgpack_object option \<times> errno" where
  "finder name expect_type [] errno = (None, HELPERS_MISSING_WRAPPER)"
| "finder name expect_type ((k, v) # kvs) errno =
     (case k of
        MpStr key \<Rightarrow>
          if expect_type = mp_type v \<and> match_key key name then (Some v, errno)
          else finder name expect_type kvs errno
      | _ \<Rightarrow> finder name expect_type kvs errno)"

text \<open>
  \<open>helper_convert\<close>: \<open>mem\<close> says whether \<open>malloc\<close> succeeds, \<open>zero\<close> is the
  zeroed structure, \<open>buf = None\<close> a NULL buffer. The process callback gets the
  structure, the object, \<open>errno\<close> and the state \<open>s\<close> it may change, and returns its
  code, the structure, \<open>errno\<close> and the state. The result is the structure, or
  \<open>None\<close> for NULL.
\<close>

definition helper_convert ::
  "bool \<Rightarrow> unpacker \<Rightarrow> 'p \<Rightarrow> string option \<Rightarrow> string option \<Rightarrow> msgpack_object_type \<Rightarrow> bool \<Rightarrow>
   ('p \<Rightarrow> msgpack_object \<Rightarrow> errno \<Rightarrow> 's \<Rightarrow> int \<times> 'p \<times> errno \<times> 's) \<Rightarrow>
   errno \<Rightarrow> 's \<Rightarrow> 'p option \<times> errno \<times> 's" where
  "helper_convert mem unpack zero buf wrapper expect_type optional process errno s =
     (if \<not> mem then (None, HELPERS_OUT_OF_MEMORY, s)
      else case buf of
        None \<Rightarrow> (Some zero, errno, s)
      | Some bytes \<Rightarrow>
          if bytes = [] then (Some zero, errno, s)
          else (case unpack bytes of
              Some (MpMap kvs, offset) \<Rightarrow>
                if offset \<noteq> 0 then
                  (let (inner, errno1) =
                         (case wrapper of
                            None \<Rightarrow> (Some (MpMap kvs), errno)
                          | Some w \<Rightarrow> finder w expect_type kvs errno)
                   in case inner of
                        None \<Rightarrow> if optional then (Some zero, HELPERS_OK, s) else (None, errno1, s)
                      | Some obj \<Rightarrow>
                          (let (rv, p, errno2, s') = process zero obj errno1 s
                           in if rv = 0 then (Some p, HELPERS_OK, s') else (None, errno2, s')))
                else (None, HELPERS_INVALID_FIRST_ELEMENT, s)
            | _ \<Rightarrow> (None, HELPERS_INVALID_FIRST_ELEMENT, s)))"

subsection \<open>Facts\<close>

lemma match_key_self [simp]: "match_key s s"
  by (simp add: match_key_def)

lemma match_key_prefix:
  assumes "nul_free k" "nul_free s"
  shows "match_key k s \<longleftrightarrow> (\<exists>r. s = k @ r)"
proof -
  have "k = take (length k) s \<longleftrightarrow> (\<exists>r. s = k @ r)"
    by (metis append_eq_conv_conj append_take_drop_id)
  with assms show ?thesis by (simp add: match_key_def strncmp_eq_take)
qed

lemma helper_convert_wrapped:
  assumes "unpack bytes = Some (MpMap [(MpStr w, obj)], off)" "0 < off" "bytes \<noteq> []"
    and "mp_type obj = ty"
  shows "helper_convert True unpack zero (Some bytes) (Some w) ty opt process errno s =
    (case process zero obj errno s of
       (rv, p, errno2, s') \<Rightarrow> if rv = 0 then (Some p, HELPERS_OK, s') else (None, errno2, s'))"
  using assms by (simp add: helper_convert_def)

lemma helper_convert_some:
  assumes "helper_convert mem unpack zero buf w ty opt process errno s = (Some p, e, s')"
  shows "p = zero \<and> s' = s \<or> (\<exists>obj e1 e2. process zero obj e1 s = (0, p, e2, s'))"
  using assms
  by (auto simp: helper_convert_def Let_def
      split: option.splits if_splits prod.splits msgpack_object.splits)

lemma helper_convert_None:
  assumes "helper_convert mem unpack zero buf w ty True process errno s = (None, e, s')"
  shows "e = HELPERS_OUT_OF_MEMORY \<or> e = HELPERS_INVALID_FIRST_ELEMENT \<or>
    (\<exists>obj e1 rv p s2. rv \<noteq> 0 \<and> process zero obj e1 s = (rv, p, e, s2))"
  using assms
  by (auto simp: helper_convert_def Let_def
      split: option.splits if_splits prod.splits msgpack_object.splits) blast+

section \<open>Array decoding\<close>

text \<open>
  Three decoders walk an array of maps and stop at the first element that is no map
  (\<open>errno\<close> becomes \<open>not_map\<close>) or whose map is refused (\<open>errno\<close> becomes
  \<open>refused err\<close>): \<open>process_webcfgparam\<close>, \<open>process_webcfgdbblob\<close> and
  \<open>process_webcfgdb\<close>. The list is that of the entries accepted before the loop ended.
\<close>

fun decode_array ::
  "('a \<Rightarrow> mp_kv list \<Rightarrow> errno \<Rightarrow> int \<times> 'a \<times> errno) \<Rightarrow> 'a \<Rightarrow> errno \<Rightarrow> (errno \<Rightarrow> errno) \<Rightarrow>
   msgpack_object list \<Rightarrow> errno \<Rightarrow> int \<times> 'a list \<times> errno" where
  "decode_array parse zero not_map refused [] errno = (0, [], errno)"
| "decode_array parse zero not_map refused (MpMap kvs # objs) errno =
     (case parse zero kvs errno of
        (rv, e, errno1) \<Rightarrow>
          if rv \<noteq> 0 then (-1, [], refused errno1)
          else (case decode_array parse zero not_map refused objs errno1 of
                  (rv2, es, errno2) \<Rightarrow> (rv2, e # es, errno2)))"
| "decode_array parse zero not_map refused (_ # objs) errno = (-1, [], not_map)"

lemma decode_array_errno:
  assumes "decode_array parse zero not_map refused objs errno = (rv, es, errno')"
  shows "rv = 0 \<or> rv = -1 \<and> (errno' = not_map \<or> (\<exists>e. errno' = refused e))"
  using assms
  by (induction parse zero not_map refused objs errno arbitrary: rv es errno'
      rule: decode_array.induct) (auto split: prod.splits if_splits)

lemma decode_array_length:
  assumes "decode_array parse zero not_map refused objs errno = (rv, es, errno')"
  shows "length es \<le> length objs \<and> (rv = 0 \<longrightarrow> length es = length objs)"
  using assms
proof (induction parse zero not_map refused objs errno arbitrary: rv es errno'
      rule: decode_array.induct)
  case (2 parse zero not_map refused kvs objs errno)
  then show ?case by (auto split: prod.splits if_splits)
qed auto

lemma decode_array_all:
  assumes "decode_array parse zero not_map refused objs errno = (rv, es, errno')"
    and "\<And>kvs e1 e e2. parse zero kvs e1 = (0, e, e2) \<Longrightarrow> P e"
  shows "list_all P es"
  using assms
proof (induction parse zero not_map refused objs errno arbitrary: rv es errno'
      rule: decode_array.induct)
  case (2 parse zero not_map refused kvs objs errno)
  obtain r1 e e1 where p: "parse zero kvs errno = (r1, e, e1)" by (metis prod_cases3)
  obtain r2 es2 e2 where q: "decode_array parse zero not_map refused objs e1 = (r2, es2, e2)"
    by (metis prod_cases3)
  show ?case
  proof (cases "r1 = 0")
    case True
    then have "list_all P es2" using "2.IH" [OF p [symmetric]] p q "2.prems" by auto
    with True p q "2.prems" show ?thesis by auto
  qed (use p "2.prems" in auto)
qed auto

text \<open>The contract of an entry format: parsing the fields an entry was written with gives
  the entry back. Then whole arrays of entries are read back.\<close>

locale entry_codec =
  fixes fields :: "'a \<Rightarrow> mp_kv list"
    and parse :: "'a \<Rightarrow> mp_kv list \<Rightarrow> errno \<Rightarrow> int \<times> 'a \<times> errno"
    and zero :: 'a
    and ok :: "'a \<Rightarrow> bool"
  assumes parse_fields: "ok e \<Longrightarrow> \<exists>errno'. parse zero (fields e) errno = (0, e, errno')"
begin

lemma decode_array_fields:
  "list_all ok es \<Longrightarrow>
   \<exists>errno'. decode_array parse zero not_map refused (map (\<lambda>e. MpMap (fields e)) es) errno = (0, es, errno')"
proof (induction es arbitrary: errno)
  case (Cons e es)
  then obtain e1 where e1: "parse zero (fields e) errno = (0, e, e1)"
    using parse_fields [of e errno] by auto
  from Cons obtain e2 where
    "decode_array parse zero not_map refused (map (\<lambda>e. MpMap (fields e)) es) e1 = (0, es, e2)"
    by fastforce
  with e1 show ?case by simp
qed simp

end

end
