(* ===== verification/Param.thy ===== *)
theory Param
  imports Msgpack
begin

text \<open>
  \<open>src/src/webcfg_param.c\<close>: the parameters a subdocument carries, decoded from the array
  \<open>parameters\<close> of its msgpack body. \<open>process_params\<close> reads one entry,
  \<open>process_webcfgparam\<close> the array, \<open>webcfgparam_convert\<close> the whole buffer.
\<close>

definition PM_OK :: errno where "PM_OK = HELPERS_OK"
definition PM_OUT_OF_MEMORY :: errno where "PM_OUT_OF_MEMORY = HELPERS_OUT_OF_MEMORY"
definition PM_INVALID_FIRST_ELEMENT :: errno where
  "PM_INVALID_FIRST_ELEMENT = HELPERS_INVALID_FIRST_ELEMENT"
definition PM_INVALID_DATATYPE :: errno where "PM_INVALID_DATATYPE = 3"
definition PM_INVALID_PM_OBJECT :: errno where "PM_INVALID_PM_OBJECT = 4"
definition PM_INVALID_BLOB_OBJECT :: errno where "PM_INVALID_BLOB_OBJECT = 5"

lemmas pm_errno = PM_OK_def PM_OUT_OF_MEMORY_def PM_INVALID_FIRST_ELEMENT_def
  PM_INVALID_DATATYPE_def PM_INVALID_PM_OBJECT_def PM_INVALID_BLOB_OBJECT_def helpers_errno

record wparam =
  wp_name :: "string option"
  wp_value :: "string option"
  wp_value_size :: u32
  wp_type :: u16

definition wparam_zero :: wparam where
  "wparam_zero = \<lparr>wp_name = None, wp_value = None, wp_value_size = 0, wp_type = 0\<rparr>"

text \<open>\<open>objects_left &= ~(1 << k)\<close>\<close>

definition clear_bit :: "nat \<Rightarrow> u8 \<Rightarrow> u8" where
  "clear_bit k w = w AND NOT (push_bit k 1)"

text \<open>One turn of the loop; \<open>Inl\<close> is the early return with \<open>errno\<close> set.\<close>

definition process_params_kv :: "wparam \<Rightarrow> u8 \<Rightarrow> mp_kv \<Rightarrow> errno \<times> wparam + wparam \<times> u8" where
  "process_params_kv e objects_left kv =
     (case kv of
        (MpStr key, MpPosInt u) \<Rightarrow>
          if match_key key ''dataType'' then
            (if 65535 < u then Inl (PM_INVALID_DATATYPE, e)
             else Inr (e\<lparr>wp_type := ucast u\<rparr>, clear_bit 0 objects_left))
          else if match_key key ''notify_attribute'' then Inr (e, 0)
          else Inr (e, objects_left)
      | (MpStr key, MpStr str) \<Rightarrow>
          let (e1, left1) =
                (if match_key key ''name''
                 then (e\<lparr>wp_name := Some (strndup str (length str))\<rparr>, clear_bit 1 objects_left)
                 else (e, objects_left))
          in if match_key key ''value''
             then Inr (e1\<lparr>wp_value := Some str, wp_value_size := of_nat (length str)\<rparr>,
                       clear_bit 2 left1)
             else Inr (e1, left1)
      | _ \<Rightarrow> Inr (e, objects_left))"

fun process_params_loop :: "wparam \<Rightarrow> u8 \<Rightarrow> mp_kv list \<Rightarrow> errno \<times> wparam + wparam \<times> u8" where
  "process_params_loop e objects_left [] = Inr (e, objects_left)"
| "process_params_loop e objects_left (kv # kvs) =
     (if 0 < objects_left then
        (case process_params_kv e objects_left kv of
           Inl err \<Rightarrow> Inl err
         | Inr (e', left') \<Rightarrow> process_params_loop e' left' kvs)
      else Inr (e, objects_left))"

definition process_params :: "wparam \<Rightarrow> mp_kv list \<Rightarrow> errno \<Rightarrow> int \<times> wparam \<times> errno" where
  "process_params e kvs errno =
     (case process_params_loop e 3 kvs of
        Inl (err, e') \<Rightarrow> (-1, e', err)
      | Inr (e', left) \<Rightarrow>
          (if left = 0 then 0 else -1, e', if 1 AND left \<noteq> 0 then errno else PM_OK))"

definition process_webcfgparam ::
  "bool \<Rightarrow> wparam list \<Rightarrow> msgpack_object \<Rightarrow> errno \<Rightarrow> 's \<Rightarrow> int \<times> wparam list \<times> errno \<times> 's" where
  "process_webcfgparam mem pm obj errno s =
     (case obj of
        MpArray objs \<Rightarrow>
          if objs = [] then (0, pm, errno, s)
          else if \<not> mem then (-1, [], PM_OUT_OF_MEMORY, s)
          else (case decode_array process_params wparam_zero PM_INVALID_PM_OBJECT
                        (\<lambda>_. PM_INVALID_BLOB_OBJECT) objs errno of
                  (rv, es, errno') \<Rightarrow> (rv, es, errno', s))
      | _ \<Rightarrow> (0, pm, errno, s))"

definition webcfgparam_convert :: "bool \<Rightarrow> unpacker \<Rightarrow> string option \<Rightarrow> errno \<Rightarrow> wparam list option \<times> errno" where
  "webcfgparam_convert mem unpack buf errno =
     (case helper_convert mem unpack [] buf (Some ''parameters'') MSGPACK_OBJECT_ARRAY True
             (process_webcfgparam mem) errno () of
        (pm, errno', _) \<Rightarrow> (pm, errno'))"

fun strerror_table :: "(errno \<times> string) list \<Rightarrow> errno \<Rightarrow> string" where
  "strerror_table [] errnum = ''Unknown error.''"
| "strerror_table ((v, txt) # rest) errnum =
     (if v = errnum then txt else strerror_table rest errnum)"

definition webcfgparam_strerror :: "errno \<Rightarrow> string" where
  "webcfgparam_strerror errnum = strerror_table
     [(PM_OK, ''No errors.''),
      (PM_OUT_OF_MEMORY, ''Out of memory.''),
      (PM_INVALID_FIRST_ELEMENT, ''Invalid first element.''),
      (PM_INVALID_DATATYPE, ''Invalid '' @ [CHR 0x27] @ ''datatype'' @ [CHR 0x27] @ '' value.''),
      (PM_INVALID_PM_OBJECT, ''Invalid '' @ [CHR 0x27] @ ''parameters'' @ [CHR 0x27] @ '' array.''),
      (PM_INVALID_BLOB_OBJECT, ''Invalid '' @ [CHR 0x27] @ ''blob'' @ [CHR 0x27] @ '' object.'')] errnum"

section \<open>The bits still to be found\<close>

lemma clear_bit_simps [simp]:
  "clear_bit 0 3 = 2" "clear_bit 0 2 = 2" "clear_bit 0 1 = 0" "clear_bit 0 0 = 0"
  "clear_bit (Suc 0) 3 = 1" "clear_bit (Suc 0) 2 = 0" "clear_bit (Suc 0) 1 = 1"
  "clear_bit (Suc 0) 0 = 0" "clear_bit 2 3 = 3" "clear_bit 2 2 = 2" "clear_bit 2 1 = 1"
  "clear_bit 2 0 = 0"
  by (simp_all add: clear_bit_def)

lemma match_param_keys [simp]:
  "\<not> match_key ''name'' ''value''" "\<not> match_key ''value'' ''name''"
  "\<not> match_key ''dataType'' ''notify_attribute''"
  by (simp_all add: match_key_def)

text \<open>A field \<open>notify_attribute\<close> ends the loop with every bit cleared.\<close>

fun notify_kv :: "mp_kv \<Rightarrow> bool" where
  "notify_kv (MpStr key, MpPosInt u) =
     (match_key key ''notify_attribute'' \<and> \<not> match_key key ''dataType'')"
| "notify_kv _ = False"

definition params_inv :: "wparam \<Rightarrow> u8 \<Rightarrow> bool" where
  "params_inv e left \<longleftrightarrow> left \<in> {0, 1, 2, 3} \<and> (left \<in> {0, 1} \<longrightarrow> wp_name e \<noteq> None)"

lemma params_inv_clear:
  "params_inv e left \<Longrightarrow> params_inv (e\<lparr>wp_type := t\<rparr>) (clear_bit 0 left)"
  "params_inv e left \<Longrightarrow> params_inv (e\<lparr>wp_name := Some n\<rparr>) (clear_bit (Suc 0) left)"
  "params_inv e left \<Longrightarrow> params_inv (e\<lparr>wp_value := v, wp_value_size := w\<rparr>) (clear_bit 2 left)"
  by (auto simp: params_inv_def)

lemma process_params_kv_inv:
  assumes inv: "params_inv e left" and "\<not> notify_kv kv"
    and r: "process_params_kv e left kv = Inr (e', left')"
  shows "params_inv e' left'"
proof -
  obtain a b where "kv = (a, b)" by (cases kv)
  then consider (int) key u where "kv = (MpStr key, MpPosInt u)"
    | (str) key str where "kv = (MpStr key, MpStr str)"
    | (other) "process_params_kv e left kv = Inr (e, left)"
    by (cases a; cases b) (auto simp: process_params_kv_def)
  then show ?thesis
  proof cases
    case int
    with assms show ?thesis
      by (auto simp: process_params_kv_def params_inv_clear split: if_splits)
  next
    case str
    with inv r show ?thesis
      by (auto simp: process_params_kv_def params_inv_clear split: if_splits)
  qed (use inv r in simp)
qed

lemma process_params_loop_inv:
  assumes "params_inv e left" "\<forall>kv\<in>set kvs. \<not> notify_kv kv"
    and "process_params_loop e left kvs = Inr (e', left')"
  shows "params_inv e' left'"
  using assms
proof (induction kvs arbitrary: e left)
  case (Cons kv kvs)
  show ?case
  proof (cases "0 < left")
    case True
    with Cons.prems obtain e1 left1 where s: "process_params_kv e left kv = Inr (e1, left1)"
      and r: "process_params_loop e1 left1 kvs = Inr (e', left')"
      by (auto split: sum.splits)
    have "params_inv e1 left1"
      using process_params_kv_inv [OF Cons.prems(1) _ s] Cons.prems(2) by simp
    then show ?thesis using Cons.IH r Cons.prems(2) by auto
  qed (use Cons.prems in auto)
qed auto

section \<open>Properties\<close>

lemma process_params_success_inv:
  assumes "process_params wparam_zero kvs errno = (0, e, errno')"
    and "\<forall>kv\<in>set kvs. \<not> notify_kv kv"
  shows "wp_name e \<noteq> None"
proof -
  from assms(1) have "process_params_loop wparam_zero 3 kvs = Inr (e, 0)"
    by (auto simp: process_params_def split: sum.splits if_splits)
  moreover have "params_inv wparam_zero 3"
    by (simp add: params_inv_def)
  ultimately have "params_inv e 0" using assms(2) by (blast intro: process_params_loop_inv)
  then show ?thesis by (simp add: params_inv_def)
qed

text \<open>An entry \<open>process_params\<close> accepts has a name, unless the entry carries a
  \<open>notify_attribute\<close>: so the callers' unguarded \<open>strdup (pm->entries[i].name)\<close> is safe for
  every other entry.\<close>

theorem process_params_name_set:
  assumes "process_params wparam_zero kvs errno = (0, e, errno')"
    and "\<forall>kv\<in>set kvs. \<not> notify_kv kv"
  shows "wp_name e \<noteq> None"
  using assms by (rule process_params_success_inv)

theorem process_params_name_set_witness:
  "wp_name (fst (snd (process_params wparam_zero
     [(MpStr ''dataType'', MpPosInt 12), (MpStr ''name'', MpStr ''Device.X'')] 0))) \<noteq> None"
proof -
  let ?kvs = "[(MpStr ''dataType'', MpPosInt 12), (MpStr ''name'', MpStr ''Device.X'')]"
  have "process_params wparam_zero ?kvs 0 =
      (0, \<lparr>wp_name = Some ''Device.X'', wp_value = None, wp_value_size = 0, wp_type = 12\<rparr>, 0)"
    by code_simp
  note eq = this
  have "wp_name \<lparr>wp_name = Some ''Device.X'', wp_value = None, wp_value_size = 0, wp_type = 12\<rparr> \<noteq> None"
    by (rule process_params_name_set [OF eq]) (simp add: match_key_def)
  then show ?thesis unfolding eq fst_conv snd_conv .
qed

definition param_kvs :: "string \<Rightarrow> string \<Rightarrow> u16 \<Rightarrow> mp_kv list" where
  "param_kvs n v t =
     [(MpStr ''name'', MpStr n), (MpStr ''value'', MpStr v), (MpStr ''dataType'', MpPosInt (ucast t))]"

lemma unat_ucast_u16: "unat (ucast (t :: u16) :: u64) = unat t"
proof -
  have "uint (ucast t :: u64) = uint t" by (rule uint_up_ucast) (simp add: is_up)
  then show ?thesis by (simp only: unat_eq_nat_uint)
qed

lemma ucast_u16_u64: "ucast (ucast (t :: u16) :: u64) = t" "\<not> 65535 < (ucast (t :: u16) :: u64)"
proof -
  have "unat (ucast t :: u64) = unat t" by (simp add: unat_ucast_u16)
  moreover have "unat t < 65536" using unsigned_less [of t] by simp
  ultimately show "\<not> 65535 < (ucast t :: u64)" by (simp add: word_less_nat_alt)
qed (simp add: ucast_up_ucast_id is_up)

lemma distinct3:
  assumes "distinct xs" "set xs = {a, b, c}" "a \<noteq> b" "a \<noteq> c" "b \<noteq> c"
  shows "xs = [a, b, c] \<or> xs = [a, c, b] \<or> xs = [b, a, c] \<or> xs = [b, c, a] \<or>
    xs = [c, a, b] \<or> xs = [c, b, a]"
proof -
  have "length xs = card {a, b, c}" using assms by (metis distinct_card)
  then have "length xs = 3" using assms by simp
  then obtain x y z where "xs = [x, y, z]" by (auto simp: length_Suc_conv numeral_3_eq_3)
  moreover have "x \<in> {a, b, c}" "y \<in> {a, b, c}" "z \<in> {a, b, c}"
    using calculation assms(2) by auto
  ultimately show ?thesis using assms(1) by (elim insertE emptyE) simp_all
qed

text \<open>The three fields of a parameter entry, in any order: the entry is accepted
  with its name and type, but its value is kept only when the value is not the last field.
  The loop stops as soon as name and type were seen, since the value has no bit in
  \<open>objects_left = 0x03\<close>.\<close>

theorem process_params_order:
  assumes "nul_free n" and "distinct kvs" and "set kvs = set (param_kvs n v t)"
  shows "process_params wparam_zero kvs errno =
    (0, \<lparr>wp_name = Some n,
         wp_value = (if last kvs = (MpStr ''value'', MpStr v) then None else Some v),
         wp_value_size = (if last kvs = (MpStr ''value'', MpStr v) then 0 else of_nat (length v)),
         wp_type = t\<rparr>, PM_OK)"
proof -
  let ?n = "(MpStr ''name'', MpStr n)" and ?v = "(MpStr ''value'', MpStr v)"
    and ?t = "(MpStr ''dataType'', MpPosInt (ucast t))"
  have "set kvs = {?n, ?v, ?t}" using assms(3) by (simp add: param_kvs_def)
  from distinct3 [OF assms(2) this]
  have p: "kvs = [?n, ?v, ?t] \<or> kvs = [?n, ?t, ?v] \<or> kvs = [?v, ?n, ?t] \<or> kvs = [?v, ?t, ?n] \<or>
    kvs = [?t, ?n, ?v] \<or> kvs = [?t, ?v, ?n]" by simp
  have step: "process_params_kv e left (MpStr ''name'', MpStr n) =
      Inr (e\<lparr>wp_name := Some n\<rparr>, clear_bit 1 left)"
    "process_params_kv e left (MpStr ''value'', MpStr v) =
      Inr (e\<lparr>wp_value := Some v, wp_value_size := of_nat (length v)\<rparr>, clear_bit 2 left)"
    "process_params_kv e left (MpStr ''dataType'', MpPosInt (ucast t)) =
      Inr (e\<lparr>wp_type := t\<rparr>, clear_bit 0 left)" for e left
    using assms(1) by (simp_all add: process_params_kv_def ucast_u16_u64)
  from p show ?thesis
    by (elim disjE) (simp_all add: process_params_def step wparam_zero_def PM_OK_def)
qed

theorem process_params_order_witness:
  "process_params wparam_zero [(MpStr ''name'', MpStr ''Device.X''), (MpStr ''dataType'', MpPosInt (ucast (12 :: u16))),
      (MpStr ''value'', MpStr ''blob'')] 0 =
    (0, \<lparr>wp_name = Some ''Device.X'', wp_value = None, wp_value_size = 0, wp_type = 12\<rparr>, PM_OK)"
  by (subst process_params_order [where n = "''Device.X''" and v = "''blob''" and t = 12])
    (simp_all add: nul_free_def param_kvs_def insert_commute)

text \<open>The errors \<open>webcfgparam_convert\<close> reports through \<open>errno\<close>: a value of
  \<open>dataType\<close> out of range is reported as an invalid blob object, since
  \<open>process_webcfgparam\<close> overwrites the code \<open>process_params\<close> has set.\<close>

theorem webcfgparam_convert_errno:
  assumes "webcfgparam_convert mem unpack buf errno = (None, err)"
  shows "err \<in> {PM_OUT_OF_MEMORY, PM_INVALID_FIRST_ELEMENT, PM_INVALID_PM_OBJECT, PM_INVALID_BLOB_OBJECT}
    \<and> err \<noteq> PM_INVALID_DATATYPE"
proof -
  from assms obtain s' where "helper_convert mem unpack [] buf (Some ''parameters'') MSGPACK_OBJECT_ARRAY
      True (process_webcfgparam mem) errno () = (None, err, s')"
    by (auto simp: webcfgparam_convert_def split: prod.splits)
  from helper_convert_None [OF this]
  show ?thesis
  proof (elim disjE exE conjE)
    fix obj e1 rv p s2
    assume rv: "rv \<noteq> 0" and c: "process_webcfgparam mem [] obj e1 () = (rv, p, err, s2)"
    from c rv show ?thesis
      by (auto simp: process_webcfgparam_def pm_errno split: msgpack_object.splits if_splits prod.splits
          dest!: decode_array_errno)
  qed (simp_all add: pm_errno)
qed

theorem webcfgparam_convert_errno_witness:
  "snd (webcfgparam_convert True
     (\<lambda>_. Some (MpMap [(MpStr ''parameters'', MpArray [MpMap [(MpStr ''dataType'', MpPosInt 70000)]])], 9))
     (Some ''x'') 0) \<noteq> PM_INVALID_DATATYPE"
proof -
  let ?u = "\<lambda>_. Some (MpMap [(MpStr ''parameters'', MpArray [MpMap [(MpStr ''dataType'', MpPosInt 70000)]])], 9)"
  have eq: "webcfgparam_convert True ?u (Some ''x'') 0 = (None, PM_INVALID_BLOB_OBJECT)"
    by (simp add: webcfgparam_convert_def helper_convert_def process_webcfgparam_def
        process_params_def process_params_kv_def)
  have "PM_INVALID_BLOB_OBJECT \<noteq> PM_INVALID_DATATYPE"
    using webcfgparam_convert_errno [OF eq] by (rule conjunct2)
  then show ?thesis unfolding eq snd_conv .
qed

end
