(* ===== verification/Notify.thy ===== *)
theory Notify
  imports Webcfg_Prelude
begin

text \<open>
  \<open>src/src/webcfg_notify.c\<close>, and the process-wide flags of \<open>src/src/webcfg.c\<close> every
  component reads. A state record holds the file-scoped variables of one source file and
  extends the record of the file before it, so that the operations of a component run on
  the state of the whole program. \<open>mem_ok\<close> says whether \<open>malloc\<close> succeeds during an
  operation.

  Notifications: \<open>addWebConfgNotifyMsg\<close> (the producer) appends to \<open>notifyMsgQ\<close>,
  \<open>processWebConfgNotification\<close> (the consumer thread) takes the head and sends it; one
  turn of its loop is \<open>notify_step\<close>.
\<close>

section \<open>Process-wide state\<close>

record base_st =
  mem_ok :: bool

record sync_st = base_st +
  g_shutdown :: bool
  webcfgReady :: bool
  bootSyncInProgress :: bool
  maintenanceSyncInProgress :: bool
  g_supplementarySync :: int
  g_webcfg_forcedsync_needed :: int
  g_webcfg_forcedsync_started :: int
  g_cloud_forcesync_retry_needed :: int
  g_cloud_forcesync_retry_started :: int

section \<open>Error codes\<close>

datatype WEBCFG_ERROR_CODE =
    DECODE_ROOT_FAILURE | INCORRECT_BLOB_TYPE | BLOB_PARAM_VALIDATION_FAILURE
  | WEBCONFIG_DATA_EMPTY | MULTIPART_BOUNDARY_NULL | INVALID_CONTENT_TYPE
  | ADD_TO_CACHE_LIST_FAILURE | FAILED_TO_SET_BLOB | MULTIPART_CACHE_NULL
  | AKER_SUBDOC_PROCESSING_FAILED | AKER_RESPONSE_PARSE_FAILURE | INVALID_AKER_RESPONSE
  | LIBPARODUS_RECEIVE_FAILURE | COMPONENT_EVENT_PARSE_FAILURE | SUBDOC_RETRY_FAILED

fun getStatusErrorCodeAndMessage :: "WEBCFG_ERROR_CODE \<Rightarrow> u16 \<times> string" where
  "getStatusErrorCodeAndMessage DECODE_ROOT_FAILURE = (111, ''decode_root_failure'')"
| "getStatusErrorCodeAndMessage INCORRECT_BLOB_TYPE = (211, ''incorrect_blob_type'')"
| "getStatusErrorCodeAndMessage BLOB_PARAM_VALIDATION_FAILURE = (211, ''blob_param_validation_failure'')"
| "getStatusErrorCodeAndMessage WEBCONFIG_DATA_EMPTY = (211, ''webconfig_data_empty'')"
| "getStatusErrorCodeAndMessage MULTIPART_BOUNDARY_NULL = (211, ''multipart_boundary_NULL'')"
| "getStatusErrorCodeAndMessage INVALID_CONTENT_TYPE = (211, ''invalid_content_type'')"
| "getStatusErrorCodeAndMessage ADD_TO_CACHE_LIST_FAILURE = (311, ''add_to_cache_list_failure'')"
| "getStatusErrorCodeAndMessage FAILED_TO_SET_BLOB = (311, ''failed_to_set_blob'')"
| "getStatusErrorCodeAndMessage MULTIPART_CACHE_NULL = (311, ''multipart_cache_NULL'')"
| "getStatusErrorCodeAndMessage AKER_SUBDOC_PROCESSING_FAILED = (411, ''aker_subdoc_processing_failed'')"
| "getStatusErrorCodeAndMessage AKER_RESPONSE_PARSE_FAILURE = (411, ''aker_response_parse_failure'')"
| "getStatusErrorCodeAndMessage INVALID_AKER_RESPONSE = (411, ''invalid_aker_response'')"
| "getStatusErrorCodeAndMessage LIBPARODUS_RECEIVE_FAILURE = (411, ''libparodus_receive_failure'')"
| "getStatusErrorCodeAndMessage COMPONENT_EVENT_PARSE_FAILURE = (511, ''component_event_parse_failure'')"
| "getStatusErrorCodeAndMessage SUBDOC_RETRY_FAILED = (611, ''subdoc_retry_failed'')"

section \<open>The queue\<close>

record notify_params =
  nt_name :: "string option"
  nt_application_status :: "string option"
  nt_timeout :: u32
  nt_error_details :: "string option"
  nt_error_code :: u16
  nt_version :: "string option"
  nt_transaction_uuid :: "string option"
  nt_type :: "string option"
  nt_response_code :: int

record notify_st = sync_st +
  notifyMsgQ :: "notify_params list"

definition notify_version :: "u32 \<Rightarrow> string option \<Rightarrow> string" where
  "notify_version version root_string =
     (case root_string of
        Some r \<Rightarrow> if version = 0 then fit 32 r else fit 32 (dec (unat version))
      | None \<Rightarrow> fit 32 (dec (unat version)))"

definition notify_msg ::
  "string option \<Rightarrow> u32 \<Rightarrow> string option \<Rightarrow> string option \<Rightarrow> string option \<Rightarrow> u32 \<Rightarrow> string option \<Rightarrow>
   u16 \<Rightarrow> string option \<Rightarrow> int \<Rightarrow> notify_params" where
  "notify_msg docname version status error_details transaction_uuid timeout type error_code root_string response_code =
     \<lparr>nt_name = docname,
      nt_application_status = status,
      nt_timeout = timeout,
      nt_error_details = error_details,
      nt_error_code = error_code,
      nt_version = (let v = notify_version version root_string in if v = [] then None else Some v),
      nt_transaction_uuid = transaction_uuid,
      nt_type = type,
      nt_response_code = response_code\<rparr>"

definition notify_enqueue :: "notify_params \<Rightarrow> 'z notify_st_scheme \<Rightarrow> 'z notify_st_scheme" where
  "notify_enqueue msg s = s\<lparr>notifyMsgQ := notifyMsgQ s @ [msg]\<rparr>"

definition addWebConfgNotifyMsg ::
  "string option \<Rightarrow> u32 \<Rightarrow> string option \<Rightarrow> string option \<Rightarrow> string option \<Rightarrow> u32 \<Rightarrow> string option \<Rightarrow>
   u16 \<Rightarrow> string option \<Rightarrow> int \<Rightarrow> 'z notify_st_scheme \<Rightarrow> 'z notify_st_scheme" where
  "addWebConfgNotifyMsg docname version status error_details transaction_uuid timeout type error_code root_string response_code s =
     (if mem_ok s
      then notify_enqueue (notify_msg docname version status error_details transaction_uuid timeout
             type error_code root_string response_code) s
      else s)"

definition notify_dequeue :: "'z notify_st_scheme \<Rightarrow> (notify_params \<times> 'z notify_st_scheme) option" where
  "notify_dequeue s =
     (case notifyMsgQ s of [] \<Rightarrow> None | msg # q \<Rightarrow> Some (msg, s\<lparr>notifyMsgQ := q\<rparr>))"

section \<open>The consumer\<close>

text \<open>What \<open>%s\<close> prints for a pointer that may be NULL.\<close>

definition printf_s :: "string option \<Rightarrow> string" where
  "printf_s p = (case p of None \<Rightarrow> ''(null)'' | Some s \<Rightarrow> s)"

text \<open>The fields added to the cJSON object, in order; cJSON itself is not in the
  repository.\<close>

datatype json_val = JString string | JNumber int

definition or_default :: "string option \<Rightarrow> string \<Rightarrow> string" where
  "or_default v d = (case v of Some x \<Rightarrow> if x \<noteq> [] then x else d | None \<Rightarrow> d)"

definition notify_payload :: "string \<Rightarrow> notify_params \<Rightarrow> (string \<times> json_val) list" where
  "notify_payload device_id msg =
     [(''device_id'', JString device_id)]
     @ (case nt_name msg of None \<Rightarrow> [] | Some n \<Rightarrow> [(''namespace'', JString (or_default (Some n) ''unknown''))])
     @ (case nt_application_status msg of None \<Rightarrow> [] | Some a \<Rightarrow> [(''application_status'', JString a)])
     @ (if nt_timeout msg \<noteq> 0 then [(''timeout'', JNumber (uint (nt_timeout msg)))] else [])
     @ (if nt_error_code msg \<noteq> 0 then [(''error_code'', JNumber (uint (nt_error_code msg)))] else [])
     @ (case nt_error_details msg of
          None \<Rightarrow> []
        | Some e \<Rightarrow> if e \<noteq> ''none'' then [(''error_details'', JString e)] else [])
     @ (if nt_response_code msg \<noteq> 200 then [(''http_status_code'', JNumber (nt_response_code msg))] else [])
     @ [(''transaction_uuid'', JString (or_default (nt_transaction_uuid msg) ''unknown'')),
        (''version'', JString (or_default (nt_version msg) ''0''))]"

definition notify_dest :: "string \<Rightarrow> notify_params \<Rightarrow> string" where
  "notify_dest device_id msg =
     (if nt_response_code msg = 200
      then fit 512 (''event:subdoc-report/'' @ printf_s (nt_name msg) @ ''/'' @ device_id @ ''/'' @ printf_s (nt_type msg))
      else fit 512 (''event:rootdoc-report/'' @ device_id @ ''/'' @ printf_s (nt_type msg)))"

datatype notify_action =
    SendNotification "(string \<times> json_val) list" string string  \<comment> \<open>payload, source, dest\<close>
  | NoDeviceMac
  | NotifyWait
  | NotifyExit

text \<open>One turn of the loop of \<open>processWebConfgNotification\<close>; \<open>mac\<close> is what
  \<open>get_deviceMAC ()\<close> returns.\<close>

definition notify_step :: "string option \<Rightarrow> 'z notify_st_scheme \<Rightarrow> notify_action \<times> 'z notify_st_scheme" where
  "notify_step mac s =
     (case notify_dequeue s of
        Some (msg, s') \<Rightarrow>
          if mac = Some [] then (NoDeviceMac, s')
          else (let device_id = fit 32 (''mac:'' @ printf_s mac)
                in (SendNotification (notify_payload device_id msg) device_id (notify_dest device_id msg), s'))
      | None \<Rightarrow> if g_shutdown s then (NotifyExit, s) else (NotifyWait, s))"

interpretation nq: msg_queue
  "notify_enqueue :: notify_params \<Rightarrow> 'z notify_st_scheme \<Rightarrow> 'z notify_st_scheme" notify_dequeue notifyMsgQ
  by unfold_locales (auto simp: notify_enqueue_def notify_dequeue_def split: list.splits)

section \<open>Frame facts\<close>

lemma addWebConfgNotifyMsg_frame [frame_simps, simp]:
  "mem_ok (addWebConfgNotifyMsg d v st e t to ty c r rc s) = mem_ok s"
  "g_supplementarySync (addWebConfgNotifyMsg d v st e t to ty c r rc s) = g_supplementarySync s"
  "g_shutdown (addWebConfgNotifyMsg d v st e t to ty c r rc s) = g_shutdown s"
  "notify_st.more (addWebConfgNotifyMsg d v st e t to ty c r rc s) = notify_st.more s"
  by (simp_all add: addWebConfgNotifyMsg_def notify_enqueue_def)

lemma addWebConfgNotifyMsg_queue:
  "notifyMsgQ (addWebConfgNotifyMsg d v st e t to ty c r rc s) =
     notifyMsgQ s @ (if mem_ok s then [notify_msg d v st e t to ty c r rc] else [])"
  by (simp add: addWebConfgNotifyMsg_def notify_enqueue_def)

section \<open>An order on the error codes\<close>

text \<open>The order of the C enumeration; the numeric codes sent to the cloud follow it.\<close>

fun error_index :: "WEBCFG_ERROR_CODE \<Rightarrow> nat" where
  "error_index DECODE_ROOT_FAILURE = 0"
| "error_index INCORRECT_BLOB_TYPE = 1"
| "error_index BLOB_PARAM_VALIDATION_FAILURE = 2"
| "error_index WEBCONFIG_DATA_EMPTY = 3"
| "error_index MULTIPART_BOUNDARY_NULL = 4"
| "error_index INVALID_CONTENT_TYPE = 5"
| "error_index ADD_TO_CACHE_LIST_FAILURE = 6"
| "error_index FAILED_TO_SET_BLOB = 7"
| "error_index MULTIPART_CACHE_NULL = 8"
| "error_index AKER_SUBDOC_PROCESSING_FAILED = 9"
| "error_index AKER_RESPONSE_PARSE_FAILURE = 10"
| "error_index INVALID_AKER_RESPONSE = 11"
| "error_index LIBPARODUS_RECEIVE_FAILURE = 12"
| "error_index COMPONENT_EVENT_PARSE_FAILURE = 13"
| "error_index SUBDOC_RETRY_FAILED = 14"

lemma error_index_inj: "error_index a = error_index b \<longleftrightarrow> a = b"
  by (cases a; cases b) simp_all

instantiation WEBCFG_ERROR_CODE :: linorder
begin

definition less_eq_WEBCFG_ERROR_CODE :: "WEBCFG_ERROR_CODE \<Rightarrow> WEBCFG_ERROR_CODE \<Rightarrow> bool" where
  "less_eq_WEBCFG_ERROR_CODE a b \<longleftrightarrow> error_index a \<le> error_index b"

definition less_WEBCFG_ERROR_CODE :: "WEBCFG_ERROR_CODE \<Rightarrow> WEBCFG_ERROR_CODE \<Rightarrow> bool" where
  "less_WEBCFG_ERROR_CODE a b \<longleftrightarrow> error_index a < error_index b"

instance
  by standard (auto simp: less_eq_WEBCFG_ERROR_CODE_def less_WEBCFG_ERROR_CODE_def error_index_inj)

end

lemma error_code_mono: "mono (\<lambda>c. fst (getStatusErrorCodeAndMessage c))"
proof (rule monoI)
  fix a b :: WEBCFG_ERROR_CODE
  assume "a \<le> b"
  then show "fst (getStatusErrorCodeAndMessage a) \<le> fst (getStatusErrorCodeAndMessage b)"
    by (cases a; cases b) (simp_all add: less_eq_WEBCFG_ERROR_CODE_def)
qed

lemma error_message_inj: "inj (\<lambda>c. snd (getStatusErrorCodeAndMessage c))"
proof (rule injI)
  fix a b
  assume "snd (getStatusErrorCodeAndMessage a) = snd (getStatusErrorCodeAndMessage b)"
  then show "a = b" by (cases a; cases b) simp_all
qed

section \<open>Properties\<close>

text \<open>The notification thread sends the messages in the order the producers added
  them, each once: draining the queue after any additions gives what was pending, then
  the additions.\<close>

theorem notify_queue_fifo:
  fixes s :: "'z notify_st_scheme"
  shows "drain notify_dequeue (length (notifyMsgQ s) + length msgs) (fold notify_enqueue msgs s) =
    notifyMsgQ s @ msgs"
  by (rule nq.fifo)

text \<open>The error codes sent with a failure never decrease along the enumeration, and the
  message text alone tells every failure from the others.\<close>

theorem error_codes_ordered:
  "mono (\<lambda>c. fst (getStatusErrorCodeAndMessage c)) \<and> inj (\<lambda>c. snd (getStatusErrorCodeAndMessage c))"
  using error_code_mono error_message_inj by simp

text \<open>Every notification carries a version: the root string when the version is 0 and a
  root string is known, the decimal version otherwise; the report goes to the topic of
  the subdocument for HTTP status 200 and to the root topic otherwise. A message that is
  dequeued while the MAC address is empty is dropped.\<close>

theorem notify_step_message:
  fixes s :: "'z notify_st_scheme"
  assumes "notifyMsgQ s = []" and "mem_ok s"
  shows "notify_step mac (addWebConfgNotifyMsg d v st e t to ty c r rc s) =
    (if mac = Some [] then (NoDeviceMac, s)
     else (let device_id = fit 32 (''mac:'' @ printf_s mac); m = notify_msg d v st e t to ty c r rc
           in (SendNotification (notify_payload device_id m) device_id
                 (if rc = 200 then fit 512 (''event:subdoc-report/'' @ printf_s d @ ''/'' @ device_id @ ''/'' @ printf_s ty)
                  else fit 512 (''event:rootdoc-report/'' @ device_id @ ''/'' @ printf_s ty)), s)))
    \<and> last (notify_payload device_id (notify_msg d v st e t to ty c r rc)) =
        (''version'', JString (or_default (Some (notify_version v r)) ''0''))"
proof -
  have q: "notify_dequeue (addWebConfgNotifyMsg d v st e t to ty c r rc s) =
      Some (notify_msg d v st e t to ty c r rc, s)"
    using assms by (simp add: addWebConfgNotifyMsg_def notify_enqueue_def notify_dequeue_def)
  have "notify_dest i (notify_msg d v st e t to ty c r rc) =
      (if rc = 200 then fit 512 (''event:subdoc-report/'' @ printf_s d @ ''/'' @ i @ ''/'' @ printf_s ty)
       else fit 512 (''event:rootdoc-report/'' @ i @ ''/'' @ printf_s ty))" for i
    by (simp add: notify_dest_def notify_msg_def)
  moreover have "last (notify_payload device_id (notify_msg d v st e t to ty c r rc)) =
      (''version'', JString (or_default (Some (notify_version v r)) ''0''))"
    by (simp add: notify_payload_def notify_msg_def or_default_def Let_def)
  ultimately show ?thesis by (simp add: notify_step_def q Let_def)
qed

definition notify_st0 :: notify_st where
  "notify_st0 = \<lparr>mem_ok = True, g_shutdown = False, webcfgReady = True, bootSyncInProgress = False,
     maintenanceSyncInProgress = False, g_supplementarySync = 0, g_webcfg_forcedsync_needed = 0,
     g_webcfg_forcedsync_started = 0, g_cloud_forcesync_retry_needed = 0,
     g_cloud_forcesync_retry_started = 0, notifyMsgQ = []\<rparr>"

theorem notify_step_message_witness:
  "fst (notify_step (Some []) (addWebConfgNotifyMsg (Some ''wan'') 5 None None None 0 None 0 None 200 notify_st0)) =
     NoDeviceMac"
proof -
  have "notifyMsgQ notify_st0 = []" and "mem_ok notify_st0" by (simp_all add: notify_st0_def)
  from notify_step_message [OF this, of "Some []"] show ?thesis by simp
qed

end
