(* ===== verification/Timer.thy ===== *)
theory Timer
  imports Notify
begin

text \<open>
  \<open>src/src/webcfg_timer.c\<close>: the maintenance window (a random second of the day inside the
  firmware upgrade window at which supplementary documents are synchronised) and the
  retry timer of failed documents. The clock, the firmware window settings, the random
  key and the time zone are inputs; \<open>long\<close> is \<open>int\<close>, a value stored in a C \<open>int\<close>
  goes through \<open>c_int\<close>.
\<close>

record timer_st = notify_st +
  g_retry_timer :: int
  g_retry_timestamp :: int
  g_maintenance_time :: int

definition MIN_MAINTENANCE_TIME :: int where "MIN_MAINTENANCE_TIME = 3600"
definition MAX_MAINTENANCE_TIME :: int where "MAX_MAINTENANCE_TIME = 14400"
definition MAX_RETRY_TIMEOUT :: int where "MAX_RETRY_TIMEOUT = 900"

text \<open>Conversion to a 32-bit \<open>int\<close>.\<close>

definition c_int :: "int \<Rightarrow> int" where
  "c_int x = (x + 2 ^ 31) mod 2 ^ 32 - 2 ^ 31"

text \<open>The C operator \<open>%\<close> for a non-negative left operand; \<open>None\<close>: division by zero.\<close>

definition c_rem :: "int \<Rightarrow> int \<Rightarrow> int option" where
  "c_rem a b = (if b = 0 then None else Some (a mod \<bar>b\<bar>))"

text \<open>\<open>atoi\<close>: \<open>strtol (s, NULL, 10)\<close>, saturated at 64 bits, converted to \<open>int\<close>.\<close>

definition atoi :: "string \<Rightarrow> int" where
  "atoi s =
     (let (neg, s1) = strtoul_sign (dropWhile isspace s);
          v = int (read_digits 10 s1);
          w = (if neg then max (- v) (- (2 ^ 63)) else min v (2 ^ 63 - 1))
      in c_int w)"

text \<open>\<open>localtime\<close> with the offset \<open>tz t\<close> of local time at \<open>t\<close>: hour, minute, second.\<close>

definition localtime :: "(int \<Rightarrow> int) \<Rightarrow> int \<Rightarrow> int \<times> int \<times> int" where
  "localtime tz t =
     (let d = (t + tz t) mod 86400 in (d div 3600, d mod 3600 div 60, d mod 60))"

definition getTimeInSeconds :: "(int \<Rightarrow> int) \<Rightarrow> int \<Rightarrow> int" where
  "getTimeInSeconds tz time =
     (let (tm_hour, tm_min, tm_sec) = localtime tz time
      in tm_hour * 60 * 60 + tm_min * 60 + tm_sec)"

definition set_global_maintenance_time :: "int \<Rightarrow> 'z timer_st_scheme \<Rightarrow> 'z timer_st_scheme" where
  "set_global_maintenance_time value s = s\<lparr>g_maintenance_time := value\<rparr>"

definition set_retry_timer :: "int \<Rightarrow> 'z timer_st_scheme \<Rightarrow> 'z timer_st_scheme" where
  "set_retry_timer value s = s\<lparr>g_retry_timer := value\<rparr>"

definition set_global_retry_timestamp :: "int \<Rightarrow> 'z timer_st_scheme \<Rightarrow> 'z timer_st_scheme" where
  "set_global_retry_timestamp value s = s\<lparr>g_retry_timestamp := value\<rparr>"

section \<open>The maintenance window\<close>

text \<open>The window \<open>initMaintenanceTimer\<close> works with: start and end in seconds of the day, the
  start on the day before when the window spans midnight.\<close>

definition maintenance_window :: "string option \<Rightarrow> string option \<Rightarrow> int \<times> int" where
  "maintenance_window upgrade_start upgrade_end =
     (let fw_start = (case upgrade_start of Some s \<Rightarrow> atoi s | None \<Rightarrow> MIN_MAINTENANCE_TIME);
          fw_end = (case upgrade_end of Some s \<Rightarrow> atoi s | None \<Rightarrow> MAX_MAINTENANCE_TIME);
          (st, en) = (if fw_start = fw_end then (MIN_MAINTENANCE_TIME, MAX_MAINTENANCE_TIME)
                      else (fw_start, fw_end))
      in if st > en then (st - 86400, en) else (st, en))"

definition initMaintenanceTimer ::
  "string option \<Rightarrow> string option \<Rightarrow> u16 \<Rightarrow> 'z timer_st_scheme \<Rightarrow> 'z timer_st_scheme option" where
  "initMaintenanceTimer upgrade_start upgrade_end random_key s =
     (let (st, en) = maintenance_window upgrade_start upgrade_end
      in do {
        r \<leftarrow> c_rem (uint random_key) (en - st + 1);
        let time_val = r + st;
        let time_val = (if time_val \<le> 0 then time_val + 86400 else time_val);
        Some (set_global_maintenance_time time_val s)
      })"

definition checkMaintenanceTimer ::
  "(int \<Rightarrow> int) \<Rightarrow> int \<Rightarrow> int \<Rightarrow> 'z timer_st_scheme \<Rightarrow> int \<times> 'z timer_st_scheme" where
  "checkMaintenanceTimer tz now tmOffset s =
     (let cur_time = now + tmOffset; cur_time_in_sec = getTimeInSeconds tz cur_time
      in if cur_time_in_sec \<ge> g_maintenance_time s
         then (1, s\<lparr>g_supplementarySync := 1\<rparr>)
         else (0, s))"

definition getMaintenanceSyncSeconds ::
  "(int \<Rightarrow> int) \<Rightarrow> int \<Rightarrow> int \<Rightarrow> int \<Rightarrow> 'z timer_st_scheme \<Rightarrow> int" where
  "getMaintenanceSyncSeconds tz now tmOffset maintenance_count s =
     (let current_time_in_sec = getTimeInSeconds tz (now + tmOffset);
          maintenance_secs = g_maintenance_time s - current_time_in_sec
      in c_int (if maintenance_secs < 0 \<or> maintenance_count = 1
                then (let sec_to_12 = 86400 - current_time_in_sec in sec_to_12 + g_maintenance_time s)
                else maintenance_secs))"

section \<open>The retry timer\<close>

definition retrySyncSeconds :: "(int \<Rightarrow> int) \<Rightarrow> int \<Rightarrow> 'z timer_st_scheme \<Rightarrow> int" where
  "retrySyncSeconds tz now s =
     (let retry_secs = g_retry_timestamp s - getTimeInSeconds tz now
      in c_int (if retry_secs < 0 then 0 else retry_secs))"

definition updateRetryTimeDiff ::
  "(int \<Rightarrow> int) \<Rightarrow> int \<Rightarrow> int \<Rightarrow> 'z timer_st_scheme \<Rightarrow> int \<times> 'z timer_st_scheme" where
  "updateRetryTimeDiff tz now expiry_time s =
     (let time_diff = c_int (expiry_time - now);
          s1 = (if g_retry_timer s > time_diff
                then set_global_retry_timestamp (getTimeInSeconds tz expiry_time) (set_retry_timer time_diff s)
                else s);
          s2 = (if g_retry_timestamp s1 = 0
                then set_global_retry_timestamp (getTimeInSeconds tz (now + 900)) s1
                else s1)
      in (time_diff, s2))"

definition getRetryExpiryTimeout :: "int \<Rightarrow> int" where
  "getRetryExpiryTimeout now = now + MAX_RETRY_TIMEOUT"

definition checkRetryTimer :: "int \<Rightarrow> int \<Rightarrow> bool" where
  "checkRetryTimer now timestamp \<longleftrightarrow> now \<ge> timestamp"

section \<open>Facts\<close>

lemma c_int_id: "- (2 ^ 31) \<le> x \<Longrightarrow> x < 2 ^ 31 \<Longrightarrow> c_int x = x"
  by (simp add: c_int_def)

lemma c_int_range: "- (2 ^ 31) \<le> c_int x \<and> c_int x < 2 ^ 31"
  using pos_mod_bound [of "2 ^ 32" "x + 2 ^ 31"] pos_mod_sign [of "2 ^ 32" "x + 2 ^ 31"]
  by (simp add: c_int_def)

lemma hms_seconds: "(d div 3600) * 60 * 60 + (d mod 3600 div 60) * 60 + d mod 60 = (d :: int)"
proof -
  have "d = 3600 * (d div 3600) + d mod 3600" by simp
  moreover have "d mod 3600 = 60 * (d mod 3600 div 60) + d mod 3600 mod 60" by simp
  moreover have "d mod 3600 mod 60 = d mod 60" by (simp add: mod_mod_cancel)
  ultimately show ?thesis by linarith
qed

lemma getTimeInSeconds_eq: "getTimeInSeconds tz t = (t + tz t) mod 86400"
  unfolding getTimeInSeconds_def localtime_def Let_def prod.case by (rule hms_seconds)

lemma getTimeInSeconds_range: "0 \<le> getTimeInSeconds tz t \<and> getTimeInSeconds tz t < 86400"
  by (simp add: getTimeInSeconds_eq)

lemma maintenance_window_ordered:
  assumes "maintenance_window a b = (st, en)"
    and "\<forall>x. a = Some x \<longrightarrow> 0 \<le> atoi x \<and> atoi x \<le> 86400"
    and "\<forall>x. b = Some x \<longrightarrow> 0 \<le> atoi x \<and> atoi x \<le> 86400"
  shows "st \<le> en \<and> - 86400 \<le> st \<and> en \<le> 86400 \<and> en - st \<le> 86400"
  using assms
  by (auto simp: maintenance_window_def Let_def MIN_MAINTENANCE_TIME_def MAX_MAINTENANCE_TIME_def
      split: option.splits if_splits)

lemma timer_frame [frame_simps, simp]:
  "mem_ok (set_retry_timer v s) = mem_ok s" "mem_ok (set_global_retry_timestamp v s) = mem_ok s"
  "timer_st.more (set_retry_timer v s) = timer_st.more s"
  "timer_st.more (set_global_retry_timestamp v s) = timer_st.more s"
  "timer_st.more (snd (updateRetryTimeDiff tz now e s)) = timer_st.more s"
  "mem_ok (snd (updateRetryTimeDiff tz now e s)) = mem_ok s"
  "notifyMsgQ (snd (updateRetryTimeDiff tz now e s)) = notifyMsgQ s"
  "g_supplementarySync (snd (updateRetryTimeDiff tz now e s)) = g_supplementarySync s"
  by (simp_all add: set_retry_timer_def set_global_retry_timestamp_def updateRetryTimeDiff_def Let_def)

lemma updateRetryTimeDiff_timer:
  "g_retry_timer (snd (updateRetryTimeDiff tz now e s)) = min (g_retry_timer s) (c_int (e - now))"
  by (simp add: updateRetryTimeDiff_def Let_def set_retry_timer_def set_global_retry_timestamp_def min_def)

section \<open>Properties\<close>

text \<open>C38: \<open>initMaintenanceTimer\<close> returns (its remainder never divides by zero) and sets a
  time of the day \<open>0 < t \<le> 86400\<close> that lies in the window, the window read modulo one
  day, for every firmware window given in seconds of the day, equal or crossing midnight
  included.\<close>

theorem initMaintenanceTimer_in_window:
  assumes "\<forall>x. a = Some x \<longrightarrow> 0 \<le> atoi x \<and> atoi x \<le> 86400"
    and "\<forall>x. b = Some x \<longrightarrow> 0 \<le> atoi x \<and> atoi x \<le> 86400"
  shows "\<exists>s' t st en. initMaintenanceTimer a b rnd s = Some s' \<and> maintenance_window a b = (st, en)
    \<and> st \<le> t \<and> t \<le> en \<and> g_maintenance_time s' = (if t \<le> 0 then t + 86400 else t)
    \<and> 0 \<le> g_maintenance_time s' \<and> g_maintenance_time s' \<le> 86400"
proof -
  obtain st en where w: "maintenance_window a b = (st, en)" by (metis surj_pair)
  note o = maintenance_window_ordered [OF w assms]
  define t where "t = uint rnd mod (en - st + 1) + st"
  have abs: "\<bar>en - st + 1\<bar> = en - st + 1" and nz: "en - st + 1 \<noteq> 0" using o by auto
  have "0 < en - st + 1" using o by simp
  then have "0 \<le> uint rnd mod (en - st + 1)" "uint rnd mod (en - st + 1) < en - st + 1"
    by (rule pos_mod_sign, rule pos_mod_bound)
  then have r: "st \<le> t" "t \<le> en" by (auto simp: t_def)
  have "initMaintenanceTimer a b rnd s =
      Some (set_global_maintenance_time (if t \<le> 0 then t + 86400 else t) s)"
    by (simp add: initMaintenanceTimer_def w c_rem_def nz abs t_def Let_def)
  let ?s = "set_global_maintenance_time (if t \<le> 0 then t + 86400 else t) s"
  have i: "initMaintenanceTimer a b rnd s = Some ?s" by fact
  have g: "g_maintenance_time ?s = (if t \<le> 0 then t + 86400 else t)"
    by (simp add: set_global_maintenance_time_def)
  then have "0 \<le> g_maintenance_time ?s" "g_maintenance_time ?s \<le> 86400" using r o by auto
  with i w r g show ?thesis by blast
qed

definition timer_st0 :: timer_st where
  "timer_st0 = notify_st.extend notify_st0 \<lparr>g_retry_timer = 900, g_retry_timestamp = 0, g_maintenance_time = 0\<rparr>"

theorem initMaintenanceTimer_in_window_witness:
  "\<exists>s'. initMaintenanceTimer (Some ''82800'') (Some ''7200'') 500 timer_st0 = Some s' \<and>
     0 \<le> g_maintenance_time s' \<and> g_maintenance_time s' \<le> 86400"
proof -
  have "atoi ''82800'' = 82800" "atoi ''7200'' = 7200"
    by (simp_all add: atoi_def read_digits_def digit_val_def isspace_def strtoul_sign_def c_int_def)
  then have "\<forall>x. Some ''82800'' = Some x \<longrightarrow> 0 \<le> atoi x \<and> atoi x \<le> 86400"
    "\<forall>x. Some ''7200'' = Some x \<longrightarrow> 0 \<le> atoi x \<and> atoi x \<le> 86400" by simp_all
  from initMaintenanceTimer_in_window [OF this, of 500 timer_st0] show ?thesis by blast
qed

text \<open>The wait \<open>getMaintenanceSyncSeconds\<close> computes ends exactly at the maintenance time of
  the day: it is never negative, is at most two days, and leads to a moment whose second
  of the day is the maintenance time; with a sync already done today it is past midnight.\<close>

theorem getMaintenanceSyncSeconds_hits:
  assumes "0 \<le> g_maintenance_time s" "g_maintenance_time s \<le> 86400"
  shows "0 \<le> getMaintenanceSyncSeconds tz now off cnt s
    \<and> getMaintenanceSyncSeconds tz now off cnt s \<le> 172800
    \<and> (getTimeInSeconds tz (now + off) + getMaintenanceSyncSeconds tz now off cnt s) mod 86400
        = g_maintenance_time s mod 86400
    \<and> (cnt = 1 \<longrightarrow> 86400 \<le> getTimeInSeconds tz (now + off) + getMaintenanceSyncSeconds tz now off cnt s)"
proof -
  let ?c = "getTimeInSeconds tz (now + off)" and ?m = "g_maintenance_time s"
  have c: "0 \<le> ?c" "?c < 86400" using getTimeInSeconds_range by auto
  show ?thesis
  proof (cases "?m - ?c < 0 \<or> cnt = 1")
    case True
    then have "getMaintenanceSyncSeconds tz now off cnt s = c_int (86400 - ?c + ?m)"
      by (simp add: getMaintenanceSyncSeconds_def Let_def)
    moreover have "c_int (86400 - ?c + ?m) = 86400 - ?c + ?m"
      using c assms by (intro c_int_id) auto
    ultimately show ?thesis using c assms by auto
  next
    case False
    then have "getMaintenanceSyncSeconds tz now off cnt s = c_int (?m - ?c)"
      by (simp add: getMaintenanceSyncSeconds_def Let_def)
    moreover have "c_int (?m - ?c) = ?m - ?c"
      using c assms by (intro c_int_id) auto
    ultimately show ?thesis using c assms False by auto
  qed
qed

theorem getMaintenanceSyncSeconds_hits_witness:
  "0 \<le> getMaintenanceSyncSeconds (\<lambda>_. 0) 1000 0 1 (timer_st0\<lparr>g_maintenance_time := 7200\<rparr>)"
proof -
  have "0 \<le> g_maintenance_time (timer_st0\<lparr>g_maintenance_time := 7200\<rparr>)"
    "g_maintenance_time (timer_st0\<lparr>g_maintenance_time := 7200\<rparr>) \<le> 86400" by simp_all
  from getMaintenanceSyncSeconds_hits [OF this, of "\<lambda>_. 0" 1000 0 1] show ?thesis by (rule conjunct1)
qed

text \<open>After any list of expiry times the retry timer is the smallest of its start value
  and the times left, so the earliest of the failed documents decides the wait.\<close>

theorem updateRetryTimeDiff_min:
  "g_retry_timer (fold (\<lambda>e s. snd (updateRetryTimeDiff tz now e s)) es s) =
   Min (insert (g_retry_timer s) ((\<lambda>e. c_int (e - now)) ` set es))"
proof (induction es arbitrary: s)
  case (Cons e es)
  let ?A = "(\<lambda>e. c_int (e - now)) ` set es" and ?d = "c_int (e - now)"
  have "Min (insert (min (g_retry_timer s) ?d) ?A) = Min (insert (g_retry_timer s) (insert ?d ?A))"
    by (cases "?A = {}") (simp_all add: min.assoc)
  then show ?case by (simp only: fold.simps o_apply Cons.IH updateRetryTimeDiff_timer list.set image_insert)
qed simp

text \<open>The wait computed from the retry timestamp is exact when the expiry time is on the
  same local day, and 0 when the expiry falls past midnight, although the expiry time is
  still in the future: the timestamp is kept as a second of the day.\<close>

theorem retrySyncSeconds_midnight:
  assumes "g_retry_timestamp s = getTimeInSeconds tz expiry" "now \<le> expiry"
    and "tz expiry = tz now" "expiry - now < 86400"
  shows "retrySyncSeconds tz now s =
    (if (now + tz now) div 86400 = (expiry + tz expiry) div 86400 then expiry - now else 0)"
proof -
  define a where "a = now + tz now"
  define b where "b = expiry + tz expiry"
  have ab: "a \<le> b" "b - a < 86400" "b - a = expiry - now"
    using assms(2-4) by (auto simp: a_def b_def)
  have g: "g_retry_timestamp s - getTimeInSeconds tz now = b mod 86400 - a mod 86400"
    using assms(1) by (simp add: getTimeInSeconds_eq a_def b_def)
  have sp: "a = 86400 * (a div 86400) + a mod 86400" "b = 86400 * (b div 86400) + b mod 86400"
    by simp_all
  have m: "0 \<le> a mod 86400" "a mod 86400 < 86400" "0 \<le> b mod 86400" "b mod 86400 < 86400"
    by simp_all
  show ?thesis
  proof (cases "a div 86400 = b div 86400")
    case True
    then have d: "b mod 86400 - a mod 86400 = b - a" using sp by linarith
    then have "retrySyncSeconds tz now s = c_int (b - a)"
      using ab(1) by (simp add: retrySyncSeconds_def g Let_def)
    moreover have "c_int (b - a) = b - a" using ab by (intro c_int_id) auto
    ultimately show ?thesis using True ab(3) by (simp add: a_def b_def)
  next
    case False
    have "a div 86400 \<le> b div 86400" using ab(1) by (rule zdiv_mono1) simp
    with False have "a div 86400 + 1 \<le> b div 86400" by simp
    then have "b mod 86400 - a mod 86400 \<le> 0" using sp m ab(2) by linarith
    then have "(if b mod 86400 - a mod 86400 < 0 then 0 else b mod 86400 - a mod 86400) = 0" by simp
    then have "retrySyncSeconds tz now s = 0"
      by (simp only: retrySyncSeconds_def g Let_def) (simp add: c_int_def)
    then show ?thesis using False by (simp only: a_def [symmetric] b_def [symmetric] if_False)
  qed
qed

theorem retrySyncSeconds_midnight_witness:
  "retrySyncSeconds (\<lambda>_. 0) 86000 (timer_st0\<lparr>g_retry_timestamp := 500\<rparr>) = 0"
proof -
  have "g_retry_timestamp (timer_st0\<lparr>g_retry_timestamp := 500\<rparr>) = getTimeInSeconds (\<lambda>_. 0) 86900"
    by (simp add: getTimeInSeconds_eq)
  then have "retrySyncSeconds (\<lambda>_. 0) 86000 (timer_st0\<lparr>g_retry_timestamp := 500\<rparr>) =
      (if (86000 + 0) div 86400 = (86900 + 0) div (86400 :: int) then 86900 - 86000 else 0)"
    by (rule retrySyncSeconds_midnight) simp_all
  then show ?thesis by simp
qed

end
