(* ===== verification/Metadata.thy ===== *)
theory Metadata
  imports Timer
begin

text \<open>
  \<open>src/src/webcfg_metadata.c\<close> (built with \<open>WEBCONFIG_BIN_SUPPORT\<close>): which subdocuments
  the device supports, which of them are delivered over rbus and which are supplementary,
  read from the properties file. \<open>initWebcfgProperties\<close> is given the contents of the
  file (\<open>None\<close>: it cannot be opened). The result \<open>None\<close> marks a read past the end of
  a string or through a NULL pointer.
\<close>

record SubDocSupportMap =
  sd_name :: string
  sd_support :: string
  sd_rbus_listener :: string
  sd_dest :: string

record meta_st = timer_st +
  supported_bits :: "string option"
  supported_version :: "string option"
  supplementary_docs :: "string option"
  g_sdInfo :: "SubDocSupportMap list"
  g_spInfo :: "string list"

section \<open>Reading the properties file\<close>

text \<open>\<open>fgets (str, n, fp)\<close>: a line with its newline, at most \<open>n - 1\<close> bytes; the rest.\<close>

definition fgets :: "nat \<Rightarrow> string \<Rightarrow> string \<times> string" where
  "fgets n s =
     (let line = takeWhile (\<lambda>c. c \<noteq> CHR 0x0A) s;
          line = (if length line < length s then line @ [CHR 0x0A] else line);
          line = take (n - 1) line
      in (line, drop (length line) s))"

function fgets_lines :: "nat \<Rightarrow> string \<Rightarrow> string list" where
  "fgets_lines n s =
     (if s = [] \<or> n \<le> 1 then []
      else (let (line, rest) = fgets n s in line # fgets_lines n rest))"
  by pat_completeness auto
termination
proof (relation "measure (\<lambda>(n, s). length s)")
  fix n s x line rest
  assume "\<not> (s = [] \<or> n \<le> 1)" and "x = fgets n s" and "(line, rest) = x"
  then show "((n, rest), (n, s)) \<in> measure (\<lambda>(n, s). length s)"
    by (cases s) (auto simp: fgets_def Let_def)
qed simp

declare fgets_lines.simps [simp del]

text \<open>A key of the file: the value behind it, without the last byte (the newline), and the
  buffer after the store \<open>value[strlen (value) - 1] = '\\0'\<close>.\<close>

definition property_value :: "string \<Rightarrow> string \<Rightarrow> string \<Rightarrow> (string \<times> string) option option" where
  "property_value key skip str =
     (case strstr str key of
        None \<Rightarrow> Some None
      | Some suffix \<Rightarrow>
          if length suffix < length skip then None
          else (let value = drop (length skip) suffix in Some (Some (butlast value, butlast str))))"

text \<open>One entry \<open>name:bit:support:rbus:dest\<close> of \<open>WEBCONFIG_SUBDOC_MAP\<close>. \<open>Some None\<close>:
  the entry has no name and reading the file ends there; \<open>None\<close>: \<open>webcfgStrncpy\<close> of a
  NULL destination, or an entry of 99 bytes or more, whose copy in \<open>subdoc\<close> gets no terminator.\<close>

definition parse_subdoc_entry :: "string \<Rightarrow> SubDocSupportMap option option" where
  "parse_subdoc_entry token =
     (if 99 \<le> length token then None
      else (let toks = strtok_all '':'' token
      in if toks = [] then Some None
         else (let support = (if 2 < length toks then fit 8 (toks ! 2) else []);
                   rbus_listener = (if 3 < length toks then fit 8 (toks ! 3) else [])
               in if rbus_listener \<noteq> [] \<and> strncmp_eq rbus_listener ''true'' 4
                  then (if 4 < length toks
                        then Some (Some \<lparr>sd_name = fit 256 (toks ! 0), sd_support = support,
                               sd_rbus_listener = rbus_listener, sd_dest = fit 64 (toks ! 4)\<rparr>)
                        else None)
                  else Some (Some \<lparr>sd_name = fit 256 (toks ! 0), sd_support = support,
                         sd_rbus_listener = rbus_listener, sd_dest = []\<rparr>))))"

text \<open>The loop over the tokens; the flag says whether reading the file goes on.\<close>

fun parse_subdoc_tokens :: "string list \<Rightarrow> 'z meta_st_scheme \<Rightarrow> (bool \<times> 'z meta_st_scheme) option" where
  "parse_subdoc_tokens [] s = Some (True, s)"
| "parse_subdoc_tokens (token # tokens) s =
     (if \<not> mem_ok s then Some (False, s)
      else (case parse_subdoc_entry token of
          None \<Rightarrow> None
        | Some None \<Rightarrow> Some (False, s)
        | Some (Some sd) \<Rightarrow> parse_subdoc_tokens tokens (s\<lparr>g_sdInfo := g_sdInfo s @ [sd]\<rparr>)))"

text \<open>\<open>supplementaryDocs\<close>: one node per name in the comma-separated list.\<close>

definition supplementaryDocs :: "'z meta_st_scheme \<Rightarrow> 'z meta_st_scheme" where
  "supplementaryDocs s =
     (case supplementary_docs s of
        None \<Rightarrow> s
      | Some docs \<Rightarrow>
          if mem_ok s then s\<lparr>g_spInfo := g_spInfo s @ strtok_all '','' docs\<rparr> else s)"

definition setsupplementaryDocs :: "string option \<Rightarrow> 'z meta_st_scheme \<Rightarrow> 'z meta_st_scheme" where
  "setsupplementaryDocs value s = s\<lparr>supplementary_docs := value\<rparr>"

definition setsupportedDocs :: "string option \<Rightarrow> 'z meta_st_scheme \<Rightarrow> 'z meta_st_scheme" where
  "setsupportedDocs value s = s\<lparr>supported_bits := value\<rparr>"

definition setsupportedVersion :: "string option \<Rightarrow> 'z meta_st_scheme \<Rightarrow> 'z meta_st_scheme" where
  "setsupportedVersion value s = s\<lparr>supported_version := value\<rparr>"

text \<open>One line of the file; every check looks at the buffer the checks before it have
  left.\<close>

definition properties_line :: "string \<Rightarrow> 'z meta_st_scheme \<Rightarrow> (bool \<times> 'z meta_st_scheme) option" where
  "properties_line str s = do {
     r1 \<leftarrow> property_value ''WEBCONFIG_SUPPORTED_DOCS_BIT='' ''WEBCONFIG_SUPPORTED_DOCS_BIT='' str;
     let (s1, str1) = (case r1 of None \<Rightarrow> (s, str) | Some (v, str') \<Rightarrow> (setsupportedDocs (Some v) s, str'));
     r2 \<leftarrow> property_value ''WEBCONFIG_DOC_SCHEMA_VERSION'' ''WEBCONFIG_DOC_SCHEMA_VERSION='' str1;
     let (s2, str2) = (case r2 of None \<Rightarrow> (s1, str1) | Some (v, str') \<Rightarrow> (setsupportedVersion (Some v) s1, str'));
     (go, s3, str3) \<leftarrow>
       (if strncmp_eq str2 ''WEBCONFIG_SUBDOC_MAP'' (length ''WEBCONFIG_SUBDOC_MAP'')
        then (let p = (case strtok '' ='' str2 of None \<Rightarrow> [] | Some (tok, rest) \<Rightarrow> rest)
              in do {
                (go, s3) \<leftarrow> parse_subdoc_tokens (strtok_all '','' p) s2;
                Some (go, s3, takeWhile (\<lambda>c. c \<notin> set '' ='') str2)
              })
        else Some (True, s2, str2));
     if \<not> go then Some (False, s3)
     else do {
       r4 \<leftarrow> property_value ''WEBCONFIG_SUPPLEMENTARY_DOCS'' ''WEBCONFIG_SUPPLEMENTARY_DOCS='' str3;
       Some (True, case r4 of
           None \<Rightarrow> s3
         | Some (v, _) \<Rightarrow> supplementaryDocs (setsupplementaryDocs (Some v) s3))
     }
   }"

fun properties_lines :: "string list \<Rightarrow> 'z meta_st_scheme \<Rightarrow> 'z meta_st_scheme option" where
  "properties_lines [] s = Some s"
| "properties_lines (str # strs) s =
     (case properties_line str s of
        None \<Rightarrow> None
      | Some (go, s') \<Rightarrow> if go then properties_lines strs s' else Some s')"

definition initWebcfgProperties :: "string option \<Rightarrow> 'z meta_st_scheme \<Rightarrow> 'z meta_st_scheme option" where
  "initWebcfgProperties contents s =
     (case contents of None \<Rightarrow> Some s | Some text \<Rightarrow> properties_lines (fgets_lines 1024 text) s)"

section \<open>Queries\<close>

fun isSubDocSupported_from :: "SubDocSupportMap list \<Rightarrow> string \<Rightarrow> WEBCFG_STATUS" where
  "isSubDocSupported_from [] subDoc = WEBCFG_FAILURE"
| "isSubDocSupported_from (sd # sds) subDoc =
     (if strncmp_eq (sd_name sd) subDoc (length subDoc)
      then (if strncmp_eq (sd_support sd) ''true'' (length ''true'') then WEBCFG_SUCCESS else WEBCFG_FAILURE)
      else isSubDocSupported_from sds subDoc)"

definition isSubDocSupported :: "string \<Rightarrow> 'z meta_st_scheme \<Rightarrow> WEBCFG_STATUS" where
  "isSubDocSupported subDoc s = isSubDocSupported_from (g_sdInfo s) subDoc"

fun isRbusListener_from :: "SubDocSupportMap list \<Rightarrow> string \<Rightarrow> bool" where
  "isRbusListener_from [] subDoc = False"
| "isRbusListener_from (sd # sds) subDoc =
     (if strncmp_eq (sd_name sd) subDoc (length subDoc)
      then strncmp_eq (sd_rbus_listener sd) ''true'' (length ''true'')
      else isRbusListener_from sds subDoc)"

definition isRbusListener :: "string \<Rightarrow> 'z meta_st_scheme \<Rightarrow> bool" where
  "isRbusListener subDoc s = isRbusListener_from (g_sdInfo s) subDoc"

text \<open>The status and what is copied to \<open>destination\<close>, which is left alone on failure.\<close>

fun get_destination_from :: "SubDocSupportMap list \<Rightarrow> string \<Rightarrow> string \<Rightarrow> WEBCFG_STATUS \<times> string" where
  "get_destination_from [] subDoc destination = (WEBCFG_FAILURE, destination)"
| "get_destination_from (sd # sds) subDoc destination =
     (if strncmp_eq (sd_name sd) subDoc (length subDoc) \<and> 0 < length (sd_dest sd)
      then (WEBCFG_SUCCESS, sd_dest sd)
      else get_destination_from sds subDoc destination)"

definition get_destination :: "string \<Rightarrow> string \<Rightarrow> 'z meta_st_scheme \<Rightarrow> WEBCFG_STATUS \<times> string" where
  "get_destination subDoc destination s = get_destination_from (g_sdInfo s) subDoc destination"

fun isSupplementaryDoc_from :: "string list \<Rightarrow> string \<Rightarrow> WEBCFG_STATUS" where
  "isSupplementaryDoc_from [] subDoc = WEBCFG_FAILURE"
| "isSupplementaryDoc_from (sp # sps) subDoc =
     (if length sp = length subDoc
      then (if strncmp_eq sp subDoc (length subDoc) then WEBCFG_SUCCESS else WEBCFG_FAILURE)
      else isSupplementaryDoc_from sps subDoc)"

definition isSupplementaryDoc :: "string \<Rightarrow> 'z meta_st_scheme \<Rightarrow> WEBCFG_STATUS" where
  "isSupplementaryDoc subDoc s = isSupplementaryDoc_from (g_spInfo s) subDoc"

definition delete_supplementary_list :: "'z meta_st_scheme \<Rightarrow> 'z meta_st_scheme" where
  "delete_supplementary_list s = s\<lparr>g_spInfo := []\<rparr>"

section \<open>Facts\<close>

lemma true_len [simp]: "strncmp_eq x ''true'' (Suc (Suc (Suc (Suc 0)))) = strncmp_eq x ''true'' 4"
  by (simp add: numeral_nat)

lemma isSubDocSupported_find:
  "isSubDocSupported_from sds d =
     (case find (\<lambda>sd. strncmp_eq (sd_name sd) d (length d)) sds of
        None \<Rightarrow> WEBCFG_FAILURE
      | Some sd \<Rightarrow> if strncmp_eq (sd_support sd) ''true'' 4 then WEBCFG_SUCCESS else WEBCFG_FAILURE)"
  by (induction sds) simp_all

lemma isRbusListener_find:
  "isRbusListener_from sds d =
     (case find (\<lambda>sd. strncmp_eq (sd_name sd) d (length d)) sds of
        None \<Rightarrow> False | Some sd \<Rightarrow> strncmp_eq (sd_rbus_listener sd) ''true'' 4)"
  by (induction sds) simp_all

lemma find_cong_set: "(\<And>x. x \<in> set xs \<Longrightarrow> P x = Q x) \<Longrightarrow> find P xs = find Q xs"
  by (induction xs) auto

text \<open>When no other name begins with the name asked for, the prefix comparison finds
  exactly the entry of that name.\<close>

lemma find_prefix_exact:
  assumes "nul_free d" "\<forall>sd\<in>set sds. nul_free (sd_name sd)"
    and "\<forall>sd\<in>set sds. \<forall>r. sd_name sd = d @ r \<longrightarrow> r = []"
  shows "find (\<lambda>sd. strncmp_eq (sd_name sd) d (length d)) sds = find (\<lambda>sd. sd_name sd = d) sds"
proof (rule find_cong_set)
  fix sd assume "sd \<in> set sds"
  with assms show "strncmp_eq (sd_name sd) d (length d) = (sd_name sd = d)"
    by (auto simp: strncmp_eq_prefix)
qed

lemma isSupplementaryDoc_find:
  assumes "nul_free d" "\<forall>n\<in>set sps. nul_free n"
  shows "isSupplementaryDoc_from sps d = WEBCFG_SUCCESS \<longleftrightarrow>
    find (\<lambda>n. length n = length d) sps = Some d"
  using assms(2)
proof (induction sps)
  case (Cons n sps)
  then show ?case using assms(1) by (auto simp: strncmp_eq_take)
qed simp

text \<open>How an entry of \<open>WEBCONFIG_SUBDOC_MAP\<close> is written.\<close>

definition subdoc_fields :: "SubDocSupportMap \<Rightarrow> string \<Rightarrow> string list" where
  "subdoc_fields sd pos =
     [sd_name sd, pos, sd_support sd, sd_rbus_listener sd]
     @ (if strncmp_eq (sd_rbus_listener sd) ''true'' 4 then [sd_dest sd] else [])"

definition field_ok :: "string \<Rightarrow> bool" where
  "field_ok f \<longleftrightarrow> f \<noteq> [] \<and> CHR '':'' \<notin> set f \<and> CHR '','' \<notin> set f"

definition subdoc_ok :: "SubDocSupportMap \<Rightarrow> string \<Rightarrow> bool" where
  "subdoc_ok sd pos \<longleftrightarrow>
     list_all field_ok (subdoc_fields sd pos) \<and> length (join '':'' (subdoc_fields sd pos)) < 99
     \<and> length (sd_support sd) < 8 \<and> length (sd_rbus_listener sd) < 8 \<and> length (sd_dest sd) < 63
     \<and> (\<not> strncmp_eq (sd_rbus_listener sd) ''true'' 4 \<longrightarrow> sd_dest sd = [])"

lemma fit_id: "length s < n \<Longrightarrow> fit n s = s"
  by (simp add: fit_def)

lemma subdoc_tokens:
  assumes "subdoc_ok sd pos"
  shows "strtok_all '':'' (join '':'' (subdoc_fields sd pos)) = subdoc_fields sd pos"
  using assms by (intro strtok_all_join) (auto simp: subdoc_ok_def field_ok_def list_all_iff)

lemma subdoc_length: "subdoc_ok sd pos \<Longrightarrow> \<not> 99 \<le> length (join '':'' (subdoc_fields sd pos))"
  by (simp add: subdoc_ok_def)

lemma subdoc_ok_name: "subdoc_ok sd pos \<Longrightarrow> length (sd_name sd) < 256"
  by (simp add: subdoc_ok_def subdoc_fields_def split: if_splits)

lemma subdoc_ok_rbus: "subdoc_ok sd pos \<Longrightarrow> sd_rbus_listener sd \<noteq> []"
  by (simp add: subdoc_ok_def subdoc_fields_def field_ok_def)

lemma parse_subdoc_entry_ok:
  assumes "subdoc_ok sd pos"
  shows "parse_subdoc_entry (join '':'' (subdoc_fields sd pos)) = Some (Some sd)"
proof -
  have f: "fit 256 (sd_name sd) = sd_name sd" "fit 8 (sd_support sd) = sd_support sd"
    "fit 8 (sd_rbus_listener sd) = sd_rbus_listener sd" "fit 64 (sd_dest sd) = sd_dest sd"
    using assms subdoc_ok_name [OF assms] by (auto simp: subdoc_ok_def fit_id)
  show ?thesis
    unfolding parse_subdoc_entry_def subdoc_tokens [OF assms] if_not_P [OF subdoc_length [OF assms]]
    using assms f subdoc_ok_rbus [OF assms]
    by (cases "strncmp_eq (sd_rbus_listener sd) ''true'' 4")
      (simp_all add: subdoc_fields_def subdoc_ok_def)
qed

lemma parse_subdoc_tokens_ok:
  assumes "mem_ok s" "list_all (\<lambda>(sd, pos). subdoc_ok sd pos) es"
  shows "parse_subdoc_tokens (map (\<lambda>(sd, pos). join '':'' (subdoc_fields sd pos)) es) s =
    Some (True, s\<lparr>g_sdInfo := g_sdInfo s @ map fst es\<rparr>)"
  using assms by (induction es arbitrary: s) (auto simp: parse_subdoc_entry_ok)

lemma join_no_comma: "list_all field_ok fs \<Longrightarrow> CHR '','' \<notin> set (join '':'' fs)"
  by (auto dest!: set_join simp: list_all_iff field_ok_def)

lemma join_fields_nonempty: "join '':'' (subdoc_fields sd pos) \<noteq> []"
  by (simp add: subdoc_fields_def)

lemma subdoc_join_plain:
  "subdoc_ok sd pos \<Longrightarrow> join '':'' (subdoc_fields sd pos) \<noteq> [] \<and> CHR '','' \<notin> set (join '':'' (subdoc_fields sd pos))"
  unfolding subdoc_ok_def using join_no_comma join_fields_nonempty by blast

section \<open>Properties\<close>

text \<open>C37: reading a well-formed \<open>WEBCONFIG_SUBDOC_MAP\<close> value appends exactly the entries it
  was written from, in order, and reading the file goes on.\<close>

theorem subdoc_map_roundtrip:
  fixes s :: "'z meta_st_scheme"
  assumes "mem_ok s" "list_all (\<lambda>(sd, pos). subdoc_ok sd pos) es"
  shows "parse_subdoc_tokens
      (strtok_all '','' (join '','' (map (\<lambda>(sd, pos). join '':'' (subdoc_fields sd pos)) es))) s =
    Some (True, s\<lparr>g_sdInfo := g_sdInfo s @ map fst es\<rparr>)"
proof -
  have "\<forall>x\<in>set (map (\<lambda>(sd, pos). join '':'' (subdoc_fields sd pos)) es). x \<noteq> [] \<and> CHR '','' \<notin> set x"
    using assms(2) by (clarsimp simp: list_all_iff) (metis (mono_tags, lifting) case_prodD subdoc_join_plain)
  then have "strtok_all '','' (join '','' (map (\<lambda>(sd, pos). join '':'' (subdoc_fields sd pos)) es)) =
      map (\<lambda>(sd, pos). join '':'' (subdoc_fields sd pos)) es"
    by (rule strtok_all_join)
  with parse_subdoc_tokens_ok [OF assms] show ?thesis by simp
qed

definition meta_st0 :: meta_st where
  "meta_st0 = timer_st.extend timer_st0 \<lparr>supported_bits = None, supported_version = None,
     supplementary_docs = None, g_sdInfo = [], g_spInfo = []\<rparr>"

lemma meta_st0_mem [simp]: "mem_ok meta_st0"
  by (simp add: meta_st0_def timer_st.defs timer_st0_def notify_st.defs notify_st0_def)

theorem subdoc_map_roundtrip_witness:
  "parse_subdoc_tokens (strtok_all '','' ''wan:1:true:false,mesh:2:true:true:webcfg.mesh'') meta_st0 =
    Some (True, meta_st0\<lparr>g_sdInfo := g_sdInfo meta_st0 @
      [\<lparr>sd_name = ''wan'', sd_support = ''true'', sd_rbus_listener = ''false'', sd_dest = []\<rparr>,
       \<lparr>sd_name = ''mesh'', sd_support = ''true'', sd_rbus_listener = ''true'', sd_dest = ''webcfg.mesh''\<rparr>]\<rparr>)"
proof -
  let ?es = "[(\<lparr>sd_name = ''wan'', sd_support = ''true'', sd_rbus_listener = ''false'', sd_dest = []\<rparr>, ''1''),
     (\<lparr>sd_name = ''mesh'', sd_support = ''true'', sd_rbus_listener = ''true'', sd_dest = ''webcfg.mesh''\<rparr>, ''2'')]"
  have ok: "list_all (\<lambda>(sd, pos). subdoc_ok sd pos) ?es"
    by (simp add: subdoc_ok_def subdoc_fields_def field_ok_def)
  show ?thesis
    using subdoc_map_roundtrip [OF meta_st0_mem ok] by (simp add: subdoc_fields_def)
qed

text \<open>The destination of the last entry of the line keeps the newline \<open>fgets\<close> has left
  in the buffer, so \<open>get_destination\<close> hands a topic that ends in a newline to the rbus
  call.\<close>

theorem last_destination_newline:
  assumes "subdoc_ok sd pos" "strncmp_eq (sd_rbus_listener sd) ''true'' 4" "nul_free (sd_name sd)"
    and "length (join '':'' (subdoc_fields sd pos)) < 98"
  shows "parse_subdoc_entry (join '':'' (subdoc_fields sd pos) @ [CHR 0x0A]) =
      Some (Some (sd\<lparr>sd_dest := sd_dest sd @ [CHR 0x0A]\<rparr>))
    \<and> get_destination (sd_name sd) topic (s\<lparr>g_sdInfo := [sd\<lparr>sd_dest := sd_dest sd @ [CHR 0x0A]\<rparr>]\<rparr>) =
      (WEBCFG_SUCCESS, sd_dest sd @ [CHR 0x0A])"
proof -
  let ?sd = "sd\<lparr>sd_dest := sd_dest sd @ [CHR 0x0A]\<rparr>"
  have ne: "subdoc_fields sd pos \<noteq> []" by (simp add: subdoc_fields_def)
  have fs: "butlast (subdoc_fields sd pos) @ [last (subdoc_fields sd pos) @ [CHR 0x0A]] = subdoc_fields ?sd pos"
    using assms(2) by (simp add: subdoc_fields_def)
  have "list_all field_ok (subdoc_fields ?sd pos)"
    using assms(1,2) by (simp add: subdoc_ok_def subdoc_fields_def field_ok_def)
  then have "strtok_all '':'' (join '':'' (subdoc_fields ?sd pos)) = subdoc_fields ?sd pos"
    by (intro strtok_all_join) (auto simp: field_ok_def list_all_iff)
  moreover have "join '':'' (subdoc_fields sd pos) @ [CHR 0x0A] = join '':'' (subdoc_fields ?sd pos)"
    using join_append_last [OF ne] fs by simp
  ultimately have toks: "strtok_all '':'' (join '':'' (subdoc_fields sd pos) @ [CHR 0x0A]) = subdoc_fields ?sd pos" by simp
  have len: "\<not> 99 \<le> length (join '':'' (subdoc_fields sd pos) @ [CHR 0x0A])" using assms(4) by simp
  have f: "fit 256 (sd_name sd) = sd_name sd" "fit 8 (sd_support sd) = sd_support sd"
    "fit 8 (sd_rbus_listener sd) = sd_rbus_listener sd"
    "fit 64 (sd_dest sd @ [CHR 0x0A]) = sd_dest sd @ [CHR 0x0A]"
    using assms(1) subdoc_ok_name [OF assms(1)] by (auto simp: subdoc_ok_def fit_id)
  have "parse_subdoc_entry (join '':'' (subdoc_fields sd pos) @ [CHR 0x0A]) = Some (Some ?sd)"
    unfolding parse_subdoc_entry_def toks if_not_P [OF len]
    using f assms(2) subdoc_ok_rbus [OF assms(1)] by (simp add: subdoc_fields_def)
  then show ?thesis by (simp add: get_destination_def)
qed

theorem last_destination_newline_witness:
  "get_destination ''mesh'' [] (meta_st0\<lparr>g_sdInfo :=
      [\<lparr>sd_name = ''mesh'', sd_support = ''true'', sd_rbus_listener = ''true'',
        sd_dest = ''webcfg.mesh'' @ [CHR 0x0A]\<rparr>]\<rparr>) = (WEBCFG_SUCCESS, ''webcfg.mesh'' @ [CHR 0x0A])"
proof -
  let ?sd = "\<lparr>sd_name = ''mesh'', sd_support = ''true'', sd_rbus_listener = ''true'', sd_dest = ''webcfg.mesh''\<rparr>"
  have "subdoc_ok ?sd ''2''" "strncmp_eq (sd_rbus_listener ?sd) ''true'' 4" "nul_free (sd_name ?sd)"
    "length (join '':'' (subdoc_fields ?sd ''2'')) < 98"
    by (simp_all add: subdoc_ok_def subdoc_fields_def field_ok_def numeral_nat nul_free_def)
  from last_destination_newline [OF this, of "[]" meta_st0, THEN conjunct2] show ?thesis by simp
qed

text \<open>\<open>isSubDocSupported\<close> and \<open>isRbusListener\<close> answer for the entry of exactly the name
  asked for, as long as no other name in the table begins with that name.\<close>

theorem subdoc_lookup_exact:
  assumes "nul_free d" "\<forall>sd\<in>set (g_sdInfo s). nul_free (sd_name sd)"
    and "\<forall>sd\<in>set (g_sdInfo s). \<forall>r. sd_name sd = d @ r \<longrightarrow> r = []"
  shows "isSubDocSupported d s =
      (case find (\<lambda>sd. sd_name sd = d) (g_sdInfo s) of
         None \<Rightarrow> WEBCFG_FAILURE
       | Some sd \<Rightarrow> if strncmp_eq (sd_support sd) ''true'' 4 then WEBCFG_SUCCESS else WEBCFG_FAILURE)
    \<and> isRbusListener d s =
      (case find (\<lambda>sd. sd_name sd = d) (g_sdInfo s) of
         None \<Rightarrow> False | Some sd \<Rightarrow> strncmp_eq (sd_rbus_listener sd) ''true'' 4)"
  by (simp add: isSubDocSupported_def isRbusListener_def isSubDocSupported_find isRbusListener_find
      find_prefix_exact [OF assms])

theorem subdoc_lookup_exact_witness:
  "isSubDocSupported ''wan'' (meta_st0\<lparr>g_sdInfo :=
      [\<lparr>sd_name = ''mesh'', sd_support = ''false'', sd_rbus_listener = [], sd_dest = []\<rparr>,
       \<lparr>sd_name = ''wan'', sd_support = ''true'', sd_rbus_listener = [], sd_dest = []\<rparr>]\<rparr>) = WEBCFG_SUCCESS"
proof -
  let ?s = "meta_st0\<lparr>g_sdInfo :=
      [\<lparr>sd_name = ''mesh'', sd_support = ''false'', sd_rbus_listener = [], sd_dest = []\<rparr>,
       \<lparr>sd_name = ''wan'', sd_support = ''true'', sd_rbus_listener = [], sd_dest = []\<rparr>]\<rparr>"
  have "nul_free ''wan''" "\<forall>sd\<in>set (g_sdInfo ?s). nul_free (sd_name sd)"
    "\<forall>sd\<in>set (g_sdInfo ?s). \<forall>r. sd_name sd = ''wan'' @ r \<longrightarrow> r = []"
    by (simp_all add: nul_free_def)
  from subdoc_lookup_exact [OF this, THEN conjunct1] show ?thesis
    by simp
qed

text \<open>A longer name that comes earlier in the table hides a name: the answer for \<open>d\<close> is
  that of the entry \<open>d @ r\<close>, even when \<open>d\<close> itself is listed as supported.\<close>

theorem subdoc_prefix_shadow:
  assumes "nul_free d" "nul_free r"
    and "g_sdInfo s = other # sd # rest" "sd_name other = d @ r" "sd_name sd = d"
    and "\<not> strncmp_eq (sd_support other) ''true'' 4" "strncmp_eq (sd_support sd) ''true'' 4"
  shows "isSubDocSupported d s = WEBCFG_FAILURE"
  using assms by (simp add: isSubDocSupported_def strncmp_eq_prefix)

theorem subdoc_prefix_shadow_witness:
  "isSubDocSupported ''lan'' (meta_st0\<lparr>g_sdInfo :=
      [\<lparr>sd_name = ''lanport'', sd_support = ''false'', sd_rbus_listener = [], sd_dest = []\<rparr>,
       \<lparr>sd_name = ''lan'', sd_support = ''true'', sd_rbus_listener = [], sd_dest = []\<rparr>]\<rparr>) = WEBCFG_FAILURE"
proof -
  let ?o = "\<lparr>sd_name = ''lanport'', sd_support = ''false'', sd_rbus_listener = [], sd_dest = []\<rparr>"
  let ?d = "\<lparr>sd_name = ''lan'', sd_support = ''true'', sd_rbus_listener = [], sd_dest = []\<rparr>"
  show ?thesis
    by (rule subdoc_prefix_shadow [where r = "''port''" and other = ?o and sd = ?d and rest = "[]"])
      (simp_all add: nul_free_def)
qed

text \<open>A listed supplementary document is recognised exactly when no document listed before
  it has a name of the same length: the traversal stops at the first name of that length
  and answers \<open>WEBCFG_FAILURE\<close> when it is another one.\<close>

theorem isSupplementaryDoc_same_length:
  fixes s :: "'z meta_st_scheme"
  assumes "nul_free d" "\<forall>n\<in>set (g_spInfo s). nul_free n"
    and "g_spInfo s = pre @ d # post" "d \<notin> set pre"
  shows "isSupplementaryDoc d s =
    (if \<exists>n\<in>set pre. length n = length d then WEBCFG_FAILURE else WEBCFG_SUCCESS)"
proof -
  have range: "isSupplementaryDoc_from xs d \<noteq> WEBCFG_NO_CHANGE" for xs by (induction xs) auto
  have "find (\<lambda>n. length n = length d) (pre @ d # post) = Some d \<longleftrightarrow> \<not> (\<exists>n\<in>set pre. length n = length d)"
    using assms(4) by (induction pre) auto
  with isSupplementaryDoc_find [OF assms(1,2)] assms(3) range [of "g_spInfo s"] show ?thesis
    by (cases "isSupplementaryDoc_from (g_spInfo s) d") (auto simp: isSupplementaryDoc_def)
qed

theorem isSupplementaryDoc_same_length_witness:
  "isSupplementaryDoc ''telemetry2'' (meta_st0\<lparr>g_spInfo := [''telemetry1'', ''telemetry2'']\<rparr>) = WEBCFG_FAILURE"
  by (subst isSupplementaryDoc_same_length [where pre = "[''telemetry1'']" and post = "[]"])
    (simp_all add: nul_free_def)

end
