(* ===== verification/MpList.thy ===== *)
theory MpList
  imports Metadata
begin

text \<open>
  The file-scoped state of \<open>src/src/webcfg_multipart.c\<close> and the operations on it: the
  cached subdocuments \<open>g_mp_head\<close> of the last root document, the root version
  \<open>g_ETAG\<close> and the transaction ids. A pointer to a node is its index in the list. The
  result \<open>None\<close> marks a read of freed memory.
\<close>

record multipartdocs =
  mp_etag :: u32
  mp_name_space :: string
  mp_data :: string
  mp_isSupplementarySync :: int

record mp_st = meta_st +
  g_mp_head :: "multipartdocs list"
  g_ETAG :: string
  g_transID :: string
  g_ForceSyncTransID :: string
  g_contentLen :: "string option"
  eventFlag :: int

text \<open>\<open>data\<close> is the buffer of \<open>data_size\<close> bytes.\<close>

definition mp_data_size :: "multipartdocs \<Rightarrow> nat" where
  "mp_data_size mp = length (mp_data mp)"

section \<open>Identifiers and headers\<close>

definition webcfgStrncpy :: "string \<Rightarrow> nat \<Rightarrow> string" where
  "webcfgStrncpy src destSize = fit destSize src"

definition set_global_transID :: "string \<Rightarrow> 'z mp_st_scheme \<Rightarrow> 'z mp_st_scheme" where
  "set_global_transID i s = s\<lparr>g_transID := fit 64 i\<rparr>"

definition set_global_ETAG :: "string \<Rightarrow> 'z mp_st_scheme \<Rightarrow> 'z mp_st_scheme" where
  "set_global_ETAG etag s = s\<lparr>g_ETAG := webcfgStrncpy etag 64\<rparr>"

definition setForceSyncTransID :: "string option \<Rightarrow> 'z mp_st_scheme \<Rightarrow> 'z mp_st_scheme" where
  "setForceSyncTransID i s =
     (case i of None \<Rightarrow> s\<lparr>g_ForceSyncTransID := []\<rparr>
      | Some t \<Rightarrow> s\<lparr>g_ForceSyncTransID := webcfgStrncpy t 128\<rparr>)"

definition set_global_eventFlag :: "'z mp_st_scheme \<Rightarrow> 'z mp_st_scheme" where
  "set_global_eventFlag s = s\<lparr>eventFlag := 1\<rparr>"

definition reset_global_eventFlag :: "'z mp_st_scheme \<Rightarrow> 'z mp_st_scheme" where
  "reset_global_eventFlag s = s\<lparr>eventFlag := 0\<rparr>"

text \<open>\<open>strtoul (g_ETAG, NULL, 0)\<close> narrowed to 32 bits.\<close>

definition get_global_root :: "'z mp_st_scheme \<Rightarrow> u32" where
  "get_global_root s = ucast (strtoul0 (g_ETAG s))"

definition stripspaces :: "string \<Rightarrow> string" where
  "stripspaces str = filter (\<lambda>c. c \<noteq> CHR '' '' \<and> c \<noteq> CHR 0x0A \<and> c \<noteq> CHR 0x0D) str"

definition to_lower :: "char \<Rightarrow> char" where
  "to_lower c = (let n = (of_char c :: nat) in if 65 \<le> n \<and> n \<le> 90 then char_of (n + 32) else c)"

definition strncasecmp_eq :: "string \<Rightarrow> string \<Rightarrow> nat \<Rightarrow> bool" where
  "strncasecmp_eq a b n = strncmp_eq (map to_lower a) (map to_lower b) n"

text \<open>The tokens of a header after its first, cut and stripped; the stores of the loop in
  order.\<close>

definition header_values :: "string \<Rightarrow> string list" where
  "header_values buffer = map (\<lambda>t. stripspaces (fit 64 t)) (drop 1 (strtok_all '':'' buffer))"

definition headr_callback :: "string \<Rightarrow> nat \<Rightarrow> 'z mp_st_scheme \<Rightarrow> nat \<times> 'z mp_st_scheme" where
  "headr_callback buffer nitems s =
     (nitems,
      if length ''Etag:'' < nitems then
        (if strncasecmp_eq ''Etag:'' buffer (length ''Etag:'')
         then fold (\<lambda>v t. if g_supplementarySync t = 0 then t\<lparr>g_ETAG := fit 64 v\<rparr> else t)
                   (header_values buffer) s
         else if strncasecmp_eq ''Content-Length:'' buffer (length ''Content-Length:'')
         then fold (\<lambda>v t. t\<lparr>g_contentLen := Some v\<rparr>) (header_values buffer) s
         else s)
      else s)"

text \<open>\<open>writer_callback_fn\<close>: \<open>mem\<close> says whether \<open>realloc\<close> succeeds; the value returned
  and the data collected, \<open>None\<close> after the buffer was freed.\<close>

definition writer_callback_fn :: "bool \<Rightarrow> string \<Rightarrow> string option \<Rightarrow> nat \<times> string option" where
  "writer_callback_fn mem buffer data =
     (if mem then (length buffer, Some ((case data of None \<Rightarrow> [] | Some d \<Rightarrow> d) @ buffer)) else (0, None))"

section \<open>The list of subdocuments\<close>

definition get_multipartdoc_count :: "'z mp_st_scheme \<Rightarrow> nat" where
  "get_multipartdoc_count s = length (g_mp_head s)"

definition delete_multipart :: "'z mp_st_scheme \<Rightarrow> 'z mp_st_scheme" where
  "delete_multipart s = s\<lparr>g_mp_head := []\<rparr>"

definition mp_append :: "multipartdocs \<Rightarrow> multipartdocs list \<Rightarrow> multipartdocs list" where
  "mp_append mp_node mps = (if mps = [] then [mp_node] else mps @ [mp_node])"

definition addToMpList :: "u32 \<Rightarrow> string \<Rightarrow> string \<Rightarrow> 'z mp_st_scheme \<Rightarrow> 'z mp_st_scheme" where
  "addToMpList etag name_space data s =
     (if mem_ok s
      then s\<lparr>g_mp_head := mp_append \<lparr>mp_etag = etag, mp_name_space = name_space, mp_data = data,
                              mp_isSupplementarySync = g_supplementarySync s\<rparr> (g_mp_head s)\<rparr>
      else s)"

text \<open>The traversal of \<open>deleteFromMpList\<close>: \<open>None\<close> when no node has the name.\<close>

fun mp_unlink :: "string \<Rightarrow> multipartdocs list \<Rightarrow> multipartdocs list option" where
  "mp_unlink doc_name [] = None"
| "mp_unlink doc_name (mp # mps) =
     (if mp_name_space mp = doc_name then Some mps
      else map_option (\<lambda>rest. mp # rest) (mp_unlink doc_name mps))"

definition deleteFromMpList :: "string option \<Rightarrow> 'z mp_st_scheme \<Rightarrow> WEBCFG_STATUS \<times> 'z mp_st_scheme" where
  "deleteFromMpList doc_name s =
     (case doc_name of
        None \<Rightarrow> (WEBCFG_FAILURE, s)
      | Some d \<Rightarrow> (case mp_unlink d (g_mp_head s) of
            None \<Rightarrow> (WEBCFG_FAILURE, s)
          | Some mps \<Rightarrow> (WEBCFG_SUCCESS, s\<lparr>g_mp_head := mps\<rparr>)))"

text \<open>The search for a document by name, as \<open>retryMultipartSubdoc\<close> does it.\<close>

fun mp_search :: "string \<Rightarrow> multipartdocs list \<Rightarrow> nat option" where
  "mp_search docname [] = None"
| "mp_search docname (mp # mps) =
     (if mp_name_space mp = docname then Some 0 else map_option Suc (mp_search docname mps))"

lemma mp_unlink_length: "mp_unlink d mps = Some mps' \<Longrightarrow> length mps = Suc (length mps')"
  by (induction mps arbitrary: mps') (auto split: if_splits)

lemma deleteFromMpList_length:
  "deleteFromMpList d s = (WEBCFG_SUCCESS, s') \<Longrightarrow> length (g_mp_head s) = Suc (length (g_mp_head s'))"
  by (auto simp: deleteFromMpList_def dest: mp_unlink_length split: option.splits)

text \<open>
  \<open>delete_mp_doc\<close>: \<open>temp\<close> is the node at index \<open>i\<close>. \<open>deleteFromMpList\<close> frees the first
  node of its name; when that is the node itself, \<open>temp->next\<close> is read from freed
  memory, when it is an earlier one, the node moves one place forward.
\<close>

function delete_mp_doc_from :: "nat \<Rightarrow> 'z mp_st_scheme \<Rightarrow> 'z mp_st_scheme option" where
  "delete_mp_doc_from i s =
     (if length (g_mp_head s) \<le> i then Some s
      else (let temp = g_mp_head s ! i
            in if mp_isSupplementarySync temp = g_supplementarySync s
               then (if mp_search (mp_name_space temp) (g_mp_head s) = Some i then None
                     else (case deleteFromMpList (Some (mp_name_space temp)) s of
                         (WEBCFG_SUCCESS, s') \<Rightarrow> delete_mp_doc_from i s'
                       | _ \<Rightarrow> delete_mp_doc_from (Suc i) s))
               else delete_mp_doc_from (Suc i) s))"
  by pat_completeness auto

termination
  by (relation "measure (\<lambda>(i, s). length (g_mp_head s) - i)")
    (auto dest: deleteFromMpList_length [OF sym])

declare delete_mp_doc_from.simps [simp del]

definition delete_mp_doc :: "'z mp_st_scheme \<Rightarrow> 'z mp_st_scheme option" where
  "delete_mp_doc s = delete_mp_doc_from 0 s"

section \<open>The list as a collection of documents\<close>

lemma mp_search_find_idx: "mp_search d mps = find_idx (\<lambda>mp. mp_name_space mp = d) mps"
  by (induction mps) auto

lemma mp_unlink_del_first:
  "mp_unlink d mps = (if find_idx (\<lambda>mp. mp_name_space mp = d) mps = None then None
     else Some (del_first (\<lambda>mp. mp_name_space mp = d) mps))"
  by (induction mps) auto

definition mp_delete :: "string \<Rightarrow> multipartdocs list \<Rightarrow> multipartdocs list" where
  "mp_delete d mps = (case mp_unlink d mps of None \<Rightarrow> mps | Some mps' \<Rightarrow> mps')"

lemma mp_delete_del_first: "mp_delete d mps = del_first (\<lambda>mp. mp_name_space mp = d) mps"
proof (cases "find_idx (\<lambda>mp. mp_name_space mp = d) mps")
  case None
  then show ?thesis by (simp add: mp_delete_def mp_unlink_del_first del_first_miss)
qed (simp add: mp_delete_def mp_unlink_del_first)

lemma mp_append_snoc [simp]: "mp_append mp mps = mps @ [mp]"
  by (simp add: mp_append_def)

interpretation mpl: doc_list mp_name_space mp_search mp_delete mp_append
  by (rule doc_listI) (simp_all add: mp_search_find_idx mp_delete_del_first)

lemma deleteFromMpList_delete:
  "deleteFromMpList (Some d) s =
     (if d \<in> mp_name_space ` set (g_mp_head s) then (WEBCFG_SUCCESS, s\<lparr>g_mp_head := mp_delete d (g_mp_head s)\<rparr>)
      else (WEBCFG_FAILURE, s))"
proof (cases "mp_search d (g_mp_head s)")
  case None
  then have "mp_unlink d (g_mp_head s) = None" by (simp add: mp_unlink_del_first mp_search_find_idx)
  with None show ?thesis by (simp add: deleteFromMpList_def mpl.get_None [symmetric])
next
  case (Some i)
  then have "mp_unlink d (g_mp_head s) = Some (mp_delete d (g_mp_head s))"
    by (simp add: mp_unlink_del_first mp_search_find_idx mp_delete_del_first)
  moreover have "d \<in> mp_name_space ` set (g_mp_head s)" using Some mpl.get_None by (metis option.distinct(1))
  ultimately show ?thesis by (simp add: deleteFromMpList_def)
qed

lemma addToMpList_head:
  "mem_ok s \<Longrightarrow> g_mp_head (addToMpList e n d s) = g_mp_head s @
     [\<lparr>mp_etag = e, mp_name_space = n, mp_data = d, mp_isSupplementarySync = g_supplementarySync s\<rparr>]"
  by (simp add: addToMpList_def)


section \<open>Facts\<close>

lemma mp_search_self:
  assumes "distinct (map mp_name_space mps)" "i < length mps"
  shows "mp_search (mp_name_space (mps ! i)) mps = Some i"
  using assms
  by (auto simp: mp_search_find_idx find_idx_Some nth_eq_iff_index_eq distinct_conv_nth)

lemma delete_mp_doc_from_none:
  assumes "distinct (map mp_name_space (g_mp_head s))"
  shows "delete_mp_doc_from i s =
    (if \<exists>j\<ge>i. j < length (g_mp_head s) \<and> mp_isSupplementarySync (g_mp_head s ! j) = g_supplementarySync s
     then None else Some s)"
proof (induction "length (g_mp_head s) - i" arbitrary: i)
  case 0
  then show ?case by (subst delete_mp_doc_from.simps) auto
next
  case (Suc n)
  then have i: "i < length (g_mp_head s)" "n = length (g_mp_head s) - Suc i" by auto
  show ?case
  proof (cases "mp_isSupplementarySync (g_mp_head s ! i) = g_supplementarySync s")
    case True
    with i mp_search_self [OF assms i(1)] show ?thesis by (subst delete_mp_doc_from.simps) auto
  next
    case False
    then have "(\<exists>j\<ge>i. j < length (g_mp_head s) \<and> mp_isSupplementarySync (g_mp_head s ! j) = g_supplementarySync s) =
        (\<exists>j\<ge>Suc i. j < length (g_mp_head s) \<and> mp_isSupplementarySync (g_mp_head s ! j) = g_supplementarySync s)"
      by (metis Suc_leD le_antisym not_less_eq_eq)
    with i False Suc.hyps(1) [OF i(2)] show ?thesis by (subst delete_mp_doc_from.simps) simp
  qed
qed

lemma delete_mp_doc_empty [simp]: "g_mp_head s = [] \<Longrightarrow> delete_mp_doc s = Some s"
  by (simp add: delete_mp_doc_def delete_mp_doc_from.simps)

lemma to_lower_etag [simp]:
  "to_lower (CHR ''E'') = CHR ''e''" "to_lower (CHR ''T'') = CHR ''t''" "to_lower (CHR ''t'') = CHR ''t''"
  "to_lower (CHR ''a'') = CHR ''a''" "to_lower (CHR ''g'') = CHR ''g''" "to_lower (CHR '':'') = CHR '':''"
  "to_lower (CHR ''N'') = CHR ''n''" "to_lower (CHR ''m'') = CHR ''m''" "to_lower (CHR ''e'') = CHR ''e''"
  "to_lower (CHR ''s'') = CHR ''s''" "to_lower (CHR ''p'') = CHR ''p''" "to_lower (CHR ''c'') = CHR ''c''"
  by (simp_all add: to_lower_def char_of_def bit_iff_odd)

lemma isspace_simps [simp]: "isspace (CHR '' '')" "isspace (CHR 0x0A)" "isspace (CHR 0x0D)"
  by (simp_all add: isspace_def)

lemma stripspaces_dec: "stripspaces (CHR '' '' # dec n @ [CHR 0x0D, CHR 0x0A]) = dec n"
proof -
  have "filter (\<lambda>c. c \<noteq> CHR '' '' \<and> c \<noteq> CHR 0x0A \<and> c \<noteq> CHR 0x0D) (dec n) = dec n"
    by (intro filter_True) (auto dest: dec_plain)
  then show ?thesis by (simp add: stripspaces_def)
qed

lemma header_values_etag:
  assumes "CHR '':'' \<notin> set name" "name \<noteq> []" "n < 2 ^ 32"
  shows "header_values (name @ '': '' @ dec n @ [CHR 0x0D, CHR 0x0A]) = [dec n]"
proof -
  let ?v = "CHR '' '' # dec n @ [CHR 0x0D, CHR 0x0A]"
  have "CHR '':'' \<notin> set (dec n)" by (rule dec_colon)
  then have "strtok_all '':'' (join '':'' [name, ?v]) = [name, ?v]"
    using assms(1,2) by (intro strtok_all_join) auto
  moreover have "join '':'' [name, ?v] = name @ '': '' @ dec n @ [CHR 0x0D, CHR 0x0A]" by simp
  moreover have "fit 64 ?v = ?v" using length_dec_u32 [OF assms(3)] by (simp add: fit_def)
  ultimately show ?thesis by (simp add: header_values_def stripspaces_dec)
qed

section \<open>Properties\<close>

text \<open>When the documents have different names, \<open>delete_mp_doc\<close> leaves the list alone
  if none belongs to the current kind of sync, and reads a freed node as soon as one does;
  it never removes a document safely.\<close>

theorem delete_mp_doc_use_after_free:
  assumes "distinct (map mp_name_space (g_mp_head s))"
  shows "delete_mp_doc s =
    (if \<exists>mp\<in>set (g_mp_head s). mp_isSupplementarySync mp = g_supplementarySync s then None else Some s)"
  using delete_mp_doc_from_none [OF assms, of 0]
  by (auto simp: delete_mp_doc_def in_set_conv_nth Bex_def)

definition mp_st0 :: mp_st where
  "mp_st0 = meta_st.extend meta_st0 \<lparr>g_mp_head = [], g_ETAG = [], g_transID = [], g_ForceSyncTransID = [],
     g_contentLen = None, eventFlag = 0\<rparr>"

lemmas mp_st0_defs = mp_st0_def meta_st.defs meta_st0_def timer_st.defs timer_st0_def notify_st.defs notify_st0_def

theorem delete_mp_doc_use_after_free_witness:
  "delete_mp_doc (mp_st0\<lparr>g_mp_head :=
     [\<lparr>mp_etag = 5, mp_name_space = ''wan'', mp_data = ''x'', mp_isSupplementarySync = 0\<rparr>]\<rparr>) = None"
proof -
  let ?s = "mp_st0\<lparr>g_mp_head :=
     [\<lparr>mp_etag = 5, mp_name_space = ''wan'', mp_data = ''x'', mp_isSupplementarySync = 0\<rparr>]\<rparr>"
  have "distinct (map mp_name_space (g_mp_head ?s))" by simp
  from delete_mp_doc_use_after_free [OF this] show ?thesis by (simp add: mp_st0_defs)
qed

text \<open>An \<open>ETag\<close> response header, in any letter case, makes its number the root version of
  a primary sync, exactly for every 32-bit version; a supplementary sync leaves the root
  version alone.\<close>

theorem etag_header_root:
  assumes "map to_lower name = ''etag''" "n < 2 ^ 32"
    and "buffer = name @ '': '' @ dec n @ [CHR 0x0D, CHR 0x0A]"
  shows "get_global_root (snd (headr_callback buffer (length buffer) s)) =
    (if g_supplementarySync s = 0 then of_nat n else get_global_root s)"
proof -
  have c: "CHR '':'' \<notin> set name"
  proof
    assume "CHR '':'' \<in> set name"
    then have "to_lower (CHR '':'') \<in> set (map to_lower name)" unfolding set_map by (rule imageI)
    with assms(1) show False by simp
  qed
  have l: "length name = 4" using arg_cong [OF assms(1), of length] by simp
  then have n: "name \<noteq> []" by auto
  have "map to_lower buffer = map to_lower ''Etag:'' @ map to_lower ('' '' @ dec n @ [CHR 0x0D, CHR 0x0A])"
    using assms(1) by (simp add: assms(3))
  then have e: "strncasecmp_eq ''Etag:'' buffer (length ''Etag:'')"
    by (simp add: strncasecmp_eq_def)
  have "length ''Etag:'' < length buffer" using l by (simp add: assms(3))
  with e header_values_etag [OF c n assms(2)] length_dec_u32 [OF assms(2)] assms(2) show ?thesis
    by (simp add: headr_callback_def assms(3) get_global_root_def strtoul0_dec fit_def)
qed

theorem etag_header_root_witness:
  "get_global_root (snd (headr_callback (''ETag'' @ '': '' @ dec 1234 @ [CHR 0x0D, CHR 0x0A])
     (length (''ETag'' @ '': '' @ dec 1234 @ [CHR 0x0D, CHR 0x0A])) mp_st0)) = 1234"
proof -
  have "map to_lower ''ETag'' = ''etag''" "(1234::nat) < 2 ^ 32" by simp_all
  from etag_header_root [OF this refl, of mp_st0] show ?thesis by (simp add: mp_st0_defs)
qed

end
