(* ===== verification/Codec.thy ===== *)
theory Codec
  imports Msgpack
begin

text \<open>
  A concrete instance of the packer and the unpacker, in the msgpack format with the
  32-bit headers (\<open>str32\<close>, \<open>array32\<close>, \<open>map32\<close>) and \<open>uint64\<close>. It shows that the
  assumption \<open>msgpack_codec\<close> of the properties can be met; no property is about it.
\<close>

primrec be :: "nat \<Rightarrow> nat \<Rightarrow> string" where
  "be 0 n = []"
| "be (Suc k) n = be k (n div 256) @ [char_of (n mod 256)]"

definition rd_be :: "nat \<Rightarrow> string \<Rightarrow> (nat \<times> string) option" where
  "rd_be k s = (if length s < k then None
     else Some (foldl (\<lambda>a c. a * 256 + of_char c) 0 (take k s), drop k s))"

fun mp_write_op :: "pk_op \<Rightarrow> string" where
  "mp_write_op (PkMap n) = CHR 0xDF # be 4 n"
| "mp_write_op (PkArray n) = CHR 0xDD # be 4 n"
| "mp_write_op (PkStr n) = CHR 0xDB # be 4 n"
| "mp_write_op (PkStrBody s) = s"
| "mp_write_op (PkUint64 w) = CHR 0xCF # be 8 (unat w)"
| "mp_write_op (PkUint32 w) = CHR 0xCE # be 4 (unat w)"
| "mp_write_op (PkUint16 w) = CHR 0xCD # be 2 (unat w)"

definition mp_write :: "pk_op list \<Rightarrow> string" where
  "mp_write ops = concat (map mp_write_op ops)"

fun pair_up :: "'a list \<Rightarrow> ('a \<times> 'a) list" where
  "pair_up (x # y # zs) = (x, y) # pair_up zs"
| "pair_up _ = []"

text \<open>Every call uses one unit of fuel; the length of the input is enough.\<close>

fun rd_obj :: "nat \<Rightarrow> string \<Rightarrow> (msgpack_object \<times> string) option"
and rd_seq :: "nat \<Rightarrow> nat \<Rightarrow> string \<Rightarrow> (msgpack_object list \<times> string) option" where
  "rd_obj 0 s = None"
| "rd_obj (Suc f) [] = None"
| "rd_obj (Suc f) (c # s) =
     (if c = CHR 0xDB then
        (case rd_be 4 s of
           None \<Rightarrow> None
         | Some (n, r) \<Rightarrow> if n \<le> length r then Some (MpStr (take n r), drop n r) else None)
      else if c = CHR 0xCF then
        (case rd_be 8 s of None \<Rightarrow> None | Some (n, r) \<Rightarrow> Some (MpPosInt (of_nat n), r))
      else if c = CHR 0xDD then
        (case rd_be 4 s of
           None \<Rightarrow> None
         | Some (n, r) \<Rightarrow> map_option (\<lambda>(xs, r'). (MpArray xs, r')) (rd_seq f n r))
      else if c = CHR 0xDF then
        (case rd_be 4 s of
           None \<Rightarrow> None
         | Some (n, r) \<Rightarrow> map_option (\<lambda>(xs, r'). (MpMap (pair_up xs), r')) (rd_seq f (2 * n) r))
      else None)"
| "rd_seq f 0 s = Some ([], s)"
| "rd_seq 0 (Suc n) s = None"
| "rd_seq (Suc f) (Suc n) s =
     (case rd_obj f s of
        None \<Rightarrow> None
      | Some (x, r) \<Rightarrow> map_option (\<lambda>(xs, r'). (x # xs, r')) (rd_seq f n r))"

definition mp_unpack :: unpacker where
  "mp_unpack s = map_option (\<lambda>(obj, r). (obj, length s - length r)) (rd_obj (length s) s)"

section \<open>Reading back\<close>

lemma length_be [simp]: "length (be k n) = k"
  by (induction k arbitrary: n) auto

lemma foldl_be: "n < 256 ^ k \<Longrightarrow> foldl (\<lambda>a c. a * 256 + of_char c) 0 (be k n) = n"
proof (induction k arbitrary: n)
  case (Suc k)
  then have "n div 256 < 256 ^ k" by (simp add: less_mult_imp_div_less mult.commute)
  with Suc.IH show ?case by simp
qed simp

lemma rd_be_be: "n < 256 ^ k \<Longrightarrow> rd_be k (be k n @ r) = Some (n, r)"
  by (simp add: rd_be_def foldl_be)

definition enc :: "msgpack_object \<Rightarrow> string" where
  "enc obj = mp_write (ops_of obj)"

lemma mp_write_append [simp]: "mp_write (a @ b) = mp_write a @ mp_write b"
  by (simp add: mp_write_def)

lemma mp_write_Cons [simp]: "mp_write (x # b) = mp_write_op x @ mp_write b"
  by (simp add: mp_write_def)

lemma mp_write_Nil [simp]: "mp_write [] = []"
  by (simp add: mp_write_def)

lemma mp_write_concat: "mp_write (concat xss) = concat (map mp_write xss)"
  by (induction xss) auto

definition flat :: "('a \<times> 'a) list \<Rightarrow> 'a list" where
  "flat kvs = concat (map (\<lambda>(k, v). [k, v]) kvs)"

lemma pair_up_flat [simp]: "pair_up (flat kvs) = kvs"
  by (induction kvs) (auto simp: flat_def)

lemma length_flat [simp]: "length (flat kvs) = 2 * length kvs"
  by (induction kvs) (auto simp: flat_def)

lemma enc_simps:
  "enc (MpStr s) = CHR 0xDB # be 4 (length s) @ s"
  "enc (MpPosInt w) = CHR 0xCF # be 8 (unat w)"
  "enc (MpArray xs) = CHR 0xDD # be 4 (length xs) @ concat (map enc xs)"
  "enc (MpMap kvs) = CHR 0xDF # be 4 (length kvs) @ concat (map enc (flat kvs))"
proof -
  show "enc (MpStr s) = CHR 0xDB # be 4 (length s) @ s"
    "enc (MpPosInt w) = CHR 0xCF # be 8 (unat w)"
    by (simp_all add: enc_def msgpack_pack_string_def)
  show "enc (MpArray xs) = CHR 0xDD # be 4 (length xs) @ concat (map enc xs)"
    by (simp add: enc_def mp_write_concat comp_def enc_def [abs_def])
  have "mp_write (concat (map (\<lambda>(k, v). ops_of k @ ops_of v) kvs)) = concat (map enc (flat kvs))"
    by (induction kvs) (auto simp: flat_def enc_def)
  then show "enc (MpMap kvs) = CHR 0xDF # be 4 (length kvs) @ concat (map enc (flat kvs))"
    by (simp add: enc_def)
qed

lemma rd_seq_enc:
  assumes "\<And>x f r. x \<in> set xs \<Longrightarrow> length (enc x) \<le> Suc f \<Longrightarrow> rd_obj f (enc x @ r) = Some (x, r) \<and> 2 \<le> length (enc x)"
    and "\<And>x. x \<in> set xs \<Longrightarrow> 2 \<le> length (enc x)"
    and "length (concat (map enc xs)) \<le> f"
  shows "rd_seq f (length xs) (concat (map enc xs) @ r) = Some (xs, r)"
  using assms
proof (induction xs arbitrary: f)
  case (Cons x xs)
  have "2 \<le> length (enc x)" using Cons.prems(2) [of x] by simp
  then obtain g where f: "f = Suc g" using Cons.prems(3) by (cases f) auto
  have "rd_obj g (enc x @ concat (map enc xs) @ r) = Some (x, concat (map enc xs) @ r)"
    using Cons.prems(1) [of x g] Cons.prems(3) f by simp
  moreover have "length (concat (map enc xs)) \<le> g"
    using Cons.prems(3) f \<open>2 \<le> length (enc x)\<close> by simp
  then have "rd_seq g (length xs) (concat (map enc xs) @ r) = Some (xs, r)"
    using Cons.prems(1,2) by (intro Cons.IH) auto
  ultimately show ?case using f by simp
qed simp

text \<open>The elements of an object, for the induction.\<close>

fun mp_depth :: "msgpack_object \<Rightarrow> nat" where
  "mp_depth (MpArray xs) = Suc (sum_list (map mp_depth xs))"
| "mp_depth (MpMap kvs) = Suc (sum_list (map (\<lambda>(k, v). mp_depth k + mp_depth v) kvs))"
| "mp_depth _ = 0"

lemma depth_array: "x \<in> set xs \<Longrightarrow> mp_depth x < mp_depth (MpArray xs)"
  by (simp add: less_Suc_eq_le member_le_sum_list)

lemma depth_map:
  assumes "x \<in> set (flat kvs)"
  shows "mp_depth x < mp_depth (MpMap kvs)"
proof -
  obtain k v where kv: "(k, v) \<in> set kvs" "x = k \<or> x = v" using assms by (auto simp: flat_def)
  then have "mp_depth k + mp_depth v \<in> set (map (\<lambda>(k, v). mp_depth k + mp_depth v) kvs)" by force
  then have "mp_depth k + mp_depth v \<le> sum_list (map (\<lambda>(k, v). mp_depth k + mp_depth v) kvs)"
    by (rule member_le_sum_list) simp
  with kv(2) show ?thesis by auto
qed

lemma packable_flat: "list_all (\<lambda>(k, v). packable k \<and> packable v) kvs \<Longrightarrow> list_all packable (flat kvs)"
  by (induction kvs) (auto simp: flat_def)

lemma rd_obj_enc:
  "packable obj \<Longrightarrow>
   2 \<le> length (enc obj) \<and> (\<forall>f r. length (enc obj) \<le> Suc f \<longrightarrow> rd_obj f (enc obj @ r) = Some (obj, r))"
proof (induction "mp_depth obj" arbitrary: obj rule: less_induct)
  case less
  have e: "(256::nat) ^ 4 = 2 ^ 32" by simp
  have IH: "packable x \<Longrightarrow> mp_depth x < mp_depth obj \<Longrightarrow>
     2 \<le> length (enc x) \<and> (\<forall>f r. length (enc x) \<le> Suc f \<longrightarrow> rd_obj f (enc x @ r) = Some (x, r))" for x
    using less.hyps by blast
  show ?case
  proof (cases obj)
    case (MpPosInt w)
    have "unat w < 256 ^ 8" using unsigned_less [of w, where ?'a = nat] by simp
    then have be: "rd_be 8 (be 8 (unat w) @ r) = Some (unat w, r)" for r by (rule rd_be_be)
    have "rd_obj f (enc obj @ r) = Some (obj, r)" if len: "length (enc obj) \<le> Suc f" for f r
      using len by (cases f) (simp_all add: MpPosInt enc_simps be)
    then show ?thesis by (simp add: MpPosInt enc_simps)
  next
    case (MpStr s)
    then have "length s < 256 ^ 4" using less.prems e by simp
    then have be: "rd_be 4 (be 4 (length s) @ r) = Some (length s, r)" for r by (rule rd_be_be)
    have "rd_obj f (enc obj @ r) = Some (obj, r)" if len: "length (enc obj) \<le> Suc f" for f r
      using len by (cases f) (simp_all add: MpStr enc_simps be)
    then show ?thesis by (simp add: MpStr enc_simps)
  next
    case (MpArray xs)
    then have "length xs < 256 ^ 4" and p: "list_all packable xs" using less.prems e by auto
    then have be: "rd_be 4 (be 4 (length xs) @ r) = Some (length xs, r)" for r by (simp add: rd_be_be)
    have el: "2 \<le> length (enc x) \<and> (\<forall>f r. length (enc x) \<le> Suc f \<longrightarrow> rd_obj f (enc x @ r) = Some (x, r))"
      if "x \<in> set xs" for x
      using IH p depth_array [OF that] that MpArray by (auto simp: list_all_iff)
    have "rd_obj f (enc obj @ r) = Some (obj, r)" if len: "length (enc obj) \<le> Suc f" for f r
    proof -
      obtain g where f: "f = Suc g" and g: "length (concat (map enc xs)) \<le> g"
        using len by (cases f) (auto simp: MpArray enc_simps)
      have "rd_seq g (length xs) (concat (map enc xs) @ r) = Some (xs, r)"
        using el g by (intro rd_seq_enc) auto
      then show ?thesis by (simp add: f MpArray enc_simps be)
    qed
    then show ?thesis by (simp add: MpArray enc_simps)
  next
    case (MpMap kvs)
    then have "length kvs < 256 ^ 4" and p: "list_all packable (flat kvs)"
      using less.prems e packable_flat by auto
    then have be: "rd_be 4 (be 4 (length kvs) @ r) = Some (length kvs, r)" for r by (simp add: rd_be_be)
    have el: "2 \<le> length (enc x) \<and> (\<forall>f r. length (enc x) \<le> Suc f \<longrightarrow> rd_obj f (enc x @ r) = Some (x, r))"
      if "x \<in> set (flat kvs)" for x
      using IH p depth_map [OF that] that MpMap by (auto simp: list_all_iff)
    have "rd_obj f (enc obj @ r) = Some (obj, r)" if len: "length (enc obj) \<le> Suc f" for f r
    proof -
      obtain g where f: "f = Suc g" and g: "length (concat (map enc (flat kvs))) \<le> g"
        using len by (cases f) (auto simp: MpMap enc_simps)
      have "rd_seq g (length (flat kvs)) (concat (map enc (flat kvs)) @ r) = Some (flat kvs, r)"
        using el g by (intro rd_seq_enc) auto
      then show ?thesis by (simp add: f MpMap enc_simps be)
    qed
    then show ?thesis by (simp add: MpMap enc_simps)
  qed (use less.prems in auto)
qed

lemma mp_codec: "msgpack_codec mp_write mp_unpack"
  unfolding msgpack_codec_def
proof (intro allI impI conjI)
  fix obj assume "packable obj"
  note r = rd_obj_enc [OF this]
  have two: "2 \<le> length (enc obj)" by (rule conjunct1 [OF r])
  then show "mp_write (ops_of obj) \<noteq> []" by (metis enc_def le_zero_eq list.size(3) zero_neq_numeral)
  have "rd_obj (length (enc obj)) (enc obj @ []) = Some (obj, [])" using r by (meson le_SucI order_refl)
  then have "mp_unpack (mp_write (ops_of obj)) = Some (obj, length (enc obj))"
    by (simp add: mp_unpack_def enc_def)
  moreover have "0 < length (enc obj)" using two by linarith
  ultimately show "\<exists>off>0. mp_unpack (mp_write (ops_of obj)) = Some (obj, off)" by blast
qed

end
