(* ===== verification/Db.thy ===== *)
theory Db
  imports Param MpList Codec
begin

text \<open>
  The database of applied versions (\<open>src/src/webcfg_db.c\<close>, \<open>src/src/webcfg_pack.c\<close>):
  the list \<open>webcfgdb_data\<close> of documents with their versions, its file, and the status
  blob made from it and from the list \<open>g_head\<close> of documents in progress. The contents of
  the file are a parameter of \<open>initDB\<close> and the state component \<open>db_file\<close> after a write.
  The name of a database node may be NULL, hence \<open>string option\<close>; a status, error text
  or name of a node in progress is always the result of \<open>strdup\<close>. The result \<open>None\<close>
  marks \<open>strcmp\<close> on a NULL name.
\<close>

section \<open>State\<close>

record webconfig_db_data =
  db_name :: "string option"
  db_version :: u32
  db_root_string :: "string option"

record webconfig_tmp_data =
  tmp_name :: string
  tmp_version :: u32
  tmp_status :: string
  tmp_error_details :: string
  tmp_retry_count :: int
  tmp_error_code :: u16
  tmp_trans_id :: u16
  tmp_isSupplementarySync :: int
  tmp_retry_timestamp :: int
  tmp_cloud_trans_id :: string

record blob_data =
  bd_name :: "string option"
  bd_version :: u32
  bd_root_string :: "string option"
  bd_status :: "string option"
  bd_error_details :: "string option"
  bd_error_code :: u16

record db_st = mp_st +
  webcfgdb_data :: "webconfig_db_data list"
  webcfgdb_blob :: "string option"
  g_head :: "webconfig_tmp_data list"
  numOfMpDocs :: int
  success_doc_count :: int
  doc_fail_flag :: int
  db_file :: "string option"

definition reset_db_node :: "'z db_st_scheme \<Rightarrow> 'z db_st_scheme" where
  "reset_db_node s = s\<lparr>webcfgdb_data := []\<rparr>"

definition reset_numOfMpDocs :: "'z db_st_scheme \<Rightarrow> 'z db_st_scheme" where
  "reset_numOfMpDocs s = s\<lparr>numOfMpDocs := 0\<rparr>"

definition reset_successDocCount :: "'z db_st_scheme \<Rightarrow> 'z db_st_scheme" where
  "reset_successDocCount s = s\<lparr>success_doc_count := 0\<rparr>"

definition set_doc_fail :: "int \<Rightarrow> 'z db_st_scheme \<Rightarrow> 'z db_st_scheme" where
  "set_doc_fail v s = s\<lparr>doc_fail_flag := v\<rparr>"

section \<open>Packing (\<open>src/src/webcfg_pack.c\<close>)\<close>

definition db_entry_ops :: "webconfig_db_data \<Rightarrow> pk_op list" where
  "db_entry_ops d =
     PkMap (if db_root_string d \<noteq> None then 3 else 2)
     # msgpack_pack_string_nvp (Some ''name'') (db_name d)
     @ msgpack_pack_string ''version'' @ [PkUint64 (ucast (db_version d))]
     @ (if db_root_string d \<noteq> None
        then msgpack_pack_string_nvp (Some ''root_string'') (db_root_string d) else [])"

text \<open>\<open>None\<close>: the size \<open>-1\<close> and no data.\<close>

definition webcfgdb_pack ::
  "(pk_op list \<Rightarrow> string) \<Rightarrow> bool \<Rightarrow> webconfig_db_data list \<Rightarrow> nat \<Rightarrow> string option" where
  "webcfgdb_pack write mem packData count =
     (if packData = [] \<or> \<not> mem then None
      else Some (write (PkMap 1 # msgpack_pack_string ''webcfgdb'' @ PkArray count
                        # concat (map db_entry_ops packData))))"

definition blob_db_ops :: "webconfig_db_data \<Rightarrow> pk_op list" where
  "blob_db_ops d =
     PkMap (if db_root_string d \<noteq> None then 6 else 5)
     # msgpack_pack_string_nvp (Some ''name'') (db_name d)
     @ msgpack_pack_string ''version'' @ [PkUint64 (ucast (db_version d))]
     @ msgpack_pack_string_nvp (Some ''status'') (Some ''success'')
     @ msgpack_pack_string_nvp (Some ''error_details'') (Some ''none'')
     @ msgpack_pack_string ''error_code'' @ [PkUint64 0]
     @ (if db_root_string d \<noteq> None
        then msgpack_pack_string_nvp (Some ''root_string'') (db_root_string d) else [])"

definition blob_tmp_ops :: "webconfig_tmp_data \<Rightarrow> pk_op list" where
  "blob_tmp_ops t =
     PkMap 5
     # msgpack_pack_string_nvp (Some ''name'') (Some (tmp_name t))
     @ msgpack_pack_string ''version'' @ [PkUint64 (ucast (tmp_version t))]
     @ msgpack_pack_string_nvp (Some ''status'') (Some (tmp_status t))
     @ msgpack_pack_string_nvp (Some ''error_details'') (Some (tmp_error_details t))
     @ msgpack_pack_string ''error_code'' @ [PkUint64 (ucast (tmp_error_code t))]"

definition webcfgdb_blob_pack ::
  "(pk_op list \<Rightarrow> string) \<Rightarrow> bool \<Rightarrow> webconfig_db_data list \<Rightarrow> webconfig_tmp_data list \<Rightarrow> string option" where
  "webcfgdb_blob_pack write mem db tmp =
     (let pending = filter (\<lambda>t. tmp_status t \<noteq> ''success'') tmp
      in if (db = [] \<and> tmp = []) \<or> \<not> mem then None
         else Some (write (PkMap 1 # msgpack_pack_string ''webcfgblob''
                @ PkArray (length db + length pending)
                # concat (map blob_db_ops db) @ concat (map blob_tmp_ops pending))))"

section \<open>The file and the blob\<close>

text \<open>\<open>can_open\<close>: whether \<open>fopen\<close> succeeds; it truncates the file.\<close>

definition writeToDBFile :: "bool \<Rightarrow> string option \<Rightarrow> 'z db_st_scheme \<Rightarrow> int \<times> 'z db_st_scheme" where
  "writeToDBFile can_open data s =
     (if \<not> can_open then (0, s)
      else (case data of
          Some d \<Rightarrow> (1, s\<lparr>db_file := Some d\<rparr>)
        | None \<Rightarrow> (0, s\<lparr>db_file := Some []\<rparr>)))"

definition addNewDocEntry ::
  "(pk_op list \<Rightarrow> string) \<Rightarrow> bool \<Rightarrow> nat \<Rightarrow> 'z db_st_scheme \<Rightarrow> WEBCFG_STATUS \<times> 'z db_st_scheme" where
  "addNewDocEntry write can_open count s =
     (WEBCFG_SUCCESS, snd (writeToDBFile can_open (webcfgdb_pack write (mem_ok s) (webcfgdb_data s) count) s))"

definition generateBlob :: "(pk_op list \<Rightarrow> string) \<Rightarrow> 'z db_st_scheme \<Rightarrow> WEBCFG_STATUS \<times> 'z db_st_scheme" where
  "generateBlob write s =
     (if webcfgdb_data s \<noteq> [] \<or> g_head s \<noteq> [] then
        (if mem_ok s
         then (WEBCFG_SUCCESS, s\<lparr>webcfgdb_blob := webcfgdb_blob_pack write True (webcfgdb_data s) (g_head s)\<rparr>)
         else (WEBCFG_FAILURE, s\<lparr>webcfgdb_blob := None\<rparr>))
      else (WEBCFG_FAILURE, s\<lparr>webcfgdb_blob := None\<rparr>))"

definition get_DB_BLOB :: "(pk_op list \<Rightarrow> string) \<Rightarrow> 'z db_st_scheme \<Rightarrow> string option \<times> 'z db_st_scheme" where
  "get_DB_BLOB write s = (let s' = snd (generateBlob write s) in (webcfgdb_blob s', s'))"

text \<open>\<open>b64\<close> is the encoder of the base64 library; what the function decodes again is only
  logged.\<close>

definition base64blobencoder :: "(string \<Rightarrow> string) \<Rightarrow> bool \<Rightarrow> string \<Rightarrow> string option" where
  "base64blobencoder b64 mem blob_data = (if mem then Some (b64 blob_data) else None)"

definition get_DB_BLOB_base64 ::
  "(pk_op list \<Rightarrow> string) \<Rightarrow> (string \<Rightarrow> string) \<Rightarrow> 'z db_st_scheme \<Rightarrow> string option \<times> 'z db_st_scheme" where
  "get_DB_BLOB_base64 write b64 s =
     (case get_DB_BLOB write s of
        (None, s') \<Rightarrow> (None, s')
      | (Some blob, s') \<Rightarrow> (if mem_ok s' then Some (b64 blob) else None, s'))"

section \<open>Decoding\<close>

definition WD_INVALID_DATATYPE :: errno where "WD_INVALID_DATATYPE = 3"
definition WD_INVALID_WD_OBJECT :: errno where "WD_INVALID_WD_OBJECT = 4"
definition BD_INVALID_DATATYPE :: errno where "BD_INVALID_DATATYPE = 3"
definition BD_INVALID_BD_OBJECT :: errno where "BD_INVALID_BD_OBJECT = 4"

definition webcfgdbparam_strerror :: "errno \<Rightarrow> string" where
  "webcfgdbparam_strerror errnum = strerror_table
     [(HELPERS_OK, ''No errors.''),
      (HELPERS_OUT_OF_MEMORY, ''Out of memory.''),
      (HELPERS_INVALID_FIRST_ELEMENT, ''Invalid first element.''),
      (WD_INVALID_DATATYPE, ''Invalid '' @ [CHR 0x27] @ ''datatype'' @ [CHR 0x27] @ '' value.''),
      (WD_INVALID_WD_OBJECT, ''Invalid '' @ [CHR 0x27] @ ''parameters'' @ [CHR 0x27] @ '' array.'')] errnum"

definition webcfgdbblob_strerror :: "errno \<Rightarrow> string" where
  "webcfgdbblob_strerror errnum = strerror_table
     [(HELPERS_OK, ''No errors.''),
      (HELPERS_OUT_OF_MEMORY, ''Out of memory.''),
      (HELPERS_INVALID_FIRST_ELEMENT, ''Invalid first element.''),
      (BD_INVALID_DATATYPE, ''Invalid '' @ [CHR 0x27] @ ''datatype'' @ [CHR 0x27] @ '' value.''),
      (BD_INVALID_BD_OBJECT, ''Invalid '' @ [CHR 0x27] @ ''parameters'' @ [CHR 0x27] @ '' array.'')] errnum"

text \<open>The loop both map decoders share: until every bit of \<open>objects_left\<close> is cleared or the
  map ends.\<close>

fun objects_loop ::
  "('a \<Rightarrow> u8 \<Rightarrow> mp_kv \<Rightarrow> errno \<times> 'a + 'a \<times> u8) \<Rightarrow> 'a \<Rightarrow> u8 \<Rightarrow> mp_kv list \<Rightarrow> errno \<times> 'a + 'a \<times> u8" where
  "objects_loop step e objects_left [] = Inr (e, objects_left)"
| "objects_loop step e objects_left (kv # kvs) =
     (if 0 < objects_left then
        (case step e objects_left kv of
           Inl err \<Rightarrow> Inl err
         | Inr (e', left') \<Rightarrow> objects_loop step e' left' kvs)
      else Inr (e, objects_left))"

definition webcfgdbparams_kv :: "webconfig_db_data \<Rightarrow> u8 \<Rightarrow> mp_kv \<Rightarrow> errno \<times> webconfig_db_data + webconfig_db_data \<times> u8" where
  "webcfgdbparams_kv e objects_left kv =
     (case kv of
        (MpStr key, MpPosInt u) \<Rightarrow>
          if match_key key ''version'' then
            (if 4294967295 < u then Inl (WD_INVALID_DATATYPE, e)
             else Inr (e\<lparr>db_version := ucast u\<rparr>, clear_bit 1 objects_left))
          else Inr (e, objects_left)
      | (MpStr key, MpStr str) \<Rightarrow>
          if match_key key ''name''
          then Inr (e\<lparr>db_name := Some (strndup str (length str))\<rparr>, clear_bit 2 objects_left)
          else if match_key key ''root_string''
          then Inr (e\<lparr>db_root_string := Some (strndup str (length str))\<rparr>, clear_bit 0 objects_left)
          else Inr (e, objects_left)
      | _ \<Rightarrow> Inr (e, objects_left))"

definition process_webcfgdbparams :: "webconfig_db_data \<Rightarrow> mp_kv list \<Rightarrow> errno \<Rightarrow> int \<times> webconfig_db_data \<times> errno" where
  "process_webcfgdbparams e kvs errno =
     (case objects_loop webcfgdbparams_kv e 3 kvs of
        Inl (err, e') \<Rightarrow> (-1, e', err)
      | Inr (e', left) \<Rightarrow>
          (let (left', errno') = (if 1 AND left \<noteq> 0 then (clear_bit 0 left, errno) else (left, HELPERS_OK))
           in (if left' = 0 then 0 else -1, e', errno')))"

definition db_zero :: webconfig_db_data where
  "db_zero = \<lparr>db_name = None, db_version = 0, db_root_string = None\<rparr>"

text \<open>\<open>addToDBList\<close>: append, and count.\<close>

definition db_append :: "webconfig_db_data \<Rightarrow> webconfig_db_data list \<Rightarrow> webconfig_db_data list" where
  "db_append d ds = (if ds = [] then [d] else ds @ [d])"

definition addToDBList :: "webconfig_db_data \<Rightarrow> 'z db_st_scheme \<Rightarrow> 'z db_st_scheme" where
  "addToDBList d s =
     s\<lparr>webcfgdb_data := db_append d (webcfgdb_data s), success_doc_count := success_doc_count s + 1\<rparr>"

text \<open>\<open>process_webcfgdb\<close> starts a new list and adds the entries one by one, so those read
  before an error stay.\<close>

definition process_webcfgdb ::
  "webconfig_db_data \<Rightarrow> msgpack_object \<Rightarrow> errno \<Rightarrow> 'z db_st_scheme \<Rightarrow> int \<times> webconfig_db_data \<times> errno \<times> 'z db_st_scheme" where
  "process_webcfgdb wd obj errno s =
     (case obj of
        MpArray objs \<Rightarrow>
          if objs = [] then (0, wd, errno, s)
          else if \<not> mem_ok s then (-1, wd, errno, reset_db_node s)
          else (case decode_array process_webcfgdbparams db_zero WD_INVALID_WD_OBJECT (\<lambda>e. e) objs errno of
                  (rv, es, errno') \<Rightarrow> (rv, wd, errno', fold addToDBList es (reset_db_node s)))
      | _ \<Rightarrow> (0, wd, errno, s))"

definition decodeData ::
  "unpacker \<Rightarrow> string option \<Rightarrow> errno \<Rightarrow> 'z db_st_scheme \<Rightarrow> webconfig_db_data option \<times> errno \<times> 'z db_st_scheme" where
  "decodeData unpack buf errno s =
     helper_convert (mem_ok s) unpack db_zero buf (Some ''webcfgdb'') MSGPACK_OBJECT_ARRAY True
       process_webcfgdb errno s"

text \<open>\<open>contents = None\<close>: the file cannot be opened or is no regular file.\<close>

definition initDB ::
  "(pk_op list \<Rightarrow> string) \<Rightarrow> unpacker \<Rightarrow> string option \<Rightarrow> errno \<Rightarrow> 'z db_st_scheme \<Rightarrow> WEBCFG_STATUS \<times> 'z db_st_scheme" where
  "initDB write unpack contents errno s =
     (case contents of
        None \<Rightarrow> (WEBCFG_FAILURE, s)
      | Some data \<Rightarrow>
          if \<not> mem_ok s then (WEBCFG_FAILURE, s)
          else (case decodeData unpack (Some data) errno s of
              (None, _, s') \<Rightarrow> (WEBCFG_FAILURE, s')
            | (Some dm, _, s') \<Rightarrow> (WEBCFG_SUCCESS, snd (generateBlob write s'))))"

definition webcfgdbblobparams_kv :: "blob_data \<Rightarrow> u8 \<Rightarrow> mp_kv \<Rightarrow> errno \<times> blob_data + blob_data \<times> u8" where
  "webcfgdbblobparams_kv e objects_left kv =
     (case kv of
        (MpStr key, MpPosInt u) \<Rightarrow>
          if match_key key ''version'' then
            (if 4294967295 < u then Inl (BD_INVALID_DATATYPE, e)
             else Inr (e\<lparr>bd_version := ucast u\<rparr>, clear_bit 0 objects_left))
          else if match_key key ''error_code'' then
            (if 4294967295 < u then Inl (BD_INVALID_DATATYPE, e)
             else Inr (e\<lparr>bd_error_code := ucast u\<rparr>, clear_bit 4 objects_left))
          else Inr (e, objects_left)
      | (MpStr key, MpStr str) \<Rightarrow>
          let v = Some (strndup str (length str))
          in if match_key key ''name'' then Inr (e\<lparr>bd_name := v\<rparr>, clear_bit 0 objects_left)
             else if match_key key ''status'' then Inr (e\<lparr>bd_status := v\<rparr>, clear_bit 1 objects_left)
             else if match_key key ''error_details''
             then Inr (e\<lparr>bd_error_details := v\<rparr>, clear_bit 2 objects_left)
             else if match_key key ''root_string''
             then Inr (e\<lparr>bd_root_string := v\<rparr>, clear_bit 3 objects_left)
             else Inr (e, objects_left)
      | _ \<Rightarrow> Inr (e, objects_left))"

definition process_webcfgdbblobparams :: "blob_data \<Rightarrow> mp_kv list \<Rightarrow> errno \<Rightarrow> int \<times> blob_data \<times> errno" where
  "process_webcfgdbblobparams e kvs errno =
     (case objects_loop webcfgdbblobparams_kv e 15 kvs of
        Inl (err, e') \<Rightarrow> (-1, e', err)
      | Inr (e', left) \<Rightarrow>
          (let (left', errno') =
                 (if 1 AND left \<noteq> 0 then (left, errno)
                  else if 8 AND left \<noteq> 0 then (clear_bit 3 left, errno)
                  else (left, HELPERS_OK))
           in (if left' = 0 then 0 else -1, e', errno')))"

definition bd_zero :: blob_data where
  "bd_zero = \<lparr>bd_name = None, bd_version = 0, bd_root_string = None, bd_status = None,
     bd_error_details = None, bd_error_code = 0\<rparr>"

definition process_webcfgdbblob ::
  "bool \<Rightarrow> blob_data list \<Rightarrow> msgpack_object \<Rightarrow> errno \<Rightarrow> 's \<Rightarrow> int \<times> blob_data list \<times> errno \<times> 's" where
  "process_webcfgdbblob mem bd obj errno s =
     (case obj of
        MpArray objs \<Rightarrow>
          if objs = [] then (0, bd, errno, s)
          else if \<not> mem then (-1, [], errno, s)
          else (case decode_array process_webcfgdbblobparams bd_zero BD_INVALID_BD_OBJECT (\<lambda>e. e) objs errno of
                  (rv, es, errno') \<Rightarrow> (rv, es, errno', s))
      | _ \<Rightarrow> (0, bd, errno, s))"

definition decodeBlobData :: "bool \<Rightarrow> unpacker \<Rightarrow> string option \<Rightarrow> errno \<Rightarrow> blob_data list option \<times> errno" where
  "decodeBlobData mem unpack buf errno =
     (case helper_convert mem unpack [] buf (Some ''webcfgblob'') MSGPACK_OBJECT_ARRAY True
             (process_webcfgdbblob mem) errno () of
        (bd, errno', _) \<Rightarrow> (bd, errno'))"

section \<open>Updating\<close>

text \<open>The traversal of \<open>updateDBlist\<close>: the status, and the list after it.\<close>

fun updateDB_walk ::
  "string \<Rightarrow> u32 \<Rightarrow> string option \<Rightarrow> webconfig_db_data list \<Rightarrow> (WEBCFG_STATUS \<times> webconfig_db_data list) option" where
  "updateDB_walk docname version rootstr [] = Some (WEBCFG_FAILURE, [])"
| "updateDB_walk docname version rootstr (d # ds) =
     (case db_name d of
        None \<Rightarrow> None
      | Some name \<Rightarrow>
          if docname = name then
            (if name = ''root'' then
               (if db_version d = version \<and> db_root_string d = rootstr then Some (WEBCFG_NO_CHANGE, d # ds)
                else Some (WEBCFG_SUCCESS, d\<lparr>db_version := version, db_root_string := rootstr\<rparr> # ds))
             else Some (WEBCFG_SUCCESS, d\<lparr>db_version := version\<rparr> # ds))
          else map_option (\<lambda>(st, ds'). (st, d # ds')) (updateDB_walk docname version rootstr ds))"

definition updateDBlist ::
  "string \<Rightarrow> u32 \<Rightarrow> string option \<Rightarrow> 'z db_st_scheme \<Rightarrow> (WEBCFG_STATUS \<times> 'z db_st_scheme) option" where
  "updateDBlist docname version rootstr s =
     (case updateDB_walk docname version rootstr (webcfgdb_data s) of
        None \<Rightarrow> None
      | Some (st, ds) \<Rightarrow> Some (st, s\<lparr>webcfgdb_data := ds\<rparr>))"

definition checkDBList ::
  "string \<Rightarrow> u32 \<Rightarrow> string option \<Rightarrow> 'z db_st_scheme \<Rightarrow> (WEBCFG_STATUS \<times> 'z db_st_scheme) option" where
  "checkDBList docname version rootstr s =
     (case updateDBlist docname version rootstr s of
        None \<Rightarrow> None
      | Some (WEBCFG_FAILURE, s1) \<Rightarrow>
          if mem_ok s1
          then Some (WEBCFG_SUCCESS,
                 addToDBList \<lparr>db_name = Some docname, db_version = version,
                   db_root_string = (if docname = ''root'' then rootstr else None)\<rparr> s1)
          else Some (WEBCFG_FAILURE, s1)
      | Some (WEBCFG_NO_CHANGE, s1) \<Rightarrow> Some (WEBCFG_NO_CHANGE, s1)
      | Some (WEBCFG_SUCCESS, s1) \<Rightarrow> Some (WEBCFG_SUCCESS, s1))"

section \<open>The entry formats\<close>

lemma ucast_u32_u64 [simp]: "ucast (ucast (v :: u32) :: u64) = v"
  by (rule ucast_up_ucast_id) (simp add: is_up)

lemma ucast_u16_u64_u16 [simp]: "ucast (ucast (v :: u16) :: u64) = v"
  by (rule ucast_up_ucast_id) (simp add: is_up)

lemma u32_le_max: "\<not> 4294967295 < (ucast (v :: u32) :: u64)"
proof -
  have "uint v < 4294967296" using uint_lt2p [of v] by simp
  then show ?thesis by (simp add: word_less_alt uint_up_ucast is_up)
qed

lemma u16_le_max: "\<not> 4294967295 < (ucast (v :: u16) :: u64)"
proof -
  have "uint v < 65536" using uint_lt2p [of v] by simp
  then show ?thesis by (simp add: word_less_alt uint_up_ucast is_up)
qed

lemma clear_bit_db [simp]:
  "clear_bit 0 15 = 14" "clear_bit 0 14 = 14" "clear_bit (Suc 0) 14 = 12" "clear_bit 2 12 = 8"
  "clear_bit 4 8 = 8" "clear_bit 3 8 = 0"
  by (simp_all add: clear_bit_def)

lemma match_db_keys [simp]:
  "\<not> match_key ''version'' ''name''" "\<not> match_key ''root_string'' ''name''"
  "\<not> match_key ''error_code'' ''version''" "\<not> match_key ''status'' ''name''"
  "\<not> match_key ''error_details'' ''name''" "\<not> match_key ''error_details'' ''status''"
  "\<not> match_key ''root_string'' ''status''" "\<not> match_key ''root_string'' ''error_details''"
  by (simp_all add: match_key_def)

definition opt_nul_free :: "string option \<Rightarrow> bool" where
  "opt_nul_free p = (case p of None \<Rightarrow> True | Some v \<Rightarrow> nul_free v)"

definition db_fields :: "webconfig_db_data \<Rightarrow> mp_kv list" where
  "db_fields d =
     (case db_name d of None \<Rightarrow> [] | Some n \<Rightarrow> [(MpStr ''name'', MpStr n)])
     @ [(MpStr ''version'', MpPosInt (ucast (db_version d)))]
     @ (case db_root_string d of None \<Rightarrow> [] | Some r \<Rightarrow> [(MpStr ''root_string'', MpStr r)])"

definition db_entry_ok :: "webconfig_db_data \<Rightarrow> bool" where
  "db_entry_ok d \<longleftrightarrow> (\<exists>n. db_name d = Some n \<and> nul_free n) \<and> opt_nul_free (db_root_string d)"

lemma db_entry_ops: "db_entry_ok d \<Longrightarrow> db_entry_ops d = ops_of (MpMap (db_fields d))"
  by (auto simp: db_entry_ok_def db_entry_ops_def db_fields_def msgpack_pack_string_nvp_def split: option.splits)

lemma process_webcfgdbparams_fields:
  assumes "db_entry_ok d"
  shows "\<exists>errno'. process_webcfgdbparams db_zero (db_fields d) errno = (0, d, errno')"
  using assms
  by (cases d)
    (auto simp: db_entry_ok_def opt_nul_free_def db_fields_def process_webcfgdbparams_def webcfgdbparams_kv_def
      db_zero_def u32_le_max split: option.splits)

interpretation dbe: entry_codec db_fields process_webcfgdbparams db_zero db_entry_ok
  by unfold_locales (rule process_webcfgdbparams_fields)

definition blob_fields :: "blob_data \<Rightarrow> mp_kv list" where
  "blob_fields b =
     [(MpStr ''name'', MpStr (the (bd_name b))), (MpStr ''version'', MpPosInt (ucast (bd_version b))),
      (MpStr ''status'', MpStr (the (bd_status b))), (MpStr ''error_details'', MpStr (the (bd_error_details b))),
      (MpStr ''error_code'', MpPosInt (ucast (bd_error_code b)))]
     @ (case bd_root_string b of None \<Rightarrow> [] | Some r \<Rightarrow> [(MpStr ''root_string'', MpStr r)])"

definition blob_entry_ok :: "blob_data \<Rightarrow> bool" where
  "blob_entry_ok b \<longleftrightarrow>
     (\<exists>n. bd_name b = Some n \<and> nul_free n) \<and> (\<exists>n. bd_status b = Some n \<and> nul_free n)
     \<and> (\<exists>n. bd_error_details b = Some n \<and> nul_free n) \<and> opt_nul_free (bd_root_string b)"

lemma process_webcfgdbblobparams_fields:
  assumes "blob_entry_ok b"
  shows "\<exists>errno'. process_webcfgdbblobparams bd_zero (blob_fields b) errno = (0, b, errno')"
  using assms
  by (cases b)
    (auto simp: blob_entry_ok_def opt_nul_free_def blob_fields_def process_webcfgdbblobparams_def
      webcfgdbblobparams_kv_def bd_zero_def u32_le_max u16_le_max Let_def split: option.splits)

interpretation bde: entry_codec blob_fields process_webcfgdbblobparams bd_zero blob_entry_ok
  by unfold_locales (rule process_webcfgdbblobparams_fields)

section \<open>Packing and reading back\<close>

definition opt_short :: "string option \<Rightarrow> bool" where
  "opt_short p = (case p of None \<Rightarrow> True | Some v \<Rightarrow> length v < 2 ^ 32)"

definition db_short :: "webconfig_db_data \<Rightarrow> bool" where
  "db_short d \<longleftrightarrow> opt_short (db_name d) \<and> opt_short (db_root_string d)"

definition db_object :: "webconfig_db_data list \<Rightarrow> msgpack_object" where
  "db_object ds = MpMap [(MpStr ''webcfgdb'', MpArray (map (\<lambda>d. MpMap (db_fields d)) ds))]"

lemma packable_db_object:
  "list_all db_short ds \<Longrightarrow> length ds < 2 ^ 32 \<Longrightarrow> packable (db_object ds)"
  by (auto simp: db_object_def db_fields_def db_short_def opt_short_def list_all_iff split: option.splits)

lemma concat_db_entry_ops:
  "list_all db_entry_ok ds \<Longrightarrow>
   concat (map db_entry_ops ds) = concat (map ops_of (map (\<lambda>d. MpMap (db_fields d)) ds))"
  by (induction ds) (auto simp: db_entry_ops)

lemma webcfgdb_pack_object:
  "ds \<noteq> [] \<Longrightarrow> list_all db_entry_ok ds \<Longrightarrow>
   webcfgdb_pack write True ds (length ds) = Some (write (ops_of (db_object ds)))"
  using concat_db_entry_ops [of ds]
  by (simp add: webcfgdb_pack_def db_object_def msgpack_pack_string_def comp_def)

lemma db_append_snoc [simp]: "db_append d ds = ds @ [d]"
  by (simp add: db_append_def)

lemma fold_addToDBList:
  "fold addToDBList es s =
     s\<lparr>webcfgdb_data := webcfgdb_data s @ es, success_doc_count := success_doc_count s + int (length es)\<rparr>"
  by (induction es arbitrary: s) (auto simp: addToDBList_def)

lemma process_webcfgdb_fields:
  assumes "mem_ok t" "ds \<noteq> []" "list_all db_entry_ok ds"
  shows "\<exists>e'. process_webcfgdb wd (MpArray (map (\<lambda>d. MpMap (db_fields d)) ds)) e t =
    (0, wd, e', t\<lparr>webcfgdb_data := ds, success_doc_count := success_doc_count t + int (length ds)\<rparr>)"
proof -
  obtain e' where "decode_array process_webcfgdbparams db_zero WD_INVALID_WD_OBJECT (\<lambda>e. e)
      (map (\<lambda>d. MpMap (db_fields d)) ds) e = (0, ds, e')"
    using dbe.decode_array_fields [OF assms(3)] by blast
  with assms(1,2) show ?thesis
    by (simp add: process_webcfgdb_def fold_addToDBList reset_db_node_def)
qed

lemma initDB_object:
  assumes "msgpack_codec write unpack" "mem_ok t" "ds \<noteq> []" "list_all db_entry_ok ds"
    and "list_all db_short ds" "length ds < 2 ^ 32"
  shows "fst (initDB write unpack (Some (write (ops_of (db_object ds)))) e t) = WEBCFG_SUCCESS
    \<and> webcfgdb_data (snd (initDB write unpack (Some (write (ops_of (db_object ds)))) e t)) = ds
    \<and> success_doc_count (snd (initDB write unpack (Some (write (ops_of (db_object ds)))) e t)) =
        success_doc_count t + int (length ds)"
proof -
  obtain off where off: "0 < off" "unpack (write (ops_of (db_object ds))) = Some (db_object ds, off)"
    "write (ops_of (db_object ds)) \<noteq> []"
    using msgpack_codecD [OF assms(1) packable_db_object [OF assms(5,6)]] by blast
  obtain e' where "process_webcfgdb db_zero (MpArray (map (\<lambda>d. MpMap (db_fields d)) ds)) e t =
    (0, db_zero, e', t\<lparr>webcfgdb_data := ds, success_doc_count := success_doc_count t + int (length ds)\<rparr>)"
    using process_webcfgdb_fields [OF assms(2-4)] by blast
  with helper_convert_wrapped [of unpack, OF _ off(1,3), where w = "''webcfgdb''" and ty = MSGPACK_OBJECT_ARRAY
      and process = process_webcfgdb and zero = db_zero and opt = True and errno = e and s = t]
  have "decodeData unpack (Some (write (ops_of (db_object ds)))) e t =
    (Some db_zero, HELPERS_OK, t\<lparr>webcfgdb_data := ds, success_doc_count := success_doc_count t + int (length ds)\<rparr>)"
    using off(2) assms(2) by (simp add: decodeData_def db_object_def)
  with assms(2) show ?thesis by (simp add: initDB_def generateBlob_def)
qed

section \<open>The database as a map\<close>

definition db_names :: "webconfig_db_data list \<Rightarrow> string option list" where
  "db_names ds = map db_name ds"

definition db_inv :: "'z db_st_scheme \<Rightarrow> bool" where
  "db_inv s \<longleftrightarrow> None \<notin> set (db_names (webcfgdb_data s)) \<and> distinct (db_names (webcfgdb_data s))
     \<and> success_doc_count s = int (length (webcfgdb_data s))"

text \<open>What the database promises: the version and the root string of every document.\<close>

definition db_map :: "webconfig_db_data list \<Rightarrow> string \<Rightarrow> (u32 \<times> string option) option" where
  "db_map ds d = map_option (\<lambda>n. (db_version n, db_root_string n)) (find (\<lambda>n. db_name n = Some d) ds)"

definition db_update :: "string \<Rightarrow> u32 \<Rightarrow> string option \<Rightarrow> (string \<Rightarrow> (u32 \<times> string option) option) \<Rightarrow>
    string \<Rightarrow> (u32 \<times> string option) option" where
  "db_update d v r m = m(d \<mapsto> (v, if d = ''root'' then r
      else (case m d of None \<Rightarrow> None | Some (_, r') \<Rightarrow> r')))"

lemma db_map_simps [simp]:
  "db_map [] d = None"
  "db_map (n # ns) d = (if db_name n = Some d then Some (db_version n, db_root_string n) else db_map ns d)"
  by (simp_all add: db_map_def)

lemma db_map_None: "db_map ds d = None \<longleftrightarrow> Some d \<notin> set (db_names ds)"
  by (induction ds) (auto simp: db_names_def)

lemma updateDB_walk_spec:
  assumes "None \<notin> set (db_names ds)"
  shows "\<exists>st ds'. updateDB_walk d v r ds = Some (st, ds') \<and> db_names ds' = db_names ds \<and>
    (st = WEBCFG_FAILURE \<longleftrightarrow> db_map ds d = None) \<and>
    (st = WEBCFG_NO_CHANGE \<longleftrightarrow> d = ''root'' \<and> db_map ds d = Some (v, r)) \<and>
    (db_map ds d = None \<longrightarrow> ds' = ds) \<and>
    (db_map ds d \<noteq> None \<longrightarrow> db_map ds' = db_update d v r (db_map ds))"
  using assms
proof (induction ds)
  case Nil
  show ?case by simp
next
  case (Cons n ns)
  then obtain nm where nm: "db_name n = Some nm" by (cases "db_name n") (auto simp: db_names_def)
  show ?case
  proof (cases "d = nm")
    case True
    with nm show ?thesis by (auto simp: db_names_def db_update_def fun_eq_iff)
  next
    case False
    have "None \<notin> set (db_names ns)" using Cons.prems by (simp add: db_names_def)
    from Cons.IH [OF this] obtain st ns' where IH: "updateDB_walk d v r ns = Some (st, ns')" "db_names ns' = db_names ns"
      "st = WEBCFG_FAILURE \<longleftrightarrow> db_map ns d = None"
      "st = WEBCFG_NO_CHANGE \<longleftrightarrow> d = ''root'' \<and> db_map ns d = Some (v, r)"
      "db_map ns d = None \<longrightarrow> ns' = ns" "db_map ns d \<noteq> None \<longrightarrow> db_map ns' = db_update d v r (db_map ns)"
      by (elim exE conjE) (rule that)
    have m: "db_map (n # ns) d = db_map ns d" using nm False by simp
    have w: "updateDB_walk d v r (n # ns) = Some (st, n # ns')" using IH(1) nm False by simp
    have k: "db_names (n # ns') = db_names (n # ns)" using IH(2) by (simp add: db_names_def)
    have e: "db_map ns d = None \<longrightarrow> n # ns' = n # ns" using IH(5) by simp
    have u: "db_map ns d \<noteq> None \<longrightarrow> db_map (n # ns') = db_update d v r (db_map (n # ns))"
      using IH(6) nm False by (auto simp: db_update_def fun_eq_iff)
    show ?thesis
      unfolding m by (rule exI [of _ st], rule exI [of _ "n # ns'"]) (intro conjI w k IH(3,4) e u)
  qed
qed

lemma db_map_snoc: "db_map (ds @ [n]) e = (case db_map ds e of
    None \<Rightarrow> if db_name n = Some e then Some (db_version n, db_root_string n) else None
  | Some x \<Rightarrow> Some x)"
  by (induction ds) auto

lemma checkDBList_spec:
  assumes "db_inv s" "mem_ok s"
  shows "\<exists>st s'. checkDBList d v r s = Some (st, s') \<and> db_inv s' \<and>
    db_map (webcfgdb_data s') = db_update d v r (db_map (webcfgdb_data s)) \<and>
    st = (if d = ''root'' \<and> db_map (webcfgdb_data s) d = Some (v, r) then WEBCFG_NO_CHANGE else WEBCFG_SUCCESS) \<and>
    success_doc_count s' = success_doc_count s + (if db_map (webcfgdb_data s) d = None then 1 else 0)"
proof -
  let ?ds = "webcfgdb_data s"
  have names: "None \<notin> set (db_names ?ds)" "distinct (db_names ?ds)"
    and count: "success_doc_count s = int (length ?ds)" using assms(1) by (auto simp: db_inv_def)
  from updateDB_walk_spec [OF names(1), of d v r] obtain st ds' where
    w: "updateDB_walk d v r ?ds = Some (st, ds')" "db_names ds' = db_names ?ds"
      "st = WEBCFG_FAILURE \<longleftrightarrow> db_map ?ds d = None"
      "st = WEBCFG_NO_CHANGE \<longleftrightarrow> d = ''root'' \<and> db_map ?ds d = Some (v, r)"
      "db_map ?ds d = None \<longrightarrow> ds' = ?ds" "db_map ?ds d \<noteq> None \<longrightarrow> db_map ds' = db_update d v r (db_map ?ds)"
    by (elim exE conjE) (rule that)
  have len: "length ds' = length ?ds" using w(2) by (metis db_names_def length_map)
  show ?thesis
  proof (cases "db_map ?ds d = None")
    case True
    let ?n = "\<lparr>db_name = Some d, db_version = v, db_root_string = (if d = ''root'' then r else None)\<rparr>"
    have c: "checkDBList d v r s = Some (WEBCFG_SUCCESS, addToDBList ?n s)"
      using w True assms(2) by (simp add: checkDBList_def updateDBlist_def)
    have "db_inv (addToDBList ?n s)"
      using names count True by (auto simp: db_inv_def addToDBList_def db_names_def db_map_None)
    moreover have "db_map (?ds @ [?n]) = db_update d v r (db_map ?ds)"
      using True by (auto simp: db_map_snoc db_update_def fun_eq_iff split: option.splits)
    then have "db_map (webcfgdb_data (addToDBList ?n s)) = db_update d v r (db_map ?ds)"
      by (simp add: addToDBList_def)
    ultimately show ?thesis using c True by (simp add: addToDBList_def)
  next
    case False
    then have "checkDBList d v r s = Some (st, s\<lparr>webcfgdb_data := ds'\<rparr>)"
      using w by (cases st) (auto simp: checkDBList_def updateDBlist_def)
    moreover have "db_inv (s\<lparr>webcfgdb_data := ds'\<rparr>)"
      using names count w(2) len by (simp add: db_inv_def)
    ultimately show ?thesis using w False by (cases st) auto
  qed
qed

section \<open>The status blob\<close>

definition blob_of_db :: "webconfig_db_data \<Rightarrow> blob_data" where
  "blob_of_db d = \<lparr>bd_name = db_name d, bd_version = db_version d, bd_root_string = db_root_string d,
     bd_status = Some ''success'', bd_error_details = Some ''none'', bd_error_code = 0\<rparr>"

definition blob_of_tmp :: "webconfig_tmp_data \<Rightarrow> blob_data" where
  "blob_of_tmp t = \<lparr>bd_name = Some (tmp_name t), bd_version = tmp_version t, bd_root_string = None,
     bd_status = Some (tmp_status t), bd_error_details = Some (tmp_error_details t), bd_error_code = tmp_error_code t\<rparr>"

definition blob_entries :: "webconfig_db_data list \<Rightarrow> webconfig_tmp_data list \<Rightarrow> blob_data list" where
  "blob_entries db tmp = map blob_of_db db @ map blob_of_tmp (filter (\<lambda>t. tmp_status t \<noteq> ''success'') tmp)"

definition tmp_entry_ok :: "webconfig_tmp_data \<Rightarrow> bool" where
  "tmp_entry_ok t \<longleftrightarrow> nul_free (tmp_name t) \<and> nul_free (tmp_status t) \<and> nul_free (tmp_error_details t)"

definition tmp_short :: "webconfig_tmp_data \<Rightarrow> bool" where
  "tmp_short t \<longleftrightarrow> length (tmp_name t) < 2 ^ 32 \<and> length (tmp_status t) < 2 ^ 32
     \<and> length (tmp_error_details t) < 2 ^ 32"

definition blob_object :: "blob_data list \<Rightarrow> msgpack_object" where
  "blob_object bs = MpMap [(MpStr ''webcfgblob'', MpArray (map (\<lambda>b. MpMap (blob_fields b)) bs))]"

lemma blob_db_ops: "db_entry_ok d \<Longrightarrow> blob_db_ops d = ops_of (MpMap (blob_fields (blob_of_db d)))"
  by (auto simp: db_entry_ok_def blob_db_ops_def blob_fields_def blob_of_db_def msgpack_pack_string_nvp_def
      split: option.splits)

lemma blob_tmp_ops: "blob_tmp_ops t = ops_of (MpMap (blob_fields (blob_of_tmp t)))"
  by (simp add: blob_tmp_ops_def blob_fields_def blob_of_tmp_def msgpack_pack_string_nvp_def)

lemma blob_entries_ok:
  "list_all db_entry_ok db \<Longrightarrow> list_all tmp_entry_ok tmp \<Longrightarrow> list_all blob_entry_ok (blob_entries db tmp)"
  by (auto simp: list_all_iff blob_entries_def blob_entry_ok_def blob_of_db_def blob_of_tmp_def
      db_entry_ok_def tmp_entry_ok_def opt_nul_free_def nul_free_def)

lemma packable_blob_of_db:
  "db_short d \<Longrightarrow> db_entry_ok d \<Longrightarrow> packable (MpMap (blob_fields (blob_of_db d)))"
  by (cases d) (auto simp: blob_fields_def blob_of_db_def db_short_def opt_short_def db_entry_ok_def split: option.splits)

lemma packable_blob_of_tmp: "tmp_short t \<Longrightarrow> packable (MpMap (blob_fields (blob_of_tmp t)))"
  by (simp add: blob_fields_def blob_of_tmp_def tmp_short_def)

lemma packable_blob_object:
  assumes "list_all db_short db" "list_all tmp_short tmp" "length db + length tmp < 2 ^ 32"
    and "list_all db_entry_ok db"
  shows "packable (blob_object (blob_entries db tmp))"
proof -
  have "length (filter (\<lambda>t. tmp_status t \<noteq> ''success'') tmp) \<le> length tmp" by (rule length_filter_le)
  with assms(3) have l: "length (blob_entries db tmp) < 2 ^ 32"
    unfolding blob_entries_def length_append length_map by linarith
  have "packable (MpMap (blob_fields b))" if "b \<in> set (blob_entries db tmp)" for b
    using that assms packable_blob_of_db packable_blob_of_tmp
    by (auto simp only: list_all_iff blob_entries_def set_append set_map set_filter)
  with l show ?thesis by (auto simp: blob_object_def list_all_iff)
qed

lemma webcfgdb_blob_pack_object:
  assumes "list_all db_entry_ok db" "db \<noteq> [] \<or> tmp \<noteq> []"
  shows "webcfgdb_blob_pack write True db tmp = Some (write (ops_of (blob_object (blob_entries db tmp))))"
proof -
  have "concat (map blob_db_ops db) = concat (map (\<lambda>d. ops_of (MpMap (blob_fields (blob_of_db d)))) db)"
    using assms(1) by (induction db) (auto simp: blob_db_ops)
  moreover have "concat (map blob_tmp_ops ts) = concat (map (\<lambda>t. ops_of (MpMap (blob_fields (blob_of_tmp t)))) ts)" for ts
    by (simp only: blob_tmp_ops [abs_def])
  ultimately show ?thesis
    using assms(2)
    by (auto simp: webcfgdb_blob_pack_def blob_object_def blob_entries_def msgpack_pack_string_def comp_def Let_def)
qed

lemma decodeBlobData_object:
  assumes "msgpack_codec write unpack" "list_all blob_entry_ok bs" "packable (blob_object bs)"
  shows "decodeBlobData True unpack (Some (write (ops_of (blob_object bs)))) e = (Some bs, HELPERS_OK)"
proof -
  obtain off where off: "0 < off" "unpack (write (ops_of (blob_object bs))) = Some (blob_object bs, off)"
    "write (ops_of (blob_object bs)) \<noteq> []"
    using msgpack_codecD [OF assms(1,3)] by blast
  obtain e' where "decode_array process_webcfgdbblobparams bd_zero BD_INVALID_BD_OBJECT (\<lambda>e. e)
      (map (\<lambda>b. MpMap (blob_fields b)) bs) e = (0, bs, e')"
    using bde.decode_array_fields [OF assms(2)] by blast
  then have "process_webcfgdbblob True [] (MpArray (map (\<lambda>b. MpMap (blob_fields b)) bs)) e () = (0, bs, (if bs = [] then e else e'), ())"
    by (auto simp: process_webcfgdbblob_def)
  with helper_convert_wrapped [of unpack, OF _ off(1,3), where w = "''webcfgblob''" and ty = MSGPACK_OBJECT_ARRAY
      and process = "process_webcfgdbblob True" and zero = "[]" and opt = True and errno = e and s = "()"] off(2)
  show ?thesis by (simp add: decodeBlobData_def blob_object_def)
qed

section \<open>Properties\<close>

text \<open>C6: \<open>checkDBList\<close> implements an update of the map from document names to versions: it
  never dereferences NULL, keeps every other document, keeps the root string of documents
  other than \<open>root\<close>, reports \<open>WEBCFG_NO_CHANGE\<close> exactly when \<open>root\<close> already has this
  version and string, keeps the names unique and the counter equal to the length of the
  list.\<close>

theorem checkDBList_refines:
  assumes "db_inv s" "mem_ok s"
  shows "\<exists>st s'. checkDBList d v r s = Some (st, s') \<and> db_inv s' \<and>
    db_map (webcfgdb_data s') = db_update d v r (db_map (webcfgdb_data s)) \<and>
    st = (if d = ''root'' \<and> db_map (webcfgdb_data s) d = Some (v, r) then WEBCFG_NO_CHANGE else WEBCFG_SUCCESS) \<and>
    success_doc_count s' = success_doc_count s + (if db_map (webcfgdb_data s) d = None then 1 else 0)"
  using assms by (rule checkDBList_spec)

definition db_st0 :: db_st where
  "db_st0 = mp_st.extend mp_st0 \<lparr>webcfgdb_data = [], webcfgdb_blob = None, g_head = [], numOfMpDocs = 0,
     success_doc_count = 0, doc_fail_flag = 0, db_file = None\<rparr>"

lemmas db_st0_defs = db_st0_def mp_st.defs mp_st0_defs

lemma db_st0_simps [simp]: "mem_ok db_st0" "webcfgdb_data db_st0 = []" "g_head db_st0 = []"
  "success_doc_count db_st0 = 0" "numOfMpDocs db_st0 = 0" "g_mp_head db_st0 = []" "g_supplementarySync db_st0 = 0"
  by (simp_all add: db_st0_defs)

theorem checkDBList_refines_witness:
  "\<exists>st s'. checkDBList ''wan'' 7 None (db_st0\<lparr>webcfgdb_data := [\<lparr>db_name = Some ''wan'', db_version = 5, db_root_string = None\<rparr>],
       success_doc_count := 1\<rparr>) = Some (st, s') \<and> db_map (webcfgdb_data s') ''wan'' = Some (7, None)"
proof -
  let ?s = "db_st0\<lparr>webcfgdb_data := [\<lparr>db_name = Some ''wan'', db_version = 5, db_root_string = None\<rparr>], success_doc_count := 1\<rparr>"
  have "db_inv ?s" "mem_ok ?s" by (simp_all add: db_inv_def db_names_def)
  from checkDBList_refines [OF this, of "''wan''" 7 None] obtain st s' where
    "checkDBList ''wan'' 7 None ?s = Some (st, s')"
    "db_map (webcfgdb_data s') = db_update ''wan'' 7 None (db_map (webcfgdb_data ?s))"
    by (elim exE conjE) (rule that)
  then show ?thesis by (simp add: db_update_def)
qed

text \<open>C7: what \<open>addNewDocEntry\<close> writes to the file, \<open>initDB\<close> of a later run reads back: the
  same documents, versions and root strings in the same order, and the counter grown by
  their number.\<close>

theorem db_persistence:
  assumes "msgpack_codec write unpack" "mem_ok s" "mem_ok t"
    and "webcfgdb_data s \<noteq> []" "list_all db_entry_ok (webcfgdb_data s)" "list_all db_short (webcfgdb_data s)"
    and "length (webcfgdb_data s) < 2 ^ 32" "success_doc_count s = int (length (webcfgdb_data s))"
  shows "let s1 = snd (addNewDocEntry write True (nat (success_doc_count s)) s);
             (st, t1) = initDB write unpack (db_file s1) e t
         in st = WEBCFG_SUCCESS \<and> webcfgdb_data t1 = webcfgdb_data s \<and>
            success_doc_count t1 = success_doc_count t + success_doc_count s"
proof -
  have "db_file (snd (addNewDocEntry write True (nat (success_doc_count s)) s)) =
      Some (write (ops_of (db_object (webcfgdb_data s))))"
    using assms(2,8) webcfgdb_pack_object [OF assms(4,5)]
    by (simp add: addNewDocEntry_def writeToDBFile_def)
  with initDB_object [OF assms(1,3-7), of e] assms(8) show ?thesis
    by (simp add: Let_def split_beta)
qed

theorem db_persistence_witness:
  "let s = db_st0\<lparr>webcfgdb_data := [\<lparr>db_name = Some ''wan'', db_version = 5, db_root_string = None\<rparr>], success_doc_count := 1\<rparr>;
       s1 = snd (addNewDocEntry mp_write True 1 s);
       (st, t1) = initDB mp_write mp_unpack (db_file s1) 0 db_st0
   in st = WEBCFG_SUCCESS \<and> webcfgdb_data t1 = [\<lparr>db_name = Some ''wan'', db_version = 5, db_root_string = None\<rparr>]"
proof -
  let ?s = "db_st0\<lparr>webcfgdb_data := [\<lparr>db_name = Some ''wan'', db_version = 5, db_root_string = None\<rparr>], success_doc_count := 1\<rparr>"
  have "mem_ok ?s" "mem_ok db_st0" "webcfgdb_data ?s \<noteq> []" "list_all db_entry_ok (webcfgdb_data ?s)"
    "list_all db_short (webcfgdb_data ?s)" "length (webcfgdb_data ?s) < 2 ^ 32"
    "success_doc_count ?s = int (length (webcfgdb_data ?s))"
    by (simp_all add: db_entry_ok_def nul_free_def opt_nul_free_def db_short_def opt_short_def)
  from db_persistence [OF mp_codec this, of 0] show ?thesis by (simp add: Let_def split_beta)
qed

text \<open>C33: the status blob, decoded again, lists every document of the database as applied,
  then every document in progress whose status is not \<open>success\<close> with its own status and
  error, in order.\<close>

theorem blob_roundtrip:
  assumes "msgpack_codec write unpack" "mem_ok s" "webcfgdb_data s \<noteq> [] \<or> g_head s \<noteq> []"
    and "list_all db_entry_ok (webcfgdb_data s)" "list_all db_short (webcfgdb_data s)"
    and "list_all tmp_entry_ok (g_head s)" "list_all tmp_short (g_head s)"
    and "length (webcfgdb_data s) + length (g_head s) < 2 ^ 32"
  shows "let (st, s1) = generateBlob write s
         in st = WEBCFG_SUCCESS \<and>
            decodeBlobData True unpack (webcfgdb_blob s1) e =
              (Some (blob_entries (webcfgdb_data s) (g_head s)), HELPERS_OK)"
proof -
  have "decodeBlobData True unpack (Some (write (ops_of (blob_object (blob_entries (webcfgdb_data s) (g_head s)))))) e =
      (Some (blob_entries (webcfgdb_data s) (g_head s)), HELPERS_OK)"
    using assms by (intro decodeBlobData_object blob_entries_ok packable_blob_object)
  with assms(2,3) webcfgdb_blob_pack_object [OF assms(4,3)] show ?thesis
    by (auto simp: generateBlob_def)
qed

theorem blob_roundtrip_witness:
  "let (st, s1) = generateBlob mp_write (db_st0\<lparr>webcfgdb_data :=
        [\<lparr>db_name = Some ''wan'', db_version = 5, db_root_string = None\<rparr>]\<rparr>)
   in decodeBlobData True mp_unpack (webcfgdb_blob s1) 0 =
     (Some [\<lparr>bd_name = Some ''wan'', bd_version = 5, bd_root_string = None, bd_status = Some ''success'',
       bd_error_details = Some ''none'', bd_error_code = 0\<rparr>], HELPERS_OK)"
proof -
  let ?s = "db_st0\<lparr>webcfgdb_data := [\<lparr>db_name = Some ''wan'', db_version = 5, db_root_string = None\<rparr>]\<rparr>"
  have "mem_ok ?s" "webcfgdb_data ?s \<noteq> [] \<or> g_head ?s \<noteq> []" "list_all db_entry_ok (webcfgdb_data ?s)"
    "list_all db_short (webcfgdb_data ?s)" "list_all tmp_entry_ok (g_head ?s)" "list_all tmp_short (g_head ?s)"
    "length (webcfgdb_data ?s) + length (g_head ?s) < 2 ^ 32"
    by (simp_all add: db_entry_ok_def nul_free_def opt_nul_free_def db_short_def opt_short_def)
  from blob_roundtrip [OF mp_codec this, of 0] show ?thesis
    by (simp add: split_beta blob_entries_def blob_of_db_def)
qed

text \<open>A database file in which an entry has a version but no name is accepted: the name
  is not among the fields the decoder waits for. The node it adds has a NULL name, and the
  next look at the database passes NULL to \<open>strcmp\<close>.\<close>

theorem nameless_db_entry:
  assumes "u \<le> 4294967295"
  shows "process_webcfgdbparams db_zero [(MpStr ''version'', MpPosInt u)] e =
      (0, db_zero\<lparr>db_version := ucast u\<rparr>, e)
    \<and> checkDBList d v r (addToDBList (db_zero\<lparr>db_version := ucast u\<rparr>) (s\<lparr>webcfgdb_data := []\<rparr>)) = None"
proof -
  have "\<not> 4294967295 < u" using assms by (simp add: not_less)
  then have "webcfgdbparams_kv db_zero 3 (MpStr ''version'', MpPosInt u) = Inr (db_zero\<lparr>db_version := ucast u\<rparr>, 1)"
    by (simp add: webcfgdbparams_kv_def)
  then have "process_webcfgdbparams db_zero [(MpStr ''version'', MpPosInt u)] e = (0, db_zero\<lparr>db_version := ucast u\<rparr>, e)"
    by (simp add: process_webcfgdbparams_def)
  moreover have "checkDBList d v r (addToDBList (db_zero\<lparr>db_version := ucast u\<rparr>) (s\<lparr>webcfgdb_data := []\<rparr>)) = None"
    by (simp add: checkDBList_def updateDBlist_def addToDBList_def db_zero_def)
  ultimately show ?thesis ..
qed

theorem nameless_db_entry_witness:
  "process_webcfgdbparams db_zero [(MpStr ''version'', MpPosInt 9)] 0 = (0, db_zero\<lparr>db_version := 9\<rparr>, 0)"
proof -
  have "(9 :: u64) \<le> 4294967295" by simp
  from nameless_db_entry [OF this, THEN conjunct1, of 0] show ?thesis by simp
qed

text \<open>With no document in the database, \<open>addNewDocEntry\<close> reports success and leaves an
  empty file; reading that file back succeeds and changes neither the list nor the
  counter.\<close>

theorem addNewDocEntry_empty:
  assumes "webcfgdb_data s = []" "mem_ok t"
  shows "let (st, s1) = addNewDocEntry write True n s; (st', t1) = initDB write unpack (db_file s1) e t
         in st = WEBCFG_SUCCESS \<and> db_file s1 = Some [] \<and> st' = WEBCFG_SUCCESS \<and>
            webcfgdb_data t1 = webcfgdb_data t \<and> success_doc_count t1 = success_doc_count t"
  using assms
  by (simp add: addNewDocEntry_def writeToDBFile_def webcfgdb_pack_def initDB_def decodeData_def helper_convert_def
      generateBlob_def Let_def)

theorem addNewDocEntry_empty_witness:
  "db_file (snd (addNewDocEntry mp_write True 0 db_st0)) = Some []"
proof -
  have "webcfgdb_data db_st0 = []" "mem_ok db_st0" by simp_all
  from addNewDocEntry_empty [OF this, of mp_write 0 mp_unpack 0] show ?thesis by (simp add: split_beta Let_def)
qed

end
