(* ===== verification/TmpList.thy ===== *)
theory TmpList
  imports Db
begin

text \<open>
  The list of documents in progress (\<open>g_head\<close> of \<open>src/src/webcfg_db.c\<close>): the document
  \<open>root\<close> first, then one node per subdocument with its status, error and retry data. A
  pointer to a node is its index; \<open>Freed\<close> is a pointer to a node that has been freed, and
  the result \<open>None\<close> marks a read through it (or, in \<open>addToTmpList\<close>, a loop that never
  ends because \<open>malloc\<close> keeps failing).
\<close>

datatype node_ptr = NullPtr | NodeAt nat | Freed

section \<open>Operations on one node\<close>

fun tmp_search :: "string \<Rightarrow> webconfig_tmp_data list \<Rightarrow> nat option" where
  "tmp_search docname [] = None"
| "tmp_search docname (t # ts) = (if docname = tmp_name t then Some 0 else map_option Suc (tmp_search docname ts))"

definition getTmpNode :: "string \<Rightarrow> 'z db_st_scheme \<Rightarrow> nat option" where
  "getTmpNode docname s = tmp_search docname (g_head s)"

definition tmp_update ::
  "u32 \<Rightarrow> string \<Rightarrow> string \<Rightarrow> u16 \<Rightarrow> u16 \<Rightarrow> int \<Rightarrow> webconfig_tmp_data \<Rightarrow> webconfig_tmp_data" where
  "tmp_update version status error_details error_code trans_id retry t =
     t\<lparr>tmp_version := version, tmp_status := status, tmp_error_details := error_details,
       tmp_error_code := error_code, tmp_trans_id := trans_id,
       tmp_retry_count := (if retry = 0 then 0 else tmp_retry_count t)\<rparr>"

definition updateTmpList ::
  "nat option \<Rightarrow> string \<Rightarrow> u32 \<Rightarrow> string \<Rightarrow> string \<Rightarrow> u16 \<Rightarrow> u16 \<Rightarrow> int \<Rightarrow> 'z db_st_scheme \<Rightarrow> WEBCFG_STATUS \<times> 'z db_st_scheme" where
  "updateTmpList temp docname version status error_details error_code trans_id retry s =
     (case temp of
        None \<Rightarrow> (WEBCFG_FAILURE, s)
      | Some i \<Rightarrow>
          if i < length (g_head s) \<and> docname = tmp_name (g_head s ! i)
          then (WEBCFG_SUCCESS,
                s\<lparr>g_head := upd_at i (tmp_update version status error_details error_code trans_id retry) (g_head s)\<rparr>)
          else (WEBCFG_FAILURE, s))"

definition updateFailureTimeStamp ::
  "nat option \<Rightarrow> string \<Rightarrow> int \<Rightarrow> 'z db_st_scheme \<Rightarrow> WEBCFG_STATUS \<times> 'z db_st_scheme" where
  "updateFailureTimeStamp temp docname timestamp s =
     (case temp of
        None \<Rightarrow> (WEBCFG_FAILURE, s)
      | Some i \<Rightarrow>
          if i < length (g_head s) \<and> docname = tmp_name (g_head s ! i)
          then (WEBCFG_SUCCESS, s\<lparr>g_head := upd_at i (\<lambda>t. t\<lparr>tmp_retry_timestamp := timestamp\<rparr>) (g_head s)\<rparr>)
          else (WEBCFG_FAILURE, s))"

definition checkTmpRootUpdate :: "'z db_st_scheme \<Rightarrow> 'z db_st_scheme" where
  "checkTmpRootUpdate s =
     (if numOfMpDocs s \<noteq> 0 \<and> g_supplementarySync s = 0
      then snd (updateTmpList (getTmpNode ''root'' s) ''root'' (get_global_root s) ''pending'' ''none'' 0 0 0 s)
      else s)"

section \<open>Deleting\<close>

definition node_at :: "nat \<Rightarrow> 'a list \<Rightarrow> node_ptr" where
  "node_at i xs = (if i < length xs then NodeAt i else NullPtr)"

text \<open>A pointer kept across the removal of the first node.\<close>

fun after_hd_removed :: "node_ptr \<Rightarrow> node_ptr" where
  "after_hd_removed (NodeAt i) = (if i = 0 then Freed else NodeAt (i - 1))"
| "after_hd_removed p = p"

fun tmp_unlink :: "string \<Rightarrow> webconfig_tmp_data list \<Rightarrow> (nat \<times> webconfig_tmp_data list) option" where
  "tmp_unlink doc_name [] = None"
| "tmp_unlink doc_name (t # ts) =
     (if tmp_name t = doc_name then Some (0, ts)
      else map_option (\<lambda>(i, ts'). (Suc i, t # ts')) (tmp_unlink doc_name ts))"

text \<open>\<open>*next_node\<close> is set only when the removed node is not the first.\<close>

definition deleteFromTmpList ::
  "string option \<Rightarrow> node_ptr \<Rightarrow> 'z db_st_scheme \<Rightarrow> WEBCFG_STATUS \<times> node_ptr \<times> 'z db_st_scheme" where
  "deleteFromTmpList doc_name next_node s =
     (case doc_name of
        None \<Rightarrow> (WEBCFG_FAILURE, next_node, s)
      | Some d \<Rightarrow> (case tmp_unlink d (g_head s) of
            None \<Rightarrow> (WEBCFG_FAILURE, next_node, s)
          | Some (i, ts) \<Rightarrow>
              (WEBCFG_SUCCESS, if i = 0 then after_hd_removed next_node else node_at i ts,
               s\<lparr>g_head := ts, numOfMpDocs := numOfMpDocs s - 1\<rparr>)))"

text \<open>The loop of \<open>delete_tmp_docs_list\<close> and \<open>release_success_docs_tmplist\<close>: a node selected
  is deleted by its name and the loop goes on at \<open>next_node\<close>.\<close>

lemma tmp_unlink_length: "tmp_unlink d ts = Some (i, ts') \<Longrightarrow> length ts = Suc (length ts')"
  by (induction ts arbitrary: i ts') (auto split: if_splits)

lemma tmp_unlink_None: "tmp_unlink d ts = None \<longleftrightarrow> d \<notin> tmp_name ` set ts"
  by (induction ts) auto

lemma deleteFromTmpList_shorter:
  assumes "deleteFromTmpList (Some (tmp_name (g_head s ! k))) nx s = (st, nx', s')" "k < length (g_head s)"
  shows "length (g_head s) = Suc (length (g_head s'))"
proof -
  have "tmp_name (g_head s ! k) \<in> tmp_name ` set (g_head s)" using assms(2) by simp
  then obtain i ts where "tmp_unlink (tmp_name (g_head s ! k)) (g_head s) = Some (i, ts)"
    using tmp_unlink_None by (metis not_None_eq surj_pair)
  with tmp_unlink_length [OF this] assms(1) show ?thesis by (auto simp: deleteFromTmpList_def)
qed

function tmp_walk ::
  "(webconfig_tmp_data \<Rightarrow> bool) \<Rightarrow> node_ptr \<Rightarrow> node_ptr \<Rightarrow> 'z db_st_scheme \<Rightarrow> 'z db_st_scheme option" where
  "tmp_walk sel NullPtr next_node s = Some s"
| "tmp_walk sel Freed next_node s = None"
| "tmp_walk sel (NodeAt k) next_node s =
     (if length (g_head s) \<le> k then None
      else if sel (g_head s ! k)
      then (case deleteFromTmpList (Some (tmp_name (g_head s ! k))) next_node s of
              (_, next_node', s') \<Rightarrow> tmp_walk sel next_node' next_node' s')
      else tmp_walk sel (node_at (Suc k) (g_head s)) next_node s)"
  by pat_completeness auto
termination
  by (relation "measures [\<lambda>(sel, temp, nx, s). length (g_head s),
    \<lambda>(sel, temp, nx, s). case temp of NodeAt k \<Rightarrow> length (g_head s) - k | _ \<Rightarrow> 0]")
    (auto simp: node_at_def not_le dest!: deleteFromTmpList_shorter [OF sym])

declare tmp_walk.simps(3) [simp del]

definition delete_tmp_docs_list :: "'z db_st_scheme \<Rightarrow> 'z db_st_scheme option" where
  "delete_tmp_docs_list s =
     tmp_walk (\<lambda>t. tmp_name t \<noteq> ''root'' \<and> tmp_isSupplementarySync t = g_supplementarySync s)
       (node_at 0 (g_head s)) NullPtr s"

definition release_success_docs_tmplist :: "'z db_st_scheme \<Rightarrow> 'z db_st_scheme option" where
  "release_success_docs_tmplist s =
     tmp_walk (\<lambda>t. tmp_status t = ''success'') (node_at 0 (g_head s)) NullPtr s"

definition delete_tmp_list :: "'z db_st_scheme \<Rightarrow> 'z db_st_scheme" where
  "delete_tmp_list s = s\<lparr>g_head := []\<rparr>"

section \<open>Adding the documents of a sync\<close>

definition tmp_append :: "webconfig_tmp_data \<Rightarrow> webconfig_tmp_data list \<Rightarrow> webconfig_tmp_data list" where
  "tmp_append t ts = (if ts = [] then [t] else ts @ [t])"

definition tmp_add :: "webconfig_tmp_data \<Rightarrow> 'z db_st_scheme \<Rightarrow> 'z db_st_scheme" where
  "tmp_add t s = s\<lparr>g_head := tmp_append t (g_head s), numOfMpDocs := numOfMpDocs s + 1\<rparr>"

definition tmp_root_node :: "'z db_st_scheme \<Rightarrow> webconfig_tmp_data" where
  "tmp_root_node s =
     \<lparr>tmp_name = ''root'', tmp_version = (if g_supplementarySync s = 0 then get_global_root s else 0),
      tmp_status = ''pending'', tmp_error_details = ''none'', tmp_retry_count = 0, tmp_error_code = 0,
      tmp_trans_id = 0, tmp_isSupplementarySync = 0, tmp_retry_timestamp = 0, tmp_cloud_trans_id = g_transID s\<rparr>"

definition tmp_doc_node :: "multipartdocs \<Rightarrow> 'z db_st_scheme \<Rightarrow> webconfig_tmp_data" where
  "tmp_doc_node mp s =
     \<lparr>tmp_name = mp_name_space mp, tmp_version = mp_etag mp,
      tmp_status = ''pending_apply'', tmp_error_details = ''none'', tmp_retry_count = 0, tmp_error_code = 0,
      tmp_trans_id = 0, tmp_isSupplementarySync = mp_isSupplementarySync mp, tmp_retry_timestamp = 0,
      tmp_cloud_trans_id = g_transID s\<rparr>"

text \<open>The loop over the cached documents: with \<open>numOfMpDocs = 0\<close> a turn adds \<open>root\<close> and
  stays at its document, so it never ends while \<open>malloc\<close> fails.\<close>

fun addToTmpList_loop :: "multipartdocs list \<Rightarrow> 'z db_st_scheme \<Rightarrow> 'z db_st_scheme option" where
  "addToTmpList_loop [] s = Some s"
| "addToTmpList_loop (mp # mps) s =
     (if numOfMpDocs s = 0 \<and> \<not> mem_ok s then None
      else (let s1 = (if numOfMpDocs s = 0 then tmp_add (tmp_root_node s) s else s)
            in addToTmpList_loop mps
                 (if mp_isSupplementarySync mp = g_supplementarySync s1 \<and> mem_ok s1
                  then tmp_add (tmp_doc_node mp s1) s1 else s1)))"

definition addToTmpList :: "'z db_st_scheme \<Rightarrow> (WEBCFG_STATUS \<times> 'z db_st_scheme) option" where
  "addToTmpList s =
     (case delete_tmp_docs_list (checkTmpRootUpdate s) of
        None \<Rightarrow> None
      | Some s2 \<Rightarrow> (case addToTmpList_loop (g_mp_head s2) s2 of
            None \<Rightarrow> None
          | Some s3 \<Rightarrow> Some (if g_mp_head s2 = [] then WEBCFG_FAILURE else WEBCFG_SUCCESS, s3)))"

section \<open>The list as a collection of documents\<close>

lemma tmp_search_find_idx: "tmp_search d ts = find_idx (\<lambda>t. tmp_name t = d) ts"
  by (induction ts) auto

lemma tmp_unlink_find_idx:
  "tmp_unlink d ts = map_option (\<lambda>i. (i, del_first (\<lambda>t. tmp_name t = d) ts)) (find_idx (\<lambda>t. tmp_name t = d) ts)"
  by (induction ts) (auto simp: option.map_comp comp_def)

definition tmp_delete :: "string \<Rightarrow> webconfig_tmp_data list \<Rightarrow> webconfig_tmp_data list" where
  "tmp_delete d ts = (case tmp_unlink d ts of None \<Rightarrow> ts | Some (_, ts') \<Rightarrow> ts')"

lemma tmp_delete_del_first: "tmp_delete d ts = del_first (\<lambda>t. tmp_name t = d) ts"
  by (cases "find_idx (\<lambda>t. tmp_name t = d) ts")
    (simp_all add: tmp_delete_def tmp_unlink_find_idx del_first_miss)

lemma tmp_append_snoc [simp]: "tmp_append t ts = ts @ [t]"
  by (simp add: tmp_append_def)

interpretation tl: doc_list tmp_name tmp_search tmp_delete tmp_append
  by (rule doc_listI) (simp_all add: tmp_search_find_idx tmp_delete_del_first)

text \<open>The counter is the length of the list, and no document is listed twice.\<close>

definition tmp_inv :: "'z db_st_scheme \<Rightarrow> bool" where
  "tmp_inv s \<longleftrightarrow> distinct (map tmp_name (g_head s)) \<and> numOfMpDocs s = int (length (g_head s))"

lemma deleteFromTmpList_inv:
  "tmp_inv s \<Longrightarrow> deleteFromTmpList d nx s = (st, nx', s') \<Longrightarrow> tmp_inv s'"
proof -
  assume i: "tmp_inv s" and d: "deleteFromTmpList d nx s = (st, nx', s')"
  show ?thesis
  proof (cases "\<exists>e j ts. d = Some e \<and> tmp_unlink e (g_head s) = Some (j, ts)")
    case True
    then obtain e j ts where e: "d = Some e" "tmp_unlink e (g_head s) = Some (j, ts)" by blast
    then have "ts = tmp_delete e (g_head s)" by (simp add: tmp_delete_def)
    with e d i tl.distinct_del [of "g_head s" e] tmp_unlink_length [OF e(2)] show ?thesis
      by (auto simp: deleteFromTmpList_def tmp_inv_def)
  next
    case False
    then have "deleteFromTmpList d nx s = (WEBCFG_FAILURE, nx, s)"
      by (auto simp: deleteFromTmpList_def split: option.splits)
    with d i show ?thesis by simp
  qed
qed

lemma updateTmpList_inv: "tmp_inv s \<Longrightarrow> tmp_inv (snd (updateTmpList i d v st e ec ti r s))"
  by (auto simp: updateTmpList_def tmp_inv_def tmp_update_def map_upd_at split: option.splits)

lemma updateFailureTimeStamp_inv: "tmp_inv s \<Longrightarrow> tmp_inv (snd (updateFailureTimeStamp i d t s))"
  by (auto simp: updateFailureTimeStamp_def tmp_inv_def map_upd_at split: option.splits)

lemma tmp_walk_inv:
  "tmp_walk sel p nx s = Some s' \<Longrightarrow> tmp_inv s \<Longrightarrow> tmp_inv s'"
proof (induction sel p nx s rule: tmp_walk.induct)
  case (3 sel k nx s)
  then show ?case
    by (auto simp: tmp_walk.simps(3) dest: deleteFromTmpList_inv split: if_splits prod.splits)
qed auto

lemma tmp_unlink_nth:
  assumes "distinct (map tmp_name ts)" "k < length ts"
  shows "tmp_unlink (tmp_name (ts ! k)) ts = Some (k, take k ts @ drop (Suc k) ts)"
proof -
  have "find_idx (\<lambda>t. tmp_name t = tmp_name (ts ! k)) ts = Some k"
    using assms by (auto simp: find_idx_Some distinct_conv_nth)
  then show ?thesis by (simp add: tmp_unlink_find_idx del_first_split)
qed

text \<open>With unique names the loop, once past the first node, keeps what is not selected.\<close>

lemma tmp_walk_tail:
  assumes "distinct (map tmp_name (g_head s))" "0 < k"
  shows "tmp_walk sel (node_at k (g_head s)) nx s =
    Some (s\<lparr>g_head := take k (g_head s) @ filter (\<lambda>t. \<not> sel t) (drop k (g_head s)),
            numOfMpDocs := numOfMpDocs s - int (length (filter sel (drop k (g_head s))))\<rparr>)"
  using assms
proof (induction "length (g_head s) - k" arbitrary: k nx s)
  case 0
  then show ?case by (simp add: node_at_def)
next
  case (Suc n)
  let ?ts = "g_head s"
  have k: "k < length ?ts" "n = length ?ts - Suc k" using Suc.hyps(2) by auto
  have dr: "drop k ?ts = ?ts ! k # drop (Suc k) ?ts" using k by (simp add: Cons_nth_drop_Suc)
  show ?case
  proof (cases "sel (?ts ! k)")
    case True
    let ?s' = "s\<lparr>g_head := take k ?ts @ drop (Suc k) ?ts, numOfMpDocs := numOfMpDocs s - 1\<rparr>"
    have d: "deleteFromTmpList (Some (tmp_name (?ts ! k))) nx s = (WEBCFG_SUCCESS, node_at k (g_head ?s'), ?s')"
      using Suc.prems k tmp_unlink_nth [OF Suc.prems(1) k(1)] by (simp add: deleteFromTmpList_def)
    have "distinct (map tmp_name (g_head ?s'))"
      using Suc.prems(1) by (simp add: take_map [symmetric] drop_map [symmetric])
        (meson distinct_drop distinct_take set_take_disj_set_drop_if_distinct lessI less_imp_le)
    then have "tmp_walk sel (node_at k (g_head ?s')) (node_at k (g_head ?s')) ?s' =
      Some (?s'\<lparr>g_head := take k (g_head ?s') @ filter (\<lambda>t. \<not> sel t) (drop k (g_head ?s')),
        numOfMpDocs := numOfMpDocs ?s' - int (length (filter sel (drop k (g_head ?s'))))\<rparr>)"
      using Suc.prems(2) k by (intro Suc.hyps(1)) auto
    with d k True dr show ?thesis by (simp add: tmp_walk.simps(3) node_at_def [of k ?ts])
  next
    case False
    have "tmp_walk sel (node_at (Suc k) ?ts) nx s =
      Some (s\<lparr>g_head := take (Suc k) ?ts @ filter (\<lambda>t. \<not> sel t) (drop (Suc k) ?ts),
        numOfMpDocs := numOfMpDocs s - int (length (filter sel (drop (Suc k) ?ts)))\<rparr>)"
      using Suc.prems k by (intro Suc.hyps(1)) auto
    with k False dr show ?thesis
      by (simp add: tmp_walk.simps(3) node_at_def [of k ?ts] take_Suc_conv_app_nth)
  qed
qed

text \<open>From the first node: a selected head is removed alone, because \<open>next_node\<close> stays
  NULL.\<close>

lemma tmp_walk_head:
  assumes "distinct (map tmp_name (g_head s))"
  shows "tmp_walk sel (node_at 0 (g_head s)) NullPtr s =
    (case g_head s of
       [] \<Rightarrow> Some s
     | t # ts \<Rightarrow>
         if sel t then Some (s\<lparr>g_head := ts, numOfMpDocs := numOfMpDocs s - 1\<rparr>)
         else Some (s\<lparr>g_head := t # filter (\<lambda>t. \<not> sel t) ts,
                      numOfMpDocs := numOfMpDocs s - int (length (filter sel ts))\<rparr>))"
proof (cases "g_head s")
  case Nil
  then show ?thesis by (simp add: node_at_def)
next
  case (Cons t ts)
  show ?thesis
  proof (cases "sel t")
    case True
    with Cons show ?thesis
      by (simp add: node_at_def tmp_walk.simps(3) deleteFromTmpList_def)
  next
    case False
    with Cons tmp_walk_tail [OF assms, of 1 sel NullPtr] show ?thesis
      by (simp add: node_at_def [of 0] tmp_walk.simps(3))
  qed
qed

lemma addToTmpList_loop_add:
  assumes "mem_ok s" "0 < numOfMpDocs s"
  shows "addToTmpList_loop mps s =
    Some (s\<lparr>g_head := g_head s @ map (\<lambda>mp. tmp_doc_node mp s) (filter (\<lambda>mp. mp_isSupplementarySync mp = g_supplementarySync s) mps),
            numOfMpDocs := numOfMpDocs s + int (length (filter (\<lambda>mp. mp_isSupplementarySync mp = g_supplementarySync s) mps))\<rparr>)"
  using assms
proof (induction mps arbitrary: s)
  case (Cons mp mps)
  have node: "tmp_doc_node mp' (tmp_add t s) = tmp_doc_node mp' s" for mp' t
    by (simp add: tmp_doc_node_def tmp_add_def)
  show ?case
  proof (cases "mp_isSupplementarySync mp = g_supplementarySync s")
    case True
    with Cons.prems Cons.IH [of "tmp_add (tmp_doc_node mp s) s"] show ?thesis
      by (simp add: Let_def node) (simp add: tmp_add_def)
  next
    case False
    with Cons show ?thesis by simp
  qed
qed simp

definition tmp_lookup :: "string \<Rightarrow> 'z db_st_scheme \<Rightarrow> webconfig_tmp_data option" where
  "tmp_lookup d s = find (\<lambda>t. tmp_name t = d) (g_head s)"

lemma find_upd_at:
  assumes "\<And>x. key (f x) = key x" "find_idx (\<lambda>x. key x = d) xs = Some i"
  shows "find (\<lambda>x. key x = e) (upd_at i f xs) =
    (if e = d then map_option f (find (\<lambda>x. key x = d) xs) else find (\<lambda>x. key x = e) xs)"
  using assms(2)
proof (induction xs arbitrary: i)
  case (Cons x xs)
  show ?case
  proof (cases "key x = d")
    case True
    with Cons.prems assms(1) show ?thesis by (auto simp: upd_at_def)
  next
    case False
    then obtain j where j: "find_idx (\<lambda>x. key x = d) xs = Some j" "i = Suc j" using Cons.prems by auto
    then have "upd_at i f (x # xs) = x # upd_at j f xs" by (simp add: upd_at_def)
    with Cons.IH [OF j(1)] False show ?thesis by auto
  qed
qed simp

lemma updateTmpList_lookup:
  assumes "getTmpNode d s = Some i"
  shows "fst (updateTmpList (Some i) d v st e ec ti r s) = WEBCFG_SUCCESS \<and>
    tmp_lookup x (snd (updateTmpList (Some i) d v st e ec ti r s)) =
      (if x = d then map_option (tmp_update v st e ec ti r) (tmp_lookup d s) else tmp_lookup x s)"
proof -
  have f: "find_idx (\<lambda>t. tmp_name t = d) (g_head s) = Some i"
    using assms by (simp add: getTmpNode_def tmp_search_find_idx)
  then have "i < length (g_head s)" "tmp_name (g_head s ! i) = d" by (auto simp: find_idx_Some)
  with find_upd_at [of tmp_name "tmp_update v st e ec ti r", OF _ f, of x] show ?thesis
    by (auto simp: updateTmpList_def tmp_lookup_def tmp_update_def)
qed

text \<open>What the loop of a primary or supplementary sync leaves of the list.\<close>

definition kept_docs :: "int \<Rightarrow> webconfig_tmp_data list \<Rightarrow> webconfig_tmp_data list" where
  "kept_docs sync ts = filter (\<lambda>t. \<not> (tmp_name t \<noteq> ''root'' \<and> tmp_isSupplementarySync t = sync)) ts"

definition new_docs :: "'z db_st_scheme \<Rightarrow> webconfig_tmp_data list" where
  "new_docs s = map (\<lambda>mp. tmp_doc_node mp s) (filter (\<lambda>mp. mp_isSupplementarySync mp = g_supplementarySync s) (g_mp_head s))"

lemma length_filter_compl_int:
  "int (length (filter P xs)) + int (length (filter (\<lambda>x. \<not> P x) xs)) = int (length xs)"
  by (induction xs) auto

lemma delete_tmp_docs_list_spec:
  assumes "distinct (map tmp_name (g_head s))"
  shows "delete_tmp_docs_list s =
    (case g_head s of
       [] \<Rightarrow> Some s
     | t # ts \<Rightarrow>
         if tmp_name t \<noteq> ''root'' \<and> tmp_isSupplementarySync t = g_supplementarySync s
         then Some (s\<lparr>g_head := ts, numOfMpDocs := numOfMpDocs s - 1\<rparr>)
         else Some (s\<lparr>g_head := t # kept_docs (g_supplementarySync s) ts,
                      numOfMpDocs := numOfMpDocs s - (int (length ts) - int (length (kept_docs (g_supplementarySync s) ts)))\<rparr>))"
proof -
  have "int (length (filter (\<lambda>t. tmp_name t \<noteq> ''root'' \<and> tmp_isSupplementarySync t = g_supplementarySync s) ts)) =
      int (length ts) - int (length (kept_docs (g_supplementarySync s) ts))" for ts
    using length_filter_compl_int [of "\<lambda>t. tmp_name t \<noteq> ''root'' \<and> tmp_isSupplementarySync t = g_supplementarySync s" ts]
    unfolding kept_docs_def by linarith
  then show ?thesis
    unfolding delete_tmp_docs_list_def tmp_walk_head [OF assms] by (simp only: kept_docs_def)
qed

lemma tmp_doc_node_frame [simp]:
  "tmp_doc_node mp (s\<lparr>g_head := h, numOfMpDocs := n\<rparr>) = tmp_doc_node mp s"
  "tmp_doc_node mp (s\<lparr>g_head := h\<rparr>) = tmp_doc_node mp s"
  by (simp_all add: tmp_doc_node_def)

lemma addToTmpList_fresh_eq:
  assumes "g_head s = []" "numOfMpDocs s = 0" "mem_ok s" "g_mp_head s \<noteq> []"
  shows "addToTmpList s = Some (WEBCFG_SUCCESS,
    s\<lparr>g_head := tmp_root_node s # new_docs s, numOfMpDocs := 1 + int (length (new_docs s))\<rparr>)"
proof -
  obtain mp mps where mp: "g_mp_head s = mp # mps" using assms(4) by (cases "g_mp_head s") auto
  let ?s1 = "tmp_add (tmp_root_node s) s"
  have "checkTmpRootUpdate s = s" using assms(2) by (simp add: checkTmpRootUpdate_def)
  then have d: "delete_tmp_docs_list (checkTmpRootUpdate s) = Some s"
    using assms(1) by (simp add: delete_tmp_docs_list_spec)
  have "addToTmpList_loop (g_mp_head s) s = addToTmpList_loop (g_mp_head s) ?s1"
    using assms mp by (simp add: tmp_add_def)
  also have "\<dots> = Some (s\<lparr>g_head := tmp_root_node s # new_docs s, numOfMpDocs := 1 + int (length (new_docs s))\<rparr>)"
    using assms by (subst addToTmpList_loop_add) (simp_all add: tmp_add_def new_docs_def)
  finally show ?thesis using d assms(4) by (simp add: addToTmpList_def)
qed

lemma addToTmpList_resync_eq:
  assumes "tmp_inv s" "g_head s = r # ts" "tmp_name r = ''root''" "mem_ok s" "g_mp_head s \<noteq> []"
  shows "\<exists>s'. addToTmpList s = Some (WEBCFG_SUCCESS, s') \<and>
    g_head s' = (if g_supplementarySync s = 0 then tmp_update (get_global_root s) ''pending'' ''none'' 0 0 0 r else r)
      # kept_docs (g_supplementarySync s) ts @ new_docs s \<and>
    numOfMpDocs s' = int (length (g_head s')) \<and>
    (distinct (''root'' # map tmp_name (kept_docs (g_supplementarySync s) ts @ new_docs s)) \<longrightarrow> tmp_inv s')"
proof -
  let ?r = "if g_supplementarySync s = 0 then tmp_update (get_global_root s) ''pending'' ''none'' 0 0 0 r else r"
  let ?kept = "kept_docs (g_supplementarySync s) ts"
  let ?s1 = "s\<lparr>g_head := ?r # ts\<rparr>"
  have inv: "distinct (map tmp_name (r # ts))" "numOfMpDocs s = 1 + int (length ts)"
    using assms(1,2) by (auto simp: tmp_inv_def)
  have name: "tmp_name ?r = ''root''" using assms(3) by (simp add: tmp_update_def)
  have "checkTmpRootUpdate s = ?s1"
  proof (cases "g_supplementarySync s = 0")
    case True
    then show ?thesis
      using inv assms(2,3)
      by (simp add: checkTmpRootUpdate_def getTmpNode_def updateTmpList_def upd_at_def)
  next
    case False
    then show ?thesis using assms(2) by (simp add: checkTmpRootUpdate_def)
  qed
  moreover have "delete_tmp_docs_list ?s1 =
    Some (?s1\<lparr>g_head := ?r # ?kept, numOfMpDocs := 1 + int (length ?kept)\<rparr>)"
    using name inv assms(3) by (subst delete_tmp_docs_list_spec) auto
  moreover have "new_docs (s\<lparr>g_head := h, numOfMpDocs := n\<rparr>) = new_docs s" for h n
    by (simp add: new_docs_def)
  ultimately have "addToTmpList s = Some (WEBCFG_SUCCESS,
      s\<lparr>g_head := ?r # ?kept @ new_docs s, numOfMpDocs := 1 + int (length ?kept) + int (length (new_docs s))\<rparr>)"
    using assms(4,5) by (simp add: addToTmpList_def addToTmpList_loop_add new_docs_def)
  then show ?thesis
    using name by (auto simp: tmp_inv_def)
qed

section \<open>Properties\<close>

text \<open>The first sync fills an empty list with \<open>root\<close>, which carries the root version in a
  primary sync and 0 in a supplementary one, then one \<open>pending_apply\<close> node per cached
  document of this kind of sync, in the order of the multipart body, and the counter is the
  length of the list.\<close>

theorem addToTmpList_fresh:
  assumes "g_head s = []" "numOfMpDocs s = 0" "mem_ok s" "g_mp_head s \<noteq> []"
  shows "addToTmpList s = Some (WEBCFG_SUCCESS,
    s\<lparr>g_head := tmp_root_node s # new_docs s, numOfMpDocs := 1 + int (length (new_docs s))\<rparr>)"
  using assms by (rule addToTmpList_fresh_eq)

abbreviation wan_doc :: multipartdocs where
  "wan_doc \<equiv> \<lparr>mp_etag = 5, mp_name_space = ''wan'', mp_data = ''x'', mp_isSupplementarySync = 0\<rparr>"

abbreviation wan_node :: webconfig_tmp_data where
  "wan_node \<equiv> \<lparr>tmp_name = ''wan'', tmp_version = 5, tmp_status = ''pending_apply'', tmp_error_details = ''none'',
     tmp_retry_count = 0, tmp_error_code = 0, tmp_trans_id = 0, tmp_isSupplementarySync = 0,
     tmp_retry_timestamp = 0, tmp_cloud_trans_id = []\<rparr>"

abbreviation root_node :: webconfig_tmp_data where
  "root_node \<equiv> wan_node\<lparr>tmp_name := ''root'', tmp_version := 0, tmp_status := ''pending''\<rparr>"

theorem addToTmpList_fresh_witness:
  "\<exists>s'. addToTmpList (db_st0\<lparr>g_mp_head := [wan_doc]\<rparr>) = Some (WEBCFG_SUCCESS, s') \<and>
     map tmp_name (g_head s') = [''root'', ''wan'']"
proof -
  let ?s = "db_st0\<lparr>g_mp_head := [wan_doc]\<rparr>"
  have "g_head ?s = []" "numOfMpDocs ?s = 0" "mem_ok ?s" "g_mp_head ?s \<noteq> []" by simp_all
  from addToTmpList_fresh [OF this] show ?thesis
    by (simp add: tmp_root_node_def new_docs_def tmp_doc_node_def)
qed

lemma kept_docs_other:
  "''root'' \<notin> tmp_name ` set ts \<Longrightarrow> kept_docs sync ts = filter (\<lambda>t. tmp_isSupplementarySync t \<noteq> sync) ts"
  unfolding kept_docs_def by (rule filter_cong) (force simp: image_iff)+

lemma new_docs_names:
  "map tmp_name (new_docs s) = map mp_name_space (filter (\<lambda>mp. mp_isSupplementarySync mp = g_supplementarySync s) (g_mp_head s))"
  by (simp add: new_docs_def tmp_doc_node_def)

text \<open>C20: a later sync that finds \<open>root\<close> at the head keeps the documents of the other kind of
  sync in order, drops those of this kind whatever their status, appends the new ones and keeps
  the counter right; a primary sync also sets \<open>root\<close> back to \<open>pending\<close> with the new version. No
  document is then listed twice, whatever was listed before, unless the cached response itself
  names a document twice, names \<open>root\<close>, or names a document kept for the other kind of sync; in
  those cases one is.\<close>

theorem addToTmpList_resync:
  assumes "tmp_inv s" "g_head s = r # ts" "tmp_name r = ''root''" "mem_ok s" "g_mp_head s \<noteq> []"
  defines "kept \<equiv> filter (\<lambda>t. tmp_isSupplementarySync t \<noteq> g_supplementarySync s) ts"
    and "names \<equiv> map mp_name_space (filter (\<lambda>mp. mp_isSupplementarySync mp = g_supplementarySync s) (g_mp_head s))"
  shows "\<exists>s'. addToTmpList s = Some (WEBCFG_SUCCESS, s') \<and>
    g_head s' = (if g_supplementarySync s = 0 then tmp_update (get_global_root s) ''pending'' ''none'' 0 0 0 r else r)
      # kept @ new_docs s \<and>
    numOfMpDocs s' = int (length (g_head s')) \<and>
    (tmp_inv s' \<longleftrightarrow> distinct names \<and> ''root'' \<notin> set names \<and> set names \<inter> tmp_name ` set kept = {})"
proof -
  have old: "distinct (map tmp_name ts)" "''root'' \<notin> tmp_name ` set ts" using assms(1-3) by (auto simp: tmp_inv_def)
  then have kept: "kept_docs (g_supplementarySync s) ts = kept" "distinct (map tmp_name kept)" "''root'' \<notin> tmp_name ` set kept"
    by (auto simp: kept_docs_other kept_def distinct_map_filter)
  let ?r = "if g_supplementarySync s = 0 then tmp_update (get_global_root s) ''pending'' ''none'' 0 0 0 r else r"
  obtain s' where s': "addToTmpList s = Some (WEBCFG_SUCCESS, s')" "g_head s' = ?r # kept @ new_docs s"
      "numOfMpDocs s' = int (length (g_head s'))"
    using addToTmpList_resync_eq [OF assms(1-5)] unfolding kept(1) by blast
  have "tmp_name ?r = ''root''" using assms(3) by (simp add: tmp_update_def)
  then have "map tmp_name (g_head s') = ''root'' # map tmp_name kept @ names"
    unfolding s'(2) by (simp only: list.map map_append new_docs_names names_def)
  then have "tmp_inv s' \<longleftrightarrow> distinct (''root'' # map tmp_name kept @ names)" using s'(3) by (simp add: tmp_inv_def)
  also have "\<dots> \<longleftrightarrow> distinct names \<and> ''root'' \<notin> set names \<and> set names \<inter> tmp_name ` set kept = {}"
    using kept(2,3) by auto
  finally show ?thesis using s' by blast
qed

theorem addToTmpList_resync_witness:
  "\<exists>s'. addToTmpList (db_st0\<lparr>g_head := [root_node, wan_node], numOfMpDocs := 2, g_mp_head := [wan_doc]\<rparr>) =
     Some (WEBCFG_SUCCESS, s') \<and> length (g_head s') = 2 \<and> tmp_inv s'"
proof -
  let ?s = "db_st0\<lparr>g_head := [root_node, wan_node], numOfMpDocs := 2, g_mp_head := [wan_doc]\<rparr>"
  have "tmp_inv ?s" "g_head ?s = [root_node, wan_node]" "tmp_name root_node = ''root''" "mem_ok ?s" "g_mp_head ?s \<noteq> []"
    by (simp_all add: tmp_inv_def)
  from addToTmpList_resync [OF this] obtain s' where s': "addToTmpList ?s = Some (WEBCFG_SUCCESS, s')"
    "length (g_head s') = 1 + length (new_docs ?s)" "tmp_inv s'"
    by (elim exE conjE) (rule that, simp_all)
  moreover have "length (new_docs ?s) = 1" by (simp add: new_docs_def)
  ultimately show ?thesis by auto
qed

text \<open>When the head of the list is a document of the current sync instead of \<open>root\<close>, the
  clean-up removes only this head, because \<open>deleteFromTmpList\<close> leaves \<open>next_node\<close> NULL when
  it removes the first node. The other documents stay and the new ones are appended, so a
  document that was pending before and is sent again is then listed twice.\<close>

theorem addToTmpList_stale_head:
  assumes "tmp_inv s" "g_head s = t # ts" "ts \<noteq> []" "''root'' \<notin> tmp_name ` set (g_head s)"
    and "tmp_isSupplementarySync t = g_supplementarySync s" "mem_ok s" "g_mp_head s \<noteq> []"
  shows "\<exists>s'. addToTmpList s = Some (WEBCFG_SUCCESS, s') \<and> g_head s' = ts @ new_docs s \<and>
    ((\<exists>d\<in>set ts. tmp_name d \<in> tmp_name ` set (new_docs s)) \<longrightarrow> \<not> tmp_inv s')"
proof -
  let ?s2 = "s\<lparr>g_head := ts, numOfMpDocs := int (length ts)\<rparr>"
  have "getTmpNode ''root'' s = None" using assms(4) by (simp add: getTmpNode_def tl.get_None)
  then have "checkTmpRootUpdate s = s" by (simp add: checkTmpRootUpdate_def updateTmpList_def)
  moreover have d: "distinct (map tmp_name (g_head s))" "numOfMpDocs s = 1 + int (length ts)"
    using assms(1,2) by (simp_all add: tmp_inv_def)
  have "tmp_name t \<noteq> ''root''" using assms(2,4) by fastforce
  then have "delete_tmp_docs_list s = Some ?s2"
    using d(2) assms(5) unfolding delete_tmp_docs_list_spec [OF d(1)] assms(2) by simp
  moreover have "new_docs ?s2 = new_docs s" by (simp add: new_docs_def)
  ultimately have "addToTmpList s = Some (WEBCFG_SUCCESS,
      s\<lparr>g_head := ts @ new_docs s, numOfMpDocs := int (length ts) + int (length (new_docs s))\<rparr>)"
    using assms(3,6,7) by (simp add: addToTmpList_def addToTmpList_loop_add new_docs_def)
  then show ?thesis by (auto simp: tmp_inv_def)
qed

theorem addToTmpList_stale_head_witness:
  "\<exists>s'. addToTmpList (db_st0\<lparr>g_head := [wan_node\<lparr>tmp_name := ''lan''\<rparr>, wan_node], numOfMpDocs := 2, g_mp_head := [wan_doc]\<rparr>) =
     Some (WEBCFG_SUCCESS, s') \<and> \<not> tmp_inv s'"
proof -
  let ?lan = "wan_node\<lparr>tmp_name := ''lan''\<rparr>"
  let ?s = "db_st0\<lparr>g_head := [?lan, wan_node], numOfMpDocs := 2, g_mp_head := [wan_doc]\<rparr>"
  have h: "tmp_inv ?s" "g_head ?s = [?lan, wan_node]" "[wan_node] \<noteq> []" "''root'' \<notin> tmp_name ` set (g_head ?s)"
    "tmp_isSupplementarySync ?lan = g_supplementarySync ?s" "mem_ok ?s" "g_mp_head ?s \<noteq> []"
    by (simp_all add: tmp_inv_def)
  have "\<exists>d\<in>set [wan_node]. tmp_name d \<in> tmp_name ` set (new_docs ?s)"
    by (simp add: new_docs_def tmp_doc_node_def)
  with addToTmpList_stale_head [OF h] show ?thesis by blast
qed

text \<open>Releasing the successful documents at a maintenance window keeps exactly the others
  unless the first document of the list is itself successful: then only this one is
  released. Either way the names stay unique and the counter stays the length.\<close>

theorem release_success_docs:
  assumes "tmp_inv s"
  shows "\<exists>s'. release_success_docs_tmplist s = Some s' \<and> tmp_inv s' \<and>
    g_head s' = (case g_head s of [] \<Rightarrow> []
      | t # ts \<Rightarrow> if tmp_status t = ''success'' then ts
          else filter (\<lambda>t. tmp_status t \<noteq> ''success'') (g_head s))"
proof -
  have d: "distinct (map tmp_name (g_head s))" using assms by (simp add: tmp_inv_def)
  note w = tmp_walk_head [OF d, of "\<lambda>t. tmp_status t = ''success''"]
  obtain s' where r: "release_success_docs_tmplist s = Some s'"
    unfolding release_success_docs_tmplist_def w
    by (cases "g_head s"; cases "tmp_status (hd (g_head s)) = ''success''") auto
  moreover have "tmp_inv s'"
    using tmp_walk_inv [OF _ assms] r by (auto simp: release_success_docs_tmplist_def)
  moreover have "g_head s' = (case g_head s of [] \<Rightarrow> []
      | t # ts \<Rightarrow> if tmp_status t = ''success'' then ts
          else filter (\<lambda>t. tmp_status t \<noteq> ''success'') (g_head s))"
    using r unfolding release_success_docs_tmplist_def w by (auto split: list.splits if_splits)
  ultimately show ?thesis by blast
qed

theorem release_success_docs_witness:
  "\<exists>s'. release_success_docs_tmplist (db_st0\<lparr>g_head :=
       [root_node\<lparr>tmp_status := ''success''\<rparr>, wan_node\<lparr>tmp_status := ''success''\<rparr>], numOfMpDocs := 2\<rparr>) = Some s' \<and>
     map tmp_status (g_head s') = [''success'']"
proof -
  let ?s = "db_st0\<lparr>g_head := [root_node\<lparr>tmp_status := ''success''\<rparr>, wan_node\<lparr>tmp_status := ''success''\<rparr>], numOfMpDocs := 2\<rparr>"
  have "tmp_inv ?s" by (simp add: tmp_inv_def)
  from release_success_docs [OF this] obtain s' where "release_success_docs_tmplist ?s = Some s'"
    "g_head s' = [wan_node\<lparr>tmp_status := ''success''\<rparr>]" by (elim exE conjE) (rule that, simp_all)
  then show ?thesis by simp
qed

text \<open>\<open>updateTmpList\<close> on the node \<open>getTmpNode\<close> finds changes exactly the document asked for:
  its version, status, error and transaction id are the new ones, its retry count is reset
  unless a retry is reported, and every other document is left alone.\<close>

theorem updateTmpList_exact:
  assumes "getTmpNode d s = Some i"
  shows "fst (updateTmpList (Some i) d v st e ec ti r s) = WEBCFG_SUCCESS \<and>
    tmp_lookup x (snd (updateTmpList (Some i) d v st e ec ti r s)) =
      (if x = d then map_option (tmp_update v st e ec ti r) (tmp_lookup d s) else tmp_lookup x s)"
  using assms by (rule updateTmpList_lookup)

theorem updateTmpList_exact_witness:
  "fst (updateTmpList (Some 1) ''wan'' 6 ''success'' ''none'' 0 0 0
     (db_st0\<lparr>g_head := [root_node, wan_node], numOfMpDocs := 2\<rparr>)) = WEBCFG_SUCCESS"
proof -
  have "getTmpNode ''wan'' (db_st0\<lparr>g_head := [root_node, wan_node], numOfMpDocs := 2\<rparr>) = Some 1"
    by (simp add: getTmpNode_def)
  from updateTmpList_exact [OF this, THEN conjunct1] show ?thesis .
qed

end
