(* ===== verification/Multipart.thy ===== *)
theory Multipart
  imports TmpList
begin

text \<open>
  Splitting a multipart body into subdocuments (\<open>parseMultipartDocument\<close>,
  \<open>subdoc_parser\<close> and \<open>line_parser\<close> of \<open>src/src/webcfg_multipart.c\<close>). The copy of the
  body has \<open>data_size + 1\<close> bytes, the last one a terminator. A pointer into a buffer is the
  list of the bytes from there to the end of the buffer, so that \<open>ptr - str_body < data_size\<close>
  is \<open>1 < length p\<close> and \<open>data_size - (ptr - str_body)\<close> is \<open>length p - 1\<close>. The result
  \<open>None\<close> marks undefined behaviour: a NULL result of \<open>memchr\<close> that is used, or a read past
  the end of a buffer.
\<close>

abbreviation CR :: char where "CR \<equiv> CHR 0x0D"
abbreviation LF :: char where "LF \<equiv> CHR 0x0A"

section \<open>Reading from a buffer\<close>

text \<open>Every call of \<open>memchr\<close> in these functions uses its result without a check, so the NULL
  result and a read past the end are one case.\<close>

fun memchr :: "char \<Rightarrow> nat \<Rightarrow> string \<Rightarrow> string option" where
  "memchr c 0 p = None"
| "memchr c (Suc n) [] = None"
| "memchr c (Suc n) (x # p) = (if x = c then Some (x # p) else memchr c n p)"

text \<open>\<open>memcmp (p, pat, strlen (pat)) == 0\<close>, read up to the first difference.\<close>

fun memcmp_eq :: "string \<Rightarrow> string \<Rightarrow> bool option" where
  "memcmp_eq p [] = Some True"
| "memcmp_eq [] (c # pat) = None"
| "memcmp_eq (x # p) (c # pat) = (if x = c then memcmp_eq p pat else Some False)"

text \<open>\<open>strndup (ptr + off, n - off)\<close>, the subtraction in \<open>size_t\<close>: without a bound when
  \<open>n < off\<close>.\<close>

definition strndup_at :: "string \<Rightarrow> nat \<Rightarrow> nat \<Rightarrow> string option" where
  "strndup_at ptr off n =
     (if length ptr < off then None
      else (let rest = drop off ptr;
                lim = (if off \<le> n then take (n - off) rest else rest)
            in if NUL \<in> set lim \<or> (off \<le> n \<and> length lim = n - off)
               then Some (takeWhile (\<lambda>c. c \<noteq> NUL) lim) else None))"

text \<open>\<open>strstr (ptr, needle) != NULL\<close>\<close>

definition strstr_buf :: "string \<Rightarrow> string \<Rightarrow> bool option" where
  "strstr_buf ptr needle =
     (if strstr (takeWhile (\<lambda>c. c \<noteq> NUL) ptr) needle \<noteq> None then Some True
      else if NUL \<in> set ptr then Some False else None)"

section \<open>One subdocument\<close>

record subdoc_acc =
  sa_name_space :: "string option"
  sa_etag :: u32
  sa_data :: "string option"

definition line_parser :: "string \<Rightarrow> nat \<Rightarrow> subdoc_acc \<Rightarrow> subdoc_acc option" where
  "line_parser ptr no_of_bytes acc = do {
     ct \<leftarrow> memcmp_eq ptr ''Content-type'';
     if ct then do {
       _ \<leftarrow> strndup_at ptr (length ''Content-type: '') no_of_bytes;
       Some acc
     } else do {
       ns \<leftarrow> memcmp_eq (map to_lower ptr) ''namespace'';
       if ns then do {
         name \<leftarrow> strndup_at ptr (length ''Namespace: '') no_of_bytes;
         Some (acc\<lparr>sa_name_space := Some name\<rparr>)
       } else do {
         et \<leftarrow> memcmp_eq (map to_lower ptr) ''etag'';
         if et then do {
           temp \<leftarrow> strndup_at ptr (length ''Etag: '') no_of_bytes;
           Some (acc\<lparr>sa_etag := ucast (strtoul0 temp)\<rparr>)
         } else do {
           par \<leftarrow> strstr_buf ptr ''parameters'';
           Some (if par then acc\<lparr>sa_data := Some (take no_of_bytes ptr)\<rparr> else acc)
         }
       }
     }
   }"

text \<open>The loop of \<open>subdoc_parser\<close>: four header lines, then the data.\<close>

lemma memchr_shorter: "memchr c n p = Some q \<Longrightarrow> length q \<le> length p \<and> length q - 1 < length q"
  by (induction c n p rule: memchr.induct) (auto split: if_splits)

definition SUBDOC_TAG_COUNT :: nat where "SUBDOC_TAG_COUNT = 4"

function subdoc_lines :: "nat \<Rightarrow> string \<Rightarrow> subdoc_acc \<Rightarrow> subdoc_acc option" where
  "subdoc_lines count p acc =
     (if length p \<le> 1 then Some acc
      else if count < SUBDOC_TAG_COUNT then
        (case memchr LF (length p - 1) (drop 1 p) of
           None \<Rightarrow> None
         | Some l1 \<Rightarrow>
             (case (if p ! (length p - length l1 - 1) = CR then Some l1
                    else memchr LF (length p - 1) (drop 1 l1)) of
                None \<Rightarrow> None
              | Some l1' \<Rightarrow>
                  (case line_parser (drop 1 p) (length p - length l1' - 2) acc of
                     None \<Rightarrow> None
                   | Some acc' \<Rightarrow>
                       (case memchr LF (length p - 2) (drop 1 p) of
                          None \<Rightarrow> None
                        | Some p' \<Rightarrow> subdoc_lines (Suc count) p' acc'))))
      else line_parser (drop 1 p) (length p - 2) acc)"
  by pat_completeness auto
termination
  by (relation "measure (\<lambda>(count, p, acc). SUBDOC_TAG_COUNT - count)") auto

declare subdoc_lines.simps [simp del]

text \<open>A subdocument with a name but without version or data is reported to the cloud.\<close>

definition subdoc_refused :: "string \<Rightarrow> 'z mp_st_scheme \<Rightarrow> 'z mp_st_scheme" where
  "subdoc_refused name_space s =
     (let (err, result) = getStatusErrorCodeAndMessage MULTIPART_CACHE_NULL
      in addWebConfgNotifyMsg (Some name_space) 0 (Some ''failed'') (Some result) (Some (g_transID s)) 0
           (Some ''status'') err None 200 s)"

definition subdoc_parser :: "string \<Rightarrow> nat \<Rightarrow> 'z mp_st_scheme \<Rightarrow> 'z mp_st_scheme option" where
  "subdoc_parser ptr no_of_bytes s =
     (if \<not> mem_ok s \<or> length ptr < no_of_bytes + 1 then None
      else (case subdoc_lines 0 (take (no_of_bytes + 1) ptr)
                   \<lparr>sa_name_space = None, sa_etag = 0, sa_data = None\<rparr> of
          None \<Rightarrow> None
        | Some acc \<Rightarrow>
            Some (case (sa_name_space acc, sa_data acc) of
                (Some name_space, Some data) \<Rightarrow>
                  if sa_etag acc \<noteq> 0 \<and> length data \<noteq> 0
                  then addToMpList (sa_etag acc) name_space data s
                  else subdoc_refused name_space s
              | (Some name_space, None) \<Rightarrow> subdoc_refused name_space s
              | (None, _) \<Rightarrow> s)))"

section \<open>The parts of the body\<close>

definition line_boundary :: "string \<Rightarrow> string" where
  "line_boundary boundary = ''--'' @ boundary @ [CR, LF]"

definition last_line_boundary :: "string \<Rightarrow> string" where
  "last_line_boundary boundary = ''--'' @ boundary @ ''--''"

text \<open>The parameter behind the first \<open>;\<close> of the content type, cut at \<open>=\<close>.\<close>

definition ct_boundary :: "string \<Rightarrow> string option" where
  "ct_boundary ct = do {
     (_, r1) \<leftarrow> strtok '';'' ct;
     (str, _) \<leftarrow> strtok '';'' r1;
     (_, r2) \<leftarrow> strtok ''='' str;
     (boundary, _) \<leftarrow> strtok ''='' r2;
     Some boundary
   }"

text \<open>The first loop counts the parts, for the log only.\<close>

function count_parts :: "string \<Rightarrow> nat \<Rightarrow> string \<Rightarrow> nat option" where
  "count_parts boundary num_of_parts p =
     (if length p \<le> 1 then Some num_of_parts
      else (case memchr (CHR ''-'') (length p - 1) p of
          None \<Rightarrow> None
        | Some q \<Rightarrow>
            (case memcmp_eq q (last_line_boundary boundary) of
               None \<Rightarrow> None
             | Some True \<Rightarrow> Some (num_of_parts + 1)
             | Some False \<Rightarrow>
                 (case memcmp_eq q (line_boundary boundary) of
                    None \<Rightarrow> None
                  | Some l \<Rightarrow> count_parts boundary (if l then num_of_parts + 1 else num_of_parts) (drop 1 q)))))"
  by pat_completeness auto
termination
  by (relation "measure (\<lambda>(b, n, p). length p)") (auto dest!: memchr_shorter)

declare count_parts.simps [simp del]

text \<open>The inner loop: the next boundary line from \<open>ptr_lb1\<close> on; a line whose first \<open>-\<close>
  begins no boundary is skipped.\<close>

function next_boundary :: "string \<Rightarrow> string \<Rightarrow> string option" where
  "next_boundary boundary p =
     (case memchr (CHR ''-'') (length p - 1) p of
        None \<Rightarrow> None
      | Some q \<Rightarrow>
          (case memcmp_eq q (last_line_boundary boundary) of
             None \<Rightarrow> None
           | Some True \<Rightarrow> Some q
           | Some False \<Rightarrow>
               (case memcmp_eq q (line_boundary boundary) of
                  None \<Rightarrow> None
                | Some True \<Rightarrow> Some q
                | Some False \<Rightarrow>
                    (case memchr LF (length q - 1) q of
                       None \<Rightarrow> None
                     | Some r \<Rightarrow> next_boundary boundary (drop 1 r)))))"
  by pat_completeness auto
termination
  by (relation "measure (\<lambda>(b, p). length p)") (auto dest!: memchr_shorter)

declare next_boundary.simps [simp del]

text \<open>The second loop: at a boundary line the part up to the next boundary is handed to
  \<open>subdoc_parser\<close>.\<close>

function split_parts :: "string \<Rightarrow> string \<Rightarrow> 'z mp_st_scheme \<Rightarrow> 'z mp_st_scheme option" where
  "split_parts boundary p s =
     (if length p \<le> 1 then Some s
      else (case memchr (CHR ''-'') (length p - 1) p of
          None \<Rightarrow> None
        | Some q \<Rightarrow>
            (case memcmp_eq q (last_line_boundary boundary) of
               None \<Rightarrow> None
             | Some True \<Rightarrow> Some s
             | Some False \<Rightarrow>
                 (case memcmp_eq q (line_boundary boundary) of
                    None \<Rightarrow> None
                  | Some True \<Rightarrow>
                      (let ptr_lb = drop (length (line_boundary boundary) - 1) q
                       in case next_boundary boundary (drop 1 ptr_lb) of
                            None \<Rightarrow> None
                          | Some ptr_lb1 \<Rightarrow>
                              (case subdoc_parser ptr_lb (length ptr_lb - length ptr_lb1 - 2) s of
                                 None \<Rightarrow> None
                               | Some s1 \<Rightarrow>
                                   (case memchr LF (length ptr_lb - 1) ptr_lb of
                                      None \<Rightarrow> None
                                    | Some r \<Rightarrow> split_parts boundary (drop 1 r) s1)))
                  | Some False \<Rightarrow>
                      (case memchr LF (length q - 1) q of
                         None \<Rightarrow> None
                       | Some r \<Rightarrow> split_parts boundary (drop 1 r) s)))))"
  by pat_completeness auto
termination
  by (relation "measure (\<lambda>(b, p, s). length p)") (auto dest!: memchr_shorter)

declare split_parts.simps [simp del]

text \<open>The body of \<open>parseMultipartDocument\<close> up to the processing of the documents: \<open>body\<close> is
  the copied buffer.\<close>

definition parse_parts :: "string \<Rightarrow> string \<Rightarrow> 'z mp_st_scheme \<Rightarrow> 'z mp_st_scheme option" where
  "parse_parts boundary body s =
     (if \<not> mem_ok s then None
      else do {
        _ \<leftarrow> count_parts boundary 0 body;
        s1 \<leftarrow> delete_mp_doc s;
        split_parts boundary body s1
      })"

section \<open>Facts on buffers\<close>

lemma memchr_found: "c \<notin> set a \<Longrightarrow> length a < n \<Longrightarrow> memchr c n (a @ c # r) = Some (c # r)"
proof (induction a arbitrary: n)
  case Nil
  then show ?case by (cases n) auto
next
  case (Cons x a)
  then show ?case by (cases n) auto
qed

lemma memcmp_eq_same [simp]: "memcmp_eq (p @ x) (p @ y) = memcmp_eq x y"
  by (induction p) auto

lemma memcmp_eq_prefix [simp]: "memcmp_eq (p @ x) p = Some True"
  using memcmp_eq_same [of p x "[]"] by simp

lemma memcmp_eq_differs:
  "CR \<notin> set pat \<Longrightarrow> take (length pat) x \<noteq> pat \<Longrightarrow> memcmp_eq (x @ CR # r) (pat @ t) = Some False"
proof (induction pat arbitrary: x)
  case (Cons c pat)
  then show ?case by (cases x) auto
qed simp

lemma memcmp_eq_total: "NUL \<in> set p \<Longrightarrow> NUL \<notin> set pat \<Longrightarrow> memcmp_eq p pat \<noteq> None"
  by (induction p pat rule: memcmp_eq.induct) auto

lemma strstr_None_suffix: "strstr (a @ x) pat = None \<Longrightarrow> strstr x pat = None"
  by (induction a) (auto split: if_splits)

lemma strstr_None_take: "strstr x pat = None \<Longrightarrow> take (length pat) x \<noteq> pat"
  by (cases x) (auto split: if_splits)

lemma strstr_prepend: "strstr x pat \<noteq> None \<Longrightarrow> strstr (a @ x) pat \<noteq> None"
  using strstr_None_suffix [of a x pat] by argo

lemma strstr_extend: "strstr x pat \<noteq> None \<Longrightarrow> strstr (x @ y) pat \<noteq> None"
proof (induction x)
  case Nil
  then have "pat = []" by (auto split: if_splits)
  then show ?case by (cases y) auto
next
  case (Cons c x)
  show ?case
  proof (cases "take (length pat) (c # x) = pat")
    case True
    then have "length pat \<le> length (c # x)" by (metis length_take min.cobounded1)
    then have "take (length pat) ((c # x) @ y) = take (length pat) (c # x)" by (subst take_append) simp
    with True show ?thesis by simp
  next
    case False
    with Cons show ?thesis by auto
  qed
qed

section \<open>One subdocument read back\<close>

definition part_content :: "u32 \<Rightarrow> string \<Rightarrow> string \<Rightarrow> string" where
  "part_content etag ns data =
     ''Content-type: application/msgpack'' @ [CR, LF] @ ''Etag: '' @ dec (unat etag) @ [CR, LF]
     @ ''Namespace: '' @ ns @ [CR, LF] @ [CR, LF] @ data"

text \<open>Data as it is sent: a msgpack map (first byte at least 128) in which the word
  \<open>parameters\<close> occurs before any zero byte.\<close>

definition part_ok :: "u32 \<Rightarrow> string \<Rightarrow> string \<Rightarrow> bool" where
  "part_ok etag ns data \<longleftrightarrow>
     etag \<noteq> 0 \<and> nul_free ns \<and> LF \<notin> set ns \<and> data \<noteq> [] \<and> 128 \<le> (of_char (hd data) :: nat)
     \<and> strstr (takeWhile (\<lambda>c. c \<noteq> NUL) data) ''parameters'' \<noteq> None"

lemma subdoc_lines_step:
  assumes "LF \<notin> set L" "count < SUBDOC_TAG_COUNT" "rest \<noteq> []"
  shows "subdoc_lines count (LF # L @ CR # LF # rest) acc =
    (case line_parser (L @ CR # LF # rest) (length L) acc of
       None \<Rightarrow> None | Some acc' \<Rightarrow> subdoc_lines (Suc count) (LF # rest) acc')"
proof -
  let ?p = "LF # L @ CR # LF # rest"
  have m: "memchr LF n (L @ CR # LF # rest) = Some (LF # rest)" if "length L + 1 < n" for n
    using memchr_found [of LF "L @ [CR]" n rest] assms(1) that by simp
  have "?p ! (length ?p - length (LF # rest) - 1) = CR" by (simp add: nth_append)
  moreover have "0 < length rest" using assms(3) by simp
  ultimately show ?thesis using assms(2)
    by (subst subdoc_lines.simps) (simp add: m split: option.splits)
qed

lemma subdoc_lines_next:
  assumes "LF \<notin> set L" "count < SUBDOC_TAG_COUNT" "rest \<noteq> []"
    and "line_parser (L @ CR # LF # rest) (length L) acc = Some acc'"
  shows "subdoc_lines count (LF # L @ CR # LF # rest) acc = subdoc_lines (Suc count) (LF # rest) acc'"
  using assms by (simp add: subdoc_lines_step)

lemma strndup_at_line:
  assumes "nul_free v"
  shows "strndup_at (a @ v @ rest) (length a) (length (a @ v)) = Some v"
  using assms by (auto simp: strndup_at_def nul_free_def takeWhile_eq_all_conv)

lemma line_parser_content_type:
  "line_parser (''Content-type: application/msgpack'' @ rest) (length ''Content-type: application/msgpack'') acc =
   Some acc"
  using strndup_at_line [of "''application/msgpack''" "''Content-type: ''" rest]
  by (simp add: line_parser_def nul_free_def)

lemma line_parser_etag:
  "line_parser ((''Etag: '' @ dec (unat e)) @ rest) (length (''Etag: '' @ dec (unat e))) acc =
   Some (acc\<lparr>sa_etag := e\<rparr>)"
proof -
  have "unat e < 2 ^ 64" using unsigned_less [of e, where ?'a = nat] by simp
  then have "(ucast (strtoul0 (dec (unat e))) :: u32) = e" by (simp add: strtoul0_dec)
  with strndup_at_line [of "dec (unat e)" "''Etag: ''" rest] show ?thesis
    by (simp add: line_parser_def)
qed

lemma line_parser_namespace:
  "nul_free ns \<Longrightarrow>
   line_parser ((''Namespace: '' @ ns) @ rest) (length (''Namespace: '' @ ns)) acc =
   Some (acc\<lparr>sa_name_space := Some ns\<rparr>)"
  using strndup_at_line [of ns "''Namespace: ''" rest] by (simp add: line_parser_def)

lemma line_parser_data:
  assumes "ptr = pre @ data @ rest" "pre = [] \<or> hd pre = CR" "pre = [] \<or> pre = [CR, LF]"
    and "data \<noteq> []" "128 \<le> (of_char (hd data) :: nat)"
    and "strstr (takeWhile (\<lambda>c. c \<noteq> NUL) data) ''parameters'' \<noteq> None"
  shows "line_parser ptr n acc = Some (acc\<lparr>sa_data := Some (take n ptr)\<rparr>)"
proof -
  obtain c ptr' where c: "ptr = c # ptr'" "c = CR \<or> 128 \<le> (of_char c :: nat)"
    using assms(1,3-5) by (cases data) auto
  have "c \<noteq> CHR ''C''" "to_lower c \<noteq> CHR ''n''" "to_lower c \<noteq> CHR ''e''"
    using c(2) by (auto simp: to_lower_def Let_def)
  moreover have "strstr (takeWhile (\<lambda>c. c \<noteq> NUL) ptr) ''parameters'' \<noteq> None"
  proof -
    have "\<exists>y. takeWhile (\<lambda>c. c \<noteq> NUL) (data @ rest) = takeWhile (\<lambda>c. c \<noteq> NUL) data @ y"
      by (metis append.right_neutral takeWhile_append1 takeWhile_append2 takeWhile_eq_all_conv)
    then obtain y where "takeWhile (\<lambda>c. c \<noteq> NUL) (data @ rest) = takeWhile (\<lambda>c. c \<noteq> NUL) data @ y" ..
    then have "takeWhile (\<lambda>c. c \<noteq> NUL) ptr = pre @ takeWhile (\<lambda>c. c \<noteq> NUL) data @ y"
      using assms(1,3) by auto
    then show ?thesis using strstr_prepend [OF strstr_extend [OF assms(6)]] by simp
  qed
  ultimately show ?thesis using c(1) by (simp add: line_parser_def strstr_buf_def)
qed

lemma subdoc_lines_data:
  "\<not> count < SUBDOC_TAG_COUNT \<Longrightarrow> x \<noteq> [] \<Longrightarrow>
   subdoc_lines count (LF # x) acc = line_parser x (length x - 1) acc"
  by (subst subdoc_lines.simps) (cases x; simp)

lemma LF_not_dec [simp]: "LF \<notin> set (dec n)"
  using dec_plain [of LF n] by (auto simp: isspace_simps)

lemma subdoc_lines_part:
  assumes "part_ok etag ns data"
  shows "subdoc_lines 0 (LF # part_content etag ns data @ [CR]) \<lparr>sa_name_space = None, sa_etag = 0, sa_data = None\<rparr> =
    Some \<lparr>sa_name_space = Some ns, sa_etag = etag, sa_data = Some data\<rparr>"
proof -
  let ?ct = "''Content-type: application/msgpack''"
  let ?et = "''Etag: '' @ dec (unat etag)" and ?ns = "''Namespace: '' @ ns"
  let ?r4 = "data @ [CR]" let ?r3 = "[] @ CR # LF # ?r4"
  let ?r2 = "?ns @ CR # LF # ?r3" let ?r1 = "?et @ CR # LF # ?r2"
  note ok = assms [unfolded part_ok_def]
  have ptr: "LF # part_content etag ns data @ [CR] = LF # ?ct @ CR # LF # ?r1"
    by (simp add: part_content_def)
  have 1: "subdoc_lines 0 (LF # ?ct @ CR # LF # ?r1) acc = subdoc_lines (Suc 0) (LF # ?r1) acc" for acc
    by (rule subdoc_lines_next [OF _ _ _ line_parser_content_type]) (simp_all add: SUBDOC_TAG_COUNT_def)
  have 2: "subdoc_lines (Suc 0) (LF # ?r1) acc = subdoc_lines (Suc (Suc 0)) (LF # ?r2) (acc\<lparr>sa_etag := etag\<rparr>)" for acc
    by (rule subdoc_lines_next [OF _ _ _ line_parser_etag]) (simp_all add: SUBDOC_TAG_COUNT_def)
  have 3: "subdoc_lines (Suc (Suc 0)) (LF # ?r2) acc =
      subdoc_lines (Suc (Suc (Suc 0))) (LF # ?r3) (acc\<lparr>sa_name_space := Some ns\<rparr>)" for acc
    using ok by (intro subdoc_lines_next [OF _ _ _ line_parser_namespace]) (simp_all add: SUBDOC_TAG_COUNT_def)
  have d: "line_parser ?r3 (length ([] :: string)) acc = Some (acc\<lparr>sa_data := Some []\<rparr>)" for acc
    using ok by (subst line_parser_data [where pre = "[CR, LF]" and data = data and rest = "[CR]"]) simp_all
  have 4: "subdoc_lines (Suc (Suc (Suc 0))) (LF # ?r3) acc =
      subdoc_lines (Suc (Suc (Suc (Suc 0)))) (LF # ?r4) (acc\<lparr>sa_data := Some []\<rparr>)" for acc
    by (rule subdoc_lines_next [OF _ _ _ d]) (simp_all add: SUBDOC_TAG_COUNT_def)
  have 5: "subdoc_lines (Suc (Suc (Suc (Suc 0)))) (LF # ?r4) acc = Some (acc\<lparr>sa_data := Some data\<rparr>)" for acc
    using ok by (subst subdoc_lines_data, simp add: SUBDOC_TAG_COUNT_def, simp,
        subst line_parser_data [where pre = "[]" and data = data and rest = "[CR]"]) simp_all
  show ?thesis unfolding ptr 1 2 3 4 5 by simp
qed

section \<open>The parts read back\<close>

definition boundary_ok :: "string \<Rightarrow> bool" where
  "boundary_ok b \<longleftrightarrow> b \<noteq> [] \<and> CR \<notin> set b \<and> NUL \<notin> set b"

text \<open>What a scan meets between two boundary lines: no \<open>--boundary\<close>.\<close>

definition clear_of :: "string \<Rightarrow> string \<Rightarrow> bool" where
  "clear_of b x \<longleftrightarrow> strstr x (''--'' @ b) = None"

lemma clear_of_suffix: "clear_of b (a @ x) \<Longrightarrow> clear_of b x"
  unfolding clear_of_def by (rule strstr_None_suffix)

lemma no_boundary_here:
  assumes "boundary_ok b" "clear_of b x"
  shows "memcmp_eq (x @ CR # r) (last_line_boundary b) = Some False"
    "memcmp_eq (x @ CR # r) (line_boundary b) = Some False"
proof -
  have "CR \<notin> set (''--'' @ b)" using assms(1) by (simp add: boundary_ok_def)
  moreover have "take (length (''--'' @ b)) x \<noteq> ''--'' @ b"
    using assms(2) unfolding clear_of_def by (rule strstr_None_take)
  ultimately have "memcmp_eq (x @ CR # r) ((''--'' @ b) @ t) = Some False" for t
    by (rule memcmp_eq_differs)
  from this [of "''--''"] this [of "[CR, LF]"] show
    "memcmp_eq (x @ CR # r) (last_line_boundary b) = Some False"
    "memcmp_eq (x @ CR # r) (line_boundary b) = Some False"
    by (simp_all add: last_line_boundary_def line_boundary_def)
qed

text \<open>The next \<open>-\<close> of a text before a boundary line, and the rest of its line.\<close>

lemma first_dash:
  obtains "CHR ''-'' \<notin> set x"
  | a c where "x = a @ CHR ''-'' # c" "CHR ''-'' \<notin> set a" "LF \<notin> set c"
  | a c1 c2 where "x = a @ CHR ''-'' # c1 @ LF # c2" "CHR ''-'' \<notin> set a" "LF \<notin> set c1"
proof (cases "CHR ''-'' \<in> set x")
  case True
  then obtain a c where ac: "x = a @ CHR ''-'' # c" "CHR ''-'' \<notin> set a" by (auto dest: split_list_first)
  show ?thesis
  proof (cases "LF \<in> set c")
    case True
    then obtain c1 c2 where "c = c1 @ LF # c2" "LF \<notin> set c1" by (auto dest: split_list_first)
    with ac that(3) show ?thesis by blast
  qed (use ac that(2) in blast)
qed (use that(1) in blast)

lemma memchr_dash:
  "CHR ''-'' \<notin> set a \<Longrightarrow> memchr (CHR ''-'') (length (a @ CHR ''-'' # r) - 1) (a @ CHR ''-'' # r) =
     (if r = [] then None else Some (CHR ''-'' # r))"
proof (cases "r = []")
  case True
  assume "CHR ''-'' \<notin> set a"
  then have "memchr (CHR ''-'') (length a) (a @ t) = None" for t by (induction a) auto
  with True show ?thesis by simp
qed (simp add: memchr_found)

lemma memchr_line:
  assumes "LF \<notin> set c" "r \<noteq> []"
  shows "memchr LF (length (c @ LF # r) - 1) (c @ LF # r) = Some (LF # r)"
  using assms by (simp add: memchr_found)

definition is_boundary :: "string \<Rightarrow> string \<Rightarrow> bool" where
  "is_boundary b rest \<longleftrightarrow> (\<exists>t. rest = ''--'' @ b @ t)"

lemma is_boundaryD: "is_boundary b rest \<Longrightarrow> \<exists>r. rest = CHR ''-'' # CHR ''-'' # r"
  by (auto simp: is_boundary_def)

lemma skip_step:
  assumes "boundary_ok b" "is_boundary b rest" "clear_of b x"
  shows "(memchr (CHR ''-'') (length (x @ CR # LF # rest) - 1) (x @ CR # LF # rest) =
            memchr (CHR ''-'') (length rest - 1) rest)
    \<or> (\<exists>q r x'. memchr (CHR ''-'') (length (x @ CR # LF # rest) - 1) (x @ CR # LF # rest) = Some q \<and>
          memcmp_eq q (last_line_boundary b) = Some False \<and> memcmp_eq q (line_boundary b) = Some False \<and>
          memchr LF (length q - 1) q = Some r \<and>
          (drop 1 r = rest \<or> drop 1 r = x' @ CR # LF # rest \<and> clear_of b x' \<and> length x' < length x))"
proof -
  obtain r0 where rest: "rest = CHR ''-'' # CHR ''-'' # r0" using is_boundaryD [OF assms(2)] by blast
  show ?thesis
  proof (cases rule: first_dash [of x])
    case 1
    then have "memchr (CHR ''-'') (length (x @ CR # LF # rest) - 1) (x @ CR # LF # rest) = Some rest"
      using memchr_dash [of "x @ [CR, LF]" "CHR ''-'' # r0"] rest by simp
    moreover have "memchr (CHR ''-'') (length rest - 1) rest = Some rest" by (simp add: rest)
    ultimately show ?thesis by simp
  next
    case (2 a c)
    let ?q = "(CHR ''-'' # c) @ CR # LF # rest"
    have "memchr (CHR ''-'') (length (x @ CR # LF # rest) - 1) (x @ CR # LF # rest) = Some ?q"
      using memchr_dash [OF 2(2), of "c @ CR # LF # rest"] 2(1) by simp
    moreover have "clear_of b (CHR ''-'' # c)" using assms(3) clear_of_suffix 2(1) by blast
    note no_boundary_here [OF assms(1) this, of "LF # rest"]
    moreover have "memchr LF (length ?q - 1) ?q = Some (LF # rest)"
      using memchr_line [of "CHR ''-'' # c @ [CR]" rest] 2(3) rest by simp
    ultimately show ?thesis by (intro disjI2 exI [of _ ?q] exI [of _ "LF # rest"]) simp
  next
    case (3 a c1 c2)
    let ?q = "(CHR ''-'' # c1 @ LF # c2) @ CR # LF # rest" and ?r = "LF # c2 @ CR # LF # rest"
    have "memchr (CHR ''-'') (length (x @ CR # LF # rest) - 1) (x @ CR # LF # rest) = Some ?q"
      using memchr_dash [OF 3(2), of "c1 @ LF # c2 @ CR # LF # rest"] 3(1) by simp
    moreover have "clear_of b (CHR ''-'' # c1 @ LF # c2)" using assms(3) clear_of_suffix 3(1) by blast
    note no_boundary_here [OF assms(1) this, of "LF # rest"]
    moreover have "memchr LF (length ?q - 1) ?q = Some ?r"
      using memchr_line [of "CHR ''-'' # c1" "c2 @ CR # LF # rest"] 3(3) by simp
    moreover have "clear_of b c2" using assms(3) clear_of_suffix [of b "a @ CHR ''-'' # c1 @ [LF]" c2] 3(1) by simp
    ultimately show ?thesis
      by (intro disjI2 exI [of _ ?q] exI [of _ ?r] exI [of _ c2]) (simp add: 3(1))
  qed
qed

lemma next_boundary_skip:
  assumes "boundary_ok b" "is_boundary b rest" "clear_of b x"
  shows "next_boundary b (x @ CR # LF # rest) = next_boundary b rest"
  using assms(3)
proof (induction "length x" arbitrary: x rule: less_induct)
  case less
  from skip_step [OF assms(1,2) less.prems] show ?case
  proof (elim disjE exE conjE)
    assume "memchr (CHR ''-'') (length (x @ CR # LF # rest) - 1) (x @ CR # LF # rest) = memchr (CHR ''-'') (length rest - 1) rest"
    then show ?thesis by (subst (1 2) next_boundary.simps) (simp only:)
  next
    fix q r x'
    assume q: "memchr (CHR ''-'') (length (x @ CR # LF # rest) - 1) (x @ CR # LF # rest) = Some q"
      "memcmp_eq q (last_line_boundary b) = Some False" "memcmp_eq q (line_boundary b) = Some False"
      "memchr LF (length q - 1) q = Some r"
    then have n: "next_boundary b (x @ CR # LF # rest) = next_boundary b (drop 1 r)"
      by (subst next_boundary.simps) (simp del: length_append)
    show ?thesis if "drop 1 r = rest" using n that by simp
    show ?thesis if "drop 1 r = x' @ CR # LF # rest" "clear_of b x'" "length x' < length x"
      using n that less.hyps by simp
  qed
qed

lemma split_parts_skip:
  assumes "boundary_ok b" "is_boundary b rest" "clear_of b x"
  shows "split_parts b (x @ CR # LF # rest) s = split_parts b rest s"
  using assms(3)
proof (induction "length x" arbitrary: x rule: less_induct)
  case less
  obtain r0 where rest: "rest = CHR ''-'' # CHR ''-'' # r0" using is_boundaryD [OF assms(2)] by blast
  have l: "\<not> length (x @ CR # LF # rest) \<le> 1" "\<not> length rest \<le> 1" by (simp_all add: rest)
  from skip_step [OF assms(1,2) less.prems] show ?case
  proof (elim disjE exE conjE)
    assume "memchr (CHR ''-'') (length (x @ CR # LF # rest) - 1) (x @ CR # LF # rest) = memchr (CHR ''-'') (length rest - 1) rest"
    then show ?thesis using l by (subst (1 2) split_parts.simps) (simp only: if_False)
  next
    fix q r x'
    assume q: "memchr (CHR ''-'') (length (x @ CR # LF # rest) - 1) (x @ CR # LF # rest) = Some q"
      "memcmp_eq q (last_line_boundary b) = Some False" "memcmp_eq q (line_boundary b) = Some False"
      "memchr LF (length q - 1) q = Some r"
    then have n: "split_parts b (x @ CR # LF # rest) s = split_parts b (drop 1 r) s"
      using l by (subst split_parts.simps) (simp del: length_append)
    show ?thesis if "drop 1 r = rest" using n that by simp
    show ?thesis if "drop 1 r = x' @ CR # LF # rest" "clear_of b x'" "length x' < length x"
      using n that less.hyps by simp
  qed
qed

definition at_boundary :: "string \<Rightarrow> string \<Rightarrow> bool" where
  "at_boundary b rest \<longleftrightarrow> (\<exists>t. rest = line_boundary b @ t) \<or> (\<exists>t. rest = last_line_boundary b @ t)"

lemma at_boundary_is: "at_boundary b rest \<Longrightarrow> is_boundary b rest"
  by (auto simp: at_boundary_def is_boundary_def line_boundary_def last_line_boundary_def)

lemma memchr_hd: "memchr c (length (c # x # r) - 1) (c # x # r) = Some (c # x # r)"
  by simp

lemma line_not_last: "memcmp_eq (line_boundary b @ t) (last_line_boundary b) = Some False"
proof -
  have "memcmp_eq ((''--'' @ b) @ [CR, LF] @ t) ((''--'' @ b) @ ''--'') = Some False"
    unfolding memcmp_eq_same by simp
  then show ?thesis by (simp add: line_boundary_def last_line_boundary_def)
qed

lemma boundary_hd:
  "\<exists>r. line_boundary b @ t = CHR ''-'' # CHR ''-'' # r" "\<exists>r. last_line_boundary b @ t = CHR ''-'' # CHR ''-'' # r"
  by (simp_all add: line_boundary_def last_line_boundary_def)

lemma next_boundary_at:
  assumes "at_boundary b rest"
  shows "next_boundary b rest = Some rest"
proof -
  obtain r where r: "rest = CHR ''-'' # CHR ''-'' # r" using is_boundaryD at_boundary_is [OF assms] by blast
  have m: "memchr (CHR ''-'') (length rest - 1) rest = Some rest" unfolding r by (rule memchr_hd)
  from assms show ?thesis unfolding at_boundary_def
  proof (elim disjE exE)
    fix t assume "rest = line_boundary b @ t"
    then show ?thesis using m line_not_last [of b t] by (subst next_boundary.simps) simp
  next
    fix t assume "rest = last_line_boundary b @ t"
    then show ?thesis using m by (subst next_boundary.simps) simp
  qed
qed

lemma split_parts_line:
  assumes "boundary_ok b" "at_boundary b rest" "clear_of b x"
  shows "split_parts b (line_boundary b @ x @ CR # LF # rest) s =
    (case subdoc_parser (LF # x @ CR # LF # rest) (length x + 1) s of
       None \<Rightarrow> None | Some s1 \<Rightarrow> split_parts b rest s1)"
proof -
  let ?p = "line_boundary b @ x @ CR # LF # rest" and ?ptr = "LF # x @ CR # LF # rest"
  obtain r where r: "?p = CHR ''-'' # CHR ''-'' # r" using boundary_hd(1) by blast
  have m: "memchr (CHR ''-'') (length ?p - 1) ?p = Some ?p" unfolding r by (rule memchr_hd)
  have l: "\<not> length ?p \<le> 1" unfolding r by simp
  have ptr: "drop (length (line_boundary b) - 1) ?p = ?ptr" by (simp add: line_boundary_def)
  have nb: "next_boundary b (drop 1 ?ptr) = Some rest"
    using next_boundary_skip [OF assms(1) at_boundary_is [OF assms(2)] assms(3)] next_boundary_at [OF assms(2)] by simp
  have n: "length ?ptr - length rest - 2 = length x + 1" by simp
  have lf: "memchr LF (length ?ptr - 1) ?ptr = Some ?ptr" by simp
  have sk: "split_parts b (drop 1 ?ptr) s1 = split_parts b rest s1" for s1
    using split_parts_skip [OF assms(1) at_boundary_is [OF assms(2)] assms(3)] by simp
  show ?thesis
    using l m line_not_last memcmp_eq_prefix [of "line_boundary b"]
    by (subst split_parts.simps) (simp only: if_False option.case bool.case ptr nb n lf sk Let_def)
qed

lemma split_parts_last: "split_parts b (last_line_boundary b @ t) s = Some s"
proof -
  let ?p = "last_line_boundary b @ t"
  obtain r where r: "?p = CHR ''-'' # CHR ''-'' # r" using boundary_hd(2) by blast
  have "memchr (CHR ''-'') (length ?p - 1) ?p = Some ?p" unfolding r by (rule memchr_hd)
  moreover have "\<not> length ?p \<le> 1" unfolding r by simp
  ultimately show ?thesis by (subst split_parts.simps) simp
qed

lemma subdoc_parser_part:
  assumes "mem_ok s" "part_ok etag ns data"
  shows "subdoc_parser (LF # part_content etag ns data @ CR # LF # rest) (length (part_content etag ns data) + 1) s =
    Some (addToMpList etag ns data s)"
proof -
  let ?x = "part_content etag ns data"
  have "take (length ?x + 1 + 1) (LF # ?x @ CR # LF # rest) = LF # ?x @ [CR]" by simp
  moreover have "etag \<noteq> 0" "data \<noteq> []" using assms(2) by (auto simp: part_ok_def)
  ultimately show ?thesis
    using assms(1) subdoc_lines_part [OF assms(2)] by (simp add: subdoc_parser_def)
qed

definition part_text :: "string \<Rightarrow> u32 \<times> string \<times> string \<Rightarrow> string" where
  "part_text b d = (case d of (etag, ns, data) \<Rightarrow> line_boundary b @ part_content etag ns data @ [CR, LF])"

definition body_text :: "string \<Rightarrow> (u32 \<times> string \<times> string) list \<Rightarrow> string \<Rightarrow> string" where
  "body_text b docs tail = concat (map (part_text b) docs) @ last_line_boundary b @ tail"

definition doc_ok :: "string \<Rightarrow> u32 \<times> string \<times> string \<Rightarrow> bool" where
  "doc_ok b d = (case d of (etag, ns, data) \<Rightarrow> part_ok etag ns data \<and> clear_of b (part_content etag ns data))"

definition add_docs :: "(u32 \<times> string \<times> string) list \<Rightarrow> 'z mp_st_scheme \<Rightarrow> 'z mp_st_scheme" where
  "add_docs docs s = fold (\<lambda>(etag, ns, data). addToMpList etag ns data) docs s"

lemma at_boundary_body: "at_boundary b (body_text b docs tail)"
  by (cases docs) (auto simp: at_boundary_def body_text_def part_text_def)

lemma mem_ok_addToMpList [simp]: "mem_ok (addToMpList e n d s) = mem_ok s"
  by (simp add: addToMpList_def)

lemma split_parts_body:
  assumes "boundary_ok b" "list_all (doc_ok b) docs" "mem_ok s"
  shows "split_parts b (body_text b docs tail) s = Some (add_docs docs s)"
  using assms(2,3)
proof (induction docs arbitrary: s)
  case Nil
  then show ?case by (simp add: body_text_def add_docs_def split_parts_last)
next
  case (Cons d docs)
  obtain etag ns data where d: "d = (etag, ns, data)" by (cases d)
  let ?x = "part_content etag ns data"
  have ok: "part_ok etag ns data" "clear_of b ?x" using Cons.prems(1) by (auto simp: d doc_ok_def)
  have "body_text b (d # docs) tail = line_boundary b @ ?x @ CR # LF # body_text b docs tail"
    by (simp add: body_text_def part_text_def d)
  then have "split_parts b (body_text b (d # docs) tail) s = split_parts b (body_text b docs tail) (addToMpList etag ns data s)"
    using split_parts_line [OF assms(1) at_boundary_body ok(2), of docs tail s]
      subdoc_parser_part [OF Cons.prems(2) ok(1)] by simp
  also have "\<dots> = Some (add_docs docs (addToMpList etag ns data s))"
    using Cons by simp
  finally show ?case by (simp add: add_docs_def d)
qed

lemma count_parts_total:
  assumes "boundary_ok b" "p = pre @ last_line_boundary b @ tail @ [NUL]"
  shows "count_parts b n p \<noteq> None"
  using assms(2)
proof (induction "length pre" arbitrary: pre p n rule: less_induct)
  case less
  have nul: "NUL \<notin> set (last_line_boundary b)" "NUL \<notin> set (line_boundary b)"
    using assms(1) by (auto simp: boundary_ok_def last_line_boundary_def line_boundary_def)
  obtain r0 where r0: "last_line_boundary b @ tail @ [NUL] = CHR ''-'' # CHR ''-'' # r0" using boundary_hd(2) by blast
  have l: "\<not> length p \<le> 1" unfolding less.prems r0 by simp
  show ?case
  proof (cases "CHR ''-'' \<in> set pre")
    case False
    then have "memchr (CHR ''-'') (length p - 1) p = Some (last_line_boundary b @ tail @ [NUL])"
      using memchr_dash [of pre "CHR ''-'' # r0"] unfolding less.prems r0 by simp
    with l show ?thesis by (subst count_parts.simps) simp
  next
    case True
    then obtain a c where ac: "pre = a @ CHR ''-'' # c" "CHR ''-'' \<notin> set a" by (auto dest: split_list_first)
    let ?q = "CHR ''-'' # c @ last_line_boundary b @ tail @ [NUL]"
    have m: "memchr (CHR ''-'') (length p - 1) p = Some ?q"
      using memchr_dash [OF ac(2), of "c @ last_line_boundary b @ tail @ [NUL]"] unfolding less.prems ac(1) by simp
    have "NUL \<in> set ?q" by simp
    then obtain x y where "memcmp_eq ?q (last_line_boundary b) = Some x" "memcmp_eq ?q (line_boundary b) = Some y"
      using memcmp_eq_total nul by (metis not_None_eq)
    moreover have "length c < length pre" by (simp add: ac(1))
    then have "count_parts b k (drop 1 ?q) \<noteq> None" for k using less.hyps by simp
    ultimately show ?thesis using l m by (subst count_parts.simps) (cases x; simp)
  qed
qed

lemma add_docs_head:
  "mem_ok s \<Longrightarrow> g_mp_head (add_docs docs s) = g_mp_head s @
     map (\<lambda>(etag, ns, data). \<lparr>mp_etag = etag, mp_name_space = ns, mp_data = data,
        mp_isSupplementarySync = g_supplementarySync s\<rparr>) docs"
proof (induction docs arbitrary: s)
  case (Cons d docs)
  obtain e n t where d: "d = (e, n, t)" by (cases d)
  have "g_supplementarySync (addToMpList e n t s) = g_supplementarySync s" by (simp add: addToMpList_def)
  with Cons show ?case by (simp add: d add_docs_def addToMpList_head)
qed (simp add: add_docs_def)

section \<open>Properties\<close>

text \<open>C1: splitting a well-formed multipart body caches exactly its documents, each with the
  version, name and data it was sent with, in the order of the body, whatever follows the
  last boundary; nothing is read outside a buffer. Well-formed: the boundary text occurs
  only in the boundary lines.\<close>

theorem parse_parts_roundtrip:
  assumes "boundary_ok b" "list_all (doc_ok b) docs" "mem_ok s"
    and "\<forall>mp\<in>set (g_mp_head s). mp_isSupplementarySync mp \<noteq> g_supplementarySync s"
    and "distinct (map mp_name_space (g_mp_head s))"
  shows "\<exists>s'. parse_parts b (body_text b docs (tail @ [NUL])) s = Some s' \<and>
    g_mp_head s' = g_mp_head s @ map (\<lambda>(etag, ns, data). \<lparr>mp_etag = etag, mp_name_space = ns, mp_data = data,
        mp_isSupplementarySync = g_supplementarySync s\<rparr>) docs"
proof -
  have "delete_mp_doc s = Some s"
    using delete_mp_doc_from_none [OF assms(5), of 0] assms(4)
    by (auto simp: delete_mp_doc_def dest: nth_mem)
  moreover obtain c where "count_parts b 0 (body_text b docs (tail @ [NUL])) = Some c"
    using count_parts_total [OF assms(1)] unfolding body_text_def by blast
  ultimately have "parse_parts b (body_text b docs (tail @ [NUL])) s = Some (add_docs docs s)"
    using split_parts_body [OF assms(1-3)] assms(3) by (simp add: parse_parts_def)
  with add_docs_head [OF assms(3)] show ?thesis by blast
qed

theorem parse_parts_roundtrip_witness:
  "\<exists>s'. parse_parts ''b1'' (body_text ''b1'' [(5, ''wan'', CHR 0x81 # ''parameters'')] ([CR, LF] @ [NUL])) db_st0 = Some s' \<and>
     map mp_name_space (g_mp_head s') = [''wan'']"
proof -
  let ?d = "(5, ''wan'', CHR 0x81 # ''parameters'')"
  have "boundary_ok ''b1''" "list_all (doc_ok ''b1'') [?d]" "mem_ok db_st0"
    "\<forall>mp\<in>set (g_mp_head db_st0). mp_isSupplementarySync mp \<noteq> g_supplementarySync db_st0"
    "distinct (map mp_name_space (g_mp_head db_st0))"
    by (simp_all add: boundary_ok_def doc_ok_def part_ok_def clear_of_def part_content_def nul_free_def dec.simps
        digit_char_def char_of_def bit_iff_odd)
  from parse_parts_roundtrip [OF this, of "[CR, LF]"] show ?thesis by auto
qed

text \<open>A body in which no \<open>-\<close> follows, so without any boundary line, makes the first loop
  compare memory at the NULL that \<open>memchr\<close> returned.\<close>

theorem parse_parts_no_boundary:
  assumes "CHR ''-'' \<notin> set body" "1 < length body"
  shows "parse_parts b body s = None"
proof -
  have "memchr (CHR ''-'') n body = None" for n
    using assms(1) by (induction "CHR ''-''" n body rule: memchr.induct) auto
  with assms(2) show ?thesis by (simp add: parse_parts_def count_parts.simps)
qed

theorem parse_parts_no_boundary_witness:
  "parse_parts ''b1'' (''<html>'' @ [NUL]) db_st0 = None"
  by (rule parse_parts_no_boundary) simp_all

end
