(* ===== verification/Blob.thy ===== *)
theory Blob
  imports Db
begin

text \<open>
  \<open>src/src/webcfg_blob.c\<close>: before a binary subdocument is handed to its component, its
  name, version and a transaction id are appended to its msgpack map and the number of
  elements in the header byte of the map is raised. The random id and the base64 encoder
  are parameters. The result \<open>None\<close> of \<open>webcfg_appendeddoc\<close> marks undefined behaviour, a
  read of the first byte of no data or the encoding of \<open>SIZE_MAX\<close> bytes.
\<close>

section \<open>Operations\<close>

definition METADATA_MAP_SIZE :: nat where "METADATA_MAP_SIZE = 3"

record appenddoc =
  ad_subdoc_name :: string
  ad_version :: u32
  ad_transaction_id :: u16

definition appenddoc_ops :: "appenddoc \<Rightarrow> pk_op list" where
  "appenddoc_ops d =
     msgpack_pack_string_nvp (Some ''subdoc_name'') (Some (ad_subdoc_name d))
     @ msgpack_pack_string ''version'' @ [PkUint32 (ad_version d)]
     @ msgpack_pack_string ''transaction_id'' @ [PkUint16 (ad_transaction_id d)]"

definition webcfg_pack_appenddoc :: "(pk_op list \<Rightarrow> string) \<Rightarrow> bool \<Rightarrow> appenddoc option \<Rightarrow> string option" where
  "webcfg_pack_appenddoc write mem appenddocData =
     (case appenddocData of
        None \<Rightarrow> None
      | Some d \<Rightarrow> if mem then Some (write (appenddoc_ops d)) else None)"

text \<open>The value returned and the buffer; \<open>None\<close> when there is no first byte.\<close>

definition alterMapData :: "string \<Rightarrow> (int \<times> string) option" where
  "alterMapData buf =
     (case buf of
        [] \<Rightarrow> None
      | b # rest \<Rightarrow>
          let byte = (of_char b :: nat); mapSize = byte mod 16
          in if mapSize = 15 then Some (-1, buf)
             else Some (0, char_of ((byte + METADATA_MAP_SIZE) mod 256) # rest))"

text \<open>The size returned, \<open>None\<close> for \<open>(size_t) -1\<close>, and the buffer.\<close>

definition appendWebcfgEncodedData :: "bool \<Rightarrow> string \<Rightarrow> string \<Rightarrow> (nat option \<times> string option) option" where
  "appendWebcfgEncodedData mem encoded metadata =
     (if \<not> mem then Some (None, None)
      else (case alterMapData (encoded @ metadata) of
          None \<Rightarrow> None
        | Some (ret, buf) \<Rightarrow>
            if ret \<noteq> 0 then Some (None, Some buf)
            else Some (Some (length encoded + length metadata), Some buf)))"

text \<open>\<open>direct\<close>: rbus is enabled and the subdocument has an rbus listener. The value is the
  document, the transaction id and \<open>*embPackSize\<close>; \<open>Some None\<close> is the NULL result.\<close>

definition webcfg_appendeddoc ::
  "(pk_op list \<Rightarrow> string) \<Rightarrow> (string \<Rightarrow> string) \<Rightarrow> bool \<Rightarrow> bool \<Rightarrow> string \<Rightarrow> u32 \<Rightarrow> string \<Rightarrow> u16 \<Rightarrow>
   (string \<times> u16 \<times> int) option option" where
  "webcfg_appendeddoc write b64 direct mem subdoc_name version blob trans_id =
     (if \<not> mem then Some None
      else (case webcfg_pack_appenddoc write mem
                   (Some \<lparr>ad_subdoc_name = subdoc_name, ad_version = version, ad_transaction_id = trans_id\<rparr>) of
          None \<Rightarrow> None
        | Some meta \<Rightarrow>
            (case appendWebcfgEncodedData mem blob meta of
               Some (sz, Some buf) \<Rightarrow>
                 if direct then Some (Some (buf, trans_id, case sz of None \<Rightarrow> -1 | Some n \<Rightarrow> int n))
                 else (case sz of
                     None \<Rightarrow> None
                   | Some n \<Rightarrow> Some (Some (b64 buf, trans_id, int n)))
             | _ \<Rightarrow> None)))"

text \<open>\<open>None\<close>: \<open>/dev/urandom\<close> cannot be opened or read.\<close>

definition generateRandomId :: "u16 option \<Rightarrow> u16" where
  "generateRandomId r = (case r of None \<Rightarrow> 0 | Some k \<Rightarrow> k)"

definition writeToFileData :: "bool \<Rightarrow> string option \<Rightarrow> int \<times> string option" where
  "writeToFileData can_open data =
     (if \<not> can_open then (0, None)
      else (case data of Some d \<Rightarrow> (1, Some d) | None \<Rightarrow> (0, Some [])))"

section \<open>What the code relies on of the encoder\<close>

text \<open>The documented format: the calls of a packer append to the buffer, a map of up to 15
  elements starts with the byte \<open>0x80 + n\<close>, and an integer is written in the shortest form
  whatever its C type.\<close>

definition fixmap_writer :: "(pk_op list \<Rightarrow> string) \<Rightarrow> bool" where
  "fixmap_writer write \<longleftrightarrow>
     (\<forall>a b. write (a @ b) = write a @ write b)
     \<and> (\<forall>n<16. write [PkMap n] = [char_of (128 + n)])
     \<and> (\<forall>w. write [PkUint32 w] = write [PkUint64 (ucast w)])
     \<and> (\<forall>w. write [PkUint16 w] = write [PkUint64 (ucast w)])"

fun fix_write_op :: "pk_op \<Rightarrow> string" where
  "fix_write_op (PkMap n) = (if n < 16 then [char_of (128 + n)] else CHR 0xDF # be 4 n)"
| "fix_write_op (PkUint32 w) = CHR 0xCF # be 8 (unat w)"
| "fix_write_op (PkUint16 w) = CHR 0xCF # be 8 (unat w)"
| "fix_write_op op = mp_write_op op"

definition fix_write :: "pk_op list \<Rightarrow> string" where
  "fix_write ops = concat (map fix_write_op ops)"

lemma unat_ucast_u64 [simp]: "unat (ucast (w :: u32) :: u64) = unat w" "unat (ucast (v :: u16) :: u64) = unat v"
proof -
  have "uint (ucast w :: u64) = uint w" "uint (ucast v :: u64) = uint v"
    by (simp_all add: uint_up_ucast is_up)
  then show "unat (ucast w :: u64) = unat w" "unat (ucast v :: u64) = unat v"
    by (simp_all only: unat_eq_nat_uint)
qed

lemma fix_writer: "fixmap_writer fix_write"
  by (simp add: fixmap_writer_def fix_write_def)

lemma fixmap_writer_Cons:
  assumes "fixmap_writer write"
  shows "write (x # ops) = write [x] @ write ops"
proof -
  have "write ([x] @ ops) = write [x] @ write ops" using assms unfolding fixmap_writer_def by blast
  then show ?thesis by simp
qed

section \<open>Properties\<close>

text \<open>The metadata as elements of a map.\<close>

definition appenddoc_fields :: "appenddoc \<Rightarrow> mp_kv list" where
  "appenddoc_fields d =
     [(MpStr ''subdoc_name'', MpStr (ad_subdoc_name d)), (MpStr ''version'', MpPosInt (ucast (ad_version d))),
      (MpStr ''transaction_id'', MpPosInt (ucast (ad_transaction_id d)))]"

definition kvs_ops :: "mp_kv list \<Rightarrow> pk_op list" where
  "kvs_ops kvs = concat (map (\<lambda>(k, v). ops_of k @ ops_of v) kvs)"

lemma ops_of_map: "ops_of (MpMap kvs) = PkMap (length kvs) # kvs_ops kvs"
  by (simp add: kvs_ops_def)

lemma write_appenddoc:
  assumes "fixmap_writer write"
  shows "write (appenddoc_ops d) = write (kvs_ops (appenddoc_fields d))"
proof -
  note app = conjunct1 [OF assms [unfolded fixmap_writer_def], rule_format]
  have u: "write [PkUint32 w] = write [PkUint64 (ucast w)]" "write [PkUint16 v] = write [PkUint64 (ucast v)]" for w v
    using assms by (auto simp: fixmap_writer_def)
  have nvp: "msgpack_pack_string_nvp (Some t) (Some v) = ops_of (MpStr t) @ ops_of (MpStr v)" for t v
    by (simp add: msgpack_pack_string_nvp_def)
  have kvs: "kvs_ops ((k, v) # kvs) = ops_of k @ ops_of v @ kvs_ops kvs" "kvs_ops [] = []" for k v kvs
    by (simp_all add: kvs_ops_def)
  have nil: "write [] = []" using app [of "[]" "[]"] by simp
  show ?thesis
    by (simp only: appenddoc_ops_def appenddoc_fields_def kvs nvp ops_of.simps app u nil append_Nil2 append_assoc)
qed

lemma alterMapData_fixmap:
  fixes n :: nat
  assumes "n < 16" "buf = char_of (128 + n) # rest"
  shows "alterMapData buf = (if n = 15 then Some (-1, buf) else Some (0, char_of (128 + n + 3) # rest))"
proof -
  have "(of_char (char_of (128 + n) :: char) :: nat) = 128 + n" using assms(1) by simp
  moreover have "(128 + n) mod 16 = n" using assms(1) by presburger
  ultimately show ?thesis
    using assms by (simp add: alterMapData_def METADATA_MAP_SIZE_def Let_def)
qed

text \<open>C39: for a document whose map has at most 12 elements the data sent is the map with the
  three elements of the metadata added at its end, its size byte raised by three, so it
  decodes as one map; base64 is applied unless the component listens on rbus, and the size
  reported is the length of the binary data.\<close>

theorem webcfg_appendeddoc_map:
  assumes "fixmap_writer write" "length kvs \<le> 12"
    and "d = \<lparr>ad_subdoc_name = name, ad_version = v, ad_transaction_id = tid\<rparr>"
  shows "webcfg_appendeddoc write b64 direct True name v (write (ops_of (MpMap kvs))) tid =
    (let buf = write (ops_of (MpMap (kvs @ appenddoc_fields d)))
     in Some (Some (if direct then buf else b64 buf, tid, int (length buf))))"
proof -
  note app = conjunct1 [OF assms(1) [unfolded fixmap_writer_def], rule_format]
  have hd: "write (PkMap n # ops) = char_of (128 + n) # write ops" if "n < 16" for n ops
    using assms(1) that fixmap_writer_Cons [OF assms(1), of "PkMap n" ops] by (simp add: fixmap_writer_def)
  let ?n = "length kvs" and ?m = "write (appenddoc_ops d)"
  have n: "?n < 16" "?n \<noteq> 15" "?n + 3 < 16" using assms(2) by auto
  have old: "write (ops_of (MpMap kvs)) @ ?m = char_of (128 + ?n) # write (kvs_ops kvs) @ ?m"
    unfolding ops_of_map hd [OF n(1)] by simp
  have new: "write (ops_of (MpMap (kvs @ appenddoc_fields d))) = char_of (128 + ?n + 3) # write (kvs_ops kvs) @ ?m"
  proof -
    have "length (kvs @ appenddoc_fields d) = ?n + 3" by (simp add: appenddoc_fields_def)
    moreover have "kvs_ops (kvs @ appenddoc_fields d) = kvs_ops kvs @ kvs_ops (appenddoc_fields d)"
      by (simp add: kvs_ops_def)
    ultimately show ?thesis
      unfolding ops_of_map using hd [OF n(3)] by (simp add: app write_appenddoc [OF assms(1)] add.assoc)
  qed
  have "alterMapData (write (ops_of (MpMap kvs)) @ ?m) =
      Some (0, write (ops_of (MpMap (kvs @ appenddoc_fields d))))"
    unfolding alterMapData_fixmap [OF n(1) old] new using n(2) by simp
  moreover have "length (write (ops_of (MpMap kvs))) + length ?m =
      length (write (ops_of (MpMap (kvs @ appenddoc_fields d))))"
    using arg_cong [OF old, of length] arg_cong [OF new, of length] by simp
  ultimately show ?thesis
    by (simp add: webcfg_appendeddoc_def webcfg_pack_appenddoc_def appendWebcfgEncodedData_def assms(3) Let_def)
qed

theorem webcfg_appendeddoc_map_witness:
  "webcfg_appendeddoc fix_write (\<lambda>x. x) True True ''wan'' 5 (fix_write (ops_of (MpMap [(MpStr ''a'', MpPosInt 1)]))) 7 =
    (let buf = fix_write (ops_of (MpMap ([(MpStr ''a'', MpPosInt 1)] @
        [(MpStr ''subdoc_name'', MpStr ''wan''), (MpStr ''version'', MpPosInt 5), (MpStr ''transaction_id'', MpPosInt 7)])))
     in Some (Some (buf, 7, int (length buf))))"
proof -
  have "length [(MpStr ''a'', MpPosInt 1)] \<le> 12" by simp
  from webcfg_appendeddoc_map [OF fix_writer this refl, of "\<lambda>x. x" True "''wan''" 5 7] show ?thesis
    by (simp add: appenddoc_fields_def)
qed

text \<open>\<open>alterMapData\<close> refuses only a map of 15 elements. With 13 or 14 the sum leaves the
  range of a map header: the byte becomes \<open>0x90\<close> or \<open>0x91\<close>, the header of an array of 0 or 1
  elements, and the document no longer decodes as a map.\<close>

theorem alterMapData_overflow:
  fixes n :: nat
  assumes "n = 13 \<or> n = 14"
  shows "alterMapData (char_of (128 + n) # rest) = Some (0, char_of (144 + (n - 13)) # rest)"
proof -
  have "n < 16" "n \<noteq> 15" "128 + n + 3 = 144 + (n - 13)" using assms by auto
  with alterMapData_fixmap [of n, OF _ refl] show ?thesis by simp
qed

theorem alterMapData_overflow_witness: "alterMapData [char_of (128 + 13 :: nat)] = Some (0, [char_of (144 :: nat)])"
proof -
  have "(13 :: nat) = 13 \<or> (13 :: nat) = 14" by simp
  from alterMapData_overflow [OF this, of "[]"] show ?thesis by simp
qed

end
