(* ===== verification/Apply.thy ===== *)
theory Apply
  imports Multipart Blob
begin

text \<open>
  Applying the cached subdocuments (\<open>processMsgpackSubdoc\<close> of
  \<open>src/src/webcfg_multipart.c\<close> and the node operations of \<open>src/src/webcfg_event.c\<close> it
  uses). What the program gets from outside during one call is a record of parameters:
  the msgpack library, the base64 encoder, random numbers, the clock, and the answers of
  the components to the set requests. The result \<open>None\<close> marks undefined behaviour.
\<close>

section \<open>What comes from outside\<close>

record req_param =
  rp_name :: "string option"
  rp_value :: "string option"
  rp_type :: u16

datatype set_request =
    BlobSet string "string option" int
  | SetValues "req_param list"

text \<open>\<open>ae_beyond\<close> is the byte behind the data of a document, \<open>ae_set i\<close> the answer to the
  request for the \<open>i\<close>-th document: whether it is \<open>WDMP_SUCCESS\<close>, and the component's status;
  \<open>ae_err_text\<close> is \<open>mapWdmpStatusToStatusMessage (mapStatus status)\<close>.\<close>

record apply_env =
  ae_unpack :: unpacker
  ae_write :: "pk_op list \<Rightarrow> string"
  ae_b64 :: "string \<Rightarrow> string"
  ae_beyond :: char
  ae_rbus_enabled :: bool
  ae_WDMP_BLOB :: u16
  ae_WDMP_BASE64 :: u16
  ae_random :: "nat \<Rightarrow> nat \<Rightarrow> u16 option"
  ae_set :: "nat \<Rightarrow> set_request \<Rightarrow> bool \<times> int"
  ae_err_text :: "int \<Rightarrow> string"
  ae_now :: int
  ae_tz :: "int \<Rightarrow> int"
  ae_errno :: errno
  ae_can_open :: bool

section \<open>One node of the list in progress\<close>

definition MAX_APPLY_RETRY_COUNT :: int where "MAX_APPLY_RETRY_COUNT = 3"

definition tmp_node :: "nat \<Rightarrow> 'z db_st_scheme \<Rightarrow> webconfig_tmp_data" where
  "tmp_node i s = g_head s ! i"

definition checkAndUpdateTmpRetryCount :: "nat option \<Rightarrow> string \<Rightarrow> 'z db_st_scheme \<Rightarrow> WEBCFG_STATUS \<times> 'z db_st_scheme" where
  "checkAndUpdateTmpRetryCount temp docname s =
     (case temp of
        None \<Rightarrow> (WEBCFG_FAILURE, s)
      | Some i \<Rightarrow>
          if i < length (g_head s) \<and> docname = tmp_name (tmp_node i s) then
            (if MAX_APPLY_RETRY_COUNT \<le> tmp_retry_count (tmp_node i s) then
               (if tmp_retry_count (tmp_node i s) = MAX_APPLY_RETRY_COUNT
                   \<and> tmp_error_details (tmp_node i s) \<noteq> ''max_retry_reached''
                then (let t = tmp_node i s;
                          s1 = addWebConfgNotifyMsg (Some (tmp_name t)) (tmp_version t) (Some ''failed'')
                                 (Some ''max_retry_reached'') (Some (tmp_cloud_trans_id t)) 0 (Some ''status'') 0 None 200 s
                      in (WEBCFG_FAILURE,
                          snd (updateTmpList temp (tmp_name t) (tmp_version t) ''failed'' ''max_retry_reached''
                                 (tmp_error_code t) 0 1 s1)))
                else (WEBCFG_FAILURE, s))
             else (WEBCFG_SUCCESS,
                   s\<lparr>g_head := upd_at i (\<lambda>t. t\<lparr>tmp_retry_count := tmp_retry_count t + 1\<rparr>) (g_head s)\<rparr>))
          else (WEBCFG_FAILURE, s))"

definition getDocVersionFromTmpList :: "nat option \<Rightarrow> string \<Rightarrow> 'z db_st_scheme \<Rightarrow> u32" where
  "getDocVersionFromTmpList temp docname s =
     (case temp of
        None \<Rightarrow> 0
      | Some i \<Rightarrow> if i < length (g_head s) \<and> docname = tmp_name (tmp_node i s)
                  then tmp_version (tmp_node i s) else 0)"

definition validateEvent :: "nat option \<Rightarrow> string option \<Rightarrow> u16 \<Rightarrow> 'z db_st_scheme \<Rightarrow> WEBCFG_STATUS" where
  "validateEvent temp docname txid s =
     (case (temp, docname) of
        (Some i, Some d) \<Rightarrow>
          if i < length (g_head s) \<and> d = tmp_name (tmp_node i s) \<and> txid = tmp_trans_id (tmp_node i s)
          then WEBCFG_SUCCESS else WEBCFG_FAILURE
      | _ \<Rightarrow> WEBCFG_FAILURE)"

section \<open>The root document\<close>

text \<open>The loops of \<open>checkRootDelete\<close> and \<open>checkRootUpdate\<close>; the flag is \<open>docSuccess\<close>.\<close>

fun root_delete_walk :: "bool \<Rightarrow> webconfig_tmp_data list \<Rightarrow> bool" where
  "root_delete_walk docSuccess [] = docSuccess"
| "root_delete_walk docSuccess (t # ts) =
     (if tmp_name t \<noteq> ''root'' then
        (if tmp_status t = ''success'' then root_delete_walk True ts else False)
      else root_delete_walk docSuccess ts)"

definition checkRootDelete :: "'z db_st_scheme \<Rightarrow> WEBCFG_STATUS" where
  "checkRootDelete s = (if root_delete_walk False (g_head s) then WEBCFG_SUCCESS else WEBCFG_FAILURE)"

definition root_update_skips :: "webconfig_tmp_data \<Rightarrow> bool" where
  "root_update_skips t \<longleftrightarrow>
     (tmp_error_code t = 204 \<and> strstr (tmp_error_details t) ''doc_unsupported'' \<noteq> None)
     \<or> tmp_isSupplementarySync t = 1"

fun root_update_walk :: "bool \<Rightarrow> webconfig_tmp_data list \<Rightarrow> bool" where
  "root_update_walk docSuccess [] = docSuccess"
| "root_update_walk docSuccess (t # ts) =
     (if root_update_skips t then root_update_walk docSuccess ts
      else if tmp_name t \<noteq> ''root'' then
        (if tmp_status t = ''success'' then root_update_walk True ts else False)
      else root_update_walk docSuccess ts)"

definition checkRootUpdate :: "'z db_st_scheme \<Rightarrow> WEBCFG_STATUS" where
  "checkRootUpdate s = (if root_update_walk False (g_head s) then WEBCFG_SUCCESS else WEBCFG_FAILURE)"

definition updateRootVersionToDB :: "'z db_st_scheme \<Rightarrow> 'z db_st_scheme option" where
  "updateRootVersionToDB s =
     (let version = get_global_root s
      in if version \<noteq> 0 then
           (case checkDBList ''root'' version None s of
              None \<Rightarrow> None
            | Some (_, s1) \<Rightarrow>
                Some (snd (updateTmpList (getTmpNode ''root'' s1) ''root'' version ''success'' ''none'' 0 0 0 s1)))
         else Some s)"

definition deleteRootAndMultipartDocs :: "'z db_st_scheme \<Rightarrow> 'z db_st_scheme" where
  "deleteRootAndMultipartDocs s =
     (if checkRootDelete s = WEBCFG_SUCCESS
      then delete_multipart (delete_tmp_list (reset_numOfMpDocs s)) else s)"

section \<open>The parameters of a document\<close>

definition MAX_PARAMETERNAME_LEN :: nat where "MAX_PARAMETERNAME_LEN = 4096"

definition cstr :: "string \<Rightarrow> string" where
  "cstr v = takeWhile (\<lambda>c. c \<noteq> NUL) v"

definition validate_request_param :: "req_param list \<Rightarrow> WEBCFG_STATUS" where
  "validate_request_param params =
     (if list_all (\<lambda>p. (case (rp_name p, rp_value p) of
            (Some n, Some v) \<Rightarrow> n \<noteq> [] \<and> cstr v \<noteq> [] \<and> length n < MAX_PARAMETERNAME_LEN
          | _ \<Rightarrow> False)) params
      then WEBCFG_SUCCESS else WEBCFG_FAILURE)"

definition rbus_direct :: "apply_env \<Rightarrow> string \<Rightarrow> 'z db_st_scheme \<Rightarrow> bool" where
  "rbus_direct env name s \<longleftrightarrow> ae_rbus_enabled env \<and> isRbusListener name s"

text \<open>The local variables the loop over the documents carries along: \<open>lp_stale\<close> says whether
  \<open>buff\<close> still points to a buffer of an earlier document, freed since.\<close>

record apply_loop =
  lp_success_count :: int
  lp_current_doc_count :: int
  lp_rv :: WEBCFG_STATUS
  lp_doc_transId :: u16
  lp_sendMsgSize :: int
  lp_buff :: "string option"
  lp_stale :: bool

definition req_zero :: req_param where
  "req_zero = \<lparr>rp_name = None, rp_value = None, rp_type = 0\<rparr>"

fun build_params ::
  "apply_env \<Rightarrow> nat \<Rightarrow> multipartdocs \<Rightarrow> nat option \<Rightarrow> nat \<Rightarrow> wparam list \<Rightarrow> apply_loop \<Rightarrow> 'z db_st_scheme \<Rightarrow>
   (req_param list \<times> apply_loop \<times> 'z db_st_scheme) option" where
  "build_params env i mp node j [] L s = Some ([], L, s)"
| "build_params env i mp node j (e # es) L s =
     (case (case wp_value e of
        None \<Rightarrow> Some (req_zero, L, s)
      | Some v \<Rightarrow>
          if wp_type e = ae_WDMP_BLOB env then
            (let direct = rbus_direct env (mp_name_space mp) s
             in case webcfg_appendeddoc (ae_write env) (ae_b64 env) direct (mem_ok s) (mp_name_space mp)
                     (mp_etag mp) v (generateRandomId (ae_random env i j)) of
                  None \<Rightarrow> None
                | Some r \<Rightarrow>
                    (let (p, L1) = (case r of
                           None \<Rightarrow> (req_zero, L)
                         | Some (doc, tid, sz) \<Rightarrow>
                             (\<lparr>rp_name = wp_name e, rp_value = Some (if direct then doc else cstr doc),
                               rp_type = ae_WDMP_BASE64 env\<rparr>,
                              L\<lparr>lp_doc_transId := tid, lp_sendMsgSize := sz,
                                lp_buff := (if direct then Some doc else lp_buff L)\<rparr>))
                     in Some (p, L1, snd (updateTmpList node (mp_name_space mp) (mp_etag mp) ''pending'' ''none'' 0
                                            (lp_doc_transId L1) 0 s))))
          else Some (\<lparr>rp_name = wp_name e, rp_value = Some (cstr v), rp_type = wp_type e\<rparr>, L, s)) of
       None \<Rightarrow> None
     | Some (p, L1, s1) \<Rightarrow>
         (case build_params env i mp node (Suc j) es L1 s1 of
            None \<Rightarrow> None
          | Some (ps, L2, s2) \<Rightarrow> Some (p # ps, L2, s2)))"

section \<open>The answer of the component\<close>

definition notify_doc ::
  "multipartdocs \<Rightarrow> string \<Rightarrow> string \<Rightarrow> string \<Rightarrow> u16 \<Rightarrow> 'z db_st_scheme \<Rightarrow> 'z db_st_scheme" where
  "notify_doc mp status details uuid err s =
     addWebConfgNotifyMsg (Some (mp_name_space mp)) (mp_etag mp) (Some status) (Some details) (Some uuid) 0
       (Some ''status'') err None 200 s"

text \<open>The document is recorded, unless it was sent as base64 and its event is awaited.\<close>

definition record_success ::
  "multipartdocs \<Rightarrow> nat \<Rightarrow> bool \<Rightarrow> apply_loop \<Rightarrow> 'z db_st_scheme \<Rightarrow> (apply_loop \<times> 'z db_st_scheme) option" where
  "record_success mp i base64 L s =
     (if base64 then Some (L, s)
      else (let s1 = snd (updateTmpList (Some i) (mp_name_space mp) (mp_etag mp) ''success'' ''none'' 0 0 0 s);
                s2 = notify_doc mp ''success'' ''none'' (tmp_cloud_trans_id (tmp_node i s1)) 0 s1
            in if mp_isSupplementarySync mp = 0 then
                 (case checkDBList (mp_name_space mp) (mp_etag mp) None s2 of
                    None \<Rightarrow> None
                  | Some (_, s3) \<Rightarrow> Some (L\<lparr>lp_success_count := lp_success_count L + 1\<rparr>, s3))
               else Some (L, s2)))"

text \<open>The root version is recorded when the successes so far are as many as the primary
  documents so far.\<close>

definition record_root :: "apply_loop \<Rightarrow> 'z db_st_scheme \<Rightarrow> (apply_loop \<times> 'z db_st_scheme) option" where
  "record_root L s =
     (if lp_success_count L = lp_current_doc_count L \<and> g_supplementarySync s = 0 then
        (case (if get_global_root s \<noteq> 0 then
                 (case checkDBList ''root'' (get_global_root s) None s of
                    None \<Rightarrow> None
                  | Some (_, s1) \<Rightarrow> Some (L\<lparr>lp_success_count := lp_success_count L + 1\<rparr>, s1))
               else Some (L, s)) of
           None \<Rightarrow> None
         | Some (L1, s1) \<Rightarrow>
             Some (L1\<lparr>lp_rv := WEBCFG_SUCCESS\<rparr>,
                   if checkRootDelete s1 = WEBCFG_SUCCESS then delete_tmp_list (reset_numOfMpDocs s1) else s1))
      else Some (L, s))"

definition apply_success ::
  "apply_env \<Rightarrow> multipartdocs \<Rightarrow> nat \<Rightarrow> req_param list \<Rightarrow> apply_loop \<Rightarrow> 'z db_st_scheme \<Rightarrow> (apply_loop \<times> 'z db_st_scheme) option" where
  "apply_success env mp i params L s =
     (case params of
        [] \<Rightarrow> None
      | p # _ \<Rightarrow>
          (case record_success mp i (rp_type p = ae_WDMP_BASE64 env) L s of
             None \<Rightarrow> None
           | Some (L1, s1) \<Rightarrow> record_root L1 s1))"

definition CCSP_CRASH_STATUS_CODE :: int where "CCSP_CRASH_STATUS_CODE = 192"

definition retry_status :: "int \<Rightarrow> bool" where
  "retry_status ccspStatus \<longleftrightarrow>
     ccspStatus = CCSP_CRASH_STATUS_CODE \<or> ccspStatus = 204 \<or> ccspStatus = 191 \<or> ccspStatus = 193 \<or> ccspStatus = 190"

text \<open>The status 9005 of a document the device does not support is taken for 204.\<close>

definition map_ccsp :: "string \<Rightarrow> int \<Rightarrow> 'z db_st_scheme \<Rightarrow> int" where
  "map_ccsp name ccspStatus s =
     (if ccspStatus = 9005 \<and> isSubDocSupported name s \<noteq> WEBCFG_SUCCESS then 204 else ccspStatus)"

text \<open>The flag of the result says whether the loop over the documents is left.\<close>

definition apply_failure ::
  "apply_env \<Rightarrow> multipartdocs \<Rightarrow> nat \<Rightarrow> int \<Rightarrow> 'z db_st_scheme \<Rightarrow> (bool \<times> 'z db_st_scheme) option" where
  "apply_failure env mp i ccspStatus0 s =
     (let name = mp_name_space mp; ccspStatus = map_ccsp name ccspStatus0 s;
          errDetails = ae_err_text env ccspStatus; code = (word_of_int ccspStatus :: u16)
      in if retry_status ccspStatus then
           (let unsupported = (isSubDocSupported name s \<noteq> WEBCFG_SUCCESS);
                expiry_time = getRetryExpiryTimeout (ae_now env);
                s1 = (if unsupported then s
                      else snd (updateRetryTimeDiff (ae_tz env) (ae_now env) expiry_time
                             (snd (updateFailureTimeStamp (Some i) name expiry_time (set_doc_fail 1 s)))));
                result = fit 128 ((if unsupported then ''doc_unsupported:'' else ''failed_retrying:'') @ errDetails);
                s2 = snd (updateTmpList (Some i) name (mp_etag mp) ''failed'' result code 0 1 s1);
                s3 = notify_doc mp ''failed'' result (tmp_cloud_trans_id (tmp_node i s2)) code s2
            in if g_supplementarySync s3 = 0 \<and> ccspStatus = 204 \<and> unsupported \<and> checkRootUpdate s3 = WEBCFG_SUCCESS
               then (case updateRootVersionToDB s3 of
                       None \<Rightarrow> None
                     | Some s4 \<Rightarrow>
                         (let s5 = deleteRootAndMultipartDocs s4
                          in Some (True, snd (addNewDocEntry (ae_write env) (ae_can_open env) (nat (success_doc_count s5)) s5))))
               else Some (False, s3))
         else
           (let result = fit 128 (''doc_rejected:'' @ errDetails);
                s2 = snd (updateTmpList (Some i) name (mp_etag mp) ''failed'' result code 0 0 s)
            in Some (False, notify_doc mp ''failed'' result (tmp_cloud_trans_id (tmp_node i s2)) code s2)))"

section \<open>One document\<close>

definition doc_error ::
  "multipartdocs \<Rightarrow> nat \<Rightarrow> string \<Rightarrow> u16 \<Rightarrow> bool \<Rightarrow> 'z db_st_scheme \<Rightarrow> 'z db_st_scheme" where
  "doc_error mp i details err global_id s =
     (let s1 = snd (updateTmpList (Some i) (mp_name_space mp) (mp_etag mp) ''failed'' details err 0 0 s)
      in notify_doc mp ''failed'' details
           (if global_id then g_transID s1 else tmp_cloud_trans_id (tmp_node i s1)) err s1)"

text \<open>The set request of the document \<open>n\<close>; \<open>None\<close> when it would pass a freed buffer.\<close>

definition set_request_of ::
  "apply_env \<Rightarrow> multipartdocs \<Rightarrow> req_param list \<Rightarrow> apply_loop \<Rightarrow> 'z db_st_scheme \<Rightarrow> set_request option" where
  "set_request_of env mp params L s =
     (if rbus_direct env (mp_name_space mp) s then
        (if lp_buff L = None \<and> lp_stale L then None
         else Some (BlobSet (snd (get_destination (mp_name_space mp) [] s)) (lp_buff L) (lp_sendMsgSize L)))
      else Some (SetValues params))"

definition apply_document ::
  "apply_env \<Rightarrow> nat \<Rightarrow> multipartdocs \<Rightarrow> nat \<Rightarrow> apply_loop \<Rightarrow> 'z db_st_scheme \<Rightarrow>
   (bool \<times> apply_loop \<times> 'z db_st_scheme) option" where
  "apply_document env n mp i L s =
     (case webcfgparam_convert (mem_ok s) (ae_unpack env) (Some (mp_data mp @ [ae_beyond env])) (ae_errno env) of
        (None, err) \<Rightarrow>
          (let (code, errmsg) = getStatusErrorCodeAndMessage DECODE_ROOT_FAILURE
           in Some (False, L, doc_error mp i (fit 128 (errmsg @ '':'' @ webcfgparam_strerror err)) code False s))
      | (Some pm, err) \<Rightarrow>
          (case build_params env n mp (Some i) 0 pm (L\<lparr>lp_buff := None\<rparr>) s of
             None \<Rightarrow> None
           | Some (params, L1, s1) \<Rightarrow>
               (let L2 = L1\<lparr>lp_stale := lp_stale L1 \<or> lp_buff L1 \<noteq> None\<rparr>
                in if validate_request_param params = WEBCFG_SUCCESS then
                     (case checkAndUpdateTmpRetryCount (Some i) (mp_name_space mp) s1 of
                        (WEBCFG_SUCCESS, s2) \<Rightarrow>
                          (case set_request_of env mp params L1 s2 of
                             None \<Rightarrow> None
                           | Some req \<Rightarrow>
                               (let (ok, ccspStatus) = ae_set env n req
                                in if ok then
                                     (case apply_success env mp i params L2 s2 of
                                        None \<Rightarrow> None | Some (L3, s3) \<Rightarrow> Some (False, L3, s3))
                                   else
                                     (case apply_failure env mp i ccspStatus s2 of
                                        None \<Rightarrow> None | Some (stop, s3) \<Rightarrow> Some (stop, L2, s3))))
                      | (_, s2) \<Rightarrow>
                          (let (code, errmsg) = getStatusErrorCodeAndMessage FAILED_TO_SET_BLOB
                           in Some (False, L2, doc_error mp i errmsg code False s2)))
                   else
                     (let (code, errmsg) = getStatusErrorCodeAndMessage BLOB_PARAM_VALIDATION_FAILURE
                      in Some (False, L2, doc_error mp i errmsg code True s1)))))"

text \<open>The loop over the documents: a document without a node, or whose node is not
  \<open>pending_apply\<close>, is skipped.\<close>

fun apply_documents ::
  "apply_env \<Rightarrow> nat \<Rightarrow> multipartdocs list \<Rightarrow> apply_loop \<Rightarrow> 'z db_st_scheme \<Rightarrow> (apply_loop \<times> 'z db_st_scheme) option" where
  "apply_documents env n [] L s = Some (L, s)"
| "apply_documents env n (mp # mps) L s =
     (if g_mp_head s = [] then Some (L, s)
      else (case getTmpNode (mp_name_space mp) s of
          None \<Rightarrow> apply_documents env (Suc n) mps L s
        | Some i \<Rightarrow>
            if tmp_status (tmp_node i s) \<noteq> ''pending_apply'' then apply_documents env (Suc n) mps L s
            else
              (let s1 = snd (updateTmpList (Some i) (mp_name_space mp) (tmp_version (tmp_node i s)) ''pending'' ''none'' 0 0 0 s);
                   L1 = (if tmp_isSupplementarySync (tmp_node i s1) = 0
                         then L\<lparr>lp_current_doc_count := lp_current_doc_count L + 1\<rparr> else L)
               in case apply_document env n mp i L1 s1 of
                    None \<Rightarrow> None
                  | Some (stop, L2, s2) \<Rightarrow>
                      if stop then Some (L2, s2) else apply_documents env (Suc n) mps L2 s2)))"

definition apply_loop0 :: apply_loop where
  "apply_loop0 = \<lparr>lp_success_count = 0, lp_current_doc_count = 0, lp_rv = WEBCFG_FAILURE, lp_doc_transId = 0,
     lp_sendMsgSize = 0, lp_buff = None, lp_stale = False\<rparr>"

definition processMsgpackSubdoc ::
  "apply_env \<Rightarrow> string option \<Rightarrow> 'z db_st_scheme \<Rightarrow> (WEBCFG_STATUS \<times> 'z db_st_scheme) option" where
  "processMsgpackSubdoc env transaction_id s =
     (let s0 = (case transaction_id of None \<Rightarrow> s | Some t \<Rightarrow> set_global_transID t s)
      in case addToTmpList s0 of
           None \<Rightarrow> None
         | Some (addStatus, s1) \<Rightarrow>
             (let s2 = (if addStatus = WEBCFG_SUCCESS then s1
                        else (let (err, errmsg) = getStatusErrorCodeAndMessage ADD_TO_CACHE_LIST_FAILURE
                              in addWebConfgNotifyMsg (Some ''root'') (get_global_root s1) (Some ''failed'') (Some errmsg)
                                   (Some (g_transID s1)) 0 (Some ''status'') err None 200 s1))
              in case apply_documents env 0 (g_mp_head s2) apply_loop0 s2 of
                   None \<Rightarrow> None
                 | Some (L, s3) \<Rightarrow>
                     Some (lp_rv L,
                           if lp_success_count L \<noteq> 0
                           then snd (addNewDocEntry (ae_write env) (ae_can_open env) (nat (success_doc_count s3)) s3)
                           else s3)))"

text \<open>\<open>parseMultipartDocument\<close>: \<open>body\<close> is the copied buffer.\<close>

definition parseMultipartDocument ::
  "apply_env \<Rightarrow> string \<Rightarrow> string \<Rightarrow> string option \<Rightarrow> 'z db_st_scheme \<Rightarrow> (WEBCFG_STATUS \<times> 'z db_st_scheme) option" where
  "parseMultipartDocument env body ct trans_uuid s =
     (case ct_boundary ct of
        None \<Rightarrow>
          (let (err, result) = getStatusErrorCodeAndMessage MULTIPART_BOUNDARY_NULL
           in Some (WEBCFG_FAILURE,
                addWebConfgNotifyMsg (Some ''root'') (get_global_root s) (Some ''failed'') (Some result) trans_uuid 0
                  (Some ''status'') err None 200 s))
      | Some boundary \<Rightarrow>
          (case parse_parts boundary body s of
             None \<Rightarrow> None
           | Some s1 \<Rightarrow>
               if get_multipartdoc_count s1 = 0 then Some (WEBCFG_FAILURE, s1)
               else (case processMsgpackSubdoc env trans_uuid s1 of
                   None \<Rightarrow> None
                 | Some (status, s2) \<Rightarrow>
                     Some (if status = WEBCFG_SUCCESS then WEBCFG_SUCCESS else WEBCFG_FAILURE, s2))))"

section \<open>What every operation keeps\<close>

text \<open>Memory is available, the list in progress is without duplicates and counted right, the
  database has unique names and is counted right.\<close>

definition apply_inv :: "'z db_st_scheme \<Rightarrow> bool" where
  "apply_inv s \<longleftrightarrow> mem_ok s \<and> tmp_inv s \<and> db_inv s"

definition same_docs :: "'z db_st_scheme \<Rightarrow> 'z db_st_scheme \<Rightarrow> bool" where
  "same_docs s s' \<longleftrightarrow> g_mp_head s' = g_mp_head s \<and> g_sdInfo s' = g_sdInfo s
     \<and> g_supplementarySync s' = g_supplementarySync s \<and> g_ETAG s' = g_ETAG s"

lemma same_docs_refl [simp]: "same_docs s s"
  by (simp add: same_docs_def)

lemma same_docs_trans: "same_docs s s' \<Longrightarrow> same_docs s' s'' \<Longrightarrow> same_docs s s''"
  by (simp add: same_docs_def)

named_theorems keeps

lemma notify_keeps [keeps]:
  "apply_inv (addWebConfgNotifyMsg a b c d e f g h i j s) = apply_inv s"
  "same_docs s' (addWebConfgNotifyMsg a b c d e f g h i j s) = same_docs s' s"
  "g_head (addWebConfgNotifyMsg a b c d e f g h i j s) = g_head s"
  by (simp_all add: addWebConfgNotifyMsg_def notify_enqueue_def apply_inv_def tmp_inv_def db_inv_def same_docs_def)

lemma notify_doc_keeps [keeps]:
  "apply_inv (notify_doc mp a b c d s) = apply_inv s" "same_docs s' (notify_doc mp a b c d s) = same_docs s' s"
  "g_head (notify_doc mp a b c d s) = g_head s"
  by (simp_all add: notify_doc_def keeps)

lemma updateTmpList_keeps [keeps]:
  "apply_inv s \<Longrightarrow> apply_inv (snd (updateTmpList p d v st e ec ti r s))"
  "same_docs s' (snd (updateTmpList p d v st e ec ti r s)) = same_docs s' s"
  using updateTmpList_inv [of s p d v st e ec ti r]
  by (auto simp: updateTmpList_def apply_inv_def db_inv_def same_docs_def split: option.splits)

lemma updateFailureTimeStamp_keeps [keeps]:
  "apply_inv s \<Longrightarrow> apply_inv (snd (updateFailureTimeStamp p d t s))"
  "same_docs s' (snd (updateFailureTimeStamp p d t s)) = same_docs s' s"
  using updateFailureTimeStamp_inv [of s p d t]
  by (auto simp: updateFailureTimeStamp_def apply_inv_def db_inv_def same_docs_def split: option.splits)

lemma small_keeps [keeps]:
  "apply_inv (set_doc_fail k s) = apply_inv s" "same_docs s' (set_doc_fail k s) = same_docs s' s"
  "apply_inv (snd (updateRetryTimeDiff tz now e s)) = apply_inv s"
  "same_docs s' (snd (updateRetryTimeDiff tz now e s)) = same_docs s' s"
  "apply_inv (snd (addNewDocEntry w can n s)) = apply_inv s"
  "same_docs s' (snd (addNewDocEntry w can n s)) = same_docs s' s"
  by (simp_all add: set_doc_fail_def updateRetryTimeDiff_def set_retry_timer_def set_global_retry_timestamp_def
      Let_def addNewDocEntry_def writeToDBFile_def apply_inv_def tmp_inv_def db_inv_def same_docs_def
      split: option.splits)

lemma delete_keeps [keeps]:
  "apply_inv s \<Longrightarrow> apply_inv (delete_tmp_list (reset_numOfMpDocs s))"
  "same_docs s' (delete_tmp_list (reset_numOfMpDocs s)) = same_docs s' s"
  "apply_inv (delete_multipart s) = apply_inv s"
  by (auto simp: delete_tmp_list_def reset_numOfMpDocs_def delete_multipart_def apply_inv_def tmp_inv_def
      db_inv_def same_docs_def)

lemma deleteRootAndMultipartDocs_keeps [keeps]:
  "apply_inv s \<Longrightarrow> apply_inv (deleteRootAndMultipartDocs s)"
  by (simp add: deleteRootAndMultipartDocs_def keeps)

lemma retry_count_keeps [keeps]:
  assumes "apply_inv s"
  shows "apply_inv (snd (checkAndUpdateTmpRetryCount p d s))"
    "same_docs s' (snd (checkAndUpdateTmpRetryCount p d s)) = same_docs s' s"
proof -
  have "apply_inv (s\<lparr>g_head := upd_at i (\<lambda>t. t\<lparr>tmp_retry_count := tmp_retry_count t + 1\<rparr>) (g_head s)\<rparr>)" for i
    using assms by (simp add: apply_inv_def tmp_inv_def db_inv_def map_upd_at)
  moreover have "same_docs s' (s\<lparr>g_head := h\<rparr>) = same_docs s' s" for h by (simp add: same_docs_def)
  ultimately show "apply_inv (snd (checkAndUpdateTmpRetryCount p d s))"
    "same_docs s' (snd (checkAndUpdateTmpRetryCount p d s)) = same_docs s' s"
    using assms by (simp_all add: checkAndUpdateTmpRetryCount_def Let_def keeps split: option.splits)
qed

lemma checkDBList_frame:
  "checkDBList d v r s = Some (st, s') \<Longrightarrow>
   mem_ok s' = mem_ok s \<and> g_head s' = g_head s \<and> numOfMpDocs s' = numOfMpDocs s \<and> same_docs s s'"
  by (auto simp: checkDBList_def updateDBlist_def addToDBList_def same_docs_def
      split: option.splits prod.splits WEBCFG_STATUS.splits if_splits)

lemma checkDBList_keeps:
  assumes "apply_inv s"
  obtains st s' where "checkDBList d v r s = Some (st, s')" "apply_inv s'" "same_docs s s'" "g_head s' = g_head s"
    "db_map (webcfgdb_data s') = db_update d v r (db_map (webcfgdb_data s))"
proof -
  from assms have "db_inv s" "mem_ok s" by (auto simp: apply_inv_def)
  from checkDBList_spec [OF this, of d v r] obtain st s' where c: "checkDBList d v r s = Some (st, s')" "db_inv s'"
    "db_map (webcfgdb_data s') = db_update d v r (db_map (webcfgdb_data s))"
    by (elim exE conjE) (rule that)
  from c(1) have f: "mem_ok s' = mem_ok s \<and> g_head s' = g_head s \<and> numOfMpDocs s' = numOfMpDocs s \<and> same_docs s s'"
    by (rule checkDBList_frame)
  with c(2) assms have "apply_inv s'" by (simp add: apply_inv_def tmp_inv_def)
  with c f that show thesis by blast
qed

lemma updateRootVersionToDB_keeps:
  assumes "apply_inv s"
  obtains s' where "updateRootVersionToDB s = Some s'" "apply_inv s'" "same_docs s s'"
proof (cases "get_global_root s = 0")
  case True
  then have "updateRootVersionToDB s = Some s" by (simp add: updateRootVersionToDB_def)
  with assms that show thesis by simp
next
  case False
  from checkDBList_keeps [OF assms] obtain st s' where c: "checkDBList ''root'' (get_global_root s) None s = Some (st, s')"
    "apply_inv s'" "same_docs s s'" by blast
  then have "updateRootVersionToDB s =
      Some (snd (updateTmpList (getTmpNode ''root'' s') ''root'' (get_global_root s) ''success'' ''none'' 0 0 0 s'))"
    using False by (simp add: updateRootVersionToDB_def)
  with c that show thesis by (simp add: keeps)
qed

section \<open>No undefined behaviour\<close>

text \<open>A blob that can be extended: not empty, and no map of 15 elements.\<close>

definition blob_safe :: "string \<Rightarrow> bool" where
  "blob_safe v \<longleftrightarrow> v \<noteq> [] \<and> (of_char (hd v) :: nat) mod 16 \<noteq> 15"

definition params_safe :: "apply_env \<Rightarrow> bool \<Rightarrow> wparam list \<Rightarrow> bool" where
  "params_safe env direct pm \<longleftrightarrow> pm \<noteq> [] \<and>
     list_all (\<lambda>e. case wp_value e of None \<Rightarrow> True | Some v \<Rightarrow> wp_type e = ae_WDMP_BLOB env \<longrightarrow> blob_safe v) pm
     \<and> (direct \<longrightarrow> list_ex (\<lambda>e. wp_value e \<noteq> None \<and> wp_type e = ae_WDMP_BLOB env) pm)"

definition doc_safe :: "apply_env \<Rightarrow> 'z db_st_scheme \<Rightarrow> multipartdocs \<Rightarrow> bool" where
  "doc_safe env s mp \<longleftrightarrow>
     (case webcfgparam_convert True (ae_unpack env) (Some (mp_data mp @ [ae_beyond env])) (ae_errno env) of
        (None, _) \<Rightarrow> True
      | (Some pm, _) \<Rightarrow> params_safe env (rbus_direct env (mp_name_space mp) s) pm)"

lemma rbus_direct_same: "same_docs s s' \<Longrightarrow> rbus_direct env n s' = rbus_direct env n s"
  by (simp add: rbus_direct_def isRbusListener_def same_docs_def)

lemma doc_safe_same:
  assumes "same_docs s s'"
  shows "doc_safe env s' mp = doc_safe env s mp"
  by (simp only: doc_safe_def rbus_direct_same [OF assms])

lemma webcfg_appendeddoc_safe:
  assumes "blob_safe v"
  shows "\<exists>doc n. webcfg_appendeddoc w b64 direct True name ver v tid = Some (Some (doc, tid, n))"
proof -
  obtain c r where v: "v = c # r" "(of_char c :: nat) mod 16 \<noteq> 15"
    using assms by (cases v) (auto simp: blob_safe_def)
  then show ?thesis
    by (cases direct) (simp_all add: webcfg_appendeddoc_def webcfg_pack_appenddoc_def appendWebcfgEncodedData_def
        alterMapData_def Let_def)
qed

lemma build_params_safe:
  assumes "apply_inv s"
    and "list_all (\<lambda>e. case wp_value e of None \<Rightarrow> True | Some v \<Rightarrow> wp_type e = ae_WDMP_BLOB env \<longrightarrow> blob_safe v) es"
  shows "\<exists>ps L' s'. build_params env i mp node j es L s = Some (ps, L', s') \<and> length ps = length es \<and> apply_inv s' \<and>
    same_docs s s' \<and>
    (rbus_direct env (mp_name_space mp) s \<and>
       (lp_buff L \<noteq> None \<or> list_ex (\<lambda>e. wp_value e \<noteq> None \<and> wp_type e = ae_WDMP_BLOB env) es) \<longrightarrow> lp_buff L' \<noteq> None)"
  using assms
proof (induction es arbitrary: j L s)
  case Nil
  then show ?case by simp
next
  case (Cons e es)
  let ?direct = "rbus_direct env (mp_name_space mp) s"
  let ?blob = "wp_value e \<noteq> None \<and> wp_type e = ae_WDMP_BLOB env"
  have tail: "\<exists>ps L' s'. build_params env i mp node j (e # es) L s = Some (ps, L', s') \<and> length ps = length (e # es) \<and>
      apply_inv s' \<and> same_docs s s' \<and>
      (?direct \<and> (lp_buff L \<noteq> None \<or> list_ex (\<lambda>e. wp_value e \<noteq> None \<and> wp_type e = ae_WDMP_BLOB env) (e # es)) \<longrightarrow> lp_buff L' \<noteq> None)"
    if step: "build_params env i mp node j (e # es) L s =
        (case build_params env i mp node (Suc j) es L1 s1 of None \<Rightarrow> None | Some (ps, L2, s2) \<Rightarrow> Some (p # ps, L2, s2))"
      and inv: "apply_inv s1" "same_docs s s1"
      and buff: "?direct \<and> (lp_buff L \<noteq> None \<or> ?blob) \<longrightarrow> lp_buff L1 \<noteq> None" for p L1 s1
  proof -
    from Cons.prems(2) have "list_all (\<lambda>e. case wp_value e of None \<Rightarrow> True | Some v \<Rightarrow> wp_type e = ae_WDMP_BLOB env \<longrightarrow> blob_safe v) es"
      by simp
    from Cons.IH [OF inv(1) this, of "Suc j" L1] obtain ps L' s' where r:
      "build_params env i mp node (Suc j) es L1 s1 = Some (ps, L', s')" "length ps = length es" "apply_inv s'" "same_docs s1 s'"
      "rbus_direct env (mp_name_space mp) s1 \<and>
       (lp_buff L1 \<noteq> None \<or> list_ex (\<lambda>e. wp_value e \<noteq> None \<and> wp_type e = ae_WDMP_BLOB env) es) \<longrightarrow> lp_buff L' \<noteq> None"
      by (elim exE conjE) (rule that)
    have "build_params env i mp node j (e # es) L s = Some (p # ps, L', s')" using step r(1) by simp
    moreover have "same_docs s s'" using inv(2) r(4) by (rule same_docs_trans)
    moreover have "?direct \<and> (lp_buff L \<noteq> None \<or> list_ex (\<lambda>e. wp_value e \<noteq> None \<and> wp_type e = ae_WDMP_BLOB env) (e # es))
        \<longrightarrow> lp_buff L' \<noteq> None"
      using r(5) buff rbus_direct_same [OF inv(2)] by auto
    ultimately show ?thesis using r(2,3) by (intro exI [of _ "p # ps"] exI [of _ L'] exI [of _ s']) simp
  qed
  show ?case
  proof (cases "?blob")
    case False
    show ?thesis
      by (rule tail [of "if wp_value e = None then req_zero
            else \<lparr>rp_name = wp_name e, rp_value = Some (cstr (the (wp_value e))), rp_type = wp_type e\<rparr>" L s])
        (use False Cons.prems(1) in \<open>auto split: option.splits\<close>)
  next
    case True
    then obtain v where v: "wp_value e = Some v" "wp_type e = ae_WDMP_BLOB env" by auto
    then have "blob_safe v" using Cons.prems(2) by simp
    from webcfg_appendeddoc_safe [OF this] obtain doc n where
      a: "webcfg_appendeddoc (ae_write env) (ae_b64 env) ?direct True (mp_name_space mp) (mp_etag mp) v
            (generateRandomId (ae_random env i j)) = Some (Some (doc, generateRandomId (ae_random env i j), n))"
      by blast
    have mem: "mem_ok s" using Cons.prems(1) by (simp add: apply_inv_def)
    let ?L1 = "L\<lparr>lp_doc_transId := generateRandomId (ae_random env i j), lp_sendMsgSize := n,
        lp_buff := (if ?direct then Some doc else lp_buff L)\<rparr>"
    let ?s1 = "snd (updateTmpList node (mp_name_space mp) (mp_etag mp) ''pending'' ''none'' 0
        (generateRandomId (ae_random env i j)) 0 s)"
    show ?thesis
      by (rule tail [of "\<lparr>rp_name = wp_name e, rp_value = Some (if ?direct then doc else cstr doc), rp_type = ae_WDMP_BASE64 env\<rparr>" ?L1 ?s1])
        (use v a mem Cons.prems(1) in \<open>simp_all add: keeps Let_def\<close>)
  qed
qed

lemma record_success_safe:
  assumes "apply_inv s"
  shows "\<exists>L' s'. record_success mp i b L s = Some (L', s') \<and> apply_inv s' \<and> same_docs s s'"
proof -
  let ?s1 = "snd (updateTmpList (Some i) (mp_name_space mp) (mp_etag mp) ''success'' ''none'' 0 0 0 s)"
  let ?s2 = "notify_doc mp ''success'' ''none'' (tmp_cloud_trans_id (tmp_node i ?s1)) 0 ?s1"
  have s2: "apply_inv ?s2" "same_docs s ?s2" using assms by (simp_all add: keeps)
  from checkDBList_keeps [OF s2(1)] obtain st s3 where c: "checkDBList (mp_name_space mp) (mp_etag mp) None ?s2 = Some (st, s3)"
    "apply_inv s3" "same_docs ?s2 s3" by blast
  have "same_docs s s3" using s2(2) c(3) by (rule same_docs_trans)
  with assms s2 c show ?thesis
    unfolding record_success_def Let_def by (cases b; cases "mp_isSupplementarySync mp = 0") simp_all
qed

lemma record_root_safe:
  assumes "apply_inv s"
  shows "\<exists>L' s'. record_root L s = Some (L', s') \<and> apply_inv s' \<and> same_docs s s'"
proof -
  from checkDBList_keeps [OF assms] obtain st s1 where c: "checkDBList ''root'' (get_global_root s) None s = Some (st, s1)"
    "apply_inv s1" "same_docs s s1" by blast
  let ?t = "if get_global_root s \<noteq> 0 then s1 else s"
  let ?L = "if get_global_root s \<noteq> 0 then L\<lparr>lp_success_count := lp_success_count L + 1\<rparr> else L"
  let ?u = "if checkRootDelete ?t = WEBCFG_SUCCESS then delete_tmp_list (reset_numOfMpDocs ?t) else ?t"
  have t: "apply_inv ?t" "same_docs s ?t" using c assms by simp_all
  then have "apply_inv ?u" "same_docs s ?u" by (simp_all add: keeps)
  moreover have "record_root L s =
      (if lp_success_count L = lp_current_doc_count L \<and> g_supplementarySync s = 0
       then Some (?L\<lparr>lp_rv := WEBCFG_SUCCESS\<rparr>, ?u) else Some (L, s))"
    using c(1) unfolding record_root_def by simp
  ultimately show ?thesis
    using assms same_docs_refl [of s] by (cases "lp_success_count L = lp_current_doc_count L \<and> g_supplementarySync s = 0") simp_all
qed

lemma apply_success_safe:
  assumes "apply_inv s" "params \<noteq> []"
  shows "\<exists>L' s'. apply_success env mp i params L s = Some (L', s') \<and> apply_inv s' \<and> same_docs s s'"
proof -
  obtain p ps where p: "params = p # ps" using assms(2) by (cases params) auto
  obtain L1 s1 where a: "record_success mp i (rp_type p = ae_WDMP_BASE64 env) L s = Some (L1, s1)" "apply_inv s1" "same_docs s s1"
    using record_success_safe [OF assms(1)] by blast
  obtain L2 s2 where b: "record_root L1 s1 = Some (L2, s2)" "apply_inv s2" "same_docs s1 s2"
    using record_root_safe [OF a(2)] by blast
  have "same_docs s s2" using a(3) b(3) by (rule same_docs_trans)
  with a(1) b show ?thesis by (simp add: apply_success_def p)
qed

lemma apply_failure_safe:
  assumes "apply_inv s"
  shows "\<exists>stop s'. apply_failure env mp i c s = Some (stop, s') \<and> apply_inv s' \<and> (\<not> stop \<longrightarrow> same_docs s s')"
proof -
  define name where "name = mp_name_space mp"
  define ccsp where "ccsp = map_ccsp name c s"
  define code where "code = (word_of_int ccsp :: u16)"
  define unsup where "unsup \<longleftrightarrow> isSubDocSupported name s \<noteq> WEBCFG_SUCCESS"
  define expiry where "expiry = getRetryExpiryTimeout (ae_now env)"
  define s1 where "s1 = (if unsup then s
    else snd (updateRetryTimeDiff (ae_tz env) (ae_now env) expiry (snd (updateFailureTimeStamp (Some i) name expiry (set_doc_fail 1 s)))))"
  define result where "result = fit 128 ((if unsup then ''doc_unsupported:'' else ''failed_retrying:'') @ ae_err_text env ccsp)"
  define s2 where "s2 = snd (updateTmpList (Some i) name (mp_etag mp) ''failed'' result code 0 1 s1)"
  define s3 where "s3 = notify_doc mp ''failed'' result (tmp_cloud_trans_id (tmp_node i s2)) code s2"
  define stop where "stop \<longleftrightarrow> g_supplementarySync s3 = 0 \<and> ccsp = 204 \<and> unsup \<and> checkRootUpdate s3 = WEBCFG_SUCCESS"
  have 1: "apply_inv s1" "same_docs s s1" using assms by (simp_all add: s1_def keeps)
  then have 3: "apply_inv s3" "same_docs s s3" by (simp_all add: s3_def s2_def keeps)
  obtain s4 where 4: "updateRootVersionToDB s3 = Some s4" "apply_inv s4" using updateRootVersionToDB_keeps [OF 3(1)] by blast
  define s5 where "s5 = snd (addNewDocEntry (ae_write env) (ae_can_open env)
      (nat (success_doc_count (deleteRootAndMultipartDocs s4))) (deleteRootAndMultipartDocs s4))"
  have 5: "apply_inv s5" using 4(2) by (simp add: s5_def keeps)
  let ?rej = "fit 128 (''doc_rejected:'' @ ae_err_text env ccsp)"
  let ?r2 = "snd (updateTmpList (Some i) name (mp_etag mp) ''failed'' ?rej code 0 0 s)"
  let ?r3 = "notify_doc mp ''failed'' ?rej (tmp_cloud_trans_id (tmp_node i ?r2)) code ?r2"
  have r: "apply_inv ?r3" "same_docs s ?r3" using assms by (simp_all add: keeps)
  have "apply_failure env mp i c s =
    (if retry_status ccsp then (if stop then Some (True, s5) else Some (False, s3)) else Some (False, ?r3))"
    unfolding apply_failure_def Let_def name_def [symmetric] ccsp_def [symmetric] code_def [symmetric]
      unsup_def [symmetric] expiry_def [symmetric] result_def [symmetric] s1_def [symmetric] s2_def [symmetric]
      s3_def [symmetric] stop_def [symmetric] 4(1)
    by (simp only: option.case s5_def [symmetric])
  with 3 5 r show ?thesis by (cases "retry_status ccsp"; cases stop) auto
qed

lemma doc_error_keeps [keeps]:
  "apply_inv s \<Longrightarrow> apply_inv (doc_error mp i d e g s)" "same_docs s' (doc_error mp i d e g s) = same_docs s' s"
  by (simp_all add: doc_error_def Let_def keeps)

lemma apply_document_safe:
  assumes "apply_inv s" "doc_safe env s mp"
  shows "\<exists>stop L' s'. apply_document env n mp i L s = Some (stop, L', s') \<and> apply_inv s' \<and> (\<not> stop \<longrightarrow> same_docs s s')"
proof -
  have mem: "mem_ok s" using assms(1) by (simp add: apply_inv_def)
  obtain r err where conv: "webcfgparam_convert True (ae_unpack env) (Some (mp_data mp @ [ae_beyond env])) (ae_errno env) = (r, err)"
    by (cases "webcfgparam_convert True (ae_unpack env) (Some (mp_data mp @ [ae_beyond env])) (ae_errno env)")
  have err: "apply_inv (doc_error mp i d c g t) \<and> same_docs s (doc_error mp i d c g t)"
    if "apply_inv t" "same_docs s t" for d c g t using that by (simp add: keeps)
  show ?thesis
  proof (cases r)
    case None
    obtain code errmsg where m: "getStatusErrorCodeAndMessage DECODE_ROOT_FAILURE = (code, errmsg)"
      by (cases "getStatusErrorCodeAndMessage DECODE_ROOT_FAILURE")
    have "apply_document env n mp i L s =
        Some (False, L, doc_error mp i (fit 128 (errmsg @ '':'' @ webcfgparam_strerror err)) code False s)"
      unfolding apply_document_def m using conv None mem by simp
    with err [OF assms(1) same_docs_refl] show ?thesis by blast
  next
    case (Some pm)
    let ?L0 = "L\<lparr>lp_buff := None\<rparr>"
    have ps: "params_safe env (rbus_direct env (mp_name_space mp) s) pm"
      using assms(2) conv Some by (simp add: doc_safe_def)
    then have la: "list_all (\<lambda>e. case wp_value e of None \<Rightarrow> True | Some v \<Rightarrow> wp_type e = ae_WDMP_BLOB env \<longrightarrow> blob_safe v) pm"
      by (simp add: params_safe_def)
    from build_params_safe [OF assms(1) la, of n mp "Some i" 0 ?L0] obtain params L1 s1 where b:
      "build_params env n mp (Some i) 0 pm ?L0 s = Some (params, L1, s1)" "length params = length pm" "apply_inv s1"
      "same_docs s s1" "rbus_direct env (mp_name_space mp) s \<and>
       (lp_buff ?L0 \<noteq> None \<or> list_ex (\<lambda>e. wp_value e \<noteq> None \<and> wp_type e = ae_WDMP_BLOB env) pm) \<longrightarrow> lp_buff L1 \<noteq> None"
      by (elim exE conjE) (rule that)
    let ?L2 = "L1\<lparr>lp_stale := lp_stale L1 \<or> lp_buff L1 \<noteq> None\<rparr>"
    have ne: "params \<noteq> []" using ps b(2) by (auto simp: params_safe_def)
    have doc: "apply_document env n mp i L s =
        (if validate_request_param params = WEBCFG_SUCCESS then
           (case checkAndUpdateTmpRetryCount (Some i) (mp_name_space mp) s1 of
              (WEBCFG_SUCCESS, s2) \<Rightarrow>
                (case set_request_of env mp params L1 s2 of
                   None \<Rightarrow> None
                 | Some req \<Rightarrow>
                     (let (ok, ccspStatus) = ae_set env n req
                      in if ok then
                           (case apply_success env mp i params ?L2 s2 of
                              None \<Rightarrow> None | Some (L3, s3) \<Rightarrow> Some (False, L3, s3))
                         else
                           (case apply_failure env mp i ccspStatus s2 of
                              None \<Rightarrow> None | Some (stop, s3) \<Rightarrow> Some (stop, ?L2, s3))))
            | (_, s2) \<Rightarrow>
                (let (code, errmsg) = getStatusErrorCodeAndMessage FAILED_TO_SET_BLOB
                 in Some (False, ?L2, doc_error mp i errmsg code False s2)))
         else
           (let (code, errmsg) = getStatusErrorCodeAndMessage BLOB_PARAM_VALIDATION_FAILURE
            in Some (False, ?L2, doc_error mp i errmsg code True s1)))"
      unfolding apply_document_def using conv Some mem b(1) by (simp only: option.case prod.case Let_def)
    show ?thesis
    proof (cases "validate_request_param params = WEBCFG_SUCCESS")
      case False
      then have "apply_document env n mp i L s =
          Some (False, ?L2, doc_error mp i (snd (getStatusErrorCodeAndMessage BLOB_PARAM_VALIDATION_FAILURE))
            (fst (getStatusErrorCodeAndMessage BLOB_PARAM_VALIDATION_FAILURE)) True s1)"
        using doc by (simp add: split_beta)
      with err [OF b(3,4)] show ?thesis by blast
    next
      case True
      obtain st s2 where c: "checkAndUpdateTmpRetryCount (Some i) (mp_name_space mp) s1 = (st, s2)"
        by (cases "checkAndUpdateTmpRetryCount (Some i) (mp_name_space mp) s1")
      have s2: "apply_inv s2" "same_docs s s2"
        using retry_count_keeps(1) [OF b(3), of "Some i" "mp_name_space mp"]
          retry_count_keeps(2) [OF b(3), of s "Some i" "mp_name_space mp"] b(4) c by simp_all
      show ?thesis
      proof (cases "st = WEBCFG_SUCCESS")
        case False
        then have "apply_document env n mp i L s =
            Some (False, ?L2, doc_error mp i (snd (getStatusErrorCodeAndMessage FAILED_TO_SET_BLOB))
              (fst (getStatusErrorCodeAndMessage FAILED_TO_SET_BLOB)) False s2)"
          using doc True c by (cases st) (simp_all add: split_beta)
        with err [OF s2] show ?thesis by blast
      next
        case ok: True
        obtain req where req: "set_request_of env mp params L1 s2 = Some req"
          using b(5) ps rbus_direct_same [OF s2(2), of env "mp_name_space mp"]
          by (auto simp: set_request_of_def params_safe_def)
        obtain good ccsp where g: "ae_set env n req = (good, ccsp)" by (cases "ae_set env n req")
        obtain L3 s3 where as: "apply_success env mp i params ?L2 s2 = Some (L3, s3)" "apply_inv s3" "same_docs s2 s3"
          using apply_success_safe [OF s2(1) ne] by blast
        obtain stop s3' where af: "apply_failure env mp i ccsp s2 = Some (stop, s3')" "apply_inv s3'"
          "\<not> stop \<longrightarrow> same_docs s2 s3'" using apply_failure_safe [OF s2(1)] by blast
        have "same_docs s s3" "\<not> stop \<longrightarrow> same_docs s s3'"
          using same_docs_trans [OF s2(2)] as(3) af(3) by blast+
        have res: "apply_document env n mp i L s =
            (if good then Some (False, L3, s3) else Some (stop, ?L2, s3'))"
          using doc True c ok req g as(1) af(1) by simp
        show ?thesis
        proof (cases good)
          case True
          then have "apply_document env n mp i L s = Some (False, L3, s3)" using res by simp
          then show ?thesis using as(2) \<open>same_docs s s3\<close> by blast
        next
          case False
          then have "apply_document env n mp i L s = Some (stop, ?L2, s3')" using res by simp
          then show ?thesis using af(2) \<open>\<not> stop \<longrightarrow> same_docs s s3'\<close> by blast
        qed
      qed
    qed
  qed
qed

lemma apply_documents_safe:
  assumes "apply_inv s" "list_all (doc_safe env s) mps"
  shows "\<exists>L' s'. apply_documents env n mps L s = Some (L', s') \<and> apply_inv s'"
  using assms
proof (induction mps arbitrary: n L s)
  case Nil
  then show ?case by simp
next
  case (Cons mp mps)
  have rest: "list_all (doc_safe env s') mps" if "same_docs s s'" for s'
    using Cons.prems(2) doc_safe_same [OF that] by (simp add: list_all_iff)
  show ?case
  proof (cases "g_mp_head s = []")
    case True
    with Cons.prems(1) show ?thesis by simp
  next
    case False
    show ?thesis
    proof (cases "getTmpNode (mp_name_space mp) s")
      case None
      with False Cons.IH [OF Cons.prems(1) rest [OF same_docs_refl]] show ?thesis by simp
    next
      case (Some i)
      show ?thesis
      proof (cases "tmp_status (tmp_node i s) = ''pending_apply''")
        case False
        with \<open>g_mp_head s \<noteq> []\<close> Some Cons.IH [OF Cons.prems(1) rest [OF same_docs_refl]] show ?thesis by simp
      next
        case True
        define s1 where "s1 = snd (updateTmpList (Some i) (mp_name_space mp) (tmp_version (tmp_node i s)) ''pending'' ''none'' 0 0 0 s)"
        define L1 where "L1 = (if tmp_isSupplementarySync (tmp_node i s1) = 0
            then L\<lparr>lp_current_doc_count := lp_current_doc_count L + 1\<rparr> else L)"
        have s1: "apply_inv s1" "same_docs s s1" using Cons.prems(1) by (simp_all add: s1_def keeps)
        have "doc_safe env s1 mp" using Cons.prems(2) doc_safe_same [OF s1(2)] by simp
        from apply_document_safe [OF s1(1) this, of n i L1] obtain stop L2 s2 where d:
          "apply_document env n mp i L1 s1 = Some (stop, L2, s2)" "apply_inv s2" "\<not> stop \<longrightarrow> same_docs s1 s2"
          by (elim exE conjE) (rule that)
        have step: "apply_documents env n (mp # mps) L s =
            (if stop then Some (L2, s2) else apply_documents env (Suc n) mps L2 s2)"
          using False Some True d(1) by (simp add: Let_def s1_def [symmetric] L1_def [symmetric])
        show ?thesis
        proof (cases stop)
          case True
          with step d(2) show ?thesis by simp
        next
          case False
          then have "same_docs s s2" using d(3) s1(2) same_docs_trans by blast
          from Cons.IH [OF d(2) rest [OF this]] step False show ?thesis by simp
        qed
      qed
    qed
  qed
qed

text \<open>A list ready for the next sync: empty, or with \<open>root\<close> at its head, and no document of
  the new ones already listed.\<close>

definition tmp_ready :: "'z db_st_scheme \<Rightarrow> bool" where
  "tmp_ready s \<longleftrightarrow>
     (case g_head s of
        [] \<Rightarrow> distinct (''root'' # map tmp_name (new_docs s))
      | r # ts \<Rightarrow> tmp_name r = ''root'' \<and>
          distinct (''root'' # map tmp_name (kept_docs (g_supplementarySync s) ts @ new_docs s)))"

lemma addToTmpList_loop_same:
  "addToTmpList_loop mps s = Some s' \<Longrightarrow> same_docs s (s' :: 'a db_st_scheme) \<and> mem_ok s' = mem_ok s \<and> webcfgdb_data s' = webcfgdb_data s
     \<and> success_doc_count s' = success_doc_count s"
proof (induction mps arbitrary: s)
  case (Cons mp mps)
  let ?s1 = "if numOfMpDocs s = 0 then tmp_add (tmp_root_node s) s else s"
  let ?s2 = "if mp_isSupplementarySync mp = g_supplementarySync ?s1 \<and> mem_ok ?s1 then tmp_add (tmp_doc_node mp ?s1) ?s1 else ?s1"
  have guard: "(if P then None else X) = Some s' \<Longrightarrow> X = Some s'" for P and X :: "'a db_st_scheme option"
    by (simp split: if_splits)
  have "addToTmpList_loop mps ?s2 = Some s'"
    by (rule guard [of "numOfMpDocs s = 0 \<and> \<not> mem_ok s"]) (use Cons.prems in \<open>simp only: addToTmpList_loop.simps Let_def\<close>)
  from Cons.IH [OF this] show ?case by (simp add: same_docs_def tmp_add_def split: if_splits)
qed simp

lemma deleteFromTmpList_same:
  "deleteFromTmpList d nx s = (st, nx', s') \<Longrightarrow> same_docs s s' \<and> mem_ok s' = mem_ok s \<and> webcfgdb_data s' = webcfgdb_data s
     \<and> success_doc_count s' = success_doc_count s"
  by (auto simp: deleteFromTmpList_def same_docs_def split: option.splits)

lemma tmp_walk_same:
  "tmp_walk sel p nx s = Some s' \<Longrightarrow> same_docs s s' \<and> mem_ok s' = mem_ok s \<and> webcfgdb_data s' = webcfgdb_data s
     \<and> success_doc_count s' = success_doc_count s"
proof (induction sel p nx s rule: tmp_walk.induct)
  case (3 sel k nx s)
  then show ?case
    by (fastforce simp: tmp_walk.simps(3) same_docs_def dest: deleteFromTmpList_same split: if_splits prod.splits)
qed auto

lemma addToTmpList_same:
  assumes "addToTmpList s = Some (st, s')"
  shows "same_docs s s' \<and> mem_ok s' = mem_ok s \<and> webcfgdb_data s' = webcfgdb_data s \<and> success_doc_count s' = success_doc_count s"
proof -
  obtain s2 s3 where d: "delete_tmp_docs_list (checkTmpRootUpdate s) = Some s2" "addToTmpList_loop (g_mp_head s2) s2 = Some s3"
    "s' = s3" using assms by (auto simp: addToTmpList_def split: option.splits)
  have "same_docs s (checkTmpRootUpdate s) \<and> mem_ok (checkTmpRootUpdate s) = mem_ok s \<and>
      webcfgdb_data (checkTmpRootUpdate s) = webcfgdb_data s \<and> success_doc_count (checkTmpRootUpdate s) = success_doc_count s"
    by (simp add: checkTmpRootUpdate_def updateTmpList_def same_docs_def split: option.splits)
  with tmp_walk_same [OF d(1) [unfolded delete_tmp_docs_list_def]] addToTmpList_loop_same [OF d(2)] d(3) show ?thesis
    by (simp add: same_docs_def)
qed

lemma addToTmpList_ready:
  assumes "apply_inv s" "tmp_ready s" "g_mp_head s \<noteq> []"
  obtains s' where "addToTmpList s = Some (WEBCFG_SUCCESS, s')" "apply_inv s'" "same_docs s s'"
proof -
  have i: "mem_ok s" "tmp_inv s" "db_inv s" using assms(1) by (auto simp: apply_inv_def)
  obtain s' where s': "addToTmpList s = Some (WEBCFG_SUCCESS, s')" "tmp_inv s'"
  proof (cases "g_head s")
    case Nil
    then have "numOfMpDocs s = 0" using i(2) by (simp add: tmp_inv_def)
    from addToTmpList_fresh_eq [OF Nil this i(1) assms(3)] that assms(2) Nil show thesis
      by (simp add: tmp_inv_def tmp_ready_def tmp_root_node_def)
  next
    case (Cons r ts)
    then have r: "tmp_name r = ''root''" "distinct (''root'' # map tmp_name (kept_docs (g_supplementarySync s) ts @ new_docs s))"
      using assms(2) by (simp_all add: tmp_ready_def)
    from addToTmpList_resync_eq [OF i(2) Cons r(1) i(1) assms(3)] r(2) that show thesis by blast
  qed
  from addToTmpList_same [OF s'(1)] i have "apply_inv s'" "same_docs s s'"
    using s'(2) by (simp_all add: apply_inv_def db_inv_def)
  with s'(1) that show thesis by blast
qed

end
