(* ===== verification/Applied.thy ===== *)
theory Applied
  imports Apply
begin

text \<open>
  What a sync achieves when every component accepts its document: the properties of the
  operations of \<open>Apply\<close>.
\<close>

section \<open>A document of plain parameters\<close>

text \<open>The request made from a parameter that is no blob.\<close>

definition plain_req :: "wparam \<Rightarrow> req_param" where
  "plain_req e = \<lparr>rp_name = wp_name e, rp_value = map_option cstr (wp_value e), rp_type = wp_type e\<rparr>"

definition plain_doc :: "apply_env \<Rightarrow> multipartdocs \<Rightarrow> bool" where
  "plain_doc env mp \<longleftrightarrow>
     (case webcfgparam_convert True (ae_unpack env) (Some (mp_data mp @ [ae_beyond env])) (ae_errno env) of
        (None, _) \<Rightarrow> False
      | (Some pm, _) \<Rightarrow> pm \<noteq> []
          \<and> list_all (\<lambda>e. wp_value e \<noteq> None \<and> wp_type e \<noteq> ae_WDMP_BLOB env \<and> wp_type e \<noteq> ae_WDMP_BASE64 env) pm
          \<and> validate_request_param (map plain_req pm) = WEBCFG_SUCCESS)"

lemma build_params_plain:
  assumes "list_all (\<lambda>e. wp_value e \<noteq> None \<and> wp_type e \<noteq> ae_WDMP_BLOB env \<and> wp_type e \<noteq> ae_WDMP_BASE64 env) es"
  shows "build_params env i mp node j es L s = Some (map plain_req es, L, s)"
  using assms by (induction es arbitrary: j) (auto simp: plain_req_def)

definition done_node :: "u32 \<Rightarrow> webconfig_tmp_data \<Rightarrow> webconfig_tmp_data" where
  "done_node v = tmp_update v ''success'' ''none'' 0 0 0"

lemma node_found:
  assumes "getTmpNode d s = Some i"
  shows "i < length (g_head s)" "tmp_name (g_head s ! i) = d" "tmp_lookup d s = Some (g_head s ! i)"
proof -
  have f: "find_idx (\<lambda>t. tmp_name t = d) (g_head s) = Some i"
    using assms by (simp add: getTmpNode_def tmp_search_find_idx)
  then show "i < length (g_head s)" "tmp_name (g_head s ! i) = d" by (auto simp: find_idx_Some)
  show "tmp_lookup d s = Some (g_head s ! i)"
    unfolding tmp_lookup_def find_idx_find [symmetric] f by simp
qed

lemma node_exists: "tmp_lookup d s = Some t \<Longrightarrow> \<exists>i. getTmpNode d s = Some i \<and> g_head s ! i = t"
  unfolding tmp_lookup_def find_idx_find [symmetric] getTmpNode_def tmp_search_find_idx by auto

lemma upd_at_upd_at [simp]: "upd_at i f (upd_at i g xs) = upd_at i (f \<circ> g) xs"
  by (simp add: upd_at_def)

lemma done_node_absorbs [simp]:
  "done_node v \<circ> tmp_update a b c d e r = done_node v"
  "done_node v \<circ> (\<lambda>t. t\<lparr>tmp_retry_count := f t\<rparr>) = done_node v"
  "tmp_name (done_node v t) = tmp_name t" "tmp_version (done_node v t) = v"
  "tmp_status (done_node v t) = ''success''"
  "tmp_isSupplementarySync (done_node v t) = tmp_isSupplementarySync t"
  by (auto simp: done_node_def tmp_update_def)

text \<open>The state after a document was set, before the root version is looked at.\<close>

lemma apply_document_plain:
  assumes "apply_inv s" "plain_doc env mp" "getTmpNode (mp_name_space mp) s = Some i"
    and "tmp_retry_count (tmp_node i s) = 0" "\<not> lp_stale L" "\<forall>n r. fst (ae_set env n r)" "mp_isSupplementarySync mp = 0"
  shows "\<exists>s'. apply_document env n mp i L s =
      (case record_root (L\<lparr>lp_buff := None, lp_success_count := lp_success_count L + 1\<rparr>) s' of
         None \<Rightarrow> None | Some (L3, s3) \<Rightarrow> Some (False, L3, s3)) \<and>
    apply_inv s' \<and> same_docs s s' \<and> g_head s' = upd_at i (done_node (mp_etag mp)) (g_head s) \<and>
    db_map (webcfgdb_data s') = db_update (mp_name_space mp) (mp_etag mp) None (db_map (webcfgdb_data s))"
proof -
  obtain pm e where pm: "webcfgparam_convert True (ae_unpack env) (Some (mp_data mp @ [ae_beyond env])) (ae_errno env) = (Some pm, e)"
    "pm \<noteq> []" "list_all (\<lambda>e. wp_value e \<noteq> None \<and> wp_type e \<noteq> ae_WDMP_BLOB env \<and> wp_type e \<noteq> ae_WDMP_BASE64 env) pm"
    "validate_request_param (map plain_req pm) = WEBCFG_SUCCESS"
    using assms(2) by (auto simp: plain_doc_def split: prod.splits option.splits)
  have mem: "mem_ok s" using assms(1) by (simp add: apply_inv_def)
  note f = node_found [OF assms(3)]
  let ?s2 = "s\<lparr>g_head := upd_at i (\<lambda>t. t\<lparr>tmp_retry_count := tmp_retry_count t + 1\<rparr>) (g_head s)\<rparr>"
  let ?L = "L\<lparr>lp_buff := None\<rparr>"
  have c: "checkAndUpdateTmpRetryCount (Some i) (mp_name_space mp) s = (WEBCFG_SUCCESS, ?s2)"
    using f assms(4) by (simp add: checkAndUpdateTmpRetryCount_def tmp_node_def MAX_APPLY_RETRY_COUNT_def)
  have inv2: "apply_inv ?s2" "same_docs s ?s2"
    using retry_count_keeps(1) [OF assms(1), of "Some i" "mp_name_space mp"]
      retry_count_keeps(2) [OF assms(1), of s "Some i" "mp_name_space mp"] c by simp_all
  obtain req where req: "set_request_of env mp (map plain_req pm) ?L ?s2 = Some req"
    using assms(5) by (cases "rbus_direct env (mp_name_space mp) ?s2") (auto simp: set_request_of_def)
  obtain ccsp where ok: "ae_set env n req = (True, ccsp)"
    using assms(6) by (cases "ae_set env n req") (metis fst_conv)
  define s3 where "s3 = snd (updateTmpList (Some i) (mp_name_space mp) (mp_etag mp) ''success'' ''none'' 0 0 0 ?s2)"
  define s4 where "s4 = notify_doc mp ''success'' ''none'' (tmp_cloud_trans_id (tmp_node i s3)) 0 s3"
  have h3: "g_head s3 = upd_at i (done_node (mp_etag mp)) (g_head s)"
    using f by (simp add: s3_def updateTmpList_def upd_at_nth done_node_def [symmetric])
  have s3: "apply_inv s3" "same_docs s s3" using inv2 by (simp_all add: s3_def keeps)
  then have s4: "apply_inv s4" "same_docs s s4" "g_head s4 = g_head s3" by (simp_all add: s4_def keeps)
  have db4: "webcfgdb_data s4 = webcfgdb_data s"
    by (simp add: s4_def s3_def notify_doc_def addWebConfgNotifyMsg_def notify_enqueue_def updateTmpList_def)
  obtain st s5 where s5: "checkDBList (mp_name_space mp) (mp_etag mp) None s4 = Some (st, s5)" "apply_inv s5"
    "same_docs s4 s5" "g_head s5 = g_head s4"
    "db_map (webcfgdb_data s5) = db_update (mp_name_space mp) (mp_etag mp) None (db_map (webcfgdb_data s4))"
    by (rule checkDBList_keeps [OF s4(1)])
  obtain p ps where p: "pm = p # ps" using pm(2) by (cases pm) auto
  have base: "rp_type (plain_req p) \<noteq> ae_WDMP_BASE64 env" using pm(3) p by (simp add: plain_req_def)
  have L: "?L\<lparr>lp_stale := lp_stale ?L \<or> lp_buff ?L \<noteq> None\<rparr> = ?L" using assms(5) by simp
  have rs: "record_success mp i (rp_type (plain_req p) = ae_WDMP_BASE64 env) ?L ?s2
      = Some (?L\<lparr>lp_success_count := lp_success_count ?L + 1\<rparr>, s5)"
    using base assms(7) s5(1) by (simp add: record_success_def Let_def s3_def [symmetric] s4_def [symmetric])
  have as: "apply_success env mp i (map plain_req pm) ?L ?s2 = record_root (?L\<lparr>lp_success_count := lp_success_count ?L + 1\<rparr>) s5"
    unfolding apply_success_def p list.map(2) list.case rs option.case prod.case ..
  have "apply_document env n mp i L s =
      (case apply_success env mp i (map plain_req pm) ?L ?s2 of
         None \<Rightarrow> None | Some (L3, s3) \<Rightarrow> Some (False, L3, s3))"
    unfolding apply_document_def
    by (simp only: mem pm(1) option.case prod.case build_params_plain [OF pm(3)] Let_def L pm(4) if_True c
        WEBCFG_STATUS.case req ok simp_thms)
  moreover have "same_docs s s5" using s4(2) s5(3) by (rule same_docs_trans)
  ultimately show ?thesis
    using s5 h3 s4(3) db4 as by (intro exI [of _ s5]) simp
qed

lemma apply_documents_step:
  assumes "apply_inv s" "plain_doc env mp" "tmp_lookup (mp_name_space mp) s = Some t" "tmp_status t = ''pending_apply''"
    and "tmp_isSupplementarySync t = 0" "mp_isSupplementarySync mp = 0" "\<not> lp_stale L" "\<forall>n r. fst (ae_set env n r)"
    and "g_mp_head s \<noteq> []"
  obtains s' where "apply_documents env n (mp # mps) L s =
      (case record_root (L\<lparr>lp_buff := None, lp_success_count := lp_success_count L + 1,
                lp_current_doc_count := lp_current_doc_count L + 1\<rparr>) s' of
         None \<Rightarrow> None | Some (L2, s2) \<Rightarrow> apply_documents env (Suc n) mps L2 s2)"
    "apply_inv s'" "same_docs s s'"
    "\<And>d. tmp_lookup d s' = (if d = mp_name_space mp then Some (done_node (mp_etag mp) t) else tmp_lookup d s)"
    "\<exists>i. getTmpNode (mp_name_space mp) s = Some i \<and> g_head s' = upd_at i (done_node (mp_etag mp)) (g_head s)"
    "db_map (webcfgdb_data s') = db_update (mp_name_space mp) (mp_etag mp) None (db_map (webcfgdb_data s))"
proof -
  obtain i where i: "getTmpNode (mp_name_space mp) s = Some i" "g_head s ! i = t" using node_exists [OF assms(3)] by blast
  note f = node_found [OF i(1)]
  define s1 where "s1 = snd (updateTmpList (Some i) (mp_name_space mp) (tmp_version (tmp_node i s)) ''pending'' ''none'' 0 0 0 s)"
  define L1 where "L1 = L\<lparr>lp_current_doc_count := lp_current_doc_count L + 1\<rparr>"
  have h1: "g_head s1 = upd_at i (tmp_update (tmp_version t) ''pending'' ''none'' 0 0 0) (g_head s)"
    using f i(2) by (simp add: s1_def updateTmpList_def tmp_node_def)
  have s1: "apply_inv s1" "same_docs s s1" using assms(1) by (simp_all add: s1_def keeps)
  have db1: "webcfgdb_data s1 = webcfgdb_data s" by (simp add: s1_def updateTmpList_def)
  have fidx: "find_idx (\<lambda>t. tmp_name t = mp_name_space mp) (g_head s) = Some i"
    using i(1) by (simp add: getTmpNode_def tmp_search_find_idx)
  have i1: "getTmpNode (mp_name_space mp) s1 = Some i"
    using fidx by (simp add: getTmpNode_def tmp_search_find_idx h1 find_idx_Some upd_at_nth tmp_update_def)
  have n1: "tmp_retry_count (tmp_node i s1) = 0" "tmp_isSupplementarySync (tmp_node i s1) = 0"
    using f i(2) assms(5) by (simp_all add: tmp_node_def h1 upd_at_nth tmp_update_def)
  have st: "\<not> lp_stale L1" using assms(7) by (simp add: L1_def)
  from apply_document_plain [OF s1(1) assms(2) i1 n1(1) st assms(8,6), of n] obtain s' where d:
    "apply_document env n mp i L1 s1 =
      (case record_root (L1\<lparr>lp_buff := None, lp_success_count := lp_success_count L1 + 1\<rparr>) s' of
         None \<Rightarrow> None | Some (L3, s3) \<Rightarrow> Some (False, L3, s3))"
    "apply_inv s'" "same_docs s1 s'" "g_head s' = upd_at i (done_node (mp_etag mp)) (g_head s1)"
    "db_map (webcfgdb_data s') = db_update (mp_name_space mp) (mp_etag mp) None (db_map (webcfgdb_data s1))"
    by (elim exE conjE) (rule that)
  have h: "g_head s' = upd_at i (done_node (mp_etag mp)) (g_head s)" using d(4) h1 by simp
  have "apply_documents env n (mp # mps) L s =
      (case apply_document env n mp i L1 s1 of
         None \<Rightarrow> None | Some (stop, L2, s2) \<Rightarrow> if stop then Some (L2, s2) else apply_documents env (Suc n) mps L2 s2)"
    unfolding apply_documents.simps(2) i(1) option.case Let_def s1_def [symmetric] n1(2) L1_def [symmetric]
    using assms(4,9) i(2) by (simp add: tmp_node_def)
  also have "\<dots> = (case record_root (L1\<lparr>lp_buff := None, lp_success_count := lp_success_count L1 + 1\<rparr>) s' of
         None \<Rightarrow> None | Some (L2, s2) \<Rightarrow> apply_documents env (Suc n) mps L2 s2)"
    unfolding d(1)
    by (cases "record_root (L1\<lparr>lp_buff := None, lp_success_count := lp_success_count L1 + 1\<rparr>) s'") auto
  also have "L1\<lparr>lp_buff := None, lp_success_count := lp_success_count L1 + 1\<rparr> =
      L\<lparr>lp_buff := None, lp_success_count := lp_success_count L + 1, lp_current_doc_count := lp_current_doc_count L + 1\<rparr>"
    by (simp add: L1_def)
  finally have step: "apply_documents env n (mp # mps) L s =
      (case record_root (L\<lparr>lp_buff := None, lp_success_count := lp_success_count L + 1,
                lp_current_doc_count := lp_current_doc_count L + 1\<rparr>) s' of
         None \<Rightarrow> None | Some (L2, s2) \<Rightarrow> apply_documents env (Suc n) mps L2 s2)" .
  have look: "tmp_lookup d s' = (if d = mp_name_space mp then Some (done_node (mp_etag mp) t) else tmp_lookup d s)" for d
    using find_upd_at [of tmp_name "done_node (mp_etag mp)", OF _ fidx, of d] assms(3)
    by (simp add: tmp_lookup_def h)
  have "same_docs s s'" using s1(2) d(3) by (rule same_docs_trans)
  from that [OF step d(2) this look] show thesis using h i(1) db1 d(5) by simp
qed

text \<open>Once more successes than primary documents are counted, the root version is left alone.\<close>

definition waiting :: "apply_env \<Rightarrow> multipartdocs list \<Rightarrow> 'z db_st_scheme \<Rightarrow> bool" where
  "waiting env mps s \<longleftrightarrow> distinct (map mp_name_space mps) \<and>
     (\<forall>mp\<in>set mps. plain_doc env mp \<and> mp_isSupplementarySync mp = 0 \<and>
        (\<exists>t. tmp_lookup (mp_name_space mp) s = Some t \<and> tmp_status t = ''pending_apply'' \<and> tmp_isSupplementarySync t = 0))"

definition recorded :: "multipartdocs list \<Rightarrow> (string \<Rightarrow> (u32 \<times> string option) option) \<Rightarrow> string \<Rightarrow> (u32 \<times> string option) option" where
  "recorded mps m = fold (\<lambda>mp. db_update (mp_name_space mp) (mp_etag mp) None) mps m"

lemma apply_documents_rest:
  assumes "apply_inv s" "waiting env mps s" "lp_success_count L = lp_current_doc_count L + 1" "\<not> lp_stale L"
    and "\<forall>n r. fst (ae_set env n r)" "g_mp_head s \<noteq> []"
  shows "\<exists>L' s'. apply_documents env n mps L s = Some (L', s') \<and> apply_inv s' \<and> lp_rv L' = lp_rv L \<and>
    lp_success_count L' = lp_success_count L + int (length mps) \<and>
    (\<forall>d. tmp_lookup d s' = (case find (\<lambda>mp. mp_name_space mp = d) mps of None \<Rightarrow> tmp_lookup d s
       | Some mp \<Rightarrow> map_option (done_node (mp_etag mp)) (tmp_lookup d s))) \<and>
    db_map (webcfgdb_data s') = recorded mps (db_map (webcfgdb_data s))"
  using assms
proof (induction mps arbitrary: n L s)
  case Nil
  then show ?case by (simp add: recorded_def)
next
  case (Cons mp mps)
  let ?L = "L\<lparr>lp_buff := None, lp_success_count := lp_success_count L + 1, lp_current_doc_count := lp_current_doc_count L + 1\<rparr>"
  obtain t where t: "plain_doc env mp" "mp_isSupplementarySync mp = 0" "tmp_lookup (mp_name_space mp) s = Some t"
    "tmp_status t = ''pending_apply''" "tmp_isSupplementarySync t = 0"
    using Cons.prems(2) by (auto simp: waiting_def)
  obtain s1 where s1: "apply_documents env n (mp # mps) L s =
      (case record_root ?L s1 of None \<Rightarrow> None | Some (L2, s2) \<Rightarrow> apply_documents env (Suc n) mps L2 s2)"
    "apply_inv s1" "same_docs s s1"
    "\<And>d. tmp_lookup d s1 = (if d = mp_name_space mp then Some (done_node (mp_etag mp) t) else tmp_lookup d s)"
    "db_map (webcfgdb_data s1) = db_update (mp_name_space mp) (mp_etag mp) None (db_map (webcfgdb_data s))"
    using apply_documents_step [OF Cons.prems(1) t(1,3-5,2) Cons.prems(4-6), of n mps] by metis
  have rr: "record_root ?L s1 = Some (?L, s1)" using Cons.prems(3) by (simp add: record_root_def)
  have "mp_name_space m \<noteq> mp_name_space mp" if "m \<in> set mps" for m
    using Cons.prems(2) that by (auto simp: waiting_def intro: rev_image_eqI)
  with Cons.prems(2) s1(4) have w: "waiting env mps s1" by (simp add: waiting_def)
  have "lp_success_count ?L = lp_current_doc_count ?L + 1" "\<not> lp_stale ?L" "g_mp_head s1 \<noteq> []"
    using Cons.prems(3,4,6) s1(3) by (simp_all add: same_docs_def)
  from Cons.IH [OF s1(2) w this(1,2) Cons.prems(5) this(3), of "Suc n"] obtain L' s' where r:
    "apply_documents env (Suc n) mps ?L s1 = Some (L', s')" "apply_inv s'" "lp_rv L' = lp_rv ?L"
    "lp_success_count L' = lp_success_count ?L + int (length mps)"
    "\<forall>d. tmp_lookup d s' = (case find (\<lambda>mp. mp_name_space mp = d) mps of None \<Rightarrow> tmp_lookup d s1
       | Some mp \<Rightarrow> map_option (done_node (mp_etag mp)) (tmp_lookup d s1))"
    "db_map (webcfgdb_data s') = recorded mps (db_map (webcfgdb_data s1))"
    by (elim exE conjE) (rule that)
  have notin: "find (\<lambda>mp'. mp_name_space mp' = mp_name_space mp) mps = None"
    using Cons.prems(2) by (auto simp: waiting_def find_None_iff image_iff)
  have "apply_documents env n (mp # mps) L s = Some (L', s')" using s1(1) rr r(1) by simp
  moreover have "\<forall>d. tmp_lookup d s' = (case find (\<lambda>mp. mp_name_space mp = d) (mp # mps) of None \<Rightarrow> tmp_lookup d s
       | Some mp \<Rightarrow> map_option (done_node (mp_etag mp)) (tmp_lookup d s))"
    using r(5) s1(4) notin t(3) by (auto split: option.splits)
  moreover have "db_map (webcfgdb_data s') = recorded (mp # mps) (db_map (webcfgdb_data s))"
    using r(6) s1(5) by (simp add: recorded_def)
  ultimately show ?case using r by (intro exI [of _ L'] exI [of _ s']) simp
qed

lemma db_update_other [simp]: "e \<noteq> d \<Longrightarrow> db_update d v r m e = m e"
  by (simp add: db_update_def)

lemma recorded_simps [simp]:
  "recorded [] m = m"
  "recorded (mp # mps) m = recorded mps (db_update (mp_name_space mp) (mp_etag mp) None m)"
  by (simp_all add: recorded_def)

lemma recorded_other: "d \<notin> mp_name_space ` set mps \<Longrightarrow> recorded mps m d = m d"
  by (induction mps arbitrary: m) auto

lemma recorded_at:
  "distinct (map mp_name_space mps) \<Longrightarrow> mp \<in> set mps \<Longrightarrow>
   \<exists>r. recorded mps m (mp_name_space mp) = Some (mp_etag mp, r)"
proof (induction mps arbitrary: m)
  case (Cons x xs)
  show ?case
  proof (cases "mp = x")
    case True
    then have "recorded (x # xs) m (mp_name_space mp) = db_update (mp_name_space x) (mp_etag x) None m (mp_name_space mp)"
      using Cons.prems(1) by (simp add: recorded_other)
    with True show ?thesis by (simp add: db_update_def)
  qed (use Cons in auto)
qed simp

lemma root_delete_walk_success:
  "root_delete_walk b ts \<longleftrightarrow> (\<forall>t\<in>set ts. tmp_name t \<noteq> ''root'' \<longrightarrow> tmp_status t = ''success'')
     \<and> (b \<or> (\<exists>t\<in>set ts. tmp_name t \<noteq> ''root''))"
  by (induction ts arbitrary: b) auto

lemma find_map_key: "(\<And>x. key (f x) = k x) \<Longrightarrow> find (\<lambda>t. key t = d) (map f xs) = map_option f (find (\<lambda>x. k x = d) xs)"
  by (induction xs) auto

lemma find_key: "distinct (map k xs) \<Longrightarrow> x \<in> set xs \<Longrightarrow> find (\<lambda>y. k y = k x) xs = Some x"
  by (induction xs) (auto simp: rev_image_eqI)

text \<open>A primary sync, freshly started.\<close>

definition fresh_primary :: "apply_env \<Rightarrow> 'z db_st_scheme \<Rightarrow> bool" where
  "fresh_primary env s \<longleftrightarrow> apply_inv s \<and> g_head s = [] \<and> g_supplementarySync s = 0 \<and> get_global_root s \<noteq> 0
     \<and> g_mp_head s \<noteq> [] \<and> distinct (''root'' # map mp_name_space (g_mp_head s))
     \<and> list_all (\<lambda>mp. plain_doc env mp \<and> mp_isSupplementarySync mp = 0) (g_mp_head s)"

lemma fresh_added:
  assumes "fresh_primary env s"
  obtains s1 where "addToTmpList s = Some (WEBCFG_SUCCESS, s1)" "apply_inv s1" "same_docs s s1"
    "webcfgdb_data s1 = webcfgdb_data s" "g_head s1 = tmp_root_node s # new_docs s"
    "waiting env (g_mp_head s) s1"
proof -
  note f = assms [unfolded fresh_primary_def]
  have n: "numOfMpDocs s = 0" "mem_ok s" using f by (auto simp: apply_inv_def tmp_inv_def)
  let ?s1 = "s\<lparr>g_head := tmp_root_node s # new_docs s, numOfMpDocs := 1 + int (length (new_docs s))\<rparr>"
  have "addToTmpList s = Some (WEBCFG_SUCCESS, ?s1)"
    using f n by (intro addToTmpList_fresh_eq) auto
  moreover have nd: "new_docs s = map (\<lambda>mp. tmp_doc_node mp s) (g_mp_head s)"
    using f by (simp add: new_docs_def list_all_iff filter_True)
  moreover have "map tmp_name (new_docs s) = map mp_name_space (g_mp_head s)"
    unfolding nd by (simp add: tmp_doc_node_def)
  then have "apply_inv ?s1" using f by (simp add: apply_inv_def tmp_inv_def db_inv_def tmp_root_node_def)
  moreover have "waiting env (g_mp_head s) ?s1"
    unfolding waiting_def
  proof (intro conjI ballI)
    fix mp assume mp: "mp \<in> set (g_mp_head s)"
    have "tmp_lookup (mp_name_space mp) ?s1 = map_option (\<lambda>mp. tmp_doc_node mp s)
        (find (\<lambda>x. mp_name_space x = mp_name_space mp) (g_mp_head s))"
      using f mp by (auto simp: tmp_lookup_def nd tmp_root_node_def image_iff
          intro!: find_map_key [of tmp_name] simp: tmp_doc_node_def)
    also have "\<dots> = Some (tmp_doc_node mp s)" using find_key [of mp_name_space, OF _ mp] f by simp
    finally show "\<exists>t. tmp_lookup (mp_name_space mp) ?s1 = Some t \<and> tmp_status t = ''pending_apply'' \<and> tmp_isSupplementarySync t = 0"
      using f mp by (simp add: tmp_doc_node_def list_all_iff)
  qed (use f in \<open>auto simp: list_all_iff\<close>)
  ultimately show thesis using that by (simp add: same_docs_def)
qed

text \<open>The first document of a fresh sync: the root version follows it into the database at once.\<close>

lemma first_document:
  fixes s :: "'z db_st_scheme"
  assumes "apply_inv s" "waiting env (mp # mps) s" "\<forall>n r. fst (ae_set env n r)" "g_mp_head s \<noteq> []"
    and "g_supplementarySync s = 0" "get_global_root s \<noteq> 0" "''root'' \<notin> mp_name_space ` set (mp # mps)"
  obtains L2 and s2 s3 :: "'z db_st_scheme" where "apply_documents env n (mp # mps) apply_loop0 s = apply_documents env (Suc n) mps L2 s2"
    "apply_inv s2" "same_docs s s2" "lp_success_count L2 = 2" "lp_current_doc_count L2 = 1" "\<not> lp_stale L2"
    "lp_rv L2 = WEBCFG_SUCCESS"
    "db_map (webcfgdb_data s2) = db_update ''root'' (get_global_root s) None
       (db_update (mp_name_space mp) (mp_etag mp) None (db_map (webcfgdb_data s)))"
    "g_head s2 = (if root_delete_walk False (g_head s3) then [] else g_head s3)"
    "\<exists>i. getTmpNode (mp_name_space mp) s = Some i \<and> g_head s3 = upd_at i (done_node (mp_etag mp)) (g_head s)"
    "\<forall>d. tmp_lookup d s3 = (if d = mp_name_space mp then map_option (done_node (mp_etag mp)) (tmp_lookup d s) else tmp_lookup d s)"
proof -
  let ?L = "apply_loop0\<lparr>lp_buff := None, lp_success_count := lp_success_count apply_loop0 + 1,
      lp_current_doc_count := lp_current_doc_count apply_loop0 + 1\<rparr>"
  obtain t where t: "plain_doc env mp" "mp_isSupplementarySync mp = 0" "tmp_lookup (mp_name_space mp) s = Some t"
    "tmp_status t = ''pending_apply''" "tmp_isSupplementarySync t = 0"
    using assms(2) by (auto simp: waiting_def)
  have "\<not> lp_stale apply_loop0" by (simp add: apply_loop0_def)
  from apply_documents_step [OF assms(1) t(1,3-5,2) this assms(3,4), of n mps] obtain s1 where s1:
    "apply_documents env n (mp # mps) apply_loop0 s =
      (case record_root ?L s1 of None \<Rightarrow> None | Some (L2, s2) \<Rightarrow> apply_documents env (Suc n) mps L2 s2)"
    "apply_inv s1" "same_docs s s1"
    "\<And>d. tmp_lookup d s1 = (if d = mp_name_space mp then Some (done_node (mp_etag mp) t) else tmp_lookup d s)"
    "\<exists>i. getTmpNode (mp_name_space mp) s = Some i \<and> g_head s1 = upd_at i (done_node (mp_etag mp)) (g_head s)"
    "db_map (webcfgdb_data s1) = db_update (mp_name_space mp) (mp_etag mp) None (db_map (webcfgdb_data s))"
    by metis
  have root: "get_global_root s1 = get_global_root s" "g_supplementarySync s1 = 0"
    using s1(3) assms(5) by (simp_all add: same_docs_def get_global_root_def)
  from checkDBList_keeps [OF s1(2)] obtain st s3 where c:
    "checkDBList ''root'' (get_global_root s1) None s1 = Some (st, s3)" "apply_inv s3" "same_docs s1 s3"
    "g_head s3 = g_head s1"
    "db_map (webcfgdb_data s3) = db_update ''root'' (get_global_root s1) None (db_map (webcfgdb_data s1))" by metis
  define s2 where "s2 = (if checkRootDelete s3 = WEBCFG_SUCCESS then delete_tmp_list (reset_numOfMpDocs s3) else s3)"
  let ?L2 = "?L\<lparr>lp_success_count := lp_success_count ?L + 1, lp_rv := WEBCFG_SUCCESS\<rparr>"
  have rr: "record_root ?L s1 = Some (?L2, s2)"
    using root assms(6) c(1) by (simp add: record_root_def apply_loop0_def s2_def)
  have "apply_inv s2" "same_docs s s2"
    using c(2) same_docs_trans [OF s1(3) c(3)] by (simp_all add: s2_def keeps)
  moreover have "webcfgdb_data s2 = webcfgdb_data s3"
    by (simp add: s2_def delete_tmp_list_def reset_numOfMpDocs_def)
  moreover have "g_head s2 = (if root_delete_walk False (g_head s3) then [] else g_head s3)"
    by (simp add: s2_def checkRootDelete_def delete_tmp_list_def reset_numOfMpDocs_def)
  moreover have "apply_documents env n (mp # mps) apply_loop0 s = apply_documents env (Suc n) mps ?L2 s2"
    using s1(1) rr by simp
  moreover have "tmp_lookup d s3 = tmp_lookup d s1" for d using c(4) by (simp add: tmp_lookup_def)
  ultimately show thesis
    using that [of ?L2 s2 s3] s1(4-6) c(4,5) root t(3) by (simp add: apply_loop0_def)
qed

text \<open>The loop over all documents of a fresh primary sync.\<close>

lemma apply_documents_all:
  fixes s :: "'z db_st_scheme"
  assumes "apply_inv s" "waiting env mps s" "\<forall>n r. fst (ae_set env n r)" "g_mp_head s = mps" "mps \<noteq> []"
    and "g_supplementarySync s = 0" "get_global_root s \<noteq> 0" "''root'' \<notin> mp_name_space ` set mps"
    and "g_head s = rt # map f mps" "tmp_name rt = ''root''" "\<forall>mp. tmp_name (f mp) = mp_name_space mp"
  shows "\<exists>L' s'. apply_documents env n mps apply_loop0 s = Some (L', s') \<and> apply_inv s' \<and> lp_rv L' = WEBCFG_SUCCESS \<and>
    lp_success_count L' \<noteq> 0 \<and>
    db_map (webcfgdb_data s') = recorded (tl mps) (db_update ''root'' (get_global_root s) None
       (db_update (mp_name_space (hd mps)) (mp_etag (hd mps)) None (db_map (webcfgdb_data s)))) \<and>
    (if length mps = 1 then g_head s' = []
     else tmp_lookup ''root'' s' = Some rt \<and>
          (\<forall>mp\<in>set mps. \<exists>t. tmp_lookup (mp_name_space mp) s' = Some t \<and> tmp_status t = ''success''))"
proof -
  obtain m ms where mps: "mps = m # ms" using assms(5) by (cases mps) auto
  have ne: "g_mp_head s \<noteq> []" using assms(4,5) by simp
  obtain L2 and s2 s3 :: "'z db_st_scheme" where
    one: "apply_documents env n (m # ms) apply_loop0 s = apply_documents env (Suc n) ms L2 s2"
      "apply_inv s2" "same_docs s s2" "lp_success_count L2 = 2" "lp_current_doc_count L2 = 1" "\<not> lp_stale L2"
      "lp_rv L2 = WEBCFG_SUCCESS"
      "db_map (webcfgdb_data s2) = db_update ''root'' (get_global_root s) None
         (db_update (mp_name_space m) (mp_etag m) None (db_map (webcfgdb_data s)))"
      "g_head s2 = (if root_delete_walk False (g_head s3) then [] else g_head s3)"
      "\<exists>i. getTmpNode (mp_name_space m) s = Some i \<and> g_head s3 = upd_at i (done_node (mp_etag m)) (g_head s)"
      "\<forall>d. tmp_lookup d s3 = (if d = mp_name_space m then map_option (done_node (mp_etag m)) (tmp_lookup d s) else tmp_lookup d s)"
    by (rule first_document [OF assms(1) assms(2) [unfolded mps] assms(3) ne assms(6,7) assms(8) [unfolded mps], of n]) (rule that)
  show ?thesis
  proof (cases ms)
    case Nil
    obtain i where i: "getTmpNode (mp_name_space m) s = Some i" "g_head s3 = upd_at i (done_node (mp_etag m)) (g_head s)"
      using one(10) by blast
    have "''root'' \<noteq> mp_name_space m" using assms(8) mps by auto
    then have "i = 1" using i(1) assms(9-11) mps Nil by (auto simp: getTmpNode_def split: if_splits)
    then have "g_head s3 = [rt, done_node (mp_etag m) (f m)]" using i(2) assms(9) mps Nil by (simp add: upd_at_def)
    then have "root_delete_walk False (g_head s3)"
      using assms(10,11) \<open>''root'' \<noteq> mp_name_space m\<close> by auto
    then show ?thesis using one mps Nil by simp
  next
    case (Cons m2 ms2)
    have w: "waiting env (m # ms) s" using assms(2) mps by simp
    have out: "mp_name_space x \<noteq> mp_name_space m" if "x \<in> set ms" for x
      using w that by (auto simp: waiting_def intro: rev_image_eqI)
    obtain t where t: "tmp_lookup (mp_name_space m2) s = Some t" "tmp_status t = ''pending_apply''"
      using w Cons by (auto simp: waiting_def)
    have "tmp_lookup (mp_name_space m2) s3 = Some t" using one(11) t(1) out [of m2] Cons by simp
    then have "t \<in> set (g_head s3)" "tmp_name t = mp_name_space m2"
      by (auto simp: tmp_lookup_def find_Some_iff)
    moreover have "mp_name_space m2 \<noteq> ''root''" using assms(8) mps Cons by auto
    ultimately have "\<not> root_delete_walk False (g_head s3)" using t(2) by (force simp: root_delete_walk_success)
    then have h2: "g_head s2 = g_head s3" using one(9) by simp
    then have look2: "tmp_lookup d s2 = (if d = mp_name_space m then map_option (done_node (mp_etag m)) (tmp_lookup d s)
        else tmp_lookup d s)" for d using one(11) by (simp add: tmp_lookup_def)
    have w2: "waiting env ms s2" using w out by (simp add: waiting_def look2)
    have "lp_success_count L2 = lp_current_doc_count L2 + 1" "g_mp_head s2 \<noteq> []"
      using one(3-5) ne by (simp_all add: same_docs_def)
    from apply_documents_rest [OF one(2) w2 this(1) one(6) assms(3) this(2), of "Suc n"] obtain L' s' where r:
      "apply_documents env (Suc n) ms L2 s2 = Some (L', s')" "apply_inv s'" "lp_rv L' = lp_rv L2"
      "lp_success_count L' = lp_success_count L2 + int (length ms)"
      "\<forall>d. tmp_lookup d s' = (case find (\<lambda>mp. mp_name_space mp = d) ms of None \<Rightarrow> tmp_lookup d s2
         | Some mp \<Rightarrow> map_option (done_node (mp_etag mp)) (tmp_lookup d s2))"
      "db_map (webcfgdb_data s') = recorded ms (db_map (webcfgdb_data s2))"
      by (elim exE conjE) (rule that)
    have none: "find (\<lambda>mp. mp_name_space mp = d) ms = None" if "d \<notin> mp_name_space ` set ms" for d
      using that by (auto simp: find_None_iff)
    have "tmp_lookup ''root'' s = Some rt" using assms(9,10) by (simp add: tmp_lookup_def)
    then have root: "tmp_lookup ''root'' s' = Some rt"
      using r(5) look2 assms(8) mps none [of "''root''"] by auto
    have nodes: "\<exists>t. tmp_lookup (mp_name_space mp) s' = Some t \<and> tmp_status t = ''success''" if "mp \<in> set mps" for mp
    proof (cases "mp = m")
      case True
      have "find (\<lambda>mp. mp_name_space mp = mp_name_space m) ms = None" using out by (intro none) (metis imageE)
      with True r(5) look2 w show ?thesis by (auto simp: waiting_def)
    next
      case False
      then have mp: "mp \<in> set ms" using that mps by simp
      then have "find (\<lambda>x. mp_name_space x = mp_name_space mp) ms = Some mp"
        using w by (intro find_key) (simp_all add: waiting_def)
      with r(5) look2 out [OF mp] w mp show ?thesis by (fastforce simp: waiting_def)
    qed
    have all: "apply_documents env n mps apply_loop0 s = Some (L', s')" using one(1) r(1) mps by (simp only:)
    have db: "db_map (webcfgdb_data s') = recorded (tl mps) (db_update ''root'' (get_global_root s) None
       (db_update (mp_name_space (hd mps)) (mp_etag (hd mps)) None (db_map (webcfgdb_data s))))"
      using r(6) one(8) mps by simp
    have "length mps \<noteq> 1" "lp_success_count L' \<noteq> 0" "lp_rv L' = WEBCFG_SUCCESS"
      using mps Cons r(3,4) one(4,7) by simp_all
    moreover have "\<forall>mp\<in>set mps. \<exists>t. tmp_lookup (mp_name_space mp) s' = Some t \<and> tmp_status t = ''success''"
      using nodes by blast
    ultimately show ?thesis using all db r(2) root by (intro exI conjI) simp_all
  qed
qed

lemma set_global_transID_frame [simp]:
  "fresh_primary env (set_global_transID t s) = fresh_primary env s"
  "apply_inv (set_global_transID t s) = apply_inv s" "get_global_root (set_global_transID t s) = get_global_root s"
  "g_mp_head (set_global_transID t s) = g_mp_head s" "webcfgdb_data (set_global_transID t s) = webcfgdb_data s"
  "tmp_ready (set_global_transID t s) = tmp_ready s" "doc_safe env (set_global_transID t s) mp = doc_safe env s mp"
proof -
  have "map tmp_name (new_docs (set_global_transID t s)) = map tmp_name (new_docs s)"
    by (simp add: new_docs_def set_global_transID_def tmp_doc_node_def)
  then show "tmp_ready (set_global_transID t s) = tmp_ready s"
    by (simp add: tmp_ready_def set_global_transID_def split: list.split)
  show "doc_safe env (set_global_transID t s) mp = doc_safe env s mp"
    by (intro doc_safe_same) (simp add: same_docs_def set_global_transID_def)
qed (simp_all add: fresh_primary_def apply_inv_def tmp_inv_def db_inv_def set_global_transID_def get_global_root_def)

lemma addNewDocEntry_lookup [simp]:
  "tmp_lookup d (snd (addNewDocEntry w can n s)) = tmp_lookup d s" "g_head (snd (addNewDocEntry w can n s)) = g_head s"
  "webcfgdb_data (snd (addNewDocEntry w can n s)) = webcfgdb_data s"
  by (simp_all add: addNewDocEntry_def writeToDBFile_def tmp_lookup_def split: option.split)

lemma processMsgpackSubdoc_accepted:
  fixes s :: "'z db_st_scheme"
  assumes "fresh_primary env s" "\<forall>n r. fst (ae_set env n r)"
  shows "\<exists>s'. processMsgpackSubdoc env tid s = Some (WEBCFG_SUCCESS, s') \<and> apply_inv s' \<and>
    db_map (webcfgdb_data s') = recorded (tl (g_mp_head s)) (db_update ''root'' (get_global_root s) None
       (db_update (mp_name_space (hd (g_mp_head s))) (mp_etag (hd (g_mp_head s))) None (db_map (webcfgdb_data s)))) \<and>
    (if length (g_mp_head s) = 1 then g_head s' = []
     else (\<exists>rt. tmp_lookup ''root'' s' = Some rt \<and> tmp_status rt = ''pending'') \<and>
          (\<forall>mp\<in>set (g_mp_head s). \<exists>t. tmp_lookup (mp_name_space mp) s' = Some t \<and> tmp_status t = ''success''))"
proof -
  define s0 where "s0 = (case tid of None \<Rightarrow> s | Some t \<Rightarrow> set_global_transID t s)"
  have s0: "fresh_primary env s0" "get_global_root s0 = get_global_root s" "g_mp_head s0 = g_mp_head s"
    "webcfgdb_data s0 = webcfgdb_data s"
    using assms(1) by (simp_all add: s0_def split: option.split)
  obtain s1 :: "'z db_st_scheme" where s1: "addToTmpList s0 = Some (WEBCFG_SUCCESS, s1)" "apply_inv s1" "same_docs s0 s1"
    "webcfgdb_data s1 = webcfgdb_data s0" "g_head s1 = tmp_root_node s0 # new_docs s0"
    "waiting env (g_mp_head s0) s1"
    by (rule fresh_added [OF s0(1)])
  note f = s0(1) [unfolded fresh_primary_def]
  have nd: "g_head s1 = tmp_root_node s0 # map (\<lambda>mp. tmp_doc_node mp s0) (g_mp_head s0)"
    using s1(5) f by (simp add: new_docs_def list_all_iff filter_True)
  have 1: "g_mp_head s1 = g_mp_head s0" "g_supplementarySync s1 = 0" "get_global_root s1 = get_global_root s0"
    using s1(3) f by (simp_all add: same_docs_def get_global_root_def)
  have 2: "g_mp_head s0 \<noteq> []" "get_global_root s1 \<noteq> 0" "''root'' \<notin> mp_name_space ` set (g_mp_head s0)"
    using f 1(3) by simp_all
  have 3: "tmp_name (tmp_root_node s0) = ''root''" "\<forall>mp. tmp_name (tmp_doc_node mp s0) = mp_name_space mp"
    by (simp_all add: tmp_root_node_def tmp_doc_node_def)
  from apply_documents_all [OF s1(2,6) assms(2) 1(1) 2(1) 1(2) 2(2,3) nd 3, of 0] obtain L' s' where r:
    "apply_documents env 0 (g_mp_head s0) apply_loop0 s1 = Some (L', s')" "apply_inv s'" "lp_rv L' = WEBCFG_SUCCESS"
    "lp_success_count L' \<noteq> 0"
    "db_map (webcfgdb_data s') = recorded (tl (g_mp_head s0)) (db_update ''root'' (get_global_root s1) None
       (db_update (mp_name_space (hd (g_mp_head s0))) (mp_etag (hd (g_mp_head s0))) None (db_map (webcfgdb_data s1))))"
    "if length (g_mp_head s0) = 1 then g_head s' = []
     else tmp_lookup ''root'' s' = Some (tmp_root_node s0) \<and>
          (\<forall>mp\<in>set (g_mp_head s0). \<exists>t. tmp_lookup (mp_name_space mp) s' = Some t \<and> tmp_status t = ''success'')"
    by (elim exE conjE) (rule that)
  define s'' where "s'' = snd (addNewDocEntry (ae_write env) (ae_can_open env) (nat (success_doc_count s')) s')"
  have p: "processMsgpackSubdoc env tid s = Some (WEBCFG_SUCCESS, s'')"
    unfolding processMsgpackSubdoc_def Let_def s0_def [symmetric] s1(1) option.case prod.case
    using r(1,3,4) 1(1) by (simp add: s''_def)
  have "apply_inv s''" "g_head s'' = g_head s'" "webcfgdb_data s'' = webcfgdb_data s'" "\<And>d. tmp_lookup d s'' = tmp_lookup d s'"
    using r(2) by (simp_all add: s''_def keeps)
  moreover have "tmp_status (tmp_root_node s0) = ''pending''" by (simp add: tmp_root_node_def)
  ultimately show ?thesis using p r(5,6) s0 s1(4) 1(3) by (intro exI [of _ s'']) auto
qed

section \<open>Retries\<close>

lemma retry_granted:
  assumes "i < length (g_head s)" "tmp_name (g_head s ! i) = d" "tmp_retry_count (g_head s ! i) < 3"
  obtains s' where "checkAndUpdateTmpRetryCount (Some i) d s = (WEBCFG_SUCCESS, s')" "length (g_head s') = length (g_head s)"
    "g_head s' ! i = (g_head s ! i)\<lparr>tmp_retry_count := tmp_retry_count (g_head s ! i) + 1\<rparr>"
    "notifyMsgQ s' = notifyMsgQ s"
  using assms by (simp add: checkAndUpdateTmpRetryCount_def tmp_node_def MAX_APPLY_RETRY_COUNT_def upd_at_nth)

text \<open>What the database holds in the end: every document, root, and the rest as before.\<close>

lemma recorded_docs:
  fixes ms :: "multipartdocs list"
  assumes "distinct (map mp_name_space (m # ms))" "''root'' \<notin> mp_name_space ` set (m # ms)"
    and "db = db_update ''root'' v None (db_update (mp_name_space m) (mp_etag m) None d0)"
  shows "\<forall>mp\<in>set (m # ms). \<exists>r. recorded ms db (mp_name_space mp) = Some (mp_etag mp, r)"
    "recorded ms db ''root'' = Some (v, None)"
    "\<forall>e. e \<noteq> ''root'' \<and> e \<notin> mp_name_space ` set (m # ms) \<longrightarrow> recorded ms db e = d0 e"
proof -
  have "\<exists>r. recorded ms db (mp_name_space mp) = Some (mp_etag mp, r)" if "mp \<in> set (m # ms)" for mp
  proof (cases "mp = m")
    case True
    then have "recorded ms db (mp_name_space mp) = db (mp_name_space m)" using assms(1) by (simp add: recorded_other)
    also have "\<exists>r. \<dots> = Some (mp_etag mp, r)" using assms(2) True by (auto simp: assms(3) db_update_def)
    finally show ?thesis .
  qed (use that assms(1) recorded_at in auto)
  then show "\<forall>mp\<in>set (m # ms). \<exists>r. recorded ms db (mp_name_space mp) = Some (mp_etag mp, r)" by blast
  show "recorded ms db ''root'' = Some (v, None)"
    using assms(2) by (simp add: recorded_other) (simp add: assms(3) db_update_def)
  show "\<forall>e. e \<noteq> ''root'' \<and> e \<notin> mp_name_space ` set (m # ms) \<longrightarrow> recorded ms db e = d0 e"
    using assms(2) by (auto simp: recorded_other assms(3))
qed

lemma accepted_versions:
  assumes "fresh_primary env s" "\<forall>n r. fst (ae_set env n r)"
  obtains s' where "processMsgpackSubdoc env tid s = Some (WEBCFG_SUCCESS, s')" "apply_inv s'"
    "\<forall>mp\<in>set (g_mp_head s). \<exists>r. db_map (webcfgdb_data s') (mp_name_space mp) = Some (mp_etag mp, r)"
    "db_map (webcfgdb_data s') ''root'' = Some (get_global_root s, None)"
proof -
  obtain m ms where mps: "g_mp_head s = m # ms" using assms(1) by (cases "g_mp_head s") (auto simp: fresh_primary_def)
  have d: "distinct (map mp_name_space (m # ms))" "''root'' \<notin> mp_name_space ` set (m # ms)"
    using assms(1) mps by (auto simp: fresh_primary_def)
  note rec = recorded_docs(1,2) [OF d refl, of "get_global_root s" "db_map (webcfgdb_data s)"]
  let ?db = "recorded ms (db_update ''root'' (get_global_root s) None (db_update (mp_name_space m) (mp_etag m) None (db_map (webcfgdb_data s))))"
  obtain s' where s': "processMsgpackSubdoc env tid s = Some (WEBCFG_SUCCESS, s')" "apply_inv s'" "db_map (webcfgdb_data s') = ?db"
    using processMsgpackSubdoc_accepted [OF assms, of tid] unfolding mps list.sel by blast
  show thesis by (rule that [OF s'(1,2), unfolded s'(3) mps, OF rec])
qed

section \<open>Properties\<close>

text \<open>C2: when every component accepts its document and the documents carry plain parameters,
  a fresh primary sync returns success; the database then holds every document at its new
  version and \<open>root\<close> at the version of the ETag, and no other entry is touched. The list in
  progress is emptied when there is a single document; with more documents it is left behind
  with every document \<open>success\<close> and \<open>root\<close> still \<open>pending\<close>, because the loop compares
  its successes, which then count \<open>root\<close> too, with the documents it has seen so far.\<close>

theorem processMsgpackSubdoc_all_accepted:
  assumes "fresh_primary env s" "\<forall>n r. fst (ae_set env n r)"
  shows "\<exists>s'. processMsgpackSubdoc env tid s = Some (WEBCFG_SUCCESS, s') \<and> apply_inv s' \<and>
    (\<forall>mp\<in>set (g_mp_head s). \<exists>r. db_map (webcfgdb_data s') (mp_name_space mp) = Some (mp_etag mp, r)) \<and>
    db_map (webcfgdb_data s') ''root'' = Some (get_global_root s, None) \<and>
    (\<forall>d. d \<noteq> ''root'' \<and> d \<notin> mp_name_space ` set (g_mp_head s) \<longrightarrow>
       db_map (webcfgdb_data s') d = db_map (webcfgdb_data s) d) \<and>
    (if length (g_mp_head s) = 1 then g_head s' = []
     else (\<exists>rt. tmp_lookup ''root'' s' = Some rt \<and> tmp_status rt = ''pending'') \<and>
          (\<forall>mp\<in>set (g_mp_head s). \<exists>t. tmp_lookup (mp_name_space mp) s' = Some t \<and> tmp_status t = ''success''))"
proof -
  obtain m ms where mps: "g_mp_head s = m # ms" using assms(1) by (cases "g_mp_head s") (auto simp: fresh_primary_def)
  have d: "distinct (map mp_name_space (m # ms))" "''root'' \<notin> mp_name_space ` set (m # ms)"
    using assms(1) mps by (auto simp: fresh_primary_def)
  note rec = recorded_docs [OF d refl, of "get_global_root s" "db_map (webcfgdb_data s)"]
  let ?db = "recorded ms (db_update ''root'' (get_global_root s) None (db_update (mp_name_space m) (mp_etag m) None (db_map (webcfgdb_data s))))"
  obtain s' where s': "processMsgpackSubdoc env tid s = Some (WEBCFG_SUCCESS, s')" "apply_inv s'" "db_map (webcfgdb_data s') = ?db"
    and rest: "if length (m # ms) = 1 then g_head s' = []
     else (\<exists>rt. tmp_lookup ''root'' s' = Some rt \<and> tmp_status rt = ''pending'') \<and>
          (\<forall>mp\<in>set (m # ms). \<exists>t. tmp_lookup (mp_name_space mp) s' = Some t \<and> tmp_status t = ''success'')"
    using processMsgpackSubdoc_accepted [OF assms, of tid] unfolding mps list.sel by blast
  show ?thesis unfolding mps by (intro exI [of _ s'] conjI s'(1,2) rest, unfold s'(3)) (rule rec)+
qed

text \<open>An environment for the witnesses: every buffer decodes to one string parameter, every
  request is accepted.\<close>

definition demo_env :: apply_env where
  "demo_env = \<lparr>ae_unpack = (\<lambda>_. Some (MpMap [(MpStr ''parameters'', MpArray [MpMap
       [(MpStr ''name'', MpStr ''Device.X''), (MpStr ''value'', MpStr ''1''), (MpStr ''dataType'', MpPosInt 0)]])], 1)),
     ae_write = (\<lambda>_. ''w''), ae_b64 = (\<lambda>b. b), ae_beyond = NUL, ae_rbus_enabled = False, ae_WDMP_BLOB = 12,
     ae_WDMP_BASE64 = 8, ae_random = (\<lambda>_ _. Some 7), ae_set = (\<lambda>_ _. (True, 0)), ae_err_text = (\<lambda>_. ''error''),
     ae_now = 1000, ae_tz = (\<lambda>t. t), ae_errno = 0, ae_can_open = True\<rparr>"

lemma demo_convert:
  "webcfgparam_convert True (ae_unpack demo_env) (Some (d @ [ae_beyond demo_env])) (ae_errno demo_env) =
     (Some [\<lparr>wp_name = Some ''Device.X'', wp_value = Some ''1'', wp_value_size = 1, wp_type = 0\<rparr>], HELPERS_OK)"
  by (simp add: demo_env_def webcfgparam_convert_def helper_convert_def process_webcfgparam_def
      process_params_def process_params_kv_def wparam_zero_def strndup_def)

lemma demo_plain: "plain_doc demo_env mp"
  unfolding plain_doc_def demo_convert
  by (simp add: plain_req_def cstr_def validate_request_param_def MAX_PARAMETERNAME_LEN_def demo_env_def)

lemma demo_safe: "doc_safe demo_env s mp"
  unfolding doc_safe_def demo_convert
  by (simp add: params_safe_def rbus_direct_def demo_env_def)

lemma demo_accepts: "\<forall>n r. fst (ae_set demo_env n r)"
  by (simp add: demo_env_def)

text \<open>A state before a primary sync with the ETag 9 and the given documents.\<close>

definition demo_st :: "multipartdocs list \<Rightarrow> db_st" where
  "demo_st mps = db_st0\<lparr>g_ETAG := dec 9, g_mp_head := mps\<rparr>"

lemma demo_root: "get_global_root (demo_st mps) = 9"
  by (simp add: get_global_root_def demo_st_def strtoul0_dec)

lemma demo_inv: "apply_inv (demo_st mps)"
  by (simp add: demo_st_def apply_inv_def tmp_inv_def db_inv_def db_names_def)

theorem processMsgpackSubdoc_all_accepted_witness:
  "\<exists>s'. processMsgpackSubdoc demo_env None (demo_st [wan_doc, wan_doc\<lparr>mp_name_space := ''lan''\<rparr>]) = Some (WEBCFG_SUCCESS, s')
     \<and> db_map (webcfgdb_data s') ''root'' = Some (9, None) \<and> (\<exists>rt. tmp_lookup ''root'' s' = Some rt \<and> tmp_status rt = ''pending'')"
proof -
  let ?s = "demo_st [wan_doc, wan_doc\<lparr>mp_name_space := ''lan''\<rparr>]"
  have g: "g_mp_head ?s = [wan_doc, wan_doc\<lparr>mp_name_space := ''lan''\<rparr>]" "g_head ?s = []" "g_supplementarySync ?s = 0"
    by (simp_all add: demo_st_def)
  then have "fresh_primary demo_env ?s"
    using demo_inv demo_plain by (simp add: fresh_primary_def demo_root)
  from processMsgpackSubdoc_all_accepted [OF this demo_accepts, of None] show ?thesis
    unfolding g(1) demo_root by (elim exE conjE) (rule exI, rule conjI, assumption, rule conjI, assumption, simp)
qed



text \<open>The root version enters the database as soon as the first scalar document of a primary
  sync succeeds, although another document of the same sync is still \<open>pending_apply\<close>: the
  successes are compared with the documents seen so far, not with those of the sync.\<close>

theorem root_version_stored_early:
  assumes "apply_inv s" "lp_success_count L = 0" "lp_current_doc_count L = 1" "g_supplementarySync s = 0"
    and "get_global_root s \<noteq> 0" "params = p # ps" "rp_type p \<noteq> ae_WDMP_BASE64 env" "mp_isSupplementarySync mp = 0"
    and "j < length (g_head s)" "j \<noteq> i" "tmp_name (g_head s ! j) \<noteq> ''root''" "tmp_status (g_head s ! j) = ''pending_apply''"
  shows "\<exists>L' s'. apply_success env mp i params L s = Some (L', s') \<and> lp_rv L' = WEBCFG_SUCCESS \<and>
    db_map (webcfgdb_data s') ''root'' = Some (get_global_root s, None) \<and> g_head s' ! j = g_head s ! j"
proof -
  define s1 where "s1 = snd (updateTmpList (Some i) (mp_name_space mp) (mp_etag mp) ''success'' ''none'' 0 0 0 s)"
  define s2 where "s2 = notify_doc mp ''success'' ''none'' (tmp_cloud_trans_id (tmp_node i s1)) 0 s1"
  have s2: "apply_inv s2" "same_docs s s2" "g_head s2 = g_head s1" using assms(1) by (simp_all add: s1_def s2_def keeps)
  have h1: "g_head s1 ! j = g_head s ! j" "length (g_head s1) = length (g_head s)"
    using assms(10) by (simp_all add: s1_def updateTmpList_def upd_at_def)
  obtain st s3 where c3: "checkDBList (mp_name_space mp) (mp_etag mp) None s2 = Some (st, s3)" "apply_inv s3" "same_docs s2 s3"
    "g_head s3 = g_head s2" using checkDBList_keeps [OF s2(1)] by metis
  have root: "get_global_root s3 = get_global_root s" "g_supplementarySync s3 = 0"
    using s2(2) c3(3) assms(4) by (simp_all add: same_docs_def get_global_root_def)
  obtain st' s4 where c4: "checkDBList ''root'' (get_global_root s3) None s3 = Some (st', s4)" "g_head s4 = g_head s3"
    "db_map (webcfgdb_data s4) = db_update ''root'' (get_global_root s3) None (db_map (webcfgdb_data s3))"
    using checkDBList_keeps [OF c3(2)] by metis
  have node: "g_head s4 ! j = g_head s ! j" "length (g_head s4) = length (g_head s)" using s2(3) c3(4) c4(2) h1 by simp_all
  then have "g_head s ! j \<in> set (g_head s4)" using assms(9) by (metis nth_mem)
  then have "\<not> root_delete_walk False (g_head s4)" using assms(11,12) by (force simp: root_delete_walk_success)
  then have rd: "checkRootDelete s4 \<noteq> WEBCFG_SUCCESS" by (simp add: checkRootDelete_def)
  let ?L = "L\<lparr>lp_success_count := lp_success_count L + 1\<rparr>"
  have rs: "record_success mp i False L s = Some (?L, s3)"
    unfolding record_success_def Let_def s1_def [symmetric] s2_def [symmetric] using assms(8) c3(1) by simp
  have "record_root ?L s3 = Some (?L\<lparr>lp_success_count := 2, lp_rv := WEBCFG_SUCCESS\<rparr>, s4)"
    using assms(2,3,5) root c4(1) rd by (simp add: record_root_def)
  then have "apply_success env mp i params L s = Some (?L\<lparr>lp_success_count := 2, lp_rv := WEBCFG_SUCCESS\<rparr>, s4)"
    using assms(6,7) rs by (simp add: apply_success_def)
  moreover have "db_map (webcfgdb_data s4) ''root'' = Some (get_global_root s, None)"
    using c4(3) root(1) by (simp add: db_update_def)
  ultimately show ?thesis
    using node(1) by (intro exI [of _ "?L\<lparr>lp_success_count := 2, lp_rv := WEBCFG_SUCCESS\<rparr>"] exI [of _ s4]) simp
qed

theorem root_version_stored_early_witness:
  "\<exists>L' s'. apply_success demo_env wan_doc 1 [\<lparr>rp_name = Some ''a'', rp_value = Some ''1'', rp_type = 0\<rparr>]
     (apply_loop0\<lparr>lp_current_doc_count := 1\<rparr>)
     ((demo_st [wan_doc])\<lparr>g_head := [root_node, wan_node, wan_node\<lparr>tmp_name := ''lan''\<rparr>], numOfMpDocs := 3\<rparr>) = Some (L', s')
   \<and> db_map (webcfgdb_data s') ''root'' = Some (9, None) \<and> g_head s' ! 2 = wan_node\<lparr>tmp_name := ''lan''\<rparr>"
proof -
  let ?s = "(demo_st [wan_doc])\<lparr>g_head := [root_node, wan_node, wan_node\<lparr>tmp_name := ''lan''\<rparr>], numOfMpDocs := 3\<rparr>"
  let ?L = "apply_loop0\<lparr>lp_current_doc_count := 1\<rparr>"
  let ?p = "\<lparr>rp_name = Some ''a'', rp_value = Some ''1'', rp_type = 0\<rparr>"
  have h: "apply_inv ?s" "lp_success_count ?L = 0" "lp_current_doc_count ?L = 1" "g_supplementarySync ?s = 0"
    using demo_inv [of "[wan_doc]"] by (simp_all add: apply_inv_def tmp_inv_def db_inv_def apply_loop0_def demo_st_def)
  have r: "get_global_root ?s = 9" using demo_root by (simp add: get_global_root_def demo_st_def)
  have "get_global_root ?s \<noteq> 0" unfolding r by simp
  note h2 = h this
  have "rp_type ?p \<noteq> ae_WDMP_BASE64 demo_env" by (simp add: demo_env_def)
  note h3 = h2 refl [of "[?p]"] this
  have "mp_isSupplementarySync wan_doc = 0" "2 < length (g_head ?s)" "2 \<noteq> (1::nat)"
    "tmp_name (g_head ?s ! 2) \<noteq> ''root''" "tmp_status (g_head ?s ! 2) = ''pending_apply''"
    by (simp_all add: nth_Cons')
  from root_version_stored_early [OF h3 this] obtain L' s' where
    "apply_success demo_env wan_doc 1 [?p] ?L ?s = Some (L', s')" "db_map (webcfgdb_data s') ''root'' = Some (get_global_root ?s, None)"
    "g_head s' ! 2 = g_head ?s ! 2" by (elim exE conjE) (rule that)
  moreover have "g_head ?s ! 2 = wan_node\<lparr>tmp_name := ''lan''\<rparr>" by (simp add: nth_Cons')
  ultimately show ?thesis unfolding r by (intro exI conjI) (assumption+, simp)
qed

text \<open>A document whose \<open>parameters\<close> array is empty is accepted by the validation, sent
  without parameters, and when the component answers with success the type of the first
  parameter is read from a buffer of size 0.\<close>

theorem empty_parameters_read:
  assumes "apply_inv s" "getTmpNode (mp_name_space mp) s = Some i" "tmp_retry_count (tmp_node i s) < 3" "\<not> lp_stale L"
    and "webcfgparam_convert True (ae_unpack env) (Some (mp_data mp @ [ae_beyond env])) (ae_errno env) = (Some [], e)"
    and "\<forall>n r. fst (ae_set env n r)"
  shows "apply_document env n mp i L s = None"
proof -
  have mem: "mem_ok s" using assms(1) by (simp add: apply_inv_def)
  obtain s' where c: "checkAndUpdateTmpRetryCount (Some i) (mp_name_space mp) s = (WEBCFG_SUCCESS, s')"
    using retry_granted [OF node_found(1,2) [OF assms(2)]] assms(3) by (auto simp: tmp_node_def)
  obtain req where req: "set_request_of env mp [] (L\<lparr>lp_buff := None\<rparr>) s' = Some req"
    using assms(4) by (cases "rbus_direct env (mp_name_space mp) s'") (auto simp: set_request_of_def)
  obtain ccsp where ok: "ae_set env n req = (True, ccsp)"
    using assms(6) by (cases "ae_set env n req") (metis fst_conv)
  show ?thesis unfolding apply_document_def
    by (simp add: mem assms(5) c req ok validate_request_param_def apply_success_def)
qed

theorem empty_parameters_read_witness:
  "apply_document (demo_env\<lparr>ae_unpack := (\<lambda>_. Some (MpMap [(MpStr ''parameters'', MpArray [])], 1))\<rparr>) 0 wan_doc 1 apply_loop0
     (db_st0\<lparr>g_head := [root_node, wan_node], numOfMpDocs := 2\<rparr>) = None"
proof (rule empty_parameters_read)
  show "apply_inv (db_st0\<lparr>g_head := [root_node, wan_node], numOfMpDocs := 2\<rparr>)"
    by (simp add: apply_inv_def tmp_inv_def db_inv_def db_names_def)
  show "webcfgparam_convert True (ae_unpack (demo_env\<lparr>ae_unpack := \<lambda>_. Some (MpMap [(MpStr ''parameters'', MpArray [])], 1)\<rparr>))
     (Some (mp_data wan_doc @ [ae_beyond (demo_env\<lparr>ae_unpack := \<lambda>_. Some (MpMap [(MpStr ''parameters'', MpArray [])], 1)\<rparr>)]))
     (ae_errno (demo_env\<lparr>ae_unpack := \<lambda>_. Some (MpMap [(MpStr ''parameters'', MpArray [])], 1)\<rparr>)) = (Some [], HELPERS_OK)"
    by (simp add: demo_env_def webcfgparam_convert_def helper_convert_def process_webcfgparam_def)
qed (simp_all add: getTmpNode_def tmp_node_def apply_loop0_def demo_env_def)

end
