(* ===== verification/DocTimer.thy ===== *)
theory DocTimer
  imports TmpList
begin

text \<open>
  The event queue, the timers of the documents whose component asked for time, and the
  parsing of an event (\<open>src/src/webcfg_event.c\<close>). A node of the timer list is named by
  its position, as in \<open>TmpList\<close>; the strings of the queue are C strings without their
  terminating NUL.
\<close>

record expire_timer =
  et_running :: bool
  et_timeout :: u32
  et_subdoc_name :: string
  et_txid :: u16

text \<open>\<open>clientRequests\<close> is an output of the program: the values it has set on the parameter of the
  connected clients.\<close>

record ev_st = db_st +
  eventDataQ :: "string list"
  g_timer_head :: "expire_timer list"
  numOfEvents :: int
  clientRequests :: "string list"

section \<open>The event queue\<close>

definition event_enqueue :: "string \<Rightarrow> 'z ev_st_scheme \<Rightarrow> 'z ev_st_scheme" where
  "event_enqueue buf s = s\<lparr>eventDataQ := eventDataQ s @ [buf]\<rparr>"

definition event_dequeue :: "'z ev_st_scheme \<Rightarrow> (string \<times> 'z ev_st_scheme) option" where
  "event_dequeue s = (case eventDataQ s of [] \<Rightarrow> None | d # q \<Rightarrow> Some (d, s\<lparr>eventDataQ := q\<rparr>))"

definition addToEventQueue :: "string \<Rightarrow> 'z ev_st_scheme \<Rightarrow> 'z ev_st_scheme" where
  "addToEventQueue buf s = (if mem_ok s then event_enqueue buf s else s)"

definition webcfgCallback :: "string \<Rightarrow> 'z ev_st_scheme \<Rightarrow> 'z ev_st_scheme" where
  "webcfgCallback Info s = addToEventQueue (takeWhile (\<lambda>c. c \<noteq> NUL) Info) s"

interpretation evq: msg_queue
  "event_enqueue :: string \<Rightarrow> 'z ev_st_scheme \<Rightarrow> 'z ev_st_scheme" event_dequeue eventDataQ
  by unfold_locales (auto simp: event_enqueue_def event_dequeue_def split: list.splits)

section \<open>Parsing an event\<close>

record event_params =
  ev_subdoc_name :: "string option"
  ev_trans_id :: u16
  ev_version :: u32
  ev_status :: "string option"
  ev_timeout :: u32
  ev_process_name :: "string option"
  ev_err_code :: u16
  ev_failure_reason :: "string option"

text \<open>\<open>strsep (&p, ",")\<close>: the token, and the new value of the pointer.\<close>

definition strsep_comma :: "string option \<Rightarrow> string option \<times> string option" where
  "strsep_comma p =
     (case p of
        None \<Rightarrow> (None, None)
      | Some s \<Rightarrow>
          (Some (takeWhile (\<lambda>c. c \<noteq> CHR '','') s),
           (case dropWhile (\<lambda>c. c \<noteq> CHR '','') s of [] \<Rightarrow> None | _ # r \<Rightarrow> Some r)))"

definition strtoul_field :: "string option \<Rightarrow> u64" where
  "strtoul_field f = (case f of None \<Rightarrow> 0 | Some s \<Rightarrow> strtoul0 s)"

definition parseEventData :: "bool \<Rightarrow> string option \<Rightarrow> event_params option" where
  "parseEventData mem str =
     (if str = None \<or> \<not> mem then None
      else (let (subdoc_name, t1) = strsep_comma str; (trans_id, t2) = strsep_comma t1;
                (version, t3) = strsep_comma t2; (status, t4) = strsep_comma t3;
                (timeout, t5) = strsep_comma t4;
                (process_name, t6) = strsep_comma t5; (err_code, t7) = strsep_comma t6;
                (failure_reason, _) = strsep_comma t7
            in Some \<lparr>ev_subdoc_name = subdoc_name, ev_trans_id = ucast (strtoul_field trans_id),
                 ev_version = ucast (strtoul_field version), ev_status = status,
                 ev_timeout = ucast (strtoul_field timeout), ev_process_name = process_name,
                 ev_err_code = ucast (strtoul_field err_code), ev_failure_reason = failure_reason\<rparr>))"

section \<open>The timer list\<close>

fun timer_search :: "string \<Rightarrow> expire_timer list \<Rightarrow> nat option" where
  "timer_search docname [] = None"
| "timer_search docname (t # ts) =
     (if docname = et_subdoc_name t then Some 0 else map_option Suc (timer_search docname ts))"

definition getTimerNode :: "string \<Rightarrow> 'z ev_st_scheme \<Rightarrow> nat option" where
  "getTimerNode docname s = timer_search docname (g_timer_head s)"

definition updateTimerList ::
  "nat option \<Rightarrow> bool \<Rightarrow> string \<Rightarrow> u16 \<Rightarrow> u32 \<Rightarrow> 'z ev_st_scheme \<Rightarrow> WEBCFG_STATUS \<times> 'z ev_st_scheme" where
  "updateTimerList temp status docname transid timeout s =
     (case temp of
        None \<Rightarrow> (WEBCFG_FAILURE, s)
      | Some i \<Rightarrow>
          if i < length (g_timer_head s) \<and> docname = et_subdoc_name (g_timer_head s ! i)
          then (WEBCFG_SUCCESS, s\<lparr>g_timer_head :=
                  upd_at i (\<lambda>t. t\<lparr>et_running := status, et_timeout := timeout, et_txid := transid\<rparr>) (g_timer_head s)\<rparr>)
          else (WEBCFG_FAILURE, s))"

fun timer_append :: "expire_timer \<Rightarrow> expire_timer list \<Rightarrow> expire_timer list" where
  "timer_append x [] = [x]"
| "timer_append x (t # ts) = t # timer_append x ts"

definition startWebcfgTimer ::
  "nat option \<Rightarrow> string \<Rightarrow> u16 \<Rightarrow> u32 \<Rightarrow> 'z ev_st_scheme \<Rightarrow> WEBCFG_STATUS \<times> 'z ev_st_scheme" where
  "startWebcfgTimer timer_node name transID timeout s =
     (case updateTimerList timer_node True name transID timeout s of
        (WEBCFG_SUCCESS, s1) \<Rightarrow> (WEBCFG_SUCCESS, s1)
      | (_, s1) \<Rightarrow>
          if mem_ok s1 then
            (WEBCFG_SUCCESS,
             s1\<lparr>g_timer_head := timer_append \<lparr>et_running = True, et_timeout = timeout, et_subdoc_name = name, et_txid = transID\<rparr>
                  (g_timer_head s1),
                numOfEvents := numOfEvents s1 + 1\<rparr>)
          else (WEBCFG_FAILURE, s1))"

fun timer_unlink :: "string \<Rightarrow> expire_timer list \<Rightarrow> expire_timer list option" where
  "timer_unlink doc_name [] = None"
| "timer_unlink doc_name (t # ts) =
     (if et_subdoc_name t = doc_name then Some ts else map_option ((#) t) (timer_unlink doc_name ts))"

definition deleteFromTimerList :: "string option \<Rightarrow> 'z ev_st_scheme \<Rightarrow> WEBCFG_STATUS \<times> 'z ev_st_scheme" where
  "deleteFromTimerList doc_name s =
     (case doc_name of
        None \<Rightarrow> (WEBCFG_FAILURE, s)
      | Some d \<Rightarrow>
          (case timer_unlink d (g_timer_head s) of
             None \<Rightarrow> (WEBCFG_FAILURE, s)
           | Some ts \<Rightarrow> (WEBCFG_SUCCESS, s\<lparr>g_timer_head := ts, numOfEvents := numOfEvents s - 1\<rparr>)))"

definition stopWebcfgTimer ::
  "nat option \<Rightarrow> string \<Rightarrow> u16 \<Rightarrow> 'z ev_st_scheme \<Rightarrow> WEBCFG_STATUS \<times> 'z ev_st_scheme" where
  "stopWebcfgTimer temp name trans_id s =
     (case temp of
        None \<Rightarrow> (WEBCFG_FAILURE, s)
      | Some i \<Rightarrow>
          if i < length (g_timer_head s) \<and> name = et_subdoc_name (g_timer_head s ! i)
            \<and> et_running (g_timer_head s ! i) \<and> trans_id = et_txid (g_timer_head s ! i)
          then (case deleteFromTimerList (Some name) s of
                  (WEBCFG_SUCCESS, s1) \<Rightarrow> (WEBCFG_SUCCESS, s1)
                | (_, s1) \<Rightarrow> (WEBCFG_FAILURE, s1))
          else (WEBCFG_FAILURE, s))"

text \<open>The walk of \<open>checkTimerExpired\<close> stops at the first timer that has run out; the cast of
  the timeout to \<open>int\<close> is \<open>sint\<close>.\<close>

fun timer_walk :: "expire_timer list \<Rightarrow> string option \<times> expire_timer list" where
  "timer_walk [] = (None, [])"
| "timer_walk (t # ts) =
     (if et_running t \<and> sint (et_timeout t) \<le> 0 then (Some (et_subdoc_name t), t # ts)
      else (let (r, ts') = timer_walk ts
            in (r, (if et_running t then t\<lparr>et_timeout := et_timeout t - 5\<rparr> else t) # ts')))"

definition checkTimerExpired :: "'z ev_st_scheme \<Rightarrow> string option \<times> 'z ev_st_scheme" where
  "checkTimerExpired s = (case timer_walk (g_timer_head s) of (r, ts) \<Rightarrow> (r, s\<lparr>g_timer_head := ts\<rparr>))"

definition expiry_event :: "string \<Rightarrow> u16 \<Rightarrow> string" where
  "expiry_event docName transid = fit 128 (docName @ '','' @ dec (unat transid) @ '',0,EXPIRE,0'')"

definition createTimerExpiryEvent :: "string \<Rightarrow> u16 \<Rightarrow> 'z ev_st_scheme \<Rightarrow> 'z ev_st_scheme" where
  "createTimerExpiryEvent docName transid s =
     (if mem_ok s then addToEventQueue (expiry_event docName transid) s else s)"

text \<open>One turn of the loop of \<open>blobEventHandler\<close>; the flag says whether it sleeps for 5 s at
  the end of the turn. \<open>tx_id\<close> is the result of \<open>generateRandomId (1001, 3000)\<close>.\<close>

definition blobEventHandler_turn :: "u16 \<Rightarrow> 'z ev_st_scheme \<Rightarrow> bool \<times> 'z ev_st_scheme" where
  "blobEventHandler_turn tx_id s =
     (case checkTimerExpired s of
        (None, s1) \<Rightarrow> (True, s1)
      | (Some expired_doc, s1) \<Rightarrow>
          (False, createTimerExpiryEvent expired_doc tx_id
             (snd (updateTimerList (getTimerNode expired_doc s1) False expired_doc tx_id 0 s1))))"

section \<open>The list as a collection of timers\<close>

lemma timer_search_find_idx: "timer_search d ts = find_idx (\<lambda>t. et_subdoc_name t = d) ts"
  by (induction ts) auto

lemma timer_append_snoc [simp]: "timer_append t ts = ts @ [t]"
  by (induction ts) auto

definition timer_delete :: "string \<Rightarrow> expire_timer list \<Rightarrow> expire_timer list" where
  "timer_delete d ts = (case timer_unlink d ts of None \<Rightarrow> ts | Some ts' \<Rightarrow> ts')"

lemma timer_unlink_eq:
  "timer_unlink d ts = (if d \<in> et_subdoc_name ` set ts then Some (del_first (\<lambda>t. et_subdoc_name t = d) ts) else None)"
  by (induction ts) auto

lemma timer_delete_del_first: "timer_delete d ts = del_first (\<lambda>t. et_subdoc_name t = d) ts"
proof (cases "d \<in> et_subdoc_name ` set ts")
  case False
  then have "find_idx (\<lambda>t. et_subdoc_name t = d) ts = None" by (auto simp: find_idx_None)
  with False show ?thesis by (simp add: timer_delete_def timer_unlink_eq del_first_miss)
qed (simp add: timer_delete_def timer_unlink_eq)

interpretation et: doc_list et_subdoc_name timer_search timer_delete timer_append
  by (rule doc_listI) (simp_all add: timer_search_find_idx timer_delete_del_first)

definition timer_inv :: "'z ev_st_scheme \<Rightarrow> bool" where
  "timer_inv s \<longleftrightarrow> distinct (map et_subdoc_name (g_timer_head s)) \<and> numOfEvents s = int (length (g_timer_head s))"

definition timer_lookup :: "string \<Rightarrow> 'z ev_st_scheme \<Rightarrow> expire_timer option" where
  "timer_lookup d s = find (\<lambda>t. et_subdoc_name t = d) (g_timer_head s)"

section \<open>Invariant and effect of the timer operations\<close>

lemma getTimerNode_found:
  assumes "getTimerNode d s = Some i"
  shows "i < length (g_timer_head s)" "et_subdoc_name (g_timer_head s ! i) = d" "timer_lookup d s = Some (g_timer_head s ! i)"
  using et.get_Some [of d "g_timer_head s" i] et.lookup_find [of "g_timer_head s" d] assms
  by (simp_all add: getTimerNode_def timer_lookup_def)

lemma getTimerNode_None: "getTimerNode d s = None \<longleftrightarrow> timer_lookup d s = None"
  using et.lookup_find [of "g_timer_head s" d] by (simp add: getTimerNode_def timer_lookup_def flip: et.lookup_find)

definition timer_set :: "bool \<Rightarrow> u16 \<Rightarrow> u32 \<Rightarrow> expire_timer \<Rightarrow> expire_timer" where
  "timer_set run tx to t = t\<lparr>et_running := run, et_timeout := to, et_txid := tx\<rparr>"

lemma timer_set_simps [simp]:
  "et_subdoc_name (timer_set run tx to t) = et_subdoc_name t" "et_running (timer_set run tx to t) = run"
  "et_txid (timer_set run tx to t) = tx" "et_timeout (timer_set run tx to t) = to"
  by (simp_all add: timer_set_def)

lemma updateTimerList_lookup:
  assumes "getTimerNode d s = Some i"
  shows "fst (updateTimerList (Some i) run d tx to s) = WEBCFG_SUCCESS"
    "timer_lookup e (snd (updateTimerList (Some i) run d tx to s)) =
       (if e = d then map_option (timer_set run tx to) (timer_lookup d s) else timer_lookup e s)"
proof -
  have f: "find_idx (\<lambda>t. et_subdoc_name t = d) (g_timer_head s) = Some i"
    using assms by (simp add: getTimerNode_def timer_search_find_idx)
  note n = getTimerNode_found(1,2) [OF assms]
  then show "fst (updateTimerList (Some i) run d tx to s) = WEBCFG_SUCCESS" by (simp add: updateTimerList_def)
  show "timer_lookup e (snd (updateTimerList (Some i) run d tx to s)) =
       (if e = d then map_option (timer_set run tx to) (timer_lookup d s) else timer_lookup e s)"
    using find_upd_at [of et_subdoc_name "timer_set run tx to", OF _ f, of e] n
    by (simp add: updateTimerList_def timer_lookup_def timer_set_def [abs_def])
qed

lemma updateTimerList_inv: "timer_inv s \<Longrightarrow> timer_inv (snd (updateTimerList temp run d tx to s))"
  by (auto simp: updateTimerList_def timer_inv_def map_upd_at split: option.split)

lemma timer_unlink_Some:
  assumes "timer_unlink d ts = Some ts'"
  shows "ts' = timer_delete d ts" "length ts = Suc (length ts')"
proof -
  show "ts' = timer_delete d ts" using assms by (simp add: timer_delete_def)
  show "length ts = Suc (length ts')" using assms by (induction ts arbitrary: ts') (auto split: if_splits)
qed

lemma deleteFromTimerList_inv:
  assumes "timer_inv s"
  shows "timer_inv (snd (deleteFromTimerList d s))"
proof (cases "case d of None \<Rightarrow> None | Some n \<Rightarrow> timer_unlink n (g_timer_head s)")
  case None
  with assms show ?thesis by (auto simp: deleteFromTimerList_def split: option.splits)
next
  case (Some ts)
  then obtain n where n: "d = Some n" "timer_unlink n (g_timer_head s) = Some ts" by (cases d) auto
  have "distinct (map et_subdoc_name ts)"
    using et.distinct_del [of "g_timer_head s" n] timer_unlink_Some(1) [OF n(2)] assms by (simp add: timer_inv_def)
  with n timer_unlink_Some(2) [OF n(2)] assms show ?thesis by (simp add: deleteFromTimerList_def timer_inv_def)
qed

lemma timer_walk_names: "map et_subdoc_name (snd (timer_walk ts)) = map et_subdoc_name ts"
  by (induction ts) (auto simp: split_beta)

lemma timer_walk_expired: "fst (timer_walk ts) = Some d \<Longrightarrow> d \<in> et_subdoc_name ` set ts"
  by (induction ts) (auto simp: split_beta split: if_splits)

lemma checkTimerExpired_inv: "timer_inv s \<Longrightarrow> timer_inv (snd (checkTimerExpired s))"
  using timer_walk_names [of "g_timer_head s"] map_eq_imp_length_eq [OF timer_walk_names [of "g_timer_head s"]]
  by (simp add: checkTimerExpired_def timer_inv_def split_beta)

lemma addToEventQueue_frame [simp]:
  "g_timer_head (addToEventQueue b s) = g_timer_head s" "numOfEvents (addToEventQueue b s) = numOfEvents s"
  "timer_inv (addToEventQueue b s) = timer_inv s" "mem_ok (addToEventQueue b s) = mem_ok s"
  by (simp_all add: addToEventQueue_def event_enqueue_def timer_inv_def)

lemma createTimerExpiryEvent_frame [simp]:
  "timer_inv (createTimerExpiryEvent d tx s) = timer_inv s" "g_timer_head (createTimerExpiryEvent d tx s) = g_timer_head s"
  by (simp_all add: createTimerExpiryEvent_def)

lemma blobEventHandler_turn_inv: "timer_inv s \<Longrightarrow> timer_inv (snd (blobEventHandler_turn tx s))"
  using checkTimerExpired_inv [of s] updateTimerList_inv
  by (auto simp: blobEventHandler_turn_def split: prod.splits option.splits)

lemma stopWebcfgTimer_inv: "timer_inv s \<Longrightarrow> timer_inv (snd (stopWebcfgTimer temp d tx s))"
  using deleteFromTimerList_inv [of s "Some d"]
  by (auto simp: stopWebcfgTimer_def split: option.splits prod.splits WEBCFG_STATUS.splits)

lemma startWebcfgTimer_None:
  "startWebcfgTimer None d tx to s =
     (if mem_ok s then (WEBCFG_SUCCESS,
        s\<lparr>g_timer_head := g_timer_head s @ [\<lparr>et_running = True, et_timeout = to, et_subdoc_name = d, et_txid = tx\<rparr>],
          numOfEvents := numOfEvents s + 1\<rparr>) else (WEBCFG_FAILURE, s))"
  by (simp add: startWebcfgTimer_def updateTimerList_def)

lemma startWebcfgTimer_Some:
  assumes "getTimerNode d s = Some i"
  shows "startWebcfgTimer (Some i) d tx to s = updateTimerList (Some i) True d tx to s"
  using updateTimerList_lookup(1) [OF assms, of True tx to]
  by (cases "updateTimerList (Some i) True d tx to s") (simp add: startWebcfgTimer_def)

lemma startWebcfgTimer_inv:
  assumes "timer_inv s"
  shows "timer_inv (snd (startWebcfgTimer (getTimerNode d s) d tx to s))"
proof (cases "getTimerNode d s")
  case None
  then have "d \<notin> et_subdoc_name ` set (g_timer_head s)"
    using et.get_None [of d "g_timer_head s"] by (simp add: getTimerNode_def)
  with None assms show ?thesis by (auto simp: startWebcfgTimer_None timer_inv_def)
next
  case (Some i)
  show ?thesis unfolding Some startWebcfgTimer_Some [OF Some] by (rule updateTimerList_inv [OF assms])
qed

section \<open>How long a timer runs\<close>

text \<open>The list after \<open>n\<close> checks.\<close>

definition timer_after :: "nat \<Rightarrow> expire_timer list \<Rightarrow> expire_timer list" where
  "timer_after n = (snd \<circ> timer_walk) ^^ n"

lemma timer_after_simps [simp]:
  "timer_after 0 ts = ts" "timer_after (Suc n) ts = snd (timer_walk (timer_after n ts))"
  by (simp_all add: timer_after_def)

lemma sint_u32: "0 \<le> z \<Longrightarrow> z < 2 ^ 31 \<Longrightarrow> sint (word_of_int z :: u32) = z"
  by (simp add: sint_sbintrunc' signed_take_bit_int_eq_self)

lemma sint_u32_neg: "-(2 ^ 31) \<le> z \<Longrightarrow> z < 0 \<Longrightarrow> sint (word_of_int z :: u32) = z"
  by (simp add: sint_sbintrunc' signed_take_bit_int_eq_self)

lemma timer_after_alone:
  assumes "et_running t" "et_timeout t = word_of_int z" "0 < z" "z < 2 ^ 31" "5 * (int n - 1) < z"
  shows "timer_after n [t] = [t\<lparr>et_timeout := word_of_int (z - 5 * int n)\<rparr>]"
  using assms(5)
proof (induction n)
  case 0
  then show ?case using assms(2) by simp
next
  case (Suc n)
  then have IH: "timer_after n [t] = [t\<lparr>et_timeout := word_of_int (z - 5 * int n)\<rparr>]" by simp
  have "0 < z - 5 * int n" "z - 5 * int n < 2 ^ 31" using Suc.prems assms(4) by simp_all
  then have "\<not> sint (word_of_int (z - 5 * int n) :: u32) \<le> 0" using sint_u32 [of "z - 5 * int n"] by simp
  moreover have "(word_of_int (z - 5 * int n) :: u32) - 5 = word_of_int (z - 5 * int (Suc n))"
    by (simp add: word_of_int_hom_syms algebra_simps)
  ultimately show ?case using assms(1) by (simp add: IH)
qed

section \<open>Events as text\<close>

definition no_comma :: "string \<Rightarrow> bool" where
  "no_comma s \<longleftrightarrow> CHR '','' \<notin> set s"

lemma strsep_comma_append [simp]:
  "no_comma a \<Longrightarrow> strsep_comma (Some (a @ CHR '','' # r)) = (Some a, Some r)"
  "no_comma a \<Longrightarrow> strsep_comma (Some a) = (Some a, None)"
  "strsep_comma None = (None, None)"
proof -
  have t: "takeWhile (\<lambda>c. c \<noteq> CHR '','') a = a" if "no_comma a" for a
    using that by (auto simp: no_comma_def takeWhile_eq_all_conv)
  have d: "dropWhile (\<lambda>c. c \<noteq> CHR '','') a = []" if "no_comma a" for a
    using that by (auto simp: no_comma_def)
  show "no_comma a \<Longrightarrow> strsep_comma (Some (a @ CHR '','' # r)) = (Some a, Some r)"
    by (subst strsep_comma_def) (auto simp: takeWhile_append dropWhile_append t d no_comma_def)
  show "no_comma a \<Longrightarrow> strsep_comma (Some a) = (Some a, None)"
    by (simp add: strsep_comma_def t d)
qed (simp add: strsep_comma_def)

lemma no_comma_dec [simp]: "no_comma (dec n)"
  using dec_plain by (auto simp: no_comma_def)

text \<open>An event as a component sends it.\<close>

definition event_text :: "string \<Rightarrow> u16 \<Rightarrow> u32 \<Rightarrow> string \<Rightarrow> u32 \<Rightarrow> string" where
  "event_text name txid version status timeout =
     name @ '','' @ dec (unat txid) @ '','' @ dec (unat version) @ '','' @ status @ '','' @ dec (unat timeout)"

definition nack_text :: "string \<Rightarrow> u16 \<Rightarrow> u32 \<Rightarrow> string \<Rightarrow> u32 \<Rightarrow> string \<Rightarrow> u16 \<Rightarrow> string \<Rightarrow> string" where
  "nack_text name txid version status timeout process code reason =
     event_text name txid version status timeout @ '','' @ process @ '','' @ dec (unat code) @ '','' @ reason"

lemma strtoul_u16: "(ucast (strtoul0 (dec (unat (x :: u16)))) :: u16) = x"
proof -
  have "unat x < 2 ^ 64" using unsigned_less [of x, where 'a = nat] by simp
  then show ?thesis by (simp add: strtoul0_dec)
qed

lemma strtoul_u32: "(ucast (strtoul0 (dec (unat (x :: u32)))) :: u32) = x"
proof -
  have "unat x < 2 ^ 64" using unsigned_less [of x, where 'a = nat] by simp
  then show ?thesis by (simp add: strtoul0_dec)
qed

lemma parse_event_text:
  assumes "no_comma name" "no_comma status"
  shows "parseEventData True (Some (event_text name txid version status timeout)) =
    Some \<lparr>ev_subdoc_name = Some name, ev_trans_id = txid, ev_version = version, ev_status = Some status,
      ev_timeout = timeout, ev_process_name = None, ev_err_code = 0, ev_failure_reason = None\<rparr>"
  using assms by (simp add: parseEventData_def event_text_def strtoul_field_def strtoul_u16 strtoul_u32)

lemma parse_nack_text:
  assumes "no_comma name" "no_comma status" "no_comma process" "no_comma reason"
  shows "parseEventData True (Some (nack_text name txid version status timeout process code reason)) =
    Some \<lparr>ev_subdoc_name = Some name, ev_trans_id = txid, ev_version = version, ev_status = Some status,
      ev_timeout = timeout, ev_process_name = Some process, ev_err_code = code, ev_failure_reason = Some reason\<rparr>"
  using assms by (simp add: parseEventData_def nack_text_def event_text_def strtoul_field_def strtoul_u16 strtoul_u32)

section \<open>What starting and stopping a timer do to the list\<close>

lemma startWebcfgTimer_lookup:
  assumes "mem_ok s"
  shows "fst (startWebcfgTimer (getTimerNode d s) d tx to s) = WEBCFG_SUCCESS"
    "timer_lookup e (snd (startWebcfgTimer (getTimerNode d s) d tx to s)) =
       (if e = d then Some \<lparr>et_running = True, et_timeout = to, et_subdoc_name = d, et_txid = tx\<rparr> else timer_lookup e s)"
proof -
  have "fst (startWebcfgTimer (getTimerNode d s) d tx to s) = WEBCFG_SUCCESS \<and>
    timer_lookup e (snd (startWebcfgTimer (getTimerNode d s) d tx to s)) =
       (if e = d then Some \<lparr>et_running = True, et_timeout = to, et_subdoc_name = d, et_txid = tx\<rparr> else timer_lookup e s)"
  proof (cases "getTimerNode d s")
    case None
    then have "timer_lookup d s = None" by (simp add: getTimerNode_None)
    then have "find (\<lambda>t. et_subdoc_name t = e) (g_timer_head s @ [\<lparr>et_running = True, et_timeout = to, et_subdoc_name = d, et_txid = tx\<rparr>])
        = (if e = d then Some \<lparr>et_running = True, et_timeout = to, et_subdoc_name = d, et_txid = tx\<rparr> else timer_lookup e s)"
      using et.find_add [of e "\<lparr>et_running = True, et_timeout = to, et_subdoc_name = d, et_txid = tx\<rparr>" "g_timer_head s"]
      by (auto simp: timer_lookup_def split: option.splits)
    with assms show ?thesis
      unfolding None startWebcfgTimer_None by (simp add: timer_lookup_def)
  next
    case (Some i)
    note n = getTimerNode_found [OF Some]
    have "timer_set True tx to (g_timer_head s ! i) = \<lparr>et_running = True, et_timeout = to, et_subdoc_name = d, et_txid = tx\<rparr>"
      using n(2) by (cases "g_timer_head s ! i") (simp add: timer_set_def)
    with updateTimerList_lookup [OF Some, where run = True and tx = tx and to = to] n(3) show ?thesis
      unfolding Some startWebcfgTimer_Some [OF Some] by auto
  qed
  then show "fst (startWebcfgTimer (getTimerNode d s) d tx to s) = WEBCFG_SUCCESS"
    "timer_lookup e (snd (startWebcfgTimer (getTimerNode d s) d tx to s)) =
       (if e = d then Some \<lparr>et_running = True, et_timeout = to, et_subdoc_name = d, et_txid = tx\<rparr> else timer_lookup e s)"
    by blast+
qed

lemma stopWebcfgTimer_eq:
  "stopWebcfgTimer (getTimerNode d s) d tx s =
     (if (\<exists>t. timer_lookup d s = Some t \<and> et_running t \<and> et_txid t = tx)
      then (WEBCFG_SUCCESS, s\<lparr>g_timer_head := timer_delete d (g_timer_head s), numOfEvents := numOfEvents s - 1\<rparr>)
      else (WEBCFG_FAILURE, s))"
proof (cases "getTimerNode d s")
  case None
  then show ?thesis using getTimerNode_None [of d s] by (simp add: stopWebcfgTimer_def)
next
  case (Some i)
  note n = getTimerNode_found [OF Some]
  have "d \<in> et_subdoc_name ` set (g_timer_head s)" using n(1,2) by (metis image_eqI nth_mem)
  with Some n show ?thesis by (auto simp: stopWebcfgTimer_def deleteFromTimerList_def timer_unlink_eq timer_delete_del_first)
qed

section \<open>Properties\<close>

text \<open>Starting the timer of a document, new or already listed, succeeds and leaves exactly
  its node running with the new time and transaction id; stopping it succeeds exactly for a
  running timer with the transaction id of the event, and then removes only this node; both
  keep the names unique and the counter equal to the length.\<close>

theorem timer_start_stop:
  assumes "mem_ok s" "timer_inv s"
  shows "let (st, s1) = startWebcfgTimer (getTimerNode d s) d tx to s; (st2, s2) = stopWebcfgTimer (getTimerNode d s1) d tx2 s1
    in st = WEBCFG_SUCCESS \<and> timer_inv s1 \<and> timer_inv s2 \<and>
       timer_lookup d s1 = Some \<lparr>et_running = True, et_timeout = to, et_subdoc_name = d, et_txid = tx\<rparr> \<and>
       (st2 = WEBCFG_SUCCESS \<longleftrightarrow> tx2 = tx) \<and>
       timer_lookup d s2 = (if tx2 = tx then None else timer_lookup d s1) \<and>
       (\<forall>e. e \<noteq> d \<longrightarrow> timer_lookup e s1 = timer_lookup e s \<and> timer_lookup e s2 = timer_lookup e s)"
proof -
  obtain st s1 where 1: "startWebcfgTimer (getTimerNode d s) d tx to s = (st, s1)" by (metis surj_pair)
  obtain st2 s2 where 2: "stopWebcfgTimer (getTimerNode d s1) d tx2 s1 = (st2, s2)" by (metis surj_pair)
  note l = startWebcfgTimer_lookup [OF assms(1), where d = d and tx = tx and to = to, unfolded 1 fst_conv snd_conv]
  have i1: "timer_inv s1" using startWebcfgTimer_inv [OF assms(2), of d tx to] 1 by simp
  then have i2: "timer_inv s2" using stopWebcfgTimer_inv [of s1 "getTimerNode d s1" d tx2] 2 by simp
  have d1: "distinct (map et_subdoc_name (g_timer_head s1))" using i1 by (simp add: timer_inv_def)
  have "st2 = WEBCFG_SUCCESS \<longleftrightarrow> tx2 = tx" using 2 l(2) by (auto simp: stopWebcfgTimer_eq split: if_splits)
  moreover have "timer_lookup e s2 = (if tx2 = tx \<and> e = d then None else timer_lookup e s1)" for e
    using 2 l(2) et.find_del [OF d1, of e d] et.find_del [OF d1, of d e]
    by (auto simp: stopWebcfgTimer_eq timer_lookup_def split: if_splits)
  ultimately show ?thesis using 1 2 l i1 i2 by simp
qed

definition ev_st0 :: ev_st where
  "ev_st0 = db_st.extend db_st0 \<lparr>eventDataQ = [], g_timer_head = [], numOfEvents = 0, clientRequests = []\<rparr>"

lemma ev_st0_simps [simp]: "mem_ok ev_st0" "webcfgdb_data ev_st0 = []" "g_head ev_st0 = []"
  "success_doc_count ev_st0 = 0" "numOfMpDocs ev_st0 = 0" "g_mp_head ev_st0 = []" "g_supplementarySync ev_st0 = 0"
  "eventDataQ ev_st0 = []" "g_timer_head ev_st0 = []" "numOfEvents ev_st0 = 0" "notifyMsgQ ev_st0 = []"
  by (simp_all add: ev_st0_def db_st.defs db_st0_defs)

theorem timer_start_stop_witness:
  "timer_lookup ''wan'' (snd (startWebcfgTimer (getTimerNode ''wan'' ev_st0) ''wan'' 7 60 ev_st0)) =
   Some \<lparr>et_running = True, et_timeout = 60, et_subdoc_name = ''wan'', et_txid = 7\<rparr>"
proof -
  have "mem_ok ev_st0" "timer_inv ev_st0" by (simp_all add: timer_inv_def)
  from timer_start_stop [OF this, of "''wan''" 7 60 7] show ?thesis by (simp add: split_beta Let_def)
qed

text \<open>C36: a single timer of \<open>t\<close> seconds, counted in steps of five, is reported after
  \<open>t\<close> divided by five, rounded up, checks without a report; a time of \<open>2^31\<close> or more
  is negative as an \<open>int\<close> and is reported at the first check.\<close>

theorem timer_deadline:
  assumes "et_running t" "n = (unat (et_timeout t) + 4) div 5"
  shows "(unat (et_timeout t) < 2 ^ 31 \<longrightarrow> (\<forall>k<n. fst (timer_walk (timer_after k [t])) = None) \<and>
        fst (timer_walk (timer_after n [t])) = Some (et_subdoc_name t)) \<and>
    (2 ^ 31 \<le> unat (et_timeout t) \<longrightarrow> fst (timer_walk [t]) = Some (et_subdoc_name t))"
proof -
  define m where "m = unat (et_timeout t)"
  have z: "et_timeout t = word_of_int (int m)" by (simp add: m_def)
  have u: "m < 2 ^ 32" using unsigned_less [of "et_timeout t", where 'a = nat] by (simp add: m_def)
  have n: "n = (m + 4) div 5" using assms(2) by (simp add: m_def)
  have late: "fst (timer_walk [t]) = Some (et_subdoc_name t)" if "2 ^ 31 \<le> m"
  proof -
    have "(word_of_int (int m - 2 ^ 32) :: u32) = word_of_int (int m)" by (simp add: word_of_int_eq_iff take_bit_eq_mod)
    then have e: "word_of_int (int m - 2 ^ 32) = et_timeout t" using z by (rule trans [OF _ sym])
    have "- (2 ^ 31) \<le> int m - 2 ^ 32" "int m - 2 ^ 32 < 0" using that u by simp_all
    then have "sint (et_timeout t) = int m - 2 ^ 32" by (rule sint_u32_neg [of "int m - 2 ^ 32", unfolded e])
    then have "sint (et_timeout t) \<le> 0" using u by simp
    with assms(1) show ?thesis by simp
  qed
  have early: "(\<forall>k<n. fst (timer_walk (timer_after k [t])) = None) \<and> fst (timer_walk (timer_after n [t])) = Some (et_subdoc_name t)"
    if b: "m < 2 ^ 31"
  proof -
    have after: "timer_after k [t] = [t\<lparr>et_timeout := word_of_int (int m - 5 * int k)\<rparr>]" if "k \<le> n" for k
    proof (cases "m = 0")
      case True
      then have "n = 0" "et_timeout t = 0" using n z by simp_all
      with that \<open>m = 0\<close> show ?thesis by (cases t) simp
    next
      case False
      then show ?thesis using that b n by (intro timer_after_alone [OF assms(1) z]) auto
    qed
    have st: "sint (word_of_int (int m - 5 * int k) :: u32) = int m - 5 * int k" if "k \<le> n" for k
    proof (cases "0 \<le> int m - 5 * int k")
      case True
      then show ?thesis using b by (intro sint_u32) auto
    next
      case False
      then show ?thesis using that n by (intro sint_u32_neg) auto
    qed
    have "fst (timer_walk (timer_after k [t])) = None" if "k < n" for k
    proof -
      have "0 < int m - 5 * int k" using that n by linarith
      then show ?thesis using after [of k] st [of k] that by simp
    qed
    moreover have "int m - 5 * int n \<le> 0" using n by linarith
    then have "fst (timer_walk (timer_after n [t])) = Some (et_subdoc_name t)"
      using after [of n] st [of n] assms(1) by simp
    ultimately show ?thesis by blast
  qed
  show ?thesis using early late by (simp add: m_def)
qed

theorem timer_deadline_witness:
  "fst (timer_walk (timer_after 3 [\<lparr>et_running = True, et_timeout = 12, et_subdoc_name = ''wan'', et_txid = 7\<rparr>])) = Some ''wan''"
proof -
  let ?t = "\<lparr>et_running = True, et_timeout = 12, et_subdoc_name = ''wan'', et_txid = 7\<rparr>"
  have "et_running ?t" "3 = (unat (et_timeout ?t) + 4) div 5" by simp_all
  from timer_deadline [OF this, THEN conjunct1] show ?thesis by simp
qed

text \<open>The loop does not sleep after a timer has run out, but the check that finds it has
  already taken 5 s from every running timer in front of it: these documents lose 5 s of
  their time without any time passing.\<close>

theorem expiry_shortens_others:
  assumes "g_timer_head s = ts @ e # rest" "et_running e" "sint (et_timeout e) \<le> 0"
    and "\<forall>t\<in>set ts. et_running t \<and> 0 < sint (et_timeout t)" "mem_ok s" "timer_inv s"
  shows "\<exists>s'. blobEventHandler_turn tx s = (False, s') \<and> eventDataQ s' = eventDataQ s @ [expiry_event (et_subdoc_name e) tx] \<and>
    g_timer_head s' = map (\<lambda>t. t\<lparr>et_timeout := et_timeout t - 5\<rparr>) ts @ timer_set False tx 0 e # rest"
proof -
  let ?ts = "map (\<lambda>t. t\<lparr>et_timeout := et_timeout t - 5\<rparr>) ts"
  have w: "timer_walk (ts @ e # rest) = (Some (et_subdoc_name e), ?ts @ e # rest)"
    using assms(2-4) by (induction ts) auto
  let ?s1 = "s\<lparr>g_timer_head := ?ts @ e # rest\<rparr>"
  have "et_subdoc_name (ts ! j) \<noteq> et_subdoc_name e" if "j < length ts" for j
  proof -
    have "et_subdoc_name e \<notin> et_subdoc_name ` set ts" using assms(1,6) by (auto simp: timer_inv_def)
    with nth_mem [OF that] show ?thesis by (metis image_eqI)
  qed
  then have "find_idx (\<lambda>t. et_subdoc_name t = et_subdoc_name e) (?ts @ e # rest) = Some (length ts)"
    by (auto simp: find_idx_Some nth_append)
  then have g: "getTimerNode (et_subdoc_name e) ?s1 = Some (length ts)"
    by (simp add: getTimerNode_def timer_search_find_idx)
  have "updateTimerList (Some (length ts)) False (et_subdoc_name e) tx 0 ?s1 =
      (WEBCFG_SUCCESS, s\<lparr>g_timer_head := ?ts @ timer_set False tx 0 e # rest\<rparr>)"
    by (simp add: updateTimerList_def upd_at_def nth_append timer_set_def list_update_append)
  then have "blobEventHandler_turn tx s =
      (False, createTimerExpiryEvent (et_subdoc_name e) tx (s\<lparr>g_timer_head := ?ts @ timer_set False tx 0 e # rest\<rparr>))"
    using w g assms(1) by (simp add: blobEventHandler_turn_def checkTimerExpired_def)
  then show ?thesis
    using assms(5) by (simp add: createTimerExpiryEvent_def addToEventQueue_def event_enqueue_def)
qed

theorem expiry_shortens_others_witness:
  "\<exists>s'. blobEventHandler_turn 1500 (ev_st0\<lparr>g_timer_head := [\<lparr>et_running = True, et_timeout = 60, et_subdoc_name = ''wan'', et_txid = 7\<rparr>,
       \<lparr>et_running = True, et_timeout = 0, et_subdoc_name = ''lan'', et_txid = 8\<rparr>], numOfEvents := 2\<rparr>) = (False, s') \<and>
     map et_timeout (g_timer_head s') = [55, 0]"
proof -
  let ?w = "\<lparr>et_running = True, et_timeout = 60, et_subdoc_name = ''wan'', et_txid = 7\<rparr>"
  let ?l = "\<lparr>et_running = True, et_timeout = 0, et_subdoc_name = ''lan'', et_txid = 8\<rparr>"
  let ?s = "ev_st0\<lparr>g_timer_head := [?w, ?l], numOfEvents := 2\<rparr>"
  have "g_timer_head ?s = [?w] @ ?l # []" "et_running ?l" "sint (et_timeout ?l) \<le> 0"
    "\<forall>t\<in>set [?w]. et_running t \<and> 0 < sint (et_timeout t)" "mem_ok ?s" "timer_inv ?s"
    by (simp_all add: timer_inv_def)
  from expiry_shortens_others [OF this, of 1500] obtain s' where
    "blobEventHandler_turn 1500 ?s = (False, s')" "g_timer_head s' = [?w\<lparr>et_timeout := 60 - 5\<rparr>] @ timer_set False 1500 0 ?l # []"
    by auto
  then show ?thesis by (intro exI [of _ s']) simp
qed

text \<open>Parsing an event gives back the fields it was written from, with their full width,
  both for the events of five fields and for a NACK with process, error code and reason;
  the event a timer makes for a document with a short name reads as \<open>EXPIRE\<close> with the
  transaction id of the timer and version 0.\<close>

theorem parse_event_roundtrip:
  assumes "no_comma name" "no_comma status" "no_comma process" "no_comma reason"
  shows "parseEventData True (Some (event_text name txid version status timeout)) =
      Some \<lparr>ev_subdoc_name = Some name, ev_trans_id = txid, ev_version = version, ev_status = Some status,
        ev_timeout = timeout, ev_process_name = None, ev_err_code = 0, ev_failure_reason = None\<rparr> \<and>
    parseEventData True (Some (nack_text name txid version status timeout process code reason)) =
      Some \<lparr>ev_subdoc_name = Some name, ev_trans_id = txid, ev_version = version, ev_status = Some status,
        ev_timeout = timeout, ev_process_name = Some process, ev_err_code = code, ev_failure_reason = Some reason\<rparr> \<and>
    (length name < 100 \<longrightarrow> parseEventData True (Some (expiry_event name txid)) =
      Some \<lparr>ev_subdoc_name = Some name, ev_trans_id = txid, ev_version = 0, ev_status = Some ''EXPIRE'',
        ev_timeout = 0, ev_process_name = None, ev_err_code = 0, ev_failure_reason = None\<rparr>)"
proof (intro conjI impI)
  assume l: "length name < 100"
  have "length (dec (unat txid)) \<le> 5"
    using unsigned_less [of txid, where 'a = nat] length_dec [of "unat txid" 4] by simp
  with l have "expiry_event name txid = event_text name txid 0 ''EXPIRE'' 0"
    by (simp add: expiry_event_def event_text_def fit_def dec_zero)
  moreover have "no_comma ''EXPIRE''" by (simp add: no_comma_def)
  ultimately show "parseEventData True (Some (expiry_event name txid)) =
      Some \<lparr>ev_subdoc_name = Some name, ev_trans_id = txid, ev_version = 0, ev_status = Some ''EXPIRE'',
        ev_timeout = 0, ev_process_name = None, ev_err_code = 0, ev_failure_reason = None\<rparr>"
    using parse_event_text [OF assms(1), of "''EXPIRE''" txid 0 0] by simp
qed (rule parse_event_text parse_nack_text; fact assms)+

theorem parse_event_roundtrip_witness:
  "parseEventData True (Some (event_text ''wan'' 1234 5 ''ACK'' 0)) =
     Some \<lparr>ev_subdoc_name = Some ''wan'', ev_trans_id = 1234, ev_version = 5, ev_status = Some ''ACK'',
       ev_timeout = 0, ev_process_name = None, ev_err_code = 0, ev_failure_reason = None\<rparr>"
  by (rule parse_event_roundtrip [of _ _ "''p''" "''r''", THEN conjunct1]) (simp_all add: no_comma_def)

end
