(* ===== verification/Events.thy ===== *)
theory Events
  imports Applied DocTimer
begin

text \<open>
  The processing of the components' events (\<open>processSubdocEvents\<close> of
  \<open>src/src/webcfg_event.c\<close>): the acknowledgements, the timeouts, and the retry of a
  document after a crash or an expired timer, with the limit on these retries. One call of \<open>processSubdocEvent\<close> takes one
  event off the queue; \<open>None\<close> is undefined behaviour.
\<close>

section \<open>Retrying a document\<close>

text \<open>Unlike \<open>build_params\<close> of \<open>processMsgpackSubdoc\<close>, the loop duplicates the name of a blob
  and, unless it is sent over rbus, the extended document without a test for NULL.\<close>

fun retry_params ::
  "apply_env \<Rightarrow> multipartdocs \<Rightarrow> nat option \<Rightarrow> nat \<Rightarrow> wparam list \<Rightarrow> apply_loop \<Rightarrow> 'z db_st_scheme \<Rightarrow>
   (req_param list \<times> apply_loop \<times> 'z db_st_scheme) option" where
  "retry_params env gmp docNode j [] L s = Some ([], L, s)"
| "retry_params env gmp docNode j (e # es) L s =
     (case (case wp_value e of
        None \<Rightarrow> Some (req_zero, L, s)
      | Some v \<Rightarrow>
          if wp_type e = ae_WDMP_BLOB env then
            (let direct = rbus_direct env (mp_name_space gmp) s
             in case webcfg_appendeddoc (ae_write env) (ae_b64 env) direct (mem_ok s) (mp_name_space gmp)
                     (mp_etag gmp) v (generateRandomId (ae_random env 0 j)) of
                  None \<Rightarrow> None
                | Some r \<Rightarrow>
                    (case (case (wp_name e, r) of
                        (None, _) \<Rightarrow> None
                      | (Some n, None) \<Rightarrow>
                          if direct then Some (\<lparr>rp_name = Some n, rp_value = None, rp_type = ae_WDMP_BASE64 env\<rparr>, L\<lparr>lp_buff := None\<rparr>)
                          else None
                      | (Some n, Some (doc, tid, sz)) \<Rightarrow>
                          Some (\<lparr>rp_name = Some n, rp_value = Some (if direct then doc else cstr doc), rp_type = ae_WDMP_BASE64 env\<rparr>,
                                L\<lparr>lp_doc_transId := tid, lp_sendMsgSize := sz, lp_buff := (if direct then Some doc else lp_buff L)\<rparr>)) of
                       None \<Rightarrow> None
                     | Some (p, L1) \<Rightarrow>
                         Some (p, L1, snd (updateTmpList docNode (mp_name_space gmp) (mp_etag gmp) ''pending''
                                             ''failed_retrying'' 0 (lp_doc_transId L1) 1 s))))
          else Some (\<lparr>rp_name = wp_name e, rp_value = Some (cstr v), rp_type = wp_type e\<rparr>, L, s)) of
       None \<Rightarrow> None
     | Some (p, L1, s1) \<Rightarrow>
         (case retry_params env gmp docNode (Suc j) es L1 s1 of
            None \<Rightarrow> None
          | Some (ps, L2, s2) \<Rightarrow> Some (p # ps, L2, s2)))"

text \<open>The applied document goes to the database, a complete primary sync takes \<open>root\<close> with it, and
  the lists are dropped when every document is applied.\<close>

definition store_applied :: "apply_env \<Rightarrow> nat \<Rightarrow> string \<Rightarrow> u32 \<Rightarrow> 'z db_st_scheme \<Rightarrow> 'z db_st_scheme option" where
  "store_applied env i name version s =
     (case (if tmp_isSupplementarySync (tmp_node i s) = 0 then
              (case checkDBList name version None s of
                 None \<Rightarrow> None
               | Some (_, s1) \<Rightarrow>
                   (case (if checkRootUpdate s1 = WEBCFG_SUCCESS then updateRootVersionToDB s1 else Some s1) of
                      None \<Rightarrow> None
                    | Some s2 \<Rightarrow>
                        Some (snd (addNewDocEntry (ae_write env) (ae_can_open env) (nat (success_doc_count s2)) s2))))
            else Some s) of
        None \<Rightarrow> None
      | Some s3 \<Rightarrow> Some (deleteRootAndMultipartDocs s3))"

definition retry_failure :: "apply_env \<Rightarrow> multipartdocs \<Rightarrow> nat \<Rightarrow> int \<Rightarrow> 'z db_st_scheme \<Rightarrow> 'z db_st_scheme" where
  "retry_failure env gmp i ccspStatus s =
     (let name = mp_name_space gmp; errDetails = ae_err_text env ccspStatus; code = (word_of_int ccspStatus :: u16)
      in if retry_status ccspStatus then
           (let result = fit 128 (''failed_retrying:'' @ errDetails);
                s1 = snd (updateTmpList (Some i) name (mp_etag gmp) ''pending'' result code 0 1 s);
                s2 = notify_doc gmp ''pending'' result (tmp_cloud_trans_id (tmp_node i s1)) code s1;
                expiry_time = getRetryExpiryTimeout (ae_now env);
                s3 = snd (updateFailureTimeStamp (Some i) name expiry_time (set_doc_fail 1 s2))
            in snd (updateRetryTimeDiff (ae_tz env) (ae_now env) expiry_time s3))
         else
           (let result = fit 128 (''doc_rejected:'' @ errDetails);
                s1 = snd (updateTmpList (Some i) name (mp_etag gmp) ''failed'' result code 0 0 s)
            in notify_doc gmp ''failed'' result (tmp_cloud_trans_id (tmp_node i s1)) code s1))"

text \<open>\<open>errno\<close> is kept in an \<open>uint16_t\<close>.\<close>

definition retry_document ::
  "apply_env \<Rightarrow> multipartdocs \<Rightarrow> nat \<Rightarrow> 'z db_st_scheme \<Rightarrow> (WEBCFG_STATUS \<times> 'z db_st_scheme) option" where
  "retry_document env gmp i s =
     (case webcfgparam_convert (mem_ok s) (ae_unpack env) (Some (mp_data gmp @ [ae_beyond env])) (ae_errno env) of
        (None, err) \<Rightarrow>
          (let (code, errmsg) = getStatusErrorCodeAndMessage DECODE_ROOT_FAILURE
           in Some (WEBCFG_FAILURE,
                doc_error gmp i (fit 128 (errmsg @ '':'' @ webcfgparam_strerror (unat (of_nat err :: u16)))) code False s))
      | (Some pm, err) \<Rightarrow>
          (case retry_params env gmp (Some i) 0 pm apply_loop0 s of
             None \<Rightarrow> None
           | Some (params, L, s1) \<Rightarrow>
               if validate_request_param params = WEBCFG_SUCCESS then
                 (case set_request_of env gmp params L s1 of
                    None \<Rightarrow> None
                  | Some req \<Rightarrow>
                      (let (ok, ccspStatus) = ae_set env 0 req
                       in if ok then
                            (case params of
                               [] \<Rightarrow> None
                             | p # _ \<Rightarrow>
                                 if rp_type p \<noteq> ae_WDMP_BASE64 env then
                                   (let s2 = snd (updateTmpList (Some i) (mp_name_space gmp) (mp_etag gmp) ''success'' ''none'' 0 0 0 s1);
                                        s3 = notify_doc gmp ''success'' ''none'' (tmp_cloud_trans_id (tmp_node i s2)) 0 s2
                                    in case store_applied env i (mp_name_space gmp) (mp_etag gmp) s3 of
                                         None \<Rightarrow> None | Some s4 \<Rightarrow> Some (WEBCFG_SUCCESS, s4))
                                 else Some (WEBCFG_SUCCESS, s1))
                          else Some (WEBCFG_FAILURE, retry_failure env gmp i ccspStatus s1)))
               else Some (WEBCFG_FAILURE, s1)))"

definition retryMultipartSubdoc ::
  "apply_env \<Rightarrow> nat option \<Rightarrow> string \<Rightarrow> 'z db_st_scheme \<Rightarrow> (WEBCFG_STATUS \<times> 'z db_st_scheme) option" where
  "retryMultipartSubdoc env docNode docName s =
     (if g_mp_head s = [] then Some (WEBCFG_FAILURE, s)
      else (case (checkAndUpdateTmpRetryCount docNode docName s, docNode) of
          ((WEBCFG_SUCCESS, s1), Some i) \<Rightarrow>
            (case find (\<lambda>gmp. mp_name_space gmp = docName) (g_mp_head s1) of
               None \<Rightarrow> Some (WEBCFG_FAILURE, s1)
             | Some gmp \<Rightarrow> retry_document env gmp i s1)
        | ((_, s1), _) \<Rightarrow> Some (WEBCFG_FAILURE, s1)))"

section \<open>Questions about a document\<close>

text \<open>\<open>None\<close>: the name of an entry is NULL.\<close>

fun db_version_walk :: "string \<Rightarrow> u32 \<Rightarrow> webconfig_db_data list \<Rightarrow> WEBCFG_STATUS option" where
  "db_version_walk docname version [] = Some WEBCFG_FAILURE"
| "db_version_walk docname version (n # ns) =
     (case db_name n of
        None \<Rightarrow> None
      | Some name \<Rightarrow>
          if docname = name \<and> db_version n = version then Some WEBCFG_SUCCESS
          else db_version_walk docname version ns)"

definition checkDBVersion :: "string \<Rightarrow> u32 \<Rightarrow> 'z db_st_scheme \<Rightarrow> WEBCFG_STATUS option" where
  "checkDBVersion docname version s = db_version_walk docname version (webcfgdb_data s)"

definition checkTmpNACKstatus :: "nat option \<Rightarrow> string \<Rightarrow> 'z db_st_scheme \<Rightarrow> bool" where
  "checkTmpNACKstatus temp docname s =
     (case temp of
        None \<Rightarrow> False
      | Some i \<Rightarrow> i < length (g_head s) \<and> docname = tmp_name (tmp_node i s)
          \<and> strncmp_eq (tmp_error_details (tmp_node i s)) ''NACK'' 4)"

text \<open>The value set on the connected-client parameter: the word behind the semicolon of the
  status (\<open>getConnClientParamName\<close> is outside the repository and taken to succeed).\<close>

definition handleConnectedClientNotify :: "string \<Rightarrow> 'z ev_st_scheme \<Rightarrow> 'z ev_st_scheme" where
  "handleConnectedClientNotify status s =
     (case strtok_all '';'' (take 31 status) of
        _ # apply_status # _ \<Rightarrow>
          if apply_status = ''enabled'' \<or> apply_status = ''disabled''
          then s\<lparr>clientRequests := clientRequests s @ [apply_status]\<rparr> else s
      | _ \<Rightarrow> s)"

definition cloud_id :: "nat option \<Rightarrow> 'z db_st_scheme \<Rightarrow> string" where
  "cloud_id node s = (case node of None \<Rightarrow> ''unknown'' | Some i \<Rightarrow> tmp_cloud_trans_id (tmp_node i s))"

definition sendSuccessNotification :: "nat option \<Rightarrow> string \<Rightarrow> u32 \<Rightarrow> u16 \<Rightarrow> 'z db_st_scheme \<Rightarrow> 'z db_st_scheme" where
  "sendSuccessNotification subdoc_node name version txid s =
     (let s1 = snd (updateTmpList subdoc_node name version ''success'' ''none'' 0 txid 0 s)
      in addWebConfgNotifyMsg (Some name) version (Some ''success'') (Some ''none'') (Some (cloud_id subdoc_node s1)) 0
           (Some ''status'') 0 None 200 s1)"

section \<open>One event\<close>

text \<open>After a failed retry the node is marked, unless its retries are used up.\<close>

definition retry_failed :: "nat option \<Rightarrow> string \<Rightarrow> u32 \<Rightarrow> 'z db_st_scheme \<Rightarrow> 'z db_st_scheme" where
  "retry_failed node d version s =
     (case node of
        None \<Rightarrow> s
      | Some i \<Rightarrow>
          if tmp_retry_count (tmp_node i s) < 3 then
            (let (err, errmsg) = getStatusErrorCodeAndMessage SUBDOC_RETRY_FAILED;
                 s1 = snd (updateTmpList node d version ''failed'' errmsg err (tmp_trans_id (tmp_node i s))
                             (tmp_retry_count (tmp_node i s)) s)
             in addWebConfgNotifyMsg (Some d) version (Some ''failed'') (Some errmsg) (Some (tmp_cloud_trans_id (tmp_node i s1)))
                  0 (Some ''status'') err None 200 s1)
          else s)"

definition retry_event :: "apply_env \<Rightarrow> nat option \<Rightarrow> string \<Rightarrow> u32 \<Rightarrow> 'z db_st_scheme \<Rightarrow> 'z db_st_scheme option" where
  "retry_event env node d version s =
     (if checkTmpNACKstatus node d s then Some s
      else (case retryMultipartSubdoc env node d s of
          None \<Rightarrow> None
        | Some (WEBCFG_SUCCESS, s1) \<Rightarrow> Some s1
        | Some (_, s1) \<Rightarrow> Some (retry_failed node d version s1)))"

text \<open>The event is about the current document: right transaction id and version.\<close>

definition event_current :: "event_params \<Rightarrow> string \<Rightarrow> nat option \<Rightarrow> 'z db_st_scheme \<Rightarrow> bool" where
  "event_current p d node s \<longleftrightarrow> validateEvent node (Some d) (ev_trans_id p) s = WEBCFG_SUCCESS
     \<and> getDocVersionFromTmpList node d s = ev_version p"

definition applied_event :: "apply_env \<Rightarrow> event_params \<Rightarrow> string \<Rightarrow> nat option \<Rightarrow> 'z ev_st_scheme \<Rightarrow> 'z ev_st_scheme option" where
  "applied_event env p d node s =
     (let s1 = sendSuccessNotification node d (ev_version p) (ev_trans_id p) s
      in case node of None \<Rightarrow> None | Some i \<Rightarrow> store_applied env i d (ev_version p) s1)"

definition ack_event ::
  "apply_env \<Rightarrow> event_params \<Rightarrow> string \<Rightarrow> string \<Rightarrow> nat option \<Rightarrow> nat option \<Rightarrow> 'z ev_st_scheme \<Rightarrow> 'z ev_st_scheme option" where
  "ack_event env p d status node timer s =
     (let s1 = (if d = ''mesh'' \<or> d = ''advsecurity'' then handleConnectedClientNotify status s else s)
      in if event_current p d node s1
         then applied_event env p d node (snd (stopWebcfgTimer timer d (ev_trans_id p) s1))
         else Some s1)"

definition nack_event ::
  "event_params \<Rightarrow> string \<Rightarrow> nat option \<Rightarrow> nat option \<Rightarrow> 'z ev_st_scheme \<Rightarrow> 'z ev_st_scheme" where
  "nack_event p d node timer s =
     (if event_current p d node s then
        (let s1 = snd (stopWebcfgTimer timer d (ev_trans_id p) s);
             err_details = fit 512 (''NACK:'' @ (case ev_process_name p of None \<Rightarrow> ''unknown'' | Some n \<Rightarrow> n) @ '','' @
                             (case ev_failure_reason p of None \<Rightarrow> ''unknown'' | Some r \<Rightarrow> r));
             s2 = snd (updateTmpList node d (ev_version p) ''failed'' err_details (ev_err_code p) (ev_trans_id p) 0 s1)
         in addWebConfgNotifyMsg (Some d) (ev_version p) (Some ''failed'') (Some err_details) (Some (cloud_id node s2))
              (ev_timeout p) (Some ''status'') (ev_err_code p) None 200 s2)
      else s)"

definition expire_event :: "apply_env \<Rightarrow> event_params \<Rightarrow> string \<Rightarrow> nat option \<Rightarrow> 'z ev_st_scheme \<Rightarrow> 'z ev_st_scheme option" where
  "expire_event env p d node s =
     (let docVersion = (if ev_version p \<noteq> 0 then ev_version p else getDocVersionFromTmpList node d s);
          s1 = (case node of
                  None \<Rightarrow> s
                | Some i \<Rightarrow> addWebConfgNotifyMsg (Some d) docVersion (Some ''pending'') (Some ''timer_expired'')
                    (Some (tmp_cloud_trans_id (tmp_node i s))) (ev_timeout p) (Some ''status'') 0 None 200 s)
      in retry_event env node d docVersion s1)"

definition timeout_event :: "event_params \<Rightarrow> string \<Rightarrow> nat option \<Rightarrow> nat option \<Rightarrow> 'z ev_st_scheme \<Rightarrow> 'z ev_st_scheme" where
  "timeout_event p d node timer s =
     (if event_current p d node s then
        (let s1 = snd (startWebcfgTimer timer d (ev_trans_id p) (ev_timeout p) s)
         in addWebConfgNotifyMsg (Some d) (ev_version p) (Some ''pending'') None (Some (cloud_id node s1)) (ev_timeout p)
              (Some ''ack'') 0 None 200 s1)
      else s)"

text \<open>Every event that is none of the others, \<open>COMP_INIT\<close> and the crash of a component alike.\<close>

definition restart_event :: "apply_env \<Rightarrow> event_params \<Rightarrow> string \<Rightarrow> nat option \<Rightarrow> 'z ev_st_scheme \<Rightarrow> 'z ev_st_scheme option" where
  "restart_event env p d node s =
     (let tmpVersion = getDocVersionFromTmpList node d s
      in case checkDBVersion d (ev_version p) s of
           None \<Rightarrow> None
         | Some st \<Rightarrow>
             if st \<noteq> WEBCFG_SUCCESS then
               (if tmpVersion = 0 then Some s
                else if tmpVersion \<noteq> ev_version p then retry_event env node d tmpVersion s
                else applied_event env p d node s)
             else if tmpVersion \<noteq> 0 \<and> tmpVersion \<noteq> ev_version p then retry_event env node d tmpVersion s
             else Some s)"

definition is_ack :: "string option \<Rightarrow> bool" where
  "is_ack status \<longleftrightarrow> status \<in> {Some ''ACK'', Some ''ACK;enabled'', Some ''ACK;disabled''}"

definition handle_event :: "apply_env \<Rightarrow> event_params \<Rightarrow> 'z ev_st_scheme \<Rightarrow> 'z ev_st_scheme option" where
  "handle_event env p s =
     (case ev_subdoc_name p of
        None \<Rightarrow> None
      | Some d \<Rightarrow>
          (let node = getTmpNode d s; timer = getTimerNode d s
           in if is_ack (ev_status p) \<and> ev_timeout p = 0 then ack_event env p d (the (ev_status p)) node timer s
              else if ev_status p = Some ''NACK'' \<and> ev_timeout p = 0 then Some (nack_event p d node timer s)
              else if ev_status p = Some ''EXPIRE'' then expire_event env p d node s
              else if ev_timeout p \<noteq> 0 then Some (timeout_event p d node timer s)
              else restart_event env p d node s))"

definition processSubdocEvent :: "apply_env \<Rightarrow> 'z ev_st_scheme \<Rightarrow> 'z ev_st_scheme option" where
  "processSubdocEvent env s =
     (case event_dequeue s of
        None \<Rightarrow> Some s
      | Some (Data, s1) \<Rightarrow>
          (case parseEventData (mem_ok s1) (Some Data) of
             Some p \<Rightarrow> handle_event env p s1
           | None \<Rightarrow>
               (let (err, errmsg) = getStatusErrorCodeAndMessage COMPONENT_EVENT_PARSE_FAILURE
                in Some (addWebConfgNotifyMsg None 0 (Some ''failed'') (Some errmsg) None 0 (Some ''status'') err None 200 s1))))"

section \<open>What the handlers keep\<close>

text \<open>The handlers of the list in progress and the database do not touch the queue and the timers,
  and leave the cached documents alone or drop them all.\<close>

definition ev_frame :: "'z db_st_scheme \<Rightarrow> 'z db_st_scheme \<Rightarrow> bool" where
  "ev_frame s s' \<longleftrightarrow> db_st.more s' = db_st.more s \<and> (g_mp_head s' = g_mp_head s \<or> g_mp_head s' = [])"

lemma ev_frame_refl [simp]: "ev_frame s s"
  by (simp add: ev_frame_def)

lemma ev_frame_trans: "ev_frame s s' \<Longrightarrow> ev_frame s' s'' \<Longrightarrow> ev_frame s s''"
  by (auto simp: ev_frame_def)

named_theorems evkeeps

lemma notify_ev [evkeeps]:
  "ev_frame s' (addWebConfgNotifyMsg a b c d e f g h i j s) = ev_frame s' s"
  "ev_frame s' (notify_doc mp a' b' c' d' s) = ev_frame s' s"
  by (simp_all add: ev_frame_def notify_doc_def addWebConfgNotifyMsg_def notify_enqueue_def)

lemma tmp_ev [evkeeps]:
  "ev_frame s' (snd (updateTmpList p d v st e ec ti r s)) = ev_frame s' s"
  "ev_frame s' (snd (updateFailureTimeStamp p d t s)) = ev_frame s' s"
  "ev_frame s' (doc_error mp i d2 ec2 b s) = ev_frame s' s"
  by (simp_all add: ev_frame_def updateTmpList_def updateFailureTimeStamp_def doc_error_def Let_def
      notify_doc_def addWebConfgNotifyMsg_def notify_enqueue_def split: option.splits)

lemma small_ev [evkeeps]:
  "ev_frame s' (set_doc_fail k s) = ev_frame s' s" "ev_frame s' (snd (updateRetryTimeDiff tz now e s)) = ev_frame s' s"
  "ev_frame s' (snd (addNewDocEntry w can n s)) = ev_frame s' s"
  by (simp_all add: ev_frame_def set_doc_fail_def updateRetryTimeDiff_def set_retry_timer_def set_global_retry_timestamp_def
      Let_def addNewDocEntry_def writeToDBFile_def split: option.splits)

lemma retry_count_ev [evkeeps]: "ev_frame s' (snd (checkAndUpdateTmpRetryCount p d s)) = ev_frame s' s"
  by (simp add: ev_frame_def checkAndUpdateTmpRetryCount_def addWebConfgNotifyMsg_def notify_enqueue_def updateTmpList_def
      Let_def split: option.splits)

lemma deleteRoot_ev [evkeeps]: "ev_frame s' s \<Longrightarrow> ev_frame s' (deleteRootAndMultipartDocs s)"
  by (auto simp: ev_frame_def deleteRootAndMultipartDocs_def delete_multipart_def delete_tmp_list_def reset_numOfMpDocs_def)

lemma checkDBList_ev: "checkDBList d v r s = Some (st, s') \<Longrightarrow> ev_frame s s'"
  by (auto simp: ev_frame_def checkDBList_def updateDBlist_def addToDBList_def
      split: option.splits prod.splits WEBCFG_STATUS.splits if_splits)

lemma updateRootVersionToDB_ev: "updateRootVersionToDB s = Some s' \<Longrightarrow> ev_frame s s'"
  using checkDBList_ev by (auto simp: updateRootVersionToDB_def Let_def evkeeps split: option.splits if_splits)

lemma store_applied_safe:
  assumes "apply_inv s"
  shows "\<exists>s'. store_applied env i name v s = Some s' \<and> apply_inv s' \<and> ev_frame s s'"
proof (cases "tmp_isSupplementarySync (tmp_node i s) = 0")
  case False
  with assms show ?thesis by (simp add: store_applied_def keeps evkeeps)
next
  case True
  obtain st s1 where 1: "checkDBList name v None s = Some (st, s1)" "apply_inv s1"
    using checkDBList_keeps [OF assms] by metis
  obtain s2 where 2: "(if checkRootUpdate s1 = WEBCFG_SUCCESS then updateRootVersionToDB s1 else Some s1) = Some s2"
    "apply_inv s2" "ev_frame s1 s2"
  proof (cases "checkRootUpdate s1 = WEBCFG_SUCCESS")
    case True
    obtain s2 where u: "updateRootVersionToDB s1 = Some s2" "apply_inv s2" by (rule updateRootVersionToDB_keeps [OF 1(2)])
    with True that updateRootVersionToDB_ev [OF u(1)] show thesis by simp
  qed (use that 1(2) in simp)
  have "ev_frame s s2" using checkDBList_ev [OF 1(1)] 2(3) by (rule ev_frame_trans)
  with True 1 2 show ?thesis by (simp add: store_applied_def keeps evkeeps)
qed

text \<open>A document whose retry is defined: what decodes has a parameter, and its blobs are named and
  can be extended.\<close>

definition retry_param_ok :: "apply_env \<Rightarrow> wparam \<Rightarrow> bool" where
  "retry_param_ok env e \<longleftrightarrow>
     (case wp_value e of None \<Rightarrow> True | Some v \<Rightarrow> wp_type e = ae_WDMP_BLOB env \<longrightarrow> blob_safe v \<and> wp_name e \<noteq> None)"

definition retry_safe :: "apply_env \<Rightarrow> multipartdocs \<Rightarrow> bool" where
  "retry_safe env mp \<longleftrightarrow>
     (case webcfgparam_convert True (ae_unpack env) (Some (mp_data mp @ [ae_beyond env])) (ae_errno env) of
        (None, _) \<Rightarrow> True
      | (Some pm, _) \<Rightarrow> pm \<noteq> [] \<and> list_all (retry_param_ok env) pm)"

lemma retry_params_safe:
  assumes "apply_inv s" "list_all (retry_param_ok env) es" "\<not> lp_stale L"
  shows "\<exists>ps L' s'. retry_params env gmp node j es L s = Some (ps, L', s') \<and> length ps = length es \<and> \<not> lp_stale L' \<and>
    apply_inv s' \<and> ev_frame s s'"
  using assms
proof (induction es arbitrary: j L s)
  case Nil
  then show ?case by simp
next
  case (Cons e es)
  have tail: "\<exists>ps L' s'. retry_params env gmp node j (e # es) L s = Some (ps, L', s') \<and> length ps = length (e # es) \<and>
      \<not> lp_stale L' \<and> apply_inv s' \<and> ev_frame s s'"
    if step: "retry_params env gmp node j (e # es) L s =
        (case retry_params env gmp node (Suc j) es L1 s1 of None \<Rightarrow> None | Some (ps, L2, s2) \<Rightarrow> Some (p # ps, L2, s2))"
      and inv: "apply_inv s1" "ev_frame s s1" "\<not> lp_stale L1" for p L1 s1
  proof -
    from Cons.prems(2) have "list_all (retry_param_ok env) es" by simp
    from Cons.IH [OF inv(1) this inv(3), of "Suc j"] obtain ps L' s' where r:
      "retry_params env gmp node (Suc j) es L1 s1 = Some (ps, L', s')" "length ps = length es" "\<not> lp_stale L'"
      "apply_inv s'" "ev_frame s1 s'" by (elim exE conjE) (rule that)
    have "ev_frame s s'" using inv(2) r(5) by (rule ev_frame_trans)
    with step r show ?thesis by (intro exI [of _ "p # ps"] exI [of _ L'] exI [of _ s']) simp
  qed
  show ?case
  proof (cases "wp_value e \<noteq> None \<and> wp_type e = ae_WDMP_BLOB env")
    case False
    show ?thesis
      by (rule tail [of "if wp_value e = None then req_zero
            else \<lparr>rp_name = wp_name e, rp_value = Some (cstr (the (wp_value e))), rp_type = wp_type e\<rparr>" L s])
        (use False Cons.prems(1,3) in \<open>auto split: option.splits\<close>)
  next
    case True
    then obtain v where v: "wp_value e = Some v" "wp_type e = ae_WDMP_BLOB env" by auto
    then obtain n where n: "blob_safe v" "wp_name e = Some n" using Cons.prems(2) by (auto simp: retry_param_ok_def)
    let ?direct = "rbus_direct env (mp_name_space gmp) s"
    obtain doc z where
      a: "webcfg_appendeddoc (ae_write env) (ae_b64 env) ?direct True (mp_name_space gmp) (mp_etag gmp) v
            (generateRandomId (ae_random env 0 j)) = Some (Some (doc, generateRandomId (ae_random env 0 j), z))"
      using webcfg_appendeddoc_safe [OF n(1)] by blast
    have mem: "mem_ok s" using Cons.prems(1) by (simp add: apply_inv_def)
    show ?thesis
      by (rule tail [of "\<lparr>rp_name = Some n, rp_value = Some (if ?direct then doc else cstr doc), rp_type = ae_WDMP_BASE64 env\<rparr>"
            "L\<lparr>lp_doc_transId := generateRandomId (ae_random env 0 j), lp_sendMsgSize := z,
                lp_buff := (if ?direct then Some doc else lp_buff L)\<rparr>"
            "snd (updateTmpList node (mp_name_space gmp) (mp_etag gmp) ''pending'' ''failed_retrying'' 0
                (generateRandomId (ae_random env 0 j)) 1 s)"])
        (use v n a mem Cons.prems(1,3) in \<open>simp_all add: keeps evkeeps Let_def\<close>)
  qed
qed

lemma retry_failure_keeps:
  "apply_inv s \<Longrightarrow> apply_inv (retry_failure env gmp i c s)" "ev_frame s' (retry_failure env gmp i c s) = ev_frame s' s"
  by (simp_all add: retry_failure_def Let_def keeps evkeeps)

lemma retry_document_safe:
  assumes "apply_inv s" "retry_safe env gmp"
  shows "\<exists>st s'. retry_document env gmp i s = Some (st, s') \<and> apply_inv s' \<and> ev_frame s s'"
proof -
  have mem: "mem_ok s" using assms(1) by (simp add: apply_inv_def)
  obtain r err where conv: "webcfgparam_convert True (ae_unpack env) (Some (mp_data gmp @ [ae_beyond env])) (ae_errno env) = (r, err)"
    by (metis surj_pair)
  show ?thesis
  proof (cases r)
    case None
    then show ?thesis using assms(1) conv mem
      by (simp add: retry_document_def split_beta keeps evkeeps)
  next
    case (Some pm)
    have pm: "pm \<noteq> []" "list_all (retry_param_ok env) pm" using assms(2) conv Some by (simp_all add: retry_safe_def)
    have "\<not> lp_stale apply_loop0" by (simp add: apply_loop0_def)
    from retry_params_safe [OF assms(1) pm(2) this, of gmp "Some i" 0] obtain ps L s1 where b:
      "retry_params env gmp (Some i) 0 pm apply_loop0 s = Some (ps, L, s1)" "length ps = length pm" "\<not> lp_stale L"
      "apply_inv s1" "ev_frame s s1" by (elim exE conjE) (rule that)
    obtain p ps' where ps: "ps = p # ps'" using b(2) pm(1) by (cases ps) auto
    obtain req where req: "set_request_of env gmp ps L s1 = Some req"
      using b(3) by (cases "rbus_direct env (mp_name_space gmp) s1") (auto simp: set_request_of_def)
    obtain ok ccsp where ok: "ae_set env 0 req = (ok, ccsp)" by (metis surj_pair)
    define s2 where "s2 = snd (updateTmpList (Some i) (mp_name_space gmp) (mp_etag gmp) ''success'' ''none'' 0 0 0 s1)"
    define s3 where "s3 = notify_doc gmp ''success'' ''none'' (tmp_cloud_trans_id (tmp_node i s2)) 0 s2"
    have s3: "apply_inv s3" "ev_frame s s3" using b(4,5) by (simp_all add: s2_def s3_def keeps evkeeps)
    obtain s4 where s4: "store_applied env i (mp_name_space gmp) (mp_etag gmp) s3 = Some s4" "apply_inv s4" "ev_frame s3 s4"
      using store_applied_safe [OF s3(1)] by metis
    have fr: "ev_frame s s4" using s3(2) s4(3) by (rule ev_frame_trans)
    have fail: "apply_inv (retry_failure env gmp i ccsp s1)" "ev_frame s (retry_failure env gmp i ccsp s1)"
      using b(4,5) by (simp_all add: retry_failure_keeps)
    have "retry_document env gmp i s =
      (if validate_request_param ps = WEBCFG_SUCCESS then
         if ok then (if rp_type p \<noteq> ae_WDMP_BASE64 env then Some (WEBCFG_SUCCESS, s4) else Some (WEBCFG_SUCCESS, s1))
         else Some (WEBCFG_FAILURE, retry_failure env gmp i ccsp s1)
       else Some (WEBCFG_FAILURE, s1))"
      unfolding retry_document_def ps
      by (simp add: mem conv Some b(1) [unfolded ps] req [unfolded ps] ok s2_def [symmetric] s3_def [symmetric] s4(1) Let_def)
    then show ?thesis using b(4,5) s4(2) fr fail by (cases ok) (simp_all split: if_splits)
  qed
qed

lemma retryMultipartSubdoc_safe:
  assumes "apply_inv s" "list_all (retry_safe env) (g_mp_head s)"
  shows "\<exists>st s'. retryMultipartSubdoc env node d s = Some (st, s') \<and> apply_inv s' \<and> ev_frame s s'"
proof (cases "g_mp_head s = []")
  case True
  with assms(1) show ?thesis by (simp add: retryMultipartSubdoc_def)
next
  case False
  obtain st s1 where c: "checkAndUpdateTmpRetryCount node d s = (st, s1)" by (metis surj_pair)
  have s1: "apply_inv s1" "ev_frame s s1" "same_docs s s1"
    using retry_count_keeps(1) [OF assms(1), of node d] retry_count_keeps(2) [OF assms(1), of s node d]
      retry_count_ev [of s node d s] c by simp_all
  have mps: "g_mp_head s1 = g_mp_head s" using s1(3) by (simp add: same_docs_def)
  show ?thesis
  proof (cases "st = WEBCFG_SUCCESS \<and> node \<noteq> None \<and> find (\<lambda>gmp. mp_name_space gmp = d) (g_mp_head s) \<noteq> None")
    case True
    then obtain i gmp where i: "st = WEBCFG_SUCCESS" "node = Some i" "find (\<lambda>gmp. mp_name_space gmp = d) (g_mp_head s) = Some gmp"
      by auto
    then have "retry_safe env gmp" using assms(2) by (auto simp: find_Some_iff list_all_iff)
    from retry_document_safe [OF s1(1) this, of i] obtain st' s' where r:
      "retry_document env gmp i s1 = Some (st', s')" "apply_inv s'" "ev_frame s1 s'" by blast
    have "ev_frame s s'" using s1(2) r(3) by (rule ev_frame_trans)
    with False c i mps r show ?thesis by (simp add: retryMultipartSubdoc_def)
  next
    case F: False
    have "retryMultipartSubdoc env node d s = Some (WEBCFG_FAILURE, s1)"
      using False F c mps by (cases st; cases node; cases "find (\<lambda>gmp. mp_name_space gmp = d) (g_mp_head s)")
        (simp_all add: retryMultipartSubdoc_def)
    with s1 show ?thesis by simp
  qed
qed

lemma retry_failed_keeps:
  "apply_inv s \<Longrightarrow> apply_inv (retry_failed node d v s)" "ev_frame s' (retry_failed node d v s) = ev_frame s' s"
  by (simp_all add: retry_failed_def Let_def keeps evkeeps split: option.split)

lemma retry_event_safe:
  assumes "apply_inv s" "list_all (retry_safe env) (g_mp_head s)"
  shows "\<exists>s'. retry_event env node d v s = Some s' \<and> apply_inv s' \<and> ev_frame s s'"
proof (cases "checkTmpNACKstatus node d s")
  case True
  with assms(1) show ?thesis by (simp add: retry_event_def)
next
  case False
  obtain st s1 where r: "retryMultipartSubdoc env node d s = Some (st, s1)" "apply_inv s1" "ev_frame s s1"
    using retryMultipartSubdoc_safe [OF assms] by metis
  with False show ?thesis by (cases st) (simp_all add: retry_event_def retry_failed_keeps)
qed

section \<open>The state between two events\<close>

definition ev_ok :: "apply_env \<Rightarrow> 'z ev_st_scheme \<Rightarrow> bool" where
  "ev_ok env s \<longleftrightarrow> apply_inv s \<and> timer_inv s \<and> list_all (retry_safe env) (g_mp_head s)"

lemma timer_inv_more:
  assumes "db_st.more s' = db_st.more s"
  shows "g_timer_head s' = g_timer_head s" "numOfEvents s' = numOfEvents s" "eventDataQ s' = eventDataQ s"
    "clientRequests s' = clientRequests s" "timer_inv s' = timer_inv s"
  using assms by (cases s; cases s'; simp add: timer_inv_def)+

lemma ev_ok_frame:
  assumes "ev_ok env s" "apply_inv s'" "ev_frame s s'"
  shows "ev_ok env s'"
  using assms timer_inv_more(5) [of s' s] by (auto simp: ev_ok_def ev_frame_def)

lemma timer_ops_keep:
  "ev_ok env s \<Longrightarrow> ev_ok env (snd (stopWebcfgTimer timer d tx s))"
  "ev_ok env s \<Longrightarrow> ev_ok env (snd (startWebcfgTimer (getTimerNode d s) d tx to s))"
  "ev_ok env s \<Longrightarrow> ev_ok env (handleConnectedClientNotify status s)"
proof -
  have timer: "apply_inv (s\<lparr>g_timer_head := h, numOfEvents := n\<rparr>) = apply_inv s" "apply_inv (s\<lparr>g_timer_head := h\<rparr>) = apply_inv s"
    for h n by (simp_all add: apply_inv_def tmp_inv_def db_inv_def)
  show "ev_ok env s \<Longrightarrow> ev_ok env (snd (stopWebcfgTimer timer d tx s))"
    using stopWebcfgTimer_inv [of s timer d tx]
    by (auto simp: ev_ok_def stopWebcfgTimer_def deleteFromTimerList_def timer split: option.splits)
  show "ev_ok env s \<Longrightarrow> ev_ok env (snd (startWebcfgTimer (getTimerNode d s) d tx to s))"
    using startWebcfgTimer_inv [of s d tx to]
    by (auto simp: ev_ok_def startWebcfgTimer_def updateTimerList_def timer split: option.splits)
  show "ev_ok env s \<Longrightarrow> ev_ok env (handleConnectedClientNotify status s)"
    by (auto simp: ev_ok_def handleConnectedClientNotify_def apply_inv_def tmp_inv_def db_inv_def timer_inv_def
        split: list.split)
qed

lemma sendSuccessNotification_keeps:
  "apply_inv s \<Longrightarrow> apply_inv (sendSuccessNotification node d v tx s)"
  "ev_frame s' (sendSuccessNotification node d v tx s) = ev_frame s' s"
  by (simp_all add: sendSuccessNotification_def Let_def keeps evkeeps)

lemma applied_event_safe:
  assumes "ev_ok env s"
  shows "\<exists>s'. applied_event env p d (Some i) s = Some s' \<and> ev_ok env s'"
proof -
  let ?s1 = "sendSuccessNotification (Some i) d (ev_version p) (ev_trans_id p) s"
  have "apply_inv ?s1" "ev_frame s ?s1" using assms by (simp_all add: ev_ok_def sendSuccessNotification_keeps)
  moreover from store_applied_safe [OF this(1)] obtain s' where "store_applied env i d (ev_version p) ?s1 = Some s'"
    "apply_inv s'" "ev_frame ?s1 s'" by blast
  ultimately show ?thesis using ev_ok_frame [OF assms] ev_frame_trans by (simp add: applied_event_def) blast
qed

lemma event_current_node: "event_current p d node s \<Longrightarrow> \<exists>i. node = Some i"
  by (cases node) (auto simp: event_current_def validateEvent_def)

lemma ack_event_safe:
  assumes "ev_ok env s"
  shows "\<exists>s'. ack_event env p d status node timer s = Some s' \<and> ev_ok env s'"
proof -
  define s1 where "s1 = (if d = ''mesh'' \<or> d = ''advsecurity'' then handleConnectedClientNotify status s else s)"
  have s1: "ev_ok env s1" using assms by (simp add: s1_def timer_ops_keep)
  show ?thesis
  proof (cases "event_current p d node s1")
    case True
    then obtain i where "node = Some i" using event_current_node by blast
    with True applied_event_safe [OF timer_ops_keep(1) [OF s1], of p d i timer d "ev_trans_id p"] show ?thesis
      by (simp add: ack_event_def s1_def [symmetric])
  qed (use s1 in \<open>simp add: ack_event_def s1_def [symmetric]\<close>)
qed

lemma ev_ok_simple:
  "ev_ok env s \<Longrightarrow> ev_ok env (addWebConfgNotifyMsg a b c d' e f g h i j s)"
  "ev_ok env s \<Longrightarrow> ev_ok env (snd (updateTmpList p' d v st er ec ti r s))"
proof -
  assume ok: "ev_ok env s"
  then show "ev_ok env (addWebConfgNotifyMsg a b c d' e f g h i j s)"
    by (intro ev_ok_frame [OF ok]) (simp_all add: ev_ok_def keeps evkeeps)
  show "ev_ok env (snd (updateTmpList p' d v st er ec ti r s))"
    using ok by (intro ev_ok_frame [OF ok]) (simp_all add: ev_ok_def keeps evkeeps)
qed

lemma nack_event_safe: "ev_ok env s \<Longrightarrow> ev_ok env (nack_event p d node timer s)"
  by (simp add: nack_event_def Let_def ev_ok_simple timer_ops_keep)

lemma timeout_event_safe: "ev_ok env s \<Longrightarrow> ev_ok env (timeout_event p d node (getTimerNode d s) s)"
  by (simp add: timeout_event_def Let_def ev_ok_simple timer_ops_keep)

lemma retry_event_ok:
  assumes "ev_ok env s"
  shows "\<exists>s'. retry_event env node d v s = Some s' \<and> ev_ok env s'"
proof -
  from assms have "apply_inv s" "list_all (retry_safe env) (g_mp_head s)" by (simp_all add: ev_ok_def)
  from retry_event_safe [OF this, of node d v] show ?thesis using ev_ok_frame [OF assms] by blast
qed

lemma expire_event_safe:
  assumes "ev_ok env s"
  shows "\<exists>s'. expire_event env p d node s = Some s' \<and> ev_ok env s'"
  unfolding expire_event_def Let_def
  by (rule retry_event_ok, rule ev_ok_frame [OF assms])
    (use assms in \<open>auto simp: ev_ok_def keeps evkeeps split: option.split\<close>)

lemma db_version_walk_defined:
  "None \<notin> set (db_names ns) \<Longrightarrow> \<exists>st. db_version_walk d v ns = Some st"
  by (induction ns) (auto simp: db_names_def split: option.split)

lemma restart_event_safe:
  assumes "ev_ok env s"
  shows "\<exists>s'. restart_event env p d node s = Some s' \<and> ev_ok env s'"
proof -
  have "None \<notin> set (db_names (webcfgdb_data s))" using assms by (simp add: ev_ok_def apply_inv_def db_inv_def)
  then obtain st where st: "checkDBVersion d (ev_version p) s = Some st"
    using db_version_walk_defined [of "webcfgdb_data s" d "ev_version p"] by (auto simp: checkDBVersion_def)
  have applied: "\<exists>s'. applied_event env p d node s = Some s' \<and> ev_ok env s'" if "getDocVersionFromTmpList node d s \<noteq> 0"
  proof -
    from that obtain i where "node = Some i" by (cases node) (auto simp: getDocVersionFromTmpList_def)
    with applied_event_safe [OF assms] show ?thesis by simp
  qed
  show ?thesis
    using st assms applied retry_event_ok [OF assms, of node d "getDocVersionFromTmpList node d s"]
    by (auto simp: restart_event_def Let_def)
qed

lemma handle_event_safe:
  assumes "ev_ok env s" "ev_subdoc_name p \<noteq> None"
  shows "\<exists>s'. handle_event env p s = Some s' \<and> ev_ok env s'"
proof -
  obtain d where "ev_subdoc_name p = Some d" using assms(2) by auto
  then show ?thesis
    using ack_event_safe [OF assms(1)] expire_event_safe [OF assms(1)] restart_event_safe [OF assms(1)]
      nack_event_safe [OF assms(1)] timeout_event_safe [OF assms(1)]
    by (simp add: handle_event_def Let_def)
qed

section \<open>What an acknowledgement records\<close>

lemma updateRootVersionToDB_db:
  assumes "apply_inv s" "updateRootVersionToDB s = Some s'" "e \<noteq> ''root''"
  shows "db_map (webcfgdb_data s') e = db_map (webcfgdb_data s) e" "notifyMsgQ s' = notifyMsgQ s"
proof -
  obtain st s1 where c: "checkDBList ''root'' (get_global_root s) None s = Some (st, s1)"
    "db_map (webcfgdb_data s1) = db_update ''root'' (get_global_root s) None (db_map (webcfgdb_data s))"
    using checkDBList_keeps [OF assms(1)] by metis
  have n: "notifyMsgQ s1 = notifyMsgQ s"
    using c(1) by (auto simp: checkDBList_def updateDBlist_def addToDBList_def
        split: option.splits prod.splits WEBCFG_STATUS.splits if_splits)
  have d: "webcfgdb_data (snd (updateTmpList p d v st e ec ti r t)) = webcfgdb_data t"
    "notifyMsgQ (snd (updateTmpList p d v st e ec ti r t)) = notifyMsgQ t" for p d v st e ec ti r and t :: "'a db_st_scheme"
    by (simp_all add: updateTmpList_def split: option.split)
  show "db_map (webcfgdb_data s') e = db_map (webcfgdb_data s) e" "notifyMsgQ s' = notifyMsgQ s"
    using assms(2,3) c n by (auto simp: updateRootVersionToDB_def Let_def d db_update_def split: if_splits)
qed

lemma store_applied_db:
  assumes "apply_inv s" "store_applied env i name v s = Some s'" "tmp_isSupplementarySync (tmp_node i s) = 0" "e \<noteq> ''root''"
  shows "db_map (webcfgdb_data s') e = db_update name v None (db_map (webcfgdb_data s)) e" "notifyMsgQ s' = notifyMsgQ s"
proof -
  obtain st s1 where c: "checkDBList name v None s = Some (st, s1)" "apply_inv s1"
    "db_map (webcfgdb_data s1) = db_update name v None (db_map (webcfgdb_data s))"
    using checkDBList_keeps [OF assms(1)] by metis
  have n: "notifyMsgQ s1 = notifyMsgQ s"
    using c(1) by (auto simp: checkDBList_def updateDBlist_def addToDBList_def
        split: option.splits prod.splits WEBCFG_STATUS.splits if_splits)
  obtain s2 where s2: "(if checkRootUpdate s1 = WEBCFG_SUCCESS then updateRootVersionToDB s1 else Some s1) = Some s2"
    using assms(2,3) c(1) by (cases "if checkRootUpdate s1 = WEBCFG_SUCCESS then updateRootVersionToDB s1 else Some s1")
      (simp_all add: store_applied_def)
  have e: "db_map (webcfgdb_data s2) e = db_map (webcfgdb_data s1) e" "notifyMsgQ s2 = notifyMsgQ s1"
    using s2 updateRootVersionToDB_db [OF c(2) _ assms(4)] by (auto split: if_splits)
  have s': "s' = deleteRootAndMultipartDocs (snd (addNewDocEntry (ae_write env) (ae_can_open env) (nat (success_doc_count s2)) s2))"
    using assms(2,3) c(1) s2 by (simp add: store_applied_def)
  have "webcfgdb_data (deleteRootAndMultipartDocs t) = webcfgdb_data t" "notifyMsgQ (deleteRootAndMultipartDocs t) = notifyMsgQ t"
    for t :: "'a db_st_scheme"
    by (simp_all add: deleteRootAndMultipartDocs_def delete_multipart_def delete_tmp_list_def reset_numOfMpDocs_def)
  moreover have "notifyMsgQ (snd (addNewDocEntry w b k t)) = notifyMsgQ t" for w b k and t :: "'a db_st_scheme"
    by (simp add: addNewDocEntry_def writeToDBFile_def split: option.split)
  moreover have "webcfgdb_data (snd (addNewDocEntry w b k t)) = webcfgdb_data t" for w b k and t :: "'a db_st_scheme"
    by (simp add: addNewDocEntry_def writeToDBFile_def split: option.split)
  ultimately show "db_map (webcfgdb_data s') e = db_update name v None (db_map (webcfgdb_data s)) e" "notifyMsgQ s' = notifyMsgQ s"
    using s' e n c(3) by simp_all
qed

text \<open>The document of an event and its node.\<close>

definition pending_event :: "event_params \<Rightarrow> string \<Rightarrow> 'z ev_st_scheme \<Rightarrow> bool" where
  "pending_event p d s \<longleftrightarrow> ev_subdoc_name p = Some d \<and>
     (case tmp_lookup d s of
        None \<Rightarrow> False
      | Some t \<Rightarrow> tmp_trans_id t = ev_trans_id p \<and> tmp_version t = ev_version p)"

lemma tmp_node_found:
  assumes "getTmpNode d s = Some i"
  shows "i < length (g_head s)" "tmp_name (g_head s ! i) = d" "tmp_lookup d s = Some (g_head s ! i)"
proof -
  have "find_idx (\<lambda>t. tmp_name t = d) (g_head s) = Some i"
    using assms by (simp add: getTmpNode_def tmp_search_find_idx)
  then show "i < length (g_head s)" "tmp_name (g_head s ! i) = d" by (auto simp: find_idx_Some)
  show "tmp_lookup d s = Some (g_head s ! i)"
    using tl.lookup_find [of "g_head s" d] assms by (simp add: tmp_lookup_def getTmpNode_def)
qed

lemma getTmpNode_lookup: "getTmpNode d s = None \<longleftrightarrow> tmp_lookup d s = None"
  using tl.lookup_find [of "g_head s" d] by (simp add: getTmpNode_def tmp_lookup_def flip: tl.lookup_find)

lemma event_current_pending:
  "ev_subdoc_name p = Some d \<Longrightarrow> event_current p d (getTmpNode d s) s \<longleftrightarrow> pending_event p d s"
  using tmp_node_found [of d s] getTmpNode_lookup [of d s]
  by (cases "getTmpNode d s")
    (auto simp: event_current_def pending_event_def validateEvent_def getDocVersionFromTmpList_def tmp_node_def
      split: if_splits)

lemma ack_applied:
  assumes "ev_ok env s" "pending_event p d s" "is_ack (ev_status p)" "ev_timeout p = 0"
    "tmp_lookup d s = Some t" "tmp_isSupplementarySync t = 0" "d \<notin> {''root'', ''mesh'', ''advsecurity''}"
  shows "\<exists>s' r. handle_event env p s = Some s' \<and> ev_ok env s' \<and> db_map (webcfgdb_data s') d = Some (ev_version p, r) \<and>
    (\<forall>e. e \<notin> {d, ''root''} \<longrightarrow> db_map (webcfgdb_data s') e = db_map (webcfgdb_data s) e) \<and>
    notifyMsgQ s' = notifyMsgQ s @ [notify_msg (Some d) (ev_version p) (Some ''success'') (Some ''none'')
      (Some (tmp_cloud_trans_id t)) 0 (Some ''status'') 0 None 200] \<and>
    timer_lookup d s' = (case timer_lookup d s of None \<Rightarrow> None
      | Some x \<Rightarrow> if et_running x \<and> et_txid x = ev_trans_id p then None else Some x)"
proof -
  have name: "ev_subdoc_name p = Some d" using assms(2) by (simp add: pending_event_def)
  obtain i where i: "getTmpNode d s = Some i" using getTmpNode_lookup [of d s] assms(5) by (cases "getTmpNode d s") auto
  note n = tmp_node_found [OF i]
  then have t: "t = g_head s ! i" using assms(5) by simp
  have cur: "event_current p d (Some i) s" using event_current_pending [OF name, of s] i assms(2) by simp
  have mem: "mem_ok s" using assms(1) by (simp add: ev_ok_def apply_inv_def)
  define s1 where "s1 = snd (stopWebcfgTimer (getTimerNode d s) d (ev_trans_id p) s)"
  have ok1: "ev_ok env s1" unfolding s1_def by (rule timer_ops_keep(1) [OF assms(1)])
  have s1: "g_head s1 = g_head s" "webcfgdb_data s1 = webcfgdb_data s" "notifyMsgQ s1 = notifyMsgQ s" "mem_ok s1 = mem_ok s"
    by (simp_all add: s1_def stopWebcfgTimer_eq)
  define s2 where "s2 = sendSuccessNotification (Some i) d (ev_version p) (ev_trans_id p) s1"
  have s2: "apply_inv s2" "ev_frame s1 s2" using ok1 by (simp_all add: ev_ok_def s2_def sendSuccessNotification_keeps)
  have h2: "tmp_isSupplementarySync (tmp_node i s2) = 0" "webcfgdb_data s2 = webcfgdb_data s"
    "notifyMsgQ s2 = notifyMsgQ s @ [notify_msg (Some d) (ev_version p) (Some ''success'') (Some ''none'')
      (Some (tmp_cloud_trans_id t)) 0 (Some ''status'') 0 None 200]"
    using n s1 t assms(6) mem
    by (simp_all add: s2_def sendSuccessNotification_def Let_def cloud_id_def tmp_node_def updateTmpList_def
        addWebConfgNotifyMsg_def notify_enqueue_def upd_at_nth tmp_update_def)
  obtain s3 where s3: "store_applied env i d (ev_version p) s2 = Some s3" "apply_inv s3" "ev_frame s2 s3"
    using store_applied_safe [OF s2(1)] by metis
  have fr: "ev_frame s1 s3" using s2(2) s3(3) by (rule ev_frame_trans)
  have "handle_event env p s = Some s3"
    using name assms(3,4,7) cur i s3(1)
    by (simp add: handle_event_def Let_def ack_event_def applied_event_def s1_def [symmetric] s2_def [symmetric])
  moreover have "ev_ok env s3" by (rule ev_ok_frame [OF ok1 s3(2) fr])
  moreover have "db_map (webcfgdb_data s3) e = db_update d (ev_version p) None (db_map (webcfgdb_data s)) e"
    if "e \<noteq> ''root''" for e using store_applied_db(1) [OF s2(1) s3(1) h2(1) that] h2(2) by simp
  moreover have "notifyMsgQ s3 = notifyMsgQ s2" using store_applied_db(2) [OF s2(1) s3(1) h2(1), of "''x''"] by simp
  moreover have "g_timer_head s3 = g_timer_head s1" using fr timer_inv_more(1) [of s3 s1] by (simp add: ev_frame_def)
  moreover have "timer_lookup d s1 = (case timer_lookup d s of None \<Rightarrow> None
      | Some x \<Rightarrow> if et_running x \<and> et_txid x = ev_trans_id p then None else Some x)"
  proof -
    have "distinct (map et_subdoc_name (g_timer_head s))" using assms(1) by (simp add: ev_ok_def timer_inv_def)
    from et.find_del [OF this, of d d] show ?thesis
      by (auto simp: s1_def stopWebcfgTimer_eq timer_lookup_def split: option.split)
  qed
  ultimately show ?thesis using h2(3) assms(7)
    by (intro exI [of _ s3]) (auto simp: timer_lookup_def db_update_def)
qed

section \<open>A retry that fails again\<close>

lemma retry_params_plain:
  assumes "list_all (\<lambda>e. wp_value e \<noteq> None \<and> wp_type e \<noteq> ae_WDMP_BLOB env \<and> wp_type e \<noteq> ae_WDMP_BASE64 env) es"
  shows "retry_params env gmp node j es L s = Some (map plain_req es, L, s)"
  using assms by (induction es arbitrary: j) (auto simp: plain_req_def)

lemma plain_docE:
  assumes "plain_doc env mp"
  obtains p ps e where "webcfgparam_convert True (ae_unpack env) (Some (mp_data mp @ [ae_beyond env])) (ae_errno env) = (Some (p # ps), e)"
    "list_all (\<lambda>e. wp_value e \<noteq> None \<and> wp_type e \<noteq> ae_WDMP_BLOB env \<and> wp_type e \<noteq> ae_WDMP_BASE64 env) (p # ps)"
    "validate_request_param (map plain_req (p # ps)) = WEBCFG_SUCCESS"
proof -
  from assms obtain pm e where "webcfgparam_convert True (ae_unpack env) (Some (mp_data mp @ [ae_beyond env])) (ae_errno env) = (Some pm, e)"
    "pm \<noteq> []" "list_all (\<lambda>e. wp_value e \<noteq> None \<and> wp_type e \<noteq> ae_WDMP_BLOB env \<and> wp_type e \<noteq> ae_WDMP_BASE64 env) pm"
    "validate_request_param (map plain_req pm) = WEBCFG_SUCCESS"
    by (auto simp: plain_doc_def split: prod.splits option.splits)
  with that show thesis by (cases pm) auto
qed

lemma plain_request:
  assumes "\<not> lp_stale L"
  obtains req where "set_request_of env gmp params L s = Some req"
  using assms by (cases "rbus_direct env (mp_name_space gmp) s") (auto simp: set_request_of_def)

lemma retry_document_refused:
  assumes "mem_ok s" "plain_doc env gmp" "\<forall>r. ae_set env 0 r = (False, c)"
  shows "retry_document env gmp i s = Some (WEBCFG_FAILURE, retry_failure env gmp i c s)"
proof -
  obtain p ps e where d: "webcfgparam_convert True (ae_unpack env) (Some (mp_data gmp @ [ae_beyond env])) (ae_errno env) = (Some (p # ps), e)"
    "list_all (\<lambda>e. wp_value e \<noteq> None \<and> wp_type e \<noteq> ae_WDMP_BLOB env \<and> wp_type e \<noteq> ae_WDMP_BASE64 env) (p # ps)"
    "validate_request_param (map plain_req (p # ps)) = WEBCFG_SUCCESS" by (rule plain_docE [OF assms(2)])
  have "\<not> lp_stale apply_loop0" by (simp add: apply_loop0_def)
  then obtain req where "set_request_of env gmp (map plain_req (p # ps)) apply_loop0 s = Some req"
    by (rule plain_request)
  then show ?thesis
    using assms(1,3) d by (simp only: retry_document_def d(1) option.case prod.case retry_params_plain [OF d(2)] if_True Let_def if_False)
      simp
qed

lemma retry_document_accepted:
  assumes "mem_ok s" "plain_doc env gmp" "\<forall>r. fst (ae_set env 0 r)"
  shows "retry_document env gmp i s =
    (let s2 = snd (updateTmpList (Some i) (mp_name_space gmp) (mp_etag gmp) ''success'' ''none'' 0 0 0 s)
     in case store_applied env i (mp_name_space gmp) (mp_etag gmp)
            (notify_doc gmp ''success'' ''none'' (tmp_cloud_trans_id (tmp_node i s2)) 0 s2) of
          None \<Rightarrow> None | Some s4 \<Rightarrow> Some (WEBCFG_SUCCESS, s4))"
proof -
  obtain p ps e where d: "webcfgparam_convert True (ae_unpack env) (Some (mp_data gmp @ [ae_beyond env])) (ae_errno env) = (Some (p # ps), e)"
    "list_all (\<lambda>e. wp_value e \<noteq> None \<and> wp_type e \<noteq> ae_WDMP_BLOB env \<and> wp_type e \<noteq> ae_WDMP_BASE64 env) (p # ps)"
    "validate_request_param (map plain_req (p # ps)) = WEBCFG_SUCCESS" by (rule plain_docE [OF assms(2)])
  have "\<not> lp_stale apply_loop0" by (simp add: apply_loop0_def)
  then obtain req where req: "set_request_of env gmp (map plain_req (p # ps)) apply_loop0 s = Some req"
    by (rule plain_request)
  obtain ccsp where ok: "ae_set env 0 req = (True, ccsp)" using assms(3) by (metis prod.collapse)
  have "rp_type (plain_req p) \<noteq> ae_WDMP_BASE64 env" using d(2) by (simp add: plain_req_def)
  then show ?thesis
    using assms(1) d(3) req ok
    by (simp only: retry_document_def d(1) option.case prod.case retry_params_plain [OF d(2)] if_True Let_def list.map list.case)
      simp
qed

lemma retry_failure_node:
  assumes "i < length (g_head s)" "tmp_name (g_head s ! i) = mp_name_space gmp" "retry_status c"
  shows "length (g_head (retry_failure env gmp i c s)) = length (g_head s)"
    "tmp_name (g_head (retry_failure env gmp i c s) ! i) = tmp_name (g_head s ! i)"
    "tmp_retry_count (g_head (retry_failure env gmp i c s) ! i) = tmp_retry_count (g_head s ! i)"
    "doc_fail_flag (retry_failure env gmp i c s) = 1"
  using assms
  by (simp_all add: retry_failure_def Let_def updateTmpList_def notify_doc_def addWebConfgNotifyMsg_def notify_enqueue_def
      set_doc_fail_def updateFailureTimeStamp_def updateRetryTimeDiff_def set_retry_timer_def set_global_retry_timestamp_def
      upd_at_nth tmp_update_def)

lemma retry_failed_node:
  assumes "i < length (g_head s)" "tmp_name (g_head s ! i) = d" "tmp_retry_count (g_head s ! i) < 3"
  shows "length (g_head (retry_failed (Some i) d v s)) = length (g_head s)"
    "tmp_status (g_head (retry_failed (Some i) d v s) ! i) = ''failed''"
    "tmp_error_code (g_head (retry_failed (Some i) d v s) ! i) = 611"
    "tmp_error_details (g_head (retry_failed (Some i) d v s) ! i) = ''subdoc_retry_failed''"
    "doc_fail_flag (retry_failed (Some i) d v s) = doc_fail_flag s"
  using assms
  by (simp_all add: retry_failed_def tmp_node_def updateTmpList_def addWebConfgNotifyMsg_def notify_enqueue_def Let_def
      upd_at_nth tmp_update_def)

section \<open>Properties\<close>



text \<open>C3: an \<open>ACK\<close> with the transaction id and version of the document in progress stores this
  version of a primary document in the database and, \<open>root\<close> apart, nothing else, queues exactly
  one success notification with the document's cloud transaction id, and stops the timer of
  the same transaction.\<close>

theorem ack_records_version:
  assumes "ev_ok env s" "pending_event p d s" "is_ack (ev_status p)" "ev_timeout p = 0"
    "tmp_lookup d s = Some t" "tmp_isSupplementarySync t = 0" "d \<notin> {''root'', ''mesh'', ''advsecurity''}"
  shows "\<exists>s' r. handle_event env p s = Some s' \<and> ev_ok env s' \<and> db_map (webcfgdb_data s') d = Some (ev_version p, r) \<and>
    (\<forall>e. e \<notin> {d, ''root''} \<longrightarrow> db_map (webcfgdb_data s') e = db_map (webcfgdb_data s) e) \<and>
    notifyMsgQ s' = notifyMsgQ s @ [notify_msg (Some d) (ev_version p) (Some ''success'') (Some ''none'')
      (Some (tmp_cloud_trans_id t)) 0 (Some ''status'') 0 None 200] \<and>
    timer_lookup d s' = (case timer_lookup d s of None \<Rightarrow> None
      | Some x \<Rightarrow> if et_running x \<and> et_txid x = ev_trans_id p then None else Some x)"
  using assms by (rule ack_applied)

definition demo_event :: "string \<Rightarrow> u16 \<Rightarrow> u32 \<Rightarrow> event_params" where
  "demo_event status txid version = \<lparr>ev_subdoc_name = Some ''wan'', ev_trans_id = txid, ev_version = version,
     ev_status = Some status, ev_timeout = 0, ev_process_name = None, ev_err_code = 0, ev_failure_reason = None\<rparr>"

definition demo_ev_st :: ev_st where
  "demo_ev_st = ev_st0\<lparr>g_mp_head := [wan_doc], g_head := [root_node, wan_node\<lparr>tmp_status := ''pending'', tmp_trans_id := 7\<rparr>],
     numOfMpDocs := 2\<rparr>"

lemma demo_ev_ok: "retry_safe env wan_doc \<Longrightarrow> ev_ok env demo_ev_st"
  by (simp add: demo_ev_st_def ev_ok_def apply_inv_def tmp_inv_def db_inv_def db_names_def timer_inv_def)

lemma demo_retry_safe: "retry_safe demo_env mp"
  unfolding retry_safe_def demo_convert by (simp add: retry_param_ok_def demo_env_def)

lemma demo_ev_lookup: "tmp_lookup ''wan'' demo_ev_st = Some (wan_node\<lparr>tmp_status := ''pending'', tmp_trans_id := 7\<rparr>)"
  by (simp add: tmp_lookup_def demo_ev_st_def)

theorem ack_records_version_witness:
  "\<exists>s' r. handle_event demo_env (demo_event ''ACK'' 7 5) demo_ev_st = Some s' \<and> db_map (webcfgdb_data s') ''wan'' = Some (5, r)"
proof -
  let ?t = "wan_node\<lparr>tmp_status := ''pending'', tmp_trans_id := 7\<rparr>"
  have ok: "ev_ok demo_env demo_ev_st" by (rule demo_ev_ok [OF demo_retry_safe])
  have pend: "pending_event (demo_event ''ACK'' 7 5) ''wan'' demo_ev_st"
    by (simp add: pending_event_def demo_ev_lookup demo_event_def)
  have ack: "is_ack (ev_status (demo_event ''ACK'' 7 5))" "ev_timeout (demo_event ''ACK'' 7 5) = 0"
    by (simp_all add: demo_event_def is_ack_def)
  have "tmp_isSupplementarySync ?t = 0" "''wan'' \<notin> {''root'', ''mesh'', ''advsecurity''}" by simp_all
  from ack_records_version [OF ok pend ack demo_ev_lookup this] obtain s' r where
    "handle_event demo_env (demo_event ''ACK'' 7 5) demo_ev_st = Some s'"
    "db_map (webcfgdb_data s') ''wan'' = Some (ev_version (demo_event ''ACK'' 7 5), r)"
    by (elim exE conjE) (rule that)
  then show ?thesis by (simp add: demo_event_def)
qed

text \<open>An \<open>ACK\<close>, \<open>NACK\<close> or timeout event with another transaction id or version than the
  document in progress, or for a document that is not in progress, changes nothing (for
  documents other than the two that drive the connected-client notification).\<close>

theorem stale_event_ignored:
  assumes "ev_subdoc_name p = Some d" "\<not> pending_event p d s" "d \<notin> {''mesh'', ''advsecurity''}" "ev_status p \<noteq> Some ''EXPIRE''"
    and "is_ack (ev_status p) \<or> ev_status p = Some ''NACK'' \<or> ev_timeout p \<noteq> 0"
  shows "handle_event env p s = Some s"
  using assms event_current_pending [OF assms(1), of s]
  by (auto simp: handle_event_def Let_def ack_event_def nack_event_def timeout_event_def)

theorem stale_event_ignored_witness:
  "handle_event demo_env (demo_event ''ACK'' 8 5) demo_ev_st = Some demo_ev_st"
proof (rule stale_event_ignored)
  show "ev_subdoc_name (demo_event ''ACK'' 8 5) = Some ''wan''" by (simp add: demo_event_def)
  show "\<not> pending_event (demo_event ''ACK'' 8 5) ''wan'' demo_ev_st"
    by (simp add: pending_event_def demo_ev_lookup demo_event_def)
qed (simp_all add: demo_event_def is_ack_def)

text \<open>The events of a run, each with what the component answers at that time.\<close>

fun handle_events :: "(apply_env \<times> event_params) list \<Rightarrow> 'z ev_st_scheme \<Rightarrow> 'z ev_st_scheme option" where
  "handle_events [] s = Some s"
| "handle_events ((env, p) # ps) s = (case handle_event env p s of None \<Rightarrow> None | Some s1 \<Rightarrow> handle_events ps s1)"

text \<open>The events that can make the program send the document \<open>d\<close> again: its timer has expired, or
  its component starts again, after a crash or not, with another version than \<open>v\<close>.\<close>

definition asks_again :: "string \<Rightarrow> u32 \<Rightarrow> event_params \<Rightarrow> bool" where
  "asks_again d v p \<longleftrightarrow> ev_subdoc_name p = Some d \<and>
     (ev_status p = Some ''EXPIRE'' \<or>
      \<not> is_ack (ev_status p) \<and> ev_status p \<noteq> Some ''NACK'' \<and> ev_timeout p = 0 \<and> ev_version p \<noteq> v)"

text \<open>The version \<open>v\<close> of the document is refused.\<close>

definition nacked :: "string \<Rightarrow> u32 \<Rightarrow> 'z db_st_scheme \<Rightarrow> bool" where
  "nacked d v s \<longleftrightarrow> checkTmpNACKstatus (getTmpNode d s) d s \<and> getDocVersionFromTmpList (getTmpNode d s) d s = v"

lemma notify_queue_only: "\<exists>q. addWebConfgNotifyMsg a b c e f g h i j k s = s\<lparr>notifyMsgQ := q\<rparr>"
proof -
  have "\<exists>q. s = s\<lparr>notifyMsgQ := q\<rparr>" by (rule exI [of _ "notifyMsgQ s"]) simp
  then show ?thesis by (cases "mem_ok s") (auto simp: addWebConfgNotifyMsg_def notify_enqueue_def)
qed

lemma nacked_queue [simp]: "nacked d v (s\<lparr>notifyMsgQ := q\<rparr>) = nacked d v s"
  by (simp add: nacked_def checkTmpNACKstatus_def getTmpNode_def getDocVersionFromTmpList_def tmp_node_def split: option.split)

lemma retry_event_nacked: "nacked d v s \<Longrightarrow> retry_event env (getTmpNode d s) d w s = Some s"
  by (simp add: nacked_def retry_event_def)

lemma nacked_asked:
  assumes "nacked d v s" "asks_again d v p" "None \<notin> set (db_names (webcfgdb_data s))"
  shows "\<exists>q. handle_event env p s = Some (s\<lparr>notifyMsgQ := q\<rparr>)"
proof (cases "ev_status p = Some ''EXPIRE''")
  case True
  obtain i where i: "getTmpNode d s = Some i"
    using assms(1) by (cases "getTmpNode d s") (auto simp: nacked_def checkTmpNACKstatus_def)
  let ?w = "if ev_version p \<noteq> 0 then ev_version p else getDocVersionFromTmpList (Some i) d s"
  obtain q where q: "addWebConfgNotifyMsg (Some d) ?w (Some ''pending'') (Some ''timer_expired'')
      (Some (tmp_cloud_trans_id (tmp_node i s))) (ev_timeout p) (Some ''status'') 0 None 200 s = s\<lparr>notifyMsgQ := q\<rparr>"
    using notify_queue_only by blast
  have "retry_event env (Some i) d ?w (s\<lparr>notifyMsgQ := q\<rparr>) = Some (s\<lparr>notifyMsgQ := q\<rparr>)"
    using retry_event_nacked [of d v "s\<lparr>notifyMsgQ := q\<rparr>" env ?w] assms(1) i by (simp add: getTmpNode_def)
  then have "expire_event env p d (Some i) s = Some (s\<lparr>notifyMsgQ := q\<rparr>)"
    unfolding expire_event_def Let_def option.case q .
  then show ?thesis
    using assms(2) True i by (auto simp: handle_event_def Let_def asks_again_def is_ack_def)
next
  case False
  with assms(2) have p: "ev_subdoc_name p = Some d" "\<not> is_ack (ev_status p)" "ev_status p \<noteq> Some ''NACK''"
      "ev_timeout p = 0" "ev_version p \<noteq> v" by (simp_all add: asks_again_def)
  obtain st where st: "checkDBVersion d (ev_version p) s = Some st"
    using db_version_walk_defined [OF assms(3)] by (auto simp: checkDBVersion_def)
  have v: "getDocVersionFromTmpList (getTmpNode d s) d s = v" using assms(1) by (simp add: nacked_def)
  have "restart_event env p d (getTmpNode d s) s = Some s"
    using st p(5) retry_event_nacked [OF assms(1)] by (simp add: restart_event_def v)
  then have "handle_event env p s = Some (s\<lparr>notifyMsgQ := notifyMsgQ s\<rparr>)"
    using p False by (simp add: handle_event_def)
  then show ?thesis by blast
qed

lemma nacked_asked_often:
  assumes "nacked d v s" "\<forall>(env, p) \<in> set ps. asks_again d v p" "None \<notin> set (db_names (webcfgdb_data s))"
  shows "\<exists>q. handle_events ps s = Some (s\<lparr>notifyMsgQ := q\<rparr>)"
  using assms
proof (induction ps arbitrary: s)
  case Nil
  then show ?case by (auto intro: exI [of _ "notifyMsgQ s"])
next
  case (Cons e ps)
  obtain env p where e: "e = (env, p)" by fastforce
  from Cons.prems(2) have "asks_again d v p" by (simp add: e)
  from nacked_asked [OF Cons.prems(1) this Cons.prems(3)] obtain q where q: "handle_event env p s = Some (s\<lparr>notifyMsgQ := q\<rparr>)" ..
  from Cons.IH [of "s\<lparr>notifyMsgQ := q\<rparr>"] Cons.prems show ?case by (simp add: e q)
qed

lemma nack_event_nacked:
  assumes "pending_event p d s" "ev_status p = Some ''NACK''" "ev_timeout p = 0"
  obtains s' t where "handle_event env p s = Some s'" "nacked d (ev_version p) s'" "webcfgdb_data s' = webcfgdb_data s"
    "tmp_lookup d s' = Some t" "tmp_status t = ''failed''" "tmp_error_code t = ev_err_code p"
proof -
  have name: "ev_subdoc_name p = Some d" using assms(1) by (simp add: pending_event_def)
  have cur: "event_current p d (getTmpNode d s) s" using event_current_pending [OF name, of s] assms(1) by simp
  then obtain i where i: "getTmpNode d s = Some i" using event_current_node by blast
  note n = tmp_node_found [OF i]
  define s1 where "s1 = snd (stopWebcfgTimer (getTimerNode d s) d (ev_trans_id p) s)"
  have h1: "g_head s1 = g_head s" "webcfgdb_data s1 = webcfgdb_data s" by (simp_all add: s1_def stopWebcfgTimer_eq)
  then have i1: "getTmpNode d s1 = Some i" using i by (simp add: getTmpNode_def)
  define det where "det = fit 512 (''NACK:'' @ (case ev_process_name p of None \<Rightarrow> ''unknown'' | Some n \<Rightarrow> n) @ '','' @
                             (case ev_failure_reason p of None \<Rightarrow> ''unknown'' | Some r \<Rightarrow> r))"
  define s' where "s' = nack_event p d (Some i) (getTimerNode d s) s"
  have h: "g_head s' = upd_at i (tmp_update (ev_version p) ''failed'' det (ev_err_code p) (ev_trans_id p) 0) (g_head s)"
      "webcfgdb_data s' = webcfgdb_data s"
    using cur n h1 i
    by (simp_all add: s'_def nack_event_def Let_def det_def s1_def [symmetric] updateTmpList_def
        addWebConfgNotifyMsg_def notify_enqueue_def)
  then have node: "g_head s' ! i = tmp_update (ev_version p) ''failed'' det (ev_err_code p) (ev_trans_id p) 0 (g_head s ! i)"
    and len: "length (g_head s') = length (g_head s)" using n by (simp_all add: upd_at_nth)
  have i': "getTmpNode d s' = Some i"
    using i by (simp add: getTmpNode_def tmp_search_find_idx h find_idx_Some upd_at_nth tmp_update_def)
  have "strncmp_eq det ''NACK'' 4" by (simp add: det_def fit_def numeral_eq_Suc)
  then have "checkTmpNACKstatus (Some i) d s'"
    using n len by (simp add: checkTmpNACKstatus_def tmp_node_def node) (simp add: tmp_update_def)
  moreover have "getDocVersionFromTmpList (Some i) d s' = ev_version p"
    using n len by (simp add: getDocVersionFromTmpList_def tmp_node_def node) (simp add: tmp_update_def)
  ultimately have "nacked d (ev_version p) s'" by (simp add: nacked_def i')
  moreover have "handle_event env p s = Some s'"
    using name assms(2,3) i by (simp add: handle_event_def Let_def is_ack_def s'_def)
  ultimately show thesis
    using that [of s'] h(2) tmp_node_found(3) [OF i'] node by (simp add: tmp_update_def)
qed

text \<open>C35: a \<open>NACK\<close> is final for the version. After it, however often the timer of the document
  expires and its component starts again, with whatever other version, and whatever the component
  would answer, the handlers of these events do not send the document again: they change nothing
  but the queue of the notifications, so no retry is counted, and the node keeps the reported
  error.\<close>

theorem nack_not_retried:
  assumes "pending_event p d s" "ev_status p = Some ''NACK''" "ev_timeout p = 0" "None \<notin> set (db_names (webcfgdb_data s))"
    and "\<forall>(env2, p2) \<in> set ps. asks_again d (ev_version p) p2"
  shows "\<exists>s' t q. handle_event env p s = Some s' \<and>
    tmp_lookup d s' = Some t \<and> tmp_status t = ''failed'' \<and> tmp_error_code t = ev_err_code p \<and>
    handle_events ps s' = Some (s'\<lparr>notifyMsgQ := q\<rparr>)"
proof -
  obtain s' t where s': "handle_event env p s = Some s'" "nacked d (ev_version p) s'" "webcfgdb_data s' = webcfgdb_data s"
    "tmp_lookup d s' = Some t" "tmp_status t = ''failed''" "tmp_error_code t = ev_err_code p"
    using nack_event_nacked [OF assms(1-3), of env] .
  from nacked_asked_often [OF s'(2) assms(5)] assms(4) obtain q where "handle_events ps s' = Some (s'\<lparr>notifyMsgQ := q\<rparr>)"
    by (auto simp: s'(3))
  with s' show ?thesis by blast
qed

theorem nack_not_retried_witness:
  "\<exists>s' q. handle_event demo_env (demo_event ''NACK'' 7 5) demo_ev_st = Some s' \<and>
     handle_events [(demo_env, demo_event ''EXPIRE'' 7 5), (demo_env, demo_event ''COMP_INIT'' 0 0)] s' = Some (s'\<lparr>notifyMsgQ := q\<rparr>)"
proof -
  let ?p = "demo_event ''NACK'' 7 5"
  let ?ps = "[(demo_env, demo_event ''EXPIRE'' 7 5), (demo_env, demo_event ''COMP_INIT'' 0 0)]"
  have h: "pending_event ?p ''wan'' demo_ev_st" "ev_status ?p = Some ''NACK''" "ev_timeout ?p = 0"
    "None \<notin> set (db_names (webcfgdb_data demo_ev_st))"
    by (simp_all add: pending_event_def demo_ev_lookup) (simp_all add: demo_event_def demo_ev_st_def db_names_def)
  have "\<forall>(env2, p2) \<in> set ?ps. asks_again ''wan'' (ev_version ?p) p2"
    by (simp add: asks_again_def demo_event_def is_ack_def)
  from nack_not_retried [OF h this, of demo_env] show ?thesis by blast
qed

text \<open>When the retry after an expired timer or a crash fails with a status that asks for a
  later retry, the node first gets this status, and then the caller overwrites it with
  \<open>subdoc_retry_failed\<close> (while retries are left): the retry timer is armed, but
  the error code, by which \<open>failedDocsRetry\<close> selects the documents, is lost.\<close>

theorem retry_status_lost:
  assumes "mem_ok s" "getTmpNode d s = Some i" "tmp_retry_count (g_head s ! i) < 2" "\<not> checkTmpNACKstatus (Some i) d s"
    and "find (\<lambda>gmp. mp_name_space gmp = d) (g_mp_head s) = Some gmp" "plain_doc env gmp"
    and "\<forall>r. ae_set env 0 r = (False, c)" "retry_status c"
  shows "\<exists>s'. retry_event env (Some i) d v s = Some s' \<and> doc_fail_flag s' = 1 \<and>
    tmp_error_code (g_head s' ! i) = 611 \<and> \<not> retry_status (uint (tmp_error_code (g_head s' ! i)))"
proof -
  note n = tmp_node_found [OF assms(2)]
  have "tmp_retry_count (g_head s ! i) < 3" using assms(3) by simp
  from retry_granted [OF n(1,2) this] obtain s1 where s1: "checkAndUpdateTmpRetryCount (Some i) d s = (WEBCFG_SUCCESS, s1)"
    "length (g_head s1) = length (g_head s)" "g_head s1 ! i = (g_head s ! i)\<lparr>tmp_retry_count := tmp_retry_count (g_head s ! i) + 1\<rparr>"
    by metis
  then have s1e: "s1 = s\<lparr>g_head := upd_at i (\<lambda>t. t\<lparr>tmp_retry_count := tmp_retry_count t + 1\<rparr>) (g_head s)\<rparr>"
    using n assms(3) by (simp add: checkAndUpdateTmpRetryCount_def tmp_node_def MAX_APPLY_RETRY_COUNT_def)
  have mp: "mp_name_space gmp = d" "g_mp_head s \<noteq> []" "g_mp_head s1 = g_mp_head s" "mem_ok s1"
    using assms(1,5) by (auto simp: find_Some_iff s1e)
  let ?s2 = "retry_failure env gmp i c s1"
  have r: "retryMultipartSubdoc env (Some i) d s = Some (WEBCFG_FAILURE, ?s2)"
    using mp s1(1) assms(5) retry_document_refused [OF mp(4) assms(6,7), of i] by (simp add: retryMultipartSubdoc_def)
  have i1: "i < length (g_head s1)" "tmp_name (g_head s1 ! i) = mp_name_space gmp" using n s1(2,3) mp(1) by simp_all
  note f = retry_failure_node [OF i1 assms(8), of env]
  have i2: "i < length (g_head ?s2)" "tmp_name (g_head ?s2 ! i) = d" "tmp_retry_count (g_head ?s2 ! i) < 3"
    using f(1-3) i1 s1(3) mp(1) assms(3) by simp_all
  note g = retry_failed_node [OF i2, of v]
  have "retry_event env (Some i) d v s = Some (retry_failed (Some i) d v ?s2)"
    using r assms(4) by (simp add: retry_event_def)
  then show ?thesis using g f(4) by (simp add: retry_status_def CCSP_CRASH_STATUS_CODE_def)
qed

theorem retry_status_lost_witness:
  "\<exists>s'. retry_event (demo_env\<lparr>ae_set := \<lambda>_ _. (False, 192)\<rparr>) (Some 1) ''wan'' 5 demo_ev_st = Some s' \<and>
     tmp_error_code (g_head s' ! 1) = 611"
proof -
  let ?env = "demo_env\<lparr>ae_set := \<lambda>_ _. (False, 192)\<rparr>"
  have mem: "mem_ok demo_ev_st" "getTmpNode ''wan'' demo_ev_st = Some 1" "tmp_retry_count (g_head demo_ev_st ! 1) < 2"
    "\<not> checkTmpNACKstatus (Some 1) ''wan'' demo_ev_st"
    "find (\<lambda>gmp. mp_name_space gmp = ''wan'') (g_mp_head demo_ev_st) = Some wan_doc"
    by (simp_all add: demo_ev_st_def getTmpNode_def checkTmpNACKstatus_def tmp_node_def numeral_eq_Suc)
  have "plain_doc ?env wan_doc" using demo_plain [of wan_doc] by (simp add: plain_doc_def split: prod.splits option.splits)
  moreover have "\<forall>r. ae_set ?env 0 r = (False, 192)" "retry_status 192"
    by (simp_all add: retry_status_def CCSP_CRASH_STATUS_CODE_def)
  ultimately show ?thesis using retry_status_lost [OF mem] by blast
qed

section \<open>The limit on the retries\<close>

text \<open>How often the queue of the notifications holds the document's details \<open>x\<close>, up to what is
  written after them.\<close>

definition told :: "string \<Rightarrow> notify_params list \<Rightarrow> nat" where
  "told x q = length (filter (\<lambda>m. case nt_error_details m of None \<Rightarrow> False | Some e \<Rightarrow> take (length x) e = x) q)"

lemma told_append [simp]: "told x (q @ r) = told x q + told x r"
  by (simp add: told_def)

text \<open>A step of the retries of the document at \<open>i\<close>: it leaves the names of the list, the cache and
  the memory as they are, makes the node \<open>t\<close> and queues the notifications \<open>ms\<close>.\<close>

definition node_step :: "nat \<Rightarrow> webconfig_tmp_data \<Rightarrow> notify_params list \<Rightarrow> 'z db_st_scheme \<Rightarrow> 'z db_st_scheme \<Rightarrow> bool" where
  "node_step i t ms s s' \<longleftrightarrow> map tmp_name (g_head s') = map tmp_name (g_head s) \<and> g_head s' ! i = t \<and>
     notifyMsgQ s' = notifyMsgQ s @ ms \<and> g_mp_head s' = g_mp_head s \<and> mem_ok s' = mem_ok s"

lemma node_step_trans: "node_step i t ms s s1 \<Longrightarrow> node_step i t' ms' s1 s2 \<Longrightarrow> node_step i t' (ms @ ms') s s2"
  by (simp add: node_step_def)

lemma find_idx_names: "find_idx (\<lambda>t. tmp_name t = d) ts = find_idx (\<lambda>x. x = d) (map tmp_name ts)"
  by (induction ts) auto

lemma node_step_keeps:
  assumes "node_step i t ms s s'"
  shows "getTmpNode d s' = getTmpNode d s" "length (g_head s') = length (g_head s)" "g_mp_head s' = g_mp_head s"
    "mem_ok s' = mem_ok s" "i < length (g_head s) \<Longrightarrow> tmp_name t = tmp_name (g_head s ! i)"
proof -
  have m: "map tmp_name (g_head s') = map tmp_name (g_head s)" using assms by (simp add: node_step_def)
  then show l: "length (g_head s') = length (g_head s)" by (rule map_eq_imp_length_eq)
  show "getTmpNode d s' = getTmpNode d s" unfolding getTmpNode_def tmp_search_find_idx find_idx_names m ..
  show "g_mp_head s' = g_mp_head s" "mem_ok s' = mem_ok s" using assms by (simp_all add: node_step_def)
  assume i: "i < length (g_head s)"
  with m l have "tmp_name (g_head s' ! i) = tmp_name (g_head s ! i)" by (metis nth_map)
  then show "tmp_name t = tmp_name (g_head s ! i)" using assms by (simp add: node_step_def)
qed

lemma node_step_upd:
  assumes "i < length (g_head s)" "g_head s' = upd_at i f (g_head s)" "\<And>t. tmp_name (f t) = tmp_name t"
    "notifyMsgQ s' = notifyMsgQ s @ ms" "g_mp_head s' = g_mp_head s" "mem_ok s' = mem_ok s"
  shows "node_step i (f (g_head s ! i)) ms s s'"
proof -
  have "map tmp_name (upd_at i f (g_head s)) = map tmp_name (g_head s)"
    using assms(1,3) by (simp add: upd_at_def map_update list_update_same_conv)
  with assms show ?thesis by (simp add: node_step_def upd_at_nth)
qed

lemma retry_failure_step:
  assumes "i < length (g_head s)" "tmp_name (g_head s ! i) = mp_name_space gmp" "mem_ok s"
  shows "\<exists>t m x. node_step i t [m] s (retry_failure env gmp i c s) \<and>
    tmp_retry_count t = (if retry_status c then tmp_retry_count (g_head s ! i) else 0) \<and>
    tmp_error_details t = x \<and> nt_error_details m = Some x \<and>
    x = fit 128 ((if retry_status c then ''failed_retrying:'' else ''doc_rejected:'') @ ae_err_text env c)"
proof (cases "retry_status c")
  case True
  let ?x = "fit 128 (''failed_retrying:'' @ ae_err_text env c)"
  let ?f = "\<lambda>t. (tmp_update (mp_etag gmp) ''pending'' ?x (word_of_int c) 0 1 t)\<lparr>tmp_retry_timestamp := getRetryExpiryTimeout (ae_now env)\<rparr>"
  let ?m = "notify_msg (Some (mp_name_space gmp)) (mp_etag gmp) (Some ''pending'') (Some ?x)
    (Some (tmp_cloud_trans_id (g_head s ! i))) 0 (Some ''status'') (word_of_int c) None 200"
  have "node_step i (?f (g_head s ! i)) [?m] s (retry_failure env gmp i c s)"
    using assms True
    by (intro node_step_upd [where f = ?f])
      (simp_all add: retry_failure_def Let_def updateTmpList_def notify_doc_def addWebConfgNotifyMsg_def notify_enqueue_def
        set_doc_fail_def updateFailureTimeStamp_def updateRetryTimeDiff_def set_retry_timer_def set_global_retry_timestamp_def
        upd_at_nth tmp_node_def, simp_all add: tmp_update_def upd_at_def)
  then show ?thesis using True by (intro exI conjI) (assumption, simp_all add: tmp_update_def notify_msg_def)
next
  case False
  let ?x = "fit 128 (''doc_rejected:'' @ ae_err_text env c)"
  let ?f = "tmp_update (mp_etag gmp) ''failed'' ?x (word_of_int c) 0 0"
  let ?m = "notify_msg (Some (mp_name_space gmp)) (mp_etag gmp) (Some ''failed'') (Some ?x)
    (Some (tmp_cloud_trans_id (g_head s ! i))) 0 (Some ''status'') (word_of_int c) None 200"
  have "node_step i (?f (g_head s ! i)) [?m] s (retry_failure env gmp i c s)"
    using assms False
    by (intro node_step_upd [where f = ?f])
      (simp_all add: retry_failure_def Let_def updateTmpList_def notify_doc_def addWebConfgNotifyMsg_def notify_enqueue_def
        upd_at_nth tmp_node_def, simp_all add: tmp_update_def)
  then show ?thesis using False by (intro exI conjI) (assumption, simp_all add: tmp_update_def notify_msg_def)
qed

lemma retry_failed_step:
  assumes "i < length (g_head s)" "tmp_name (g_head s ! i) = d" "mem_ok s"
  shows "\<exists>t ms. node_step i t ms s (retry_failed (Some i) d v s) \<and> tmp_retry_count t = tmp_retry_count (g_head s ! i) \<and>
    (if tmp_retry_count (g_head s ! i) < 3
     then tmp_error_details t = ''subdoc_retry_failed'' \<and> map nt_error_details ms = [Some ''subdoc_retry_failed'']
     else t = g_head s ! i \<and> ms = [])"
proof (cases "tmp_retry_count (g_head s ! i) < 3")
  case True
  let ?k = "tmp_retry_count (g_head s ! i)"
  let ?f = "tmp_update v ''failed'' ''subdoc_retry_failed'' 611 (tmp_trans_id (g_head s ! i)) ?k"
  let ?m = "notify_msg (Some d) v (Some ''failed'') (Some ''subdoc_retry_failed'')
    (Some (tmp_cloud_trans_id (g_head s ! i))) 0 (Some ''status'') 611 None 200"
  have "node_step i (?f (g_head s ! i)) [?m] s (retry_failed (Some i) d v s)"
    using assms True
    by (intro node_step_upd [where f = ?f])
      (simp_all add: retry_failed_def Let_def updateTmpList_def addWebConfgNotifyMsg_def notify_enqueue_def
        upd_at_nth tmp_node_def, simp_all add: tmp_update_def)
  then show ?thesis using True by (intro exI conjI) (assumption, simp_all add: tmp_update_def notify_msg_def)
next
  case False
  then have "node_step i (g_head s ! i) [] s (retry_failed (Some i) d v s)"
    by (simp add: node_step_def retry_failed_def tmp_node_def)
  with False show ?thesis by auto
qed

text \<open>The document is refused at every retry, for good when not \<open>busy\<close>.\<close>

definition refused :: "apply_env \<Rightarrow> multipartdocs \<Rightarrow> bool \<Rightarrow> bool" where
  "refused env gmp busy \<longleftrightarrow> plain_doc env gmp \<and> (\<exists>c. (\<forall>r. ae_set env 0 r = (False, c)) \<and> (retry_status c \<longleftrightarrow> busy))"

text \<open>What the cloud is told of a refusal.\<close>

definition refusal :: "bool \<Rightarrow> string" where
  "refusal busy = (if busy then ''failed_retrying:'' else ''doc_rejected:'')"

lemma told_simps [simp]:
  "told x [] = 0"
  "told x (m # q) = (case nt_error_details m of None \<Rightarrow> 0 | Some e \<Rightarrow> if take (length x) e = x then 1 else 0) + told x q"
  by (simp_all add: told_def split: option.split)

lemma retry_details:
  "take (length (refusal b)) (fit 128 (refusal b @ x)) = refusal b"
  "take (length ''max_retry_reached'') (fit 128 (refusal b @ x)) \<noteq> ''max_retry_reached''"
  "\<not> strncmp_eq (fit 128 (refusal b @ x)) ''NACK'' 4"
  by (cases b; simp add: refusal_def fit_def numeral_eq_Suc)+

text \<open>The first retries: each is counted, unless the refusal takes the count back.\<close>

lemma expire_granted:
  assumes "getTmpNode d s = Some i" "mem_ok s" "find (\<lambda>gmp. mp_name_space gmp = d) (g_mp_head s) = Some gmp"
    and "\<not> checkTmpNACKstatus (Some i) d s" "tmp_retry_count (g_head s ! i) < 3" "refused env gmp busy"
    and "ev_subdoc_name p = Some d" "ev_status p = Some ''EXPIRE''"
  shows "\<exists>s' t ms. handle_event env p s = Some s' \<and> node_step i t ms s s' \<and>
    tmp_retry_count t = (if busy then tmp_retry_count (g_head s ! i) + 1 else 0) \<and>
    told (refusal busy) ms = 1 \<and> told ''max_retry_reached'' ms = 0 \<and>
    take (length ''max_retry_reached'') (tmp_error_details t) \<noteq> ''max_retry_reached'' \<and> \<not> strncmp_eq (tmp_error_details t) ''NACK'' 4"
proof -
  note n = tmp_node_found [OF assms(1)]
  obtain c where c: "plain_doc env gmp" "\<forall>r. ae_set env 0 r = (False, c)" "retry_status c = busy"
    using assms(6) by (auto simp: refused_def)
  let ?w = "if ev_version p \<noteq> 0 then ev_version p else getDocVersionFromTmpList (Some i) d s"
  let ?m = "notify_msg (Some d) ?w (Some ''pending'') (Some ''timer_expired'')
      (Some (tmp_cloud_trans_id (tmp_node i s))) (ev_timeout p) (Some ''status'') 0 None 200"
  define s1 where "s1 = s\<lparr>notifyMsgQ := notifyMsgQ s @ [?m]\<rparr>"
  have h1: "g_head s1 ! i = g_head s ! i" by (simp add: s1_def)
  have st1: "node_step i (g_head s ! i) [?m] s s1" by (simp add: node_step_def s1_def)
  note k1 = node_step_keeps [OF st1]
  have n1: "i < length (g_head s1)" "tmp_name (g_head s1 ! i) = d" "tmp_retry_count (g_head s1 ! i) < 3"
    using n assms(5) by (simp_all add: s1_def)
  obtain s2 where s2: "checkAndUpdateTmpRetryCount (Some i) d s1 = (WEBCFG_SUCCESS, s2)"
      "node_step i ((g_head s ! i)\<lparr>tmp_retry_count := tmp_retry_count (g_head s ! i) + 1\<rparr>) [] s1 s2"
  proof -
    let ?f = "\<lambda>t. t\<lparr>tmp_retry_count := tmp_retry_count t + 1\<rparr>" and ?s2 = "snd (checkAndUpdateTmpRetryCount (Some i) d s1)"
    have "checkAndUpdateTmpRetryCount (Some i) d s1 = (WEBCFG_SUCCESS, ?s2)"
      using n1 by (simp add: checkAndUpdateTmpRetryCount_def tmp_node_def MAX_APPLY_RETRY_COUNT_def)
    moreover have "node_step i (?f (g_head s1 ! i)) [] s1 ?s2"
      using n1 by (intro node_step_upd [where f = ?f]) (simp_all add: checkAndUpdateTmpRetryCount_def tmp_node_def MAX_APPLY_RETRY_COUNT_def)
    then have "node_step i (?f (g_head s ! i)) [] s1 ?s2" by (simp only: h1)
    ultimately show thesis by (rule that)
  qed
  note k2 = node_step_keeps [OF s2(2)]
  have g: "mp_name_space gmp = d" "g_mp_head s \<noteq> []" using assms(3) by (auto simp: find_Some_iff)
  have n2: "i < length (g_head s2)" "tmp_name (g_head s2 ! i) = d" "mem_ok s2"
    using k1(2,4) k2(2,4) n(1,2) assms(2) s2(2) by (simp_all add: node_step_def)
  have nm: "tmp_name (g_head s2 ! i) = mp_name_space gmp" using n2(2) g(1) by simp
  let ?s3 = "retry_failure env gmp i c s2"
  obtain t3 m3 x where st3: "node_step i t3 [m3] s2 ?s3" "tmp_error_details t3 = x" "nt_error_details m3 = Some x"
      "tmp_retry_count t3 = (if busy then tmp_retry_count (g_head s2 ! i) else 0)" "x = fit 128 (refusal busy @ ae_err_text env c)"
    using retry_failure_step [OF n2(1) nm n2(3), of env c] unfolding c(3) refusal_def by blast
  note k3 = node_step_keeps [OF st3(1)]
  have n3: "i < length (g_head ?s3)" "tmp_name (g_head ?s3 ! i) = d" "mem_ok ?s3"
    using k3(2,4,5) n2 st3(1) by (simp_all add: node_step_def)
  have retried: "retryMultipartSubdoc env (Some i) d s1 = Some (WEBCFG_FAILURE, ?s3)"
    using s2(1) assms(3) g k1(3) k2(3) retry_document_refused [OF n2(3) c(1,2), of i] by (simp add: retryMultipartSubdoc_def)
  obtain t4 ms4 where st4: "node_step i t4 ms4 ?s3 (retry_failed (Some i) d ?w ?s3)" "tmp_retry_count t4 = tmp_retry_count (g_head ?s3 ! i)"
    "if tmp_retry_count (g_head ?s3 ! i) < 3
     then tmp_error_details t4 = ''subdoc_retry_failed'' \<and> map nt_error_details ms4 = [Some ''subdoc_retry_failed'']
     else t4 = g_head ?s3 ! i \<and> ms4 = []"
    using retry_failed_step [OF n3, of ?w] by blast
  have "\<not> checkTmpNACKstatus (Some i) d s1"
    using assms(4) by (simp add: checkTmpNACKstatus_def tmp_node_def s1_def)
  then have "retry_event env (Some i) d ?w s1 = Some (retry_failed (Some i) d ?w ?s3)"
    using retried by (simp add: retry_event_def)
  then have "handle_event env p s = Some (retry_failed (Some i) d ?w ?s3)"
    using assms(1,2,7,8)
    by (simp add: handle_event_def is_ack_def expire_event_def Let_def addWebConfgNotifyMsg_def notify_enqueue_def s1_def)
  moreover have "node_step i t4 ([?m] @ [] @ [m3] @ ms4) s (retry_failed (Some i) d ?w ?s3)"
    by (rule node_step_trans [OF st1 node_step_trans [OF s2(2) node_step_trans [OF st3(1) st4(1)]]])
  moreover have "tmp_retry_count t4 = (if busy then tmp_retry_count (g_head s ! i) + 1 else 0)"
    using st4(2) st3(1,4) s2(2) by (simp add: node_step_def)
  moreover have "told (refusal busy) ([?m] @ [] @ [m3] @ ms4) = 1 \<and> told ''max_retry_reached'' ([?m] @ [] @ [m3] @ ms4) = 0 \<and>
      take (length ''max_retry_reached'') (tmp_error_details t4) \<noteq> ''max_retry_reached'' \<and> \<not> strncmp_eq (tmp_error_details t4) ''NACK'' 4"
  proof -
    have "told (refusal busy) ms4 = 0 \<and> told ''max_retry_reached'' ms4 = 0" using st4(3)
      by (cases busy) (auto simp: refusal_def split: if_splits)
    moreover have "told (refusal busy) [?m] = 0" by (cases busy) (simp_all add: refusal_def notify_msg_def)
    moreover have "tmp_error_details t4 = ''subdoc_retry_failed'' \<or> tmp_error_details t4 = x"
      using st4(3) st3(1,2) by (auto simp: node_step_def split: if_splits)
    ultimately show ?thesis using st3(3,5) retry_details [of busy "ae_err_text env c"]
      by (auto simp: notify_msg_def numeral_eq_Suc)
  qed
  ultimately show ?thesis by blast
qed

text \<open>The retries are used up: the cloud is told once, and the document is not sent.\<close>

lemma expire_exhausted:
  assumes "getTmpNode d s = Some i" "mem_ok s" "g_mp_head s \<noteq> []"
    and "\<not> checkTmpNACKstatus (Some i) d s" "tmp_retry_count (g_head s ! i) = 3"
    and "ev_subdoc_name p = Some d" "ev_status p = Some ''EXPIRE''"
  shows "\<exists>s' t ms. handle_event env p s = Some s' \<and> node_step i t ms s s' \<and> tmp_retry_count t = 3 \<and>
    told (refusal busy) ms = 0 \<and>
    told ''max_retry_reached'' ms = (if tmp_error_details (g_head s ! i) = ''max_retry_reached'' then 0 else 1) \<and>
    tmp_error_details t = ''max_retry_reached''"
proof -
  note n = tmp_node_found [OF assms(1)]
  let ?w = "if ev_version p \<noteq> 0 then ev_version p else getDocVersionFromTmpList (Some i) d s"
  let ?m = "notify_msg (Some d) ?w (Some ''pending'') (Some ''timer_expired'')
      (Some (tmp_cloud_trans_id (tmp_node i s))) (ev_timeout p) (Some ''status'') 0 None 200"
  define s1 where "s1 = s\<lparr>notifyMsgQ := notifyMsgQ s @ [?m]\<rparr>"
  have st1: "node_step i (g_head s ! i) [?m] s s1" by (simp add: node_step_def s1_def)
  have m: "told (refusal busy) [?m] = 0" "told ''max_retry_reached'' [?m] = 0"
    by (cases busy; simp add: refusal_def notify_msg_def)+
  obtain s2 t ms where s2: "checkAndUpdateTmpRetryCount (Some i) d s1 = (WEBCFG_FAILURE, s2)" "node_step i t ms s1 s2"
      "tmp_retry_count t = 3" "tmp_error_details t = ''max_retry_reached''" "told (refusal busy) ms = 0"
      "told ''max_retry_reached'' ms = (if tmp_error_details (g_head s ! i) = ''max_retry_reached'' then 0 else 1)"
  proof (cases "tmp_error_details (g_head s ! i) = ''max_retry_reached''")
    case True
    then have "checkAndUpdateTmpRetryCount (Some i) d s1 = (WEBCFG_FAILURE, s1)"
      using n assms(5) by (simp add: checkAndUpdateTmpRetryCount_def tmp_node_def MAX_APPLY_RETRY_COUNT_def s1_def)
    moreover have "node_step i (g_head s ! i) [] s1 s1" by (simp add: node_step_def s1_def)
    ultimately show thesis by (rule that) (simp_all add: True assms(5))
  next
    case False
    let ?t = "g_head s ! i"
    let ?f = "tmp_update (tmp_version ?t) ''failed'' ''max_retry_reached'' (tmp_error_code ?t) 0 1"
    let ?m2 = "notify_msg (Some d) (tmp_version ?t) (Some ''failed'') (Some ''max_retry_reached'')
         (Some (tmp_cloud_trans_id ?t)) 0 (Some ''status'') 0 None 200"
    let ?s2 = "snd (checkAndUpdateTmpRetryCount (Some i) d s1)"
    have c: "checkAndUpdateTmpRetryCount (Some i) d s1 = (WEBCFG_FAILURE, snd (updateTmpList (Some i) d
        (tmp_version ?t) ''failed'' ''max_retry_reached'' (tmp_error_code ?t) 0 1
        (addWebConfgNotifyMsg (Some d) (tmp_version ?t) (Some ''failed'') (Some ''max_retry_reached'')
           (Some (tmp_cloud_trans_id ?t)) 0 (Some ''status'') 0 None 200 s1)))"
      using n assms(5) False by (simp add: checkAndUpdateTmpRetryCount_def tmp_node_def MAX_APPLY_RETRY_COUNT_def Let_def s1_def)
    have "node_step i (?f (g_head s1 ! i)) [?m2] s1 ?s2"
      using n assms(2) unfolding c snd_conv
      by (intro node_step_upd [where f = ?f])
        (simp_all add: updateTmpList_def addWebConfgNotifyMsg_def notify_enqueue_def upd_at_nth s1_def, simp_all add: tmp_update_def)
    moreover have "checkAndUpdateTmpRetryCount (Some i) d s1 = (WEBCFG_FAILURE, ?s2)" unfolding c by simp
    moreover have "told (refusal busy) [?m2] = 0" by (cases busy) (simp_all add: refusal_def notify_msg_def)
    ultimately show thesis
      by (intro that) (assumption, assumption, simp_all add: tmp_update_def assms(5) False s1_def notify_msg_def)
  qed
  have mp: "g_mp_head s1 \<noteq> []" using assms(3) by (simp add: s1_def)
  have "retry_failed (Some i) d ?w s2 = s2" using s2(2,3) by (simp add: retry_failed_def tmp_node_def node_step_def)
  moreover have "\<not> checkTmpNACKstatus (Some i) d s1"
    using assms(4) by (simp add: checkTmpNACKstatus_def tmp_node_def s1_def)
  ultimately have "retry_event env (Some i) d ?w s1 = Some s2"
    using s2(1) mp by (simp add: retry_event_def retryMultipartSubdoc_def)
  then have "handle_event env p s = Some s2"
    using assms(1,2,6,7)
    by (simp add: handle_event_def is_ack_def expire_event_def Let_def addWebConfgNotifyMsg_def notify_enqueue_def s1_def)
  moreover have "node_step i t ([?m] @ ms) s s2" by (rule node_step_trans [OF st1 s2(2)])
  moreover have "told (refusal busy) ([?m] @ ms) = 0" "told ''max_retry_reached'' ([?m] @ ms) =
      (if tmp_error_details (g_head s ! i) = ''max_retry_reached'' then 0 else 1)"
    unfolding told_append m s2(5,6) by simp_all
  ultimately show ?thesis using s2(3,4) by blast
qed

text \<open>The document in the list and in the cache, its node without a \<open>NACK\<close>.\<close>

definition retryable :: "string \<Rightarrow> nat \<Rightarrow> multipartdocs \<Rightarrow> 'z db_st_scheme \<Rightarrow> bool" where
  "retryable d i gmp s \<longleftrightarrow> getTmpNode d s = Some i \<and> mem_ok s \<and>
     find (\<lambda>gmp. mp_name_space gmp = d) (g_mp_head s) = Some gmp \<and> \<not> checkTmpNACKstatus (Some i) d s"

lemma node_step_retryable:
  assumes "retryable d i gmp s" "node_step i t ms s s'" "\<not> strncmp_eq (tmp_error_details t) ''NACK'' 4"
  shows "retryable d i gmp s'"
proof -
  have "g_head s' ! i = t" using assms(2) by (simp add: node_step_def)
  with assms(1,3) node_step_keeps(1-4) [OF assms(2)] show ?thesis
    by (simp add: retryable_def checkTmpNACKstatus_def tmp_node_def)
qed

text \<open>The timer of the document \<open>d\<close> expires, and its component refuses the document.\<close>

definition expires_refused :: "string \<Rightarrow> multipartdocs \<Rightarrow> bool \<Rightarrow> apply_env \<times> event_params \<Rightarrow> bool" where
  "expires_refused d gmp busy e \<longleftrightarrow> refused (fst e) gmp busy \<and> ev_subdoc_name (snd e) = Some d \<and> ev_status (snd e) = Some ''EXPIRE''"

lemma expiries_exhausted:
  assumes "retryable d i gmp s" "tmp_retry_count (g_head s ! i) = 3" "\<forall>e\<in>set ps. expires_refused d gmp busy e"
  shows "\<exists>s' q. handle_events ps s = Some s' \<and> notifyMsgQ s' = notifyMsgQ s @ q \<and> told (refusal busy) q = 0 \<and>
    told ''max_retry_reached'' q = (if ps = [] \<or> tmp_error_details (g_head s ! i) = ''max_retry_reached'' then 0 else 1)"
  using assms
proof (induction ps arbitrary: s)
  case Nil
  then show ?case by simp
next
  case (Cons e ps)
  from Cons.prems(1) have r: "getTmpNode d s = Some i" "mem_ok s" "g_mp_head s \<noteq> []" "\<not> checkTmpNACKstatus (Some i) d s"
    by (auto simp: retryable_def)
  from Cons.prems(3) have e: "ev_subdoc_name (snd e) = Some d" "ev_status (snd e) = Some ''EXPIRE''" by (simp_all add: expires_refused_def)
  from expire_exhausted [OF r Cons.prems(2) e, of "fst e" busy] obtain s1 t ms where
    s1: "handle_event (fst e) (snd e) s = Some s1" "node_step i t ms s s1" "tmp_retry_count t = 3" "told (refusal busy) ms = 0"
    "told ''max_retry_reached'' ms = (if tmp_error_details (g_head s ! i) = ''max_retry_reached'' then 0 else 1)"
    "tmp_error_details t = ''max_retry_reached''" by blast
  have "retryable d i gmp s1" by (rule node_step_retryable [OF Cons.prems(1) s1(2)]) (simp add: s1(6) numeral_eq_Suc)
  moreover have t: "g_head s1 ! i = t" "notifyMsgQ s1 = notifyMsgQ s @ ms" using s1(2) by (simp_all add: node_step_def)
  ultimately obtain s' q where "handle_events ps s1 = Some s'" "notifyMsgQ s' = notifyMsgQ s1 @ q" "told (refusal busy) q = 0"
      "told ''max_retry_reached'' q = 0"
    using Cons.IH [of s1] Cons.prems(3) s1(3,6) by auto
  then show ?case using s1(1,4,5) t(2) by (intro exI [of _ s'] exI [of _ "ms @ q"]) (simp add: split_beta, cases e, simp)
qed

lemma expiries_refused:
  assumes "retryable d i gmp s" "0 \<le> tmp_retry_count (g_head s ! i)" "tmp_retry_count (g_head s ! i) \<le> 3"
    "busy \<or> tmp_retry_count (g_head s ! i) < 3" "tmp_error_details (g_head s ! i) \<noteq> ''max_retry_reached''"
    "\<forall>e\<in>set ps. expires_refused d gmp busy e"
  shows "\<exists>s' q. handle_events ps s = Some s' \<and> notifyMsgQ s' = notifyMsgQ s @ q \<and>
    told (refusal busy) q = (if busy then min (length ps) (nat (3 - tmp_retry_count (g_head s ! i))) else length ps) \<and>
    told ''max_retry_reached'' q = (if busy \<and> nat (3 - tmp_retry_count (g_head s ! i)) < length ps then 1 else 0)"
  using assms
proof (induction ps arbitrary: s)
  case Nil
  then show ?case by simp
next
  case (Cons e ps)
  let ?k = "tmp_retry_count (g_head s ! i)"
  show ?case
  proof (cases "?k = 3")
    case True
    from expiries_exhausted [OF Cons.prems(1) True Cons.prems(6)] True Cons.prems(4,5) show ?thesis by auto
  next
    case False
    with Cons.prems(3) have k: "?k < 3" by simp
    from Cons.prems(1) have r: "getTmpNode d s = Some i" "mem_ok s" "find (\<lambda>gmp. mp_name_space gmp = d) (g_mp_head s) = Some gmp"
      "\<not> checkTmpNACKstatus (Some i) d s" by (simp_all add: retryable_def)
    from Cons.prems(6) have e: "refused (fst e) gmp busy" "ev_subdoc_name (snd e) = Some d" "ev_status (snd e) = Some ''EXPIRE''"
      by (simp_all add: expires_refused_def)
    from expire_granted [OF r k e] obtain s1 t ms where s1: "handle_event (fst e) (snd e) s = Some s1" "node_step i t ms s s1"
      "tmp_retry_count t = (if busy then ?k + 1 else 0)" "told (refusal busy) ms = 1" "told ''max_retry_reached'' ms = 0"
      "take (length ''max_retry_reached'') (tmp_error_details t) \<noteq> ''max_retry_reached''" "\<not> strncmp_eq (tmp_error_details t) ''NACK'' 4"
      by blast
    have rt: "retryable d i gmp s1" by (rule node_step_retryable [OF Cons.prems(1) s1(2,7)])
    have t: "g_head s1 ! i = t" "notifyMsgQ s1 = notifyMsgQ s @ ms" using s1(2) by (simp_all add: node_step_def)
    have "tmp_error_details t \<noteq> ''max_retry_reached''" using s1(6) by auto
    moreover have "0 \<le> tmp_retry_count t" "tmp_retry_count t \<le> 3" "busy \<or> tmp_retry_count t < 3"
      using s1(3) k Cons.prems(2) by auto
    ultimately obtain s' q where q: "handle_events ps s1 = Some s'" "notifyMsgQ s' = notifyMsgQ s1 @ q"
        "told (refusal busy) q = (if busy then min (length ps) (nat (3 - tmp_retry_count t)) else length ps)"
        "told ''max_retry_reached'' q = (if busy \<and> nat (3 - tmp_retry_count t) < length ps then 1 else 0)"
      using Cons.IH [of s1] rt Cons.prems(6) unfolding t(1) by (metis list.set_intros(2))
    have n: "nat (3 - ?k) = Suc (nat (3 - (?k + 1)))" using k by simp
    have "handle_events (e # ps) s = Some s'" using s1(1) q(1) by (cases e) simp
    moreover have "notifyMsgQ s' = notifyMsgQ s @ (ms @ q)" using q(2) t(2) by simp
    moreover have "told (refusal busy) (ms @ q) = (if busy then min (length (e # ps)) (nat (3 - ?k)) else length (e # ps))"
      unfolding told_append s1(4) q(3) s1(3) n by (cases busy) simp_all
    moreover have "told ''max_retry_reached'' (ms @ q) = (if busy \<and> nat (3 - ?k) < length (e # ps) then 1 else 0)"
      unfolding told_append s1(5) q(4) s1(3) n by (cases busy) simp_all
    ultimately show ?thesis by blast
  qed
qed

text \<open>C34: the limit on the retries, on a device with memory. The timer of a document of plain
  parameters expires any number of times, and each time its component refuses the document. As
  long as it answers with a status that asks for a later retry, the document is sent again until
  three retries are counted, each refusal is notified, and then \<open>max_retry_reached\<close> once, however
  often the timer still expires. But a refusal with another status sets the count back, so then
  there is no limit: the document is sent again at every expiry.\<close>

theorem retry_limit:
  assumes "retryable d i gmp s" "0 \<le> tmp_retry_count (g_head s ! i)" "tmp_retry_count (g_head s ! i) < 3"
    "tmp_error_details (g_head s ! i) \<noteq> ''max_retry_reached''" "\<forall>e\<in>set ps. expires_refused d gmp busy e"
  defines "left \<equiv> nat (3 - tmp_retry_count (g_head s ! i))"
  shows "\<exists>s' q. handle_events ps s = Some s' \<and> notifyMsgQ s' = notifyMsgQ s @ q \<and>
    told (refusal busy) q = (if busy then min (length ps) left else length ps) \<and>
    told ''max_retry_reached'' q = (if busy \<and> left < length ps then 1 else 0)"
  using expiries_refused [OF assms(1,2) _ _ assms(4,5)] assms(3) unfolding left_def by simp

theorem retry_limit_witness:
  "\<exists>s' q. handle_events (replicate 5 (demo_env\<lparr>ae_set := \<lambda>_ _. (False, 192)\<rparr>, demo_event ''EXPIRE'' 7 5)) demo_ev_st = Some s' \<and>
     notifyMsgQ s' = q \<and> told ''failed_retrying:'' q = 3 \<and> told ''max_retry_reached'' q = 1"
proof -
  let ?env = "demo_env\<lparr>ae_set := \<lambda>_ _. (False, 192)\<rparr>" and ?p = "demo_event ''EXPIRE'' 7 5"
  have r: "retryable ''wan'' 1 wan_doc demo_ev_st" "0 \<le> tmp_retry_count (g_head demo_ev_st ! 1)" "tmp_retry_count (g_head demo_ev_st ! 1) < 3"
    "tmp_error_details (g_head demo_ev_st ! 1) \<noteq> ''max_retry_reached''" "notifyMsgQ demo_ev_st = []"
    by (simp_all add: retryable_def demo_ev_st_def getTmpNode_def checkTmpNACKstatus_def tmp_node_def numeral_eq_Suc)
  have k: "nat (3 - tmp_retry_count (g_head demo_ev_st ! 1)) = 3" by (simp add: demo_ev_st_def)
  have "plain_doc ?env wan_doc" using demo_plain [of wan_doc] by (simp add: plain_doc_def split: prod.splits option.splits)
  moreover have "retry_status 192" by (simp add: retry_status_def CCSP_CRASH_STATUS_CODE_def)
  ultimately have "refused ?env wan_doc True" by (auto simp: refused_def)
  then have "\<forall>e\<in>set (replicate 5 (?env, ?p)). expires_refused ''wan'' wan_doc True e"
    by (simp add: expires_refused_def demo_event_def)
  from retry_limit [OF r(1-4) this, unfolded k r(5)] show ?thesis by (simp add: refusal_def)
qed

section \<open>The periodic retry\<close>

definition retry_due :: "webconfig_tmp_data \<Rightarrow> bool" where
  "retry_due t \<longleftrightarrow>
     tmp_error_code t = of_int CCSP_CRASH_STATUS_CODE
     \<or> (tmp_error_code t = 204 \<and> strstr (tmp_error_details t) ''doc_unsupported'' = None)
     \<or> tmp_error_code t = 191 \<or> tmp_error_code t = 193 \<or> tmp_error_code t = 190"

text \<open>The loop has \<open>n\<close> nodes before it, the next one at \<open>i\<close>. \<open>None\<close> when the list it walks
  over has been deleted by the retry: it then reads the \<open>next\<close> field of a freed node.\<close>

fun failed_docs_walk :: "apply_env \<Rightarrow> nat \<Rightarrow> nat \<Rightarrow> 'z db_st_scheme \<Rightarrow> 'z db_st_scheme option" where
  "failed_docs_walk env 0 i s = Some s"
| "failed_docs_walk env (Suc n) i s =
     (let t = tmp_node i s
      in case (if retry_due t then
                 (if checkRetryTimer (ae_now env) (tmp_retry_timestamp t)
                  then map_option snd (retryMultipartSubdoc env (Some i) (tmp_name t) s)
                  else Some (set_doc_fail 1 (snd (updateRetryTimeDiff (ae_tz env) (ae_now env) (tmp_retry_timestamp t) s))))
               else Some s) of
           None \<Rightarrow> None
         | Some s1 \<Rightarrow> if i < length (g_head s1) then failed_docs_walk env n (Suc i) s1 else None)"

definition failedDocsRetry :: "apply_env \<Rightarrow> 'z db_st_scheme \<Rightarrow> 'z db_st_scheme option" where
  "failedDocsRetry env s = failed_docs_walk env (length (g_head s)) 0 s"

lemma updateRootVersionToDB_walk:
  assumes "apply_inv s" "updateRootVersionToDB s = Some s'" "root_delete_walk False (g_head s)"
  shows "root_delete_walk False (g_head s')"
proof -
  obtain st s1 where c: "checkDBList ''root'' (get_global_root s) None s = Some (st, s1)" "g_head s1 = g_head s"
    using checkDBList_keeps [OF assms(1)] by metis
  show ?thesis
  proof (cases "get_global_root s \<noteq> 0 \<and> getTmpNode ''root'' s1 \<noteq> None")
    case False
    then show ?thesis using assms(2,3) c
      by (cases "get_global_root s = 0") (auto simp: updateRootVersionToDB_def updateTmpList_def)
  next
    case True
    then obtain i where i: "getTmpNode ''root'' s1 = Some i" by auto
    note n = tmp_node_found [OF i]
    let ?f = "tmp_update (get_global_root s) ''success'' ''none'' 0 0 0"
    have h: "g_head s' = upd_at i ?f (g_head s)"
      using assms(2) c i n True by (auto simp: updateRootVersionToDB_def Let_def updateTmpList_def split: if_splits)
    have other: "x \<in> set (g_head s)" if "x \<in> set (g_head s')" "tmp_name x \<noteq> ''root''" for x
      using set_upd_at [of x i ?f "g_head s"] that n c(2) by (auto simp: h tmp_update_def)
    have "\<exists>t\<in>set (g_head s'). tmp_name t \<noteq> ''root''"
    proof -
      obtain t where t: "t \<in> set (g_head s)" "tmp_name t \<noteq> ''root''" using assms(3) by (auto simp: root_delete_walk_success)
      then obtain j where j: "j < length (g_head s)" "g_head s ! j = t" by (auto simp: in_set_conv_nth)
      with t n c(2) have "j \<noteq> i" by auto
      then have "g_head s' ! j = t" using j n c(2) by (simp add: h upd_at_nth)
      moreover have "g_head s' ! j \<in> set (g_head s')" using j by (intro nth_mem) (simp add: h)
      ultimately show ?thesis using t(2) by auto
    qed
    with other assms(3) show ?thesis by (auto simp: root_delete_walk_success)
  qed
qed

lemma store_applied_deletes:
  assumes "apply_inv s" "root_delete_walk False (g_head s)" "store_applied env i name v s = Some s'"
  shows "g_head s' = []"
proof -
  have del: "g_head (deleteRootAndMultipartDocs t) = []" if "root_delete_walk False (g_head t)" for t :: "'a db_st_scheme"
    using that by (simp add: deleteRootAndMultipartDocs_def checkRootDelete_def delete_multipart_def delete_tmp_list_def)
  show ?thesis
  proof (cases "tmp_isSupplementarySync (tmp_node i s) = 0")
    case False
    with assms del show ?thesis by (auto simp: store_applied_def)
  next
    case True
    obtain st s1 where c: "checkDBList name v None s = Some (st, s1)" "apply_inv s1" "g_head s1 = g_head s"
      using checkDBList_keeps [OF assms(1)] by metis
    obtain s2 where s2: "(if checkRootUpdate s1 = WEBCFG_SUCCESS then updateRootVersionToDB s1 else Some s1) = Some s2"
      using assms(3) True c(1) by (cases "if checkRootUpdate s1 = WEBCFG_SUCCESS then updateRootVersionToDB s1 else Some s1")
        (simp_all add: store_applied_def)
    have "root_delete_walk False (g_head s2)"
      using s2 updateRootVersionToDB_walk [OF c(2)] assms(2) c(3) by (auto split: if_splits)
    then show ?thesis using assms(3) True c(1) s2 del by (auto simp: store_applied_def)
  qed
qed

lemma failed_docs_walk_skips:
  assumes "\<forall>j. i \<le> j \<and> j < i + k \<longrightarrow> j < length (g_head s) \<and> \<not> retry_due (g_head s ! j)"
  shows "failed_docs_walk env (k + n) i s = failed_docs_walk env n (i + k) s"
  using assms
proof (induction k arbitrary: i)
  case (Suc k)
  then have "i < length (g_head s)" "\<not> retry_due (tmp_node i s)" by (auto simp: tmp_node_def)
  then have "failed_docs_walk env (Suc k + n) i s = failed_docs_walk env (k + n) (Suc i) s" by simp
  also have "\<dots> = failed_docs_walk env n (Suc i + k) s" using Suc.prems by (intro Suc.IH) auto
  finally show ?case by simp
qed simp

text \<open>When the periodic retry makes the last document succeed that was not yet applied, the
  list in progress is deleted under the loop, which then reads the \<open>next\<close> field of a freed
  node.\<close>

theorem failedDocsRetry_use_after_free:
  assumes "apply_inv s" "g_head s = ts @ t # rest" "\<forall>x\<in>set ts. \<not> retry_due x"
    and "\<forall>x\<in>set (ts @ rest). tmp_name x \<noteq> ''root'' \<longrightarrow> tmp_status x = ''success''"
    and "retry_due t" "tmp_retry_timestamp t \<le> ae_now env" "tmp_retry_count t < 3" "tmp_name t \<noteq> ''root''"
    and "find (\<lambda>gmp. mp_name_space gmp = tmp_name t) (g_mp_head s) = Some gmp" "plain_doc env gmp" "\<forall>r. fst (ae_set env 0 r)"
  shows "failedDocsRetry env s = None"
proof -
  let ?i = "length ts"
  have i: "?i < length (g_head s)" "g_head s ! ?i = t" using assms(2) by (simp_all add: nth_append)
  define s1 where "s1 = s\<lparr>g_head := upd_at ?i (\<lambda>t. t\<lparr>tmp_retry_count := tmp_retry_count t + 1\<rparr>) (g_head s)\<rparr>"
  have c: "checkAndUpdateTmpRetryCount (Some ?i) (tmp_name t) s = (WEBCFG_SUCCESS, s1)"
    using i assms(7) by (simp add: checkAndUpdateTmpRetryCount_def tmp_node_def MAX_APPLY_RETRY_COUNT_def s1_def)
  have s1: "apply_inv s1" "mem_ok s1"
    using retry_count_keeps(1) [OF assms(1), of "Some ?i" "tmp_name t"] c by (simp_all add: apply_inv_def)
  have mp: "mp_name_space gmp = tmp_name t" "g_mp_head s \<noteq> []" "g_mp_head s1 = g_mp_head s"
    using assms(9) by (auto simp: find_Some_iff s1_def)
  define s2 where "s2 = snd (updateTmpList (Some ?i) (mp_name_space gmp) (mp_etag gmp) ''success'' ''none'' 0 0 0 s1)"
  define s3 where "s3 = notify_doc gmp ''success'' ''none'' (tmp_cloud_trans_id (tmp_node ?i s2)) 0 s2"
  have h: "g_head s3 = ts @ done_node (mp_etag gmp) t # rest"
    using i mp(1) assms(2)
    by (simp add: s3_def s2_def s1_def keeps updateTmpList_def upd_at_nth done_node_def [symmetric])
      (simp add: upd_at_def list_update_append)
  have "apply_inv s3" using s1(1) by (simp add: s3_def s2_def keeps)
  moreover have "root_delete_walk False (g_head s3)"
    using assms(4,8) by (auto simp: h root_delete_walk_success)
  moreover obtain s4 where s4: "store_applied env ?i (mp_name_space gmp) (mp_etag gmp) s3 = Some s4"
    using store_applied_safe [OF \<open>apply_inv s3\<close>] by metis
  ultimately have "g_head s4 = []" by (rule store_applied_deletes)
  moreover have "retry_document env gmp ?i s1 = Some (WEBCFG_SUCCESS, s4)"
    unfolding retry_document_accepted [OF s1(2) assms(10,11)] Let_def s2_def [symmetric] s3_def [symmetric] s4 by simp
  then have "retryMultipartSubdoc env (Some ?i) (tmp_name t) s = Some (WEBCFG_SUCCESS, s4)"
    using c mp assms(9) by (simp add: retryMultipartSubdoc_def)
  ultimately have "failed_docs_walk env (Suc (length rest)) ?i s = None"
    using i assms(5,6) by (simp add: tmp_node_def checkRetryTimer_def)
  moreover have "failedDocsRetry env s = failed_docs_walk env (Suc (length rest)) (0 + ?i) s"
    using failed_docs_walk_skips [of 0 ?i s env "Suc (length rest)"] assms(2,3)
    by (simp add: failedDocsRetry_def nth_append)
  ultimately show ?thesis by simp
qed

theorem failedDocsRetry_use_after_free_witness:
  "failedDocsRetry demo_env (ev_st0\<lparr>g_mp_head := [wan_doc], g_head := [root_node, wan_node\<lparr>tmp_status := ''failed'', tmp_error_code := 192\<rparr>],
     numOfMpDocs := 2\<rparr>) = None"
proof (rule failedDocsRetry_use_after_free [where ts = "[root_node]" and rest = "[]"
      and t = "wan_node\<lparr>tmp_status := ''failed'', tmp_error_code := 192\<rparr>"])
  show "apply_inv (ev_st0\<lparr>g_mp_head := [wan_doc], g_head := [root_node, wan_node\<lparr>tmp_status := ''failed'', tmp_error_code := 192\<rparr>],
     numOfMpDocs := 2\<rparr>)"
    by (simp add: apply_inv_def tmp_inv_def db_inv_def db_names_def)
  show "plain_doc demo_env wan_doc" by (rule demo_plain)
  show "\<forall>r. fst (ae_set demo_env 0 r)" using demo_accepts by blast
qed (simp_all add: retry_due_def CCSP_CRASH_STATUS_CODE_def demo_env_def)

end
