(* ===== verification/Url.thy ===== *)
theory Url
  imports Metadata
begin

text \<open>
  The URL of a sync request (\<open>replaceMacWord\<close>, \<open>checkValidURL\<close>) and the values read from the
  device properties (\<open>get_webCfg_interface\<close>, \<open>loadInitURLFromFile\<close>), all of
  \<open>src/src/webcfg_multipart.c\<close>. Buffers are written with their size, so that a write past the
  end is the result \<open>None\<close>; a loop that never ends is \<open>None\<close> as well.
\<close>

section \<open>Replacing the place holder\<close>

text \<open>The first loop of \<open>replaceMacWord\<close>, from the position \<open>&s[i]\<close> on. An empty word
  keeps it at the same place for ever.\<close>

partial_function (option) mac_count :: "string \<Rightarrow> string \<Rightarrow> nat option" where
  "mac_count macW s =
     (case s of
        [] \<Rightarrow> Some 0
      | c # cs \<Rightarrow>
          if strstr s macW = Some s
          then do { cnt \<leftarrow> mac_count macW (drop (length macW) s); Some (Suc cnt) }
          else mac_count macW cs)"

text \<open>The second loop: \<open>result\<close> has \<open>cap\<close> bytes, \<open>r\<close> are those written before index \<open>i\<close>;
  \<open>strcpy\<close> writes the word and its NUL.\<close>

partial_function (option) mac_copy :: "nat \<Rightarrow> string \<Rightarrow> string \<Rightarrow> string \<Rightarrow> string \<Rightarrow> string option" where
  "mac_copy cap macW dev r s =
     (case s of
        [] \<Rightarrow> if length r < cap then Some r else None
      | c # cs \<Rightarrow>
          if strstr s macW = Some s
          then (if length r + length dev < cap then mac_copy cap macW dev (r @ dev) (drop (length macW) s) else None)
          else (if length r < cap then mac_copy cap macW dev (r @ [c]) cs else None))"

definition fallback_mac :: "string option \<Rightarrow> string" where
  "fallback_mac deviceMACW =
     (case deviceMACW of None \<Rightarrow> ''000000000000''
      | Some m \<Rightarrow> if m = [] then ''000000000000'' else m)"

definition replaceMacWord :: "bool \<Rightarrow> string option \<Rightarrow> string option \<Rightarrow> string option \<Rightarrow> string option option" where
  "replaceMacWord mem url macW deviceMACW =
     (case (url, macW) of
        (Some s, Some w) \<Rightarrow>
          do { cnt \<leftarrow> mac_count w s;
               (let dev = fallback_mac deviceMACW;
                    cap = int (length s) + int cnt * (int (length dev) - int (length w)) + 1
                in if mem then map_option Some (mac_copy (nat cap) w dev [] s) else Some None) }
      | _ \<Rightarrow> Some None)"

section \<open>Putting the device's own MAC into the URL\<close>

definition mac_known :: "string option \<Rightarrow> bool" where
  "mac_known mac = (case mac of None \<Rightarrow> False | Some m \<Rightarrow> m \<noteq> [] \<and> \<not> strncmp_eq m ''000000000000'' 12)"

text \<open>The loop that waits for a MAC: \<open>macs i\<close> is what the \<open>i\<close>-th call of
  \<open>get_deviceMAC\<close> returns. The result is the MAC and the seconds slept in each round.\<close>

partial_function (option) mac_wait ::
  "(nat \<Rightarrow> string option) \<Rightarrow> nat \<Rightarrow> nat \<Rightarrow> nat \<Rightarrow> (string \<times> nat list) option" where
  "mac_wait macs i backoff c =
     (let b = (if backoff \<le> 31 then 2 ^ c - 1 else backoff)
      in if mac_known (macs i) then Some (the (macs i), [])
         else do { (m, sleeps) \<leftarrow> mac_wait macs (Suc i) b (if 31 \<le> b then 2 else Suc c);
                   Some (m, b # sleeps) })"

text \<open>Writing the new URL into \<open>modified_url[256]\<close>: the bytes before \<open>start\<close>, which must leave
  room for the NUL, then the MAC and \<open>/config\<close>, each cut at the end of the buffer.\<close>

definition modified_url :: "string \<Rightarrow> string \<Rightarrow> string option" where
  "modified_url before mac =
     (if length before < 256 then Some (fit 256 (fit 256 (before @ mac) @ ''/config'')) else None)"

text \<open>\<open>macs\<close> are the results of the calls of \<open>get_deviceMAC\<close>; besides the URL the seconds slept
  are returned.\<close>

definition checkValidURL :: "(nat \<Rightarrow> string option) \<Rightarrow> string option \<Rightarrow> (string option \<times> nat list) option" where
  "checkValidURL macs url =
     (case url of
        None \<Rightarrow> Some (None, [])
      | Some s \<Rightarrow>
          (case strstr s ''/device/'' of
             None \<Rightarrow> Some (Some s, [])
           | Some suffix \<Rightarrow>
               (let start = drop 8 suffix; before = take (length s - length start) s
                in if take 1 start = ''/'' \<or> strncmp_eq start ''000000000000'' 12
                   then do { (mac, sleeps) \<leftarrow> mac_wait macs 0 0 2;
                             new \<leftarrow> modified_url before mac;
                             Some (Some new, sleeps) }
                   else (case macs 0 of
                           None \<Rightarrow> Some (Some s, [])
                         | Some mac \<Rightarrow>
                             if mac \<noteq> [] \<and> \<not> strncmp_eq mac start 12
                             then do { new \<leftarrow> modified_url before mac; Some (Some new, []) }
                             else Some (Some s, [])))))"

section \<open>The device properties\<close>

text \<open>The first line with the key; its value loses the last byte, meant to be the newline.\<close>

fun device_prop :: "string \<Rightarrow> string list \<Rightarrow> string option" where
  "device_prop key [] = None"
| "device_prop key (str # strs) =
     (case strstr str key of
        None \<Rightarrow> device_prop key strs
      | Some value \<Rightarrow> Some (butlast (drop (length key) value)))"

definition get_webCfg_interface :: "string option \<Rightarrow> string option" where
  "get_webCfg_interface file =
     (case file of None \<Rightarrow> None | Some text \<Rightarrow> device_prop ''WEBCONFIG_INTERFACE='' (fgets_lines 255 text))"

definition loadInitURLFromFile :: "string option \<Rightarrow> string option" where
  "loadInitURLFromFile file =
     (case file of None \<Rightarrow> None | Some text \<Rightarrow> device_prop ''WEBCONFIG_INIT_URL='' (fgets_lines 255 text))"

section \<open>Properties of the replacement\<close>

lemma strstr_prefix: "strstr s w = Some s \<longleftrightarrow> take (length w) s = w"
proof (cases s)
  case (Cons c cs)
  have "strstr cs w \<noteq> Some (c # cs)"
  proof
    have shorter: "strstr xs w = Some ys \<Longrightarrow> length ys \<le> length xs" for xs ys
      by (induction xs) (auto split: if_splits)
    assume "strstr cs w = Some (c # cs)"
    then show False using shorter by fastforce
  qed
  with Cons show ?thesis by simp
qed auto

text \<open>How the loops cut the string: the parts between the words they find.\<close>

function mac_parts :: "string \<Rightarrow> string \<Rightarrow> string list" where
  "mac_parts w s =
     (if w = [] \<or> s = [] then [s]
      else if take (length w) s = w then [] # mac_parts w (drop (length w) s)
      else (let ps = mac_parts w (tl s) in (hd s # hd ps) # tl ps))"
  by pat_completeness auto
termination
  by (relation "measure (\<lambda>(w, s). length s)") auto

declare mac_parts.simps [simp del]

lemma mac_parts_simps [simp]:
  "mac_parts w [] = [[]]"
  "w \<noteq> [] \<Longrightarrow> s \<noteq> [] \<Longrightarrow> take (length w) s = w \<Longrightarrow> mac_parts w s = [] # mac_parts w (drop (length w) s)"
  "w \<noteq> [] \<Longrightarrow> take (length w) (c # cs) \<noteq> w \<Longrightarrow>
    mac_parts w (c # cs) = (c # hd (mac_parts w cs)) # tl (mac_parts w cs)"
  by (simp_all add: mac_parts.simps [of w s] mac_parts.simps [of w "[]"] mac_parts.simps [of w "c # cs"] Let_def)

lemma mac_parts_nonempty [simp]: "mac_parts w s \<noteq> []"
  by (subst mac_parts.simps) (simp add: Let_def)

text \<open>Induction along the loops.\<close>

lemma mac_induct [consumes 1, case_names nil word char]:
  assumes "w \<noteq> []" "P []"
    and "\<And>s. s \<noteq> [] \<Longrightarrow> take (length w) s = w \<Longrightarrow> P (drop (length w) s) \<Longrightarrow> P s"
    and "\<And>c cs. take (length w) (c # cs) \<noteq> w \<Longrightarrow> P cs \<Longrightarrow> P (c # cs)"
  shows "P s"
proof (induction s rule: length_induct)
  case (1 s)
  show ?case
  proof (cases s)
    case Nil
    with assms(2) show ?thesis by simp
  next
    case (Cons c cs)
    show ?thesis
    proof (cases "take (length w) s = w")
      case True
      have "length (drop (length w) s) < length s" using assms(1) Cons by simp
      with 1 have "P (drop (length w) s)" by blast
      with True Cons show ?thesis using assms(3) by blast
    next
      case False
      with 1 Cons show ?thesis using assms(4) [of c cs] by simp
    qed
  qed
qed

lemma join_parts_cons:
  assumes "ps \<noteq> []"
  shows "join d ((c # hd ps) # tl ps) = c # join d ps" "join d ([] # ps) = d @ join d ps"
  using assms by (cases ps; cases "tl ps"; simp)+

lemma join_mac_parts:
  assumes "w \<noteq> []"
  shows "join w (mac_parts w s) = s"
  using assms
proof (induction s rule: mac_induct)
  case (word s)
  then have "join w (mac_parts w s) = w @ drop (length w) s" using assms by (simp add: join_parts_cons)
  then show ?case using word(2) by (metis append_take_drop_id)
next
  case (char c cs)
  then show ?case using assms by (simp add: join_parts_cons)
qed simp

lemma mac_count_simps:
  "mac_count w [] = Some 0"
  "s \<noteq> [] \<Longrightarrow> take (length w) s = w \<Longrightarrow> mac_count w s = do { cnt \<leftarrow> mac_count w (drop (length w) s); Some (Suc cnt) }"
  "take (length w) (c # cs) \<noteq> w \<Longrightarrow> mac_count w (c # cs) = mac_count w cs"
  by (subst mac_count.simps, simp)
    (subst mac_count.simps, auto simp add: strstr_prefix simp del: strstr.simps split: list.split)+

lemma mac_copy_simps:
  "mac_copy cap w dev r [] = (if length r < cap then Some r else None)"
  "s \<noteq> [] \<Longrightarrow> take (length w) s = w \<Longrightarrow> mac_copy cap w dev r s =
    (if length r + length dev < cap then mac_copy cap w dev (r @ dev) (drop (length w) s) else None)"
  "take (length w) (c # cs) \<noteq> w \<Longrightarrow> mac_copy cap w dev r (c # cs) =
    (if length r < cap then mac_copy cap w dev (r @ [c]) cs else None)"
  by (subst mac_copy.simps, simp)
    (subst mac_copy.simps, auto simp add: strstr_prefix simp del: strstr.simps split: list.split)+

lemma mac_count_parts:
  assumes "w \<noteq> []"
  shows "mac_count w s = Some (length (mac_parts w s) - 1)"
  using assms
proof (induction s rule: mac_induct)
  case (word s)
  then show ?case using assms by (cases "mac_parts w (drop (length w) s)") (simp_all add: mac_count_simps)
qed (simp_all add: mac_count_simps assms)

lemma mac_copy_parts:
  assumes "w \<noteq> []" "length r + length (join dev (mac_parts w s)) < cap"
  shows "mac_copy cap w dev r s = Some (r @ join dev (mac_parts w s))"
  using assms
proof (induction s arbitrary: r rule: mac_induct)
  case (word s)
  then show ?case using assms(1) by (simp add: mac_copy_simps join_parts_cons)
next
  case (char c cs)
  then show ?case using assms(1) by (simp add: mac_copy_simps join_parts_cons)
qed (simp_all add: mac_copy_simps)

lemma length_join: "ps \<noteq> [] \<Longrightarrow> int (length (join d ps)) = int (sum_list (map length ps)) + int (length ps - 1) * int (length d)"
  by (induction d ps rule: join.induct) (simp_all add: algebra_simps)

lemma mac_parts_free:
  assumes "w \<noteq> []" "p \<in> set (mac_parts w s)"
  shows "strstr p w = None"
  using assms
proof (induction s arbitrary: p rule: mac_induct)
  case (char c cs)
  let ?p = "hd (mac_parts w cs)"
  have "?p \<in> set (mac_parts w cs)" by simp
  with char have free: "strstr ?p w = None" by blast
  obtain rest where cs: "cs = ?p @ rest"
    using join_mac_parts [OF assms(1), of cs] by (cases "mac_parts w cs"; cases "tl (mac_parts w cs)") auto
  have "take (length w) (c # ?p) \<noteq> w"
  proof
    assume a: "take (length w) (c # ?p) = w"
    then have "length w \<le> length (c # ?p)" by (metis length_take min.cobounded1)
    with a have "take (length w) ((c # ?p) @ rest) = w" by (simp only: take_append) simp
    moreover have "(c # ?p) @ rest = c # cs" using cs by simp
    ultimately show False using char(1) by simp
  qed
  with free have "strstr (c # ?p) w = None" by simp
  with char assms(1) show ?case by (auto dest: list.set_sel(2) [rotated])
qed (use assms in auto)

lemma replaceMacWord_parts:
  assumes "w \<noteq> []"
  shows "replaceMacWord True (Some s) (Some w) mac = Some (Some (join (fallback_mac mac) (mac_parts w s)))"
proof -
  let ?d = "fallback_mac mac" and ?ps = "mac_parts w s"
  have "int (length s) + int (length ?ps - 1) * (int (length ?d) - int (length w)) = int (length (join ?d ?ps))"
    using length_join [of ?ps w] length_join [of ?ps ?d] join_mac_parts [OF assms, of s] by (simp add: algebra_simps)
  then have "nat (int (length s) + int (length ?ps - 1) * (int (length ?d) - int (length w)) + 1) = Suc (length (join ?d ?ps))"
    by simp
  then show ?thesis
    using mac_copy_parts [OF assms, of "[]" ?d s] by (simp add: replaceMacWord_def mac_count_parts [OF assms])
qed

lemma mac_parts_single:
  assumes "m \<notin> set post"
  shows "mac_parts (m # ms) post = [post]"
  using assms by (induction post) auto

lemma mac_parts_one:
  assumes "m \<notin> set pre" "m \<notin> set post"
  shows "mac_parts (m # ms) (pre @ (m # ms) @ post) = [pre, post]"
  using assms by (induction pre) (auto simp: mac_parts_single)

declare mac_parts_simps [simp del]

text \<open>C32: for every URL and every non-empty place holder \<open>replaceMacWord\<close> ends, stays in the
  buffer it allocated, and returns the URL with each place holder replaced by the MAC
  (twelve zeros when it is unknown): the parts between the place holders are unchanged and
  hold no further place holder.\<close>

theorem replaceMacWord_replaces:
  assumes "w \<noteq> []"
  shows "\<exists>ps. s = join w ps \<and> (\<forall>p\<in>set ps. strstr p w = None) \<and>
    replaceMacWord True (Some s) (Some w) mac = Some (Some (join (fallback_mac mac) ps))"
  using join_mac_parts [OF assms] mac_parts_free [OF assms] replaceMacWord_parts [OF assms] by metis

theorem replaceMacWord_replaces_witness:
  "replaceMacWord True (Some ''u/{mac}/c'') (Some ''{mac}'') (Some ''0a1b'') = Some (Some ''u/0a1b/c'')"
proof -
  obtain ps where ps: "''u/{mac}/c'' = join ''{mac}'' ps" "\<forall>p\<in>set ps. strstr p ''{mac}'' = None"
    "replaceMacWord True (Some ''u/{mac}/c'') (Some ''{mac}'') (Some ''0a1b'') = Some (Some (join (fallback_mac (Some ''0a1b'')) ps))"
    using replaceMacWord_replaces [of "''{mac}''" "''u/{mac}/c''" "Some ''0a1b''"] by auto
  moreover have "mac_parts ''{mac}'' ''u/{mac}/c'' = [''u/'', ''/c'']" by code_simp
  ultimately show ?thesis using replaceMacWord_parts [of "''{mac}''" "''u/{mac}/c''" "Some ''0a1b''"] by (simp add: fallback_mac_def)
qed

section \<open>Waiting for the MAC\<close>

text \<open>The seconds slept in round \<open>k\<close>, counted from 0.\<close>

definition backoff_at :: "nat \<Rightarrow> nat" where
  "backoff_at k = 2 ^ (k mod 4 + 2) - 1"

lemma backoff_at_values: "backoff_at k \<in> {3, 7, 15, 31}"
proof -
  have "k mod 4 < 4" by simp
  then have "k mod 4 = 0 \<or> k mod 4 = 1 \<or> k mod 4 = 2 \<or> k mod 4 = 3" by arith
  then show ?thesis by (auto simp: backoff_at_def)
qed

lemma backoff_step: "(if 31 \<le> backoff_at k then 2 else Suc (k mod 4 + 2)) = Suc k mod 4 + 2"
proof -
  have "k mod 4 < 4" by simp
  then have "k mod 4 = 0 \<or> k mod 4 = 1 \<or> k mod 4 = 2 \<or> k mod 4 = 3" by arith
  then show ?thesis by (auto simp: backoff_at_def mod_Suc)
qed

lemma mac_wait_step:
  "\<not> mac_known (macs i) \<Longrightarrow> b \<le> 31 \<Longrightarrow> mac_wait macs i b c =
     do { (m, sleeps) \<leftarrow> mac_wait macs (Suc i) (2 ^ c - 1) (if 31 \<le> (2 ^ c - 1 :: nat) then 2 else Suc c);
          Some (m, (2 ^ c - 1) # sleeps) }"
  by (subst mac_wait.simps) (simp add: Let_def)

lemma mac_wait_rounds:
  assumes "mac_known (macs n)" "i \<le> n" "\<forall>k. i \<le> k \<and> k < n \<longrightarrow> \<not> mac_known (macs k)" "b \<le> 31"
  shows "mac_wait macs i b (i mod 4 + 2) = Some (the (macs n), map backoff_at [i..<n])"
  using assms(2-4)
proof (induction i arbitrary: b rule: inc_induct)
  case base
  then show ?case using assms(1) by (subst mac_wait.simps) (simp add: Let_def)
next
  case (step i)
  have le: "backoff_at i \<le> 31" using backoff_at_values [of i] by auto
  have IH: "mac_wait macs (Suc i) (backoff_at i) (Suc i mod 4 + 2) = Some (the (macs n), map backoff_at [Suc i..<n])"
    using step.IH [OF _ le] step.prems by auto
  have "\<not> mac_known (macs i)" using step by auto
  from mac_wait_step [of macs i b "i mod 4 + 2", OF this step.prems(2)]
  have "mac_wait macs i b (i mod 4 + 2) =
      do { (m, sleeps) \<leftarrow> mac_wait macs (Suc i) (backoff_at i) (Suc i mod 4 + 2); Some (m, backoff_at i # sleeps) }"
    by (simp only: backoff_at_def [symmetric] backoff_step)
  with IH step.hyps show ?case by (simp add: upt_conv_Cons del: upt_Suc)
qed

text \<open>When the MAC of the device is missing from the URL, \<open>checkValidURL\<close> returns as soon as a
  call of \<open>get_deviceMAC\<close> yields one: it has then slept 3, 7, 15, 31, 3, ... seconds, once per
  failed call, and the new URL is the part up to \<open>/device/\<close>, the MAC and \<open>/config\<close>.\<close>

theorem checkValidURL_waits:
  assumes "strstr s ''/device/'' = Some suffix" "take 1 (drop 8 suffix) = ''/'' \<or> strncmp_eq (drop 8 suffix) ''000000000000'' 12"
    and "macs n = Some mac" "mac_known (macs n)" "\<forall>k<n. \<not> mac_known (macs k)"
    and "before = take (length s - length (drop 8 suffix)) s" "length before + length mac + 7 < 256"
  shows "checkValidURL macs (Some s) = Some (Some (before @ mac @ ''/config''), map backoff_at [0..<n])"
proof -
  have "mac_wait macs 0 0 2 = Some (mac, map backoff_at [0..<n])"
    using mac_wait_rounds [of macs n 0 0] assms(3-5) by (simp add: numeral_2_eq_2)
  moreover have "modified_url before mac = Some (before @ mac @ ''/config'')"
    using assms(7) by (simp add: modified_url_def fit_def)
  ultimately show ?thesis using assms(1,2,6) by (simp add: checkValidURL_def Let_def)
qed

definition demo_macs :: "nat \<Rightarrow> string option" where
  "demo_macs i = (if i < 5 then None else Some ''0a1b2c3d4e5f'')"

theorem checkValidURL_waits_witness:
  "checkValidURL demo_macs (Some ''https://x/device//v2'') =
     Some (Some ''https://x/device/0a1b2c3d4e5f/config'', [3, 7, 15, 31, 3])"
proof -
  have "mac_known (demo_macs 5)" "\<forall>k<5. \<not> mac_known (demo_macs k)" "demo_macs 5 = Some ''0a1b2c3d4e5f''"
    by (simp_all add: mac_known_def demo_macs_def)
  moreover have "map backoff_at [0..<5] = [3, 7, 15, 31, 3]" by (simp add: backoff_at_def upt_rec)
  ultimately show ?thesis
    using checkValidURL_waits [of "''https://x/device//v2''" "''/device//v2''" demo_macs 5 "''0a1b2c3d4e5f''" "''https://x/device/''"]
    by simp
qed

text \<open>With a MAC in the URL nothing is waited for: it is kept when it is the device's own, and
  replaced otherwise; whatever followed it in the URL is then replaced by \<open>/config\<close>.\<close>

lemma checkValidURL_other_mac:
  assumes "strstr s ''/device/'' = Some suffix" "take 1 (drop 8 suffix) \<noteq> ''/''" "\<not> strncmp_eq (drop 8 suffix) ''000000000000'' 12"
    and "macs 0 = Some mac" "mac \<noteq> []" "before = take (length s - length (drop 8 suffix)) s" "length before + length mac + 7 < 256"
  shows "checkValidURL macs (Some s) =
    Some (Some (if strncmp_eq mac (drop 8 suffix) 12 then s else before @ mac @ ''/config''), [])"
  using assms by (simp add: checkValidURL_def modified_url_def fit_def Let_def)

text \<open>A prefix of 256 bytes or more does not fit into \<open>modified_url\<close>: the NUL is written behind
  its end.\<close>

lemma checkValidURL_overflow:
  assumes "strstr s ''/device/'' = Some suffix" "take 1 (drop 8 suffix) \<noteq> ''/''" "\<not> strncmp_eq (drop 8 suffix) ''000000000000'' 12"
    and "macs 0 = Some mac" "mac \<noteq> []" "\<not> strncmp_eq mac (drop 8 suffix) 12" "256 \<le> length (take (length s - length (drop 8 suffix)) s)"
  shows "checkValidURL macs (Some s) = None"
  using assms by (simp add: checkValidURL_def modified_url_def Let_def)

lemma device_prop_last_line: "device_prop ''WEBCONFIG_INTERFACE='' [''WEBCONFIG_INTERFACE=erouter0''] = Some ''erouter''"
  by simp

end
