(* ===== verification/Versions.thy ===== *)
theory Versions
  imports Events Url
begin

text \<open>
  What a sync request tells the cloud about the applied documents: the root version, derived
  from the database and the reboot reason (\<open>derive_root_doc_version_string\<close>), and the lists
  of versions and names (\<open>refreshConfigVersionList\<close>), of \<open>src/src/webcfg_multipart.c\<close>.
  The lists are written into buffers of the caller, whose sizes are arguments.
\<close>

section \<open>State and environment of a sync\<close>

text \<open>\<open>requests\<close> is an output of the program: the requests handed to curl.\<close>

datatype ip_resolve = IPRESOLVE_WHATEVER | IPRESOLVE_V4 | IPRESOLVE_V6

record curl_request =
  rq_url :: string
  rq_headers :: "string list"
  rq_ipresolve :: ip_resolve
  rq_interface :: string

record http_st = ev_st +
  g_RebootReason :: string
  reset_once :: int
  g_bootTime :: string
  g_FirmwareVersion :: string
  g_systemReadyTime :: string
  g_productClass :: string
  g_ModelName :: string
  g_PartnerID :: string
  g_AccountID :: string
  g_deviceWanMac :: string
  supportedVersion_header :: "string option"
  supportedDocs_header :: "string option"
  supplementaryDocs_header :: "string option"
  g_interface :: string
  URLVal :: "string option"
  SupplementaryURLVal :: "string option"
  requests :: "curl_request list"

text \<open>The device as the program sees it during one request: the results of the functions of
  the platform layer, and \<open>de_digit_0\<close>, what \<open>(int) (0 / pow (10, (int) log10 (0)))\<close> yields
  on the platform: the conversion of minus infinity to \<open>int\<close> is undefined.\<close>

record device_env =
  de_apply :: apply_env
  de_reboot_reason :: "string option"
  de_auth_token :: string
  de_boot_time :: "string option"
  de_firmware :: "string option"
  de_ready_time :: "string option"
  de_product_class :: "string option"
  de_model :: "string option"
  de_partner_id :: "string option"
  de_account_id :: "string option"
  de_wan_mac :: "string option"
  de_uuid :: string
  de_time :: int
  de_macs :: "nat \<Rightarrow> string option"
  de_properties :: "string option"
  de_url :: string
  de_supplementary_url :: "string \<Rightarrow> string"
  de_set_url_ok :: bool
  de_digit_0 :: "int option"

section \<open>The root version\<close>

definition MAX_LBUFF_SIZE :: nat where "MAX_LBUFF_SIZE = 8192"

definition FACTORY_RESET_REBOOT_REASON :: string where "FACTORY_RESET_REBOOT_REASON = ''factory-reset''"
definition FW_UPGRADE_REBOOT_REASON :: string where "FW_UPGRADE_REBOOT_REASON = ''Software_upgrade''"
definition FORCED_FW_UPGRADE_REBOOT_REASON :: string where
  "FORCED_FW_UPGRADE_REBOOT_REASON = ''Forced_Software_upgrade''"

text \<open>The traversal of \<open>getRootDocVersionFromDBCache\<close>; an entry without a name makes \<open>strcmp\<close>
  read NULL.\<close>

fun root_version_walk ::
  "webconfig_db_data list \<Rightarrow> u32 \<times> string option \<times> int \<Rightarrow> (u32 \<times> string option \<times> int) option" where
  "root_version_walk [] (v, str, n) = Some (v, str, n)"
| "root_version_walk (d # ds) (v, str, n) =
     (case db_name d of
        None \<Rightarrow> None
      | Some name \<Rightarrow>
          if name = ''root''
          then root_version_walk ds (db_version d, (case db_root_string d of None \<Rightarrow> str | Some r \<Rightarrow> Some r), n + 1)
          else root_version_walk ds (v, str, n + 1))"

definition getRootDocVersionFromDBCache :: "'z db_st_scheme \<Rightarrow> (u32 \<times> string option \<times> int) option" where
  "getRootDocVersionFromDBCache s = root_version_walk (webcfgdb_data s) (0, None, 0)"

definition fetch_reboot_reason :: "device_env \<Rightarrow> 'z http_st_scheme \<Rightarrow> 'z http_st_scheme" where
  "fetch_reboot_reason env s =
     (if g_RebootReason s = []
      then (case de_reboot_reason env of None \<Rightarrow> s | Some reason \<Rightarrow> s\<lparr>g_RebootReason := fit 64 reason\<rparr>)
      else s)"

definition no_db_root_string :: "string \<Rightarrow> string" where
  "no_db_root_string reason =
     (if strncmp_eq reason FACTORY_RESET_REBOOT_REASON (length FACTORY_RESET_REBOOT_REASON) then ''NONE''
      else if strncmp_eq reason FW_UPGRADE_REBOOT_REASON (length FW_UPGRADE_REBOOT_REASON)
         \<or> strncmp_eq reason FORCED_FW_UPGRADE_REBOOT_REASON (length FORCED_FW_UPGRADE_REBOOT_REASON)
      then ''NONE-MIGRATION'' else ''NONE-REBOOT'')"

text \<open>With a database file: the root string and version to send, and whether \<open>reset_once\<close> is
  set.\<close>

definition root_from_db :: "int \<Rightarrow> string \<Rightarrow> int \<Rightarrow> u32 \<times> string option \<times> int \<Rightarrow> string option \<times> u32 \<times> bool" where
  "root_from_db status reason once cached =
     (case cached of (root_version, root_string, subdocList) \<Rightarrow>
        if status = 404 \<and> root_string \<in> {Some ''NONE'', Some ''NONE-MIGRATION'', Some ''NONE-REBOOT''}
        then (Some ''POST-NONE'', 0, False)
        else if status = 200 \<and> root_string = Some ''NONE'' then (Some ''POST-NONE'', 0, False)
        else if root_version \<noteq> 0 then
          (if once = 0 \<and> 1 < subdocList
              \<and> (reason = FW_UPGRADE_REBOOT_REASON \<or> reason = FORCED_FW_UPGRADE_REBOOT_REASON)
           then (None, 0, True) else (None, root_version, False))
        else (root_string, root_version, False))"

definition derive_root_doc_version_string ::
  "device_env \<Rightarrow> int \<Rightarrow> 'z http_st_scheme \<Rightarrow> ((string option \<times> u32) \<times> 'z http_st_scheme) option" where
  "derive_root_doc_version_string env status s0 =
     (let s = fetch_reboot_reason env s0; reason = g_RebootReason s
      in if reason = [] then Some ((None, 0), s)
         else (case db_file s of
             None \<Rightarrow> Some ((Some (no_db_root_string reason), 0), s)
           | Some _ \<Rightarrow>
               (case getRootDocVersionFromDBCache s of
                  None \<Rightarrow> None
                | Some cached \<Rightarrow>
                    (case root_from_db status reason (reset_once s) cached of
                       (rs, rv, reset) \<Rightarrow> Some ((rs, rv), if reset then s\<lparr>reset_once := 1\<rparr> else s)))))"

section \<open>The lists of versions and names\<close>

text \<open>\<open>sprintf\<close> into a buffer of \<open>cap\<close> bytes, without a bound and with one.\<close>

definition buf_sprintf :: "nat \<Rightarrow> string \<Rightarrow> string option" where
  "buf_sprintf cap t = (if length t < cap then Some t else None)"

definition buf_snprintf :: "nat \<Rightarrow> nat \<Rightarrow> string \<Rightarrow> string option" where
  "buf_snprintf cap n t = buf_sprintf cap (fit n t)"

fun version_list_walk ::
  "nat \<Rightarrow> nat \<Rightarrow> webconfig_db_data list \<Rightarrow> string \<Rightarrow> string \<Rightarrow> (string \<times> string) option" where
  "version_list_walk vcap dcap [] vs ds = Some (vs, ds)"
| "version_list_walk vcap dcap (d # rest) vs ds =
     (case db_name d of
        None \<Rightarrow> version_list_walk vcap dcap rest vs ds
      | Some name \<Rightarrow>
          if name = ''root'' then version_list_walk vcap dcap rest vs ds
          else (case buf_sprintf vcap (vs @ '','' @ dec (unat (db_version d))) of
              None \<Rightarrow> None
            | Some vs' \<Rightarrow>
                (case buf_snprintf dcap MAX_LBUFF_SIZE (ds @ '','' @ name) of
                   None \<Rightarrow> None
                 | Some ds' \<Rightarrow> version_list_walk vcap dcap rest vs' ds')))"

definition list_root :: "string option \<Rightarrow> u32 \<Rightarrow> nat \<Rightarrow> string option" where
  "list_root root_str root_version vcap =
     (case root_str of
        Some r \<Rightarrow> if r \<noteq> [] then buf_snprintf vcap MAX_LBUFF_SIZE r else buf_sprintf vcap (dec (unat root_version))
      | None \<Rightarrow> buf_sprintf vcap (dec (unat root_version)))"

definition list_versions ::
  "string option \<Rightarrow> u32 \<Rightarrow> nat \<Rightarrow> nat \<Rightarrow> webconfig_db_data list \<Rightarrow> (string \<times> string) option" where
  "list_versions root_str root_version vcap dcap db =
     (if db = [] then map_option (\<lambda>v. (v, [])) (buf_snprintf vcap MAX_LBUFF_SIZE ''0'')
      else (case list_root root_str root_version vcap of
          None \<Rightarrow> None
        | Some vs \<Rightarrow>
            (case buf_snprintf dcap MAX_LBUFF_SIZE ''root'' of
               None \<Rightarrow> None
             | Some ds \<Rightarrow> version_list_walk vcap dcap db vs ds)))"

text \<open>\<open>refreshConfigVersionList\<close> with zeroed buffers of \<open>vcap\<close> and \<open>dcap\<close> bytes.\<close>

definition refreshConfigVersionList ::
  "device_env \<Rightarrow> int \<Rightarrow> nat \<Rightarrow> nat \<Rightarrow> 'z http_st_scheme \<Rightarrow> ((string \<times> string) \<times> 'z http_st_scheme) option" where
  "refreshConfigVersionList env http_status vcap dcap s =
     (case derive_root_doc_version_string env http_status s of
        None \<Rightarrow> None
      | Some ((root_str, root_version), s1) \<Rightarrow>
          (case checkDBList ''root'' root_version root_str s1 of
             None \<Rightarrow> None
           | Some (retStatus, s2) \<Rightarrow>
               (let s3 = (if retStatus = WEBCFG_SUCCESS
                          then snd (addNewDocEntry (ae_write (de_apply env)) (ae_can_open (de_apply env))
                                 (nat (success_doc_count s2)) s2)
                          else s2)
                in map_option (\<lambda>lists. (lists, s3))
                     (list_versions root_str root_version vcap dcap (webcfgdb_data s3)))))"
section \<open>What the lists hold\<close>

definition other_docs :: "webconfig_db_data list \<Rightarrow> webconfig_db_data list" where
  "other_docs db = filter (\<lambda>d. db_name d \<noteq> None \<and> db_name d \<noteq> Some ''root'') db"

definition doc_versions :: "webconfig_db_data list \<Rightarrow> string list" where
  "doc_versions db = map (\<lambda>d. dec (unat (db_version d))) (other_docs db)"

definition doc_names :: "webconfig_db_data list \<Rightarrow> string list" where
  "doc_names db = map (\<lambda>d. the (db_name d)) (other_docs db)"

lemma doc_lists_simps [simp]:
  "doc_versions [] = []" "doc_names [] = []"
  "doc_versions (d # ds) = (if db_name d = None \<or> db_name d = Some ''root'' then doc_versions ds
     else dec (unat (db_version d)) # doc_versions ds)"
  "doc_names (d # ds) = (if db_name d = None \<or> db_name d = Some ''root'' then doc_names ds
     else the (db_name d) # doc_names ds)"
  "length (doc_versions ds) = length (doc_names ds)"
  by (auto simp: doc_versions_def doc_names_def other_docs_def)

lemma join_cons_snoc: "join d (x # y # ys) = join d ((x @ d @ y) # ys)"
  by (cases ys) auto

lemma length_join_hd: "length x \<le> length (join d (x # ys))"
  by (cases ys) auto

lemma length_join_snd: "length (x @ d @ y) \<le> length (join d (x # y # ys))"
  by (cases ys) auto

lemma version_list_walk_fits:
  assumes "length (join '','' (vs # doc_versions db)) < vcap"
    and "length (join '','' (ds # doc_names db)) < dcap" "length (join '','' (ds # doc_names db)) < MAX_LBUFF_SIZE"
  shows "version_list_walk vcap dcap db vs ds = Some (join '','' (vs # doc_versions db), join '','' (ds # doc_names db))"
  using assms
proof (induction db arbitrary: vs ds)
  case (Cons d db)
  show ?case
  proof (cases "db_name d = None \<or> db_name d = Some ''root''")
    case True
    with Cons show ?thesis by auto
  next
    case False
    then obtain n where n: "db_name d = Some n" "n \<noteq> ''root''" by auto
    let ?v = "dec (unat (db_version d))"
    have v: "length (vs @ '','' @ ?v) < vcap"
      using Cons.prems(1) n length_join_snd [of vs "'',''" ?v "doc_versions db"] by simp
    have w: "length (ds @ '','' @ n) < dcap" "length (ds @ '','' @ n) < MAX_LBUFF_SIZE"
      using Cons.prems(2,3) n length_join_snd [of ds "'',''" n "doc_names db"] by simp_all
    have "version_list_walk vcap dcap (d # db) vs ds = version_list_walk vcap dcap db (vs @ '','' @ ?v) (ds @ '','' @ n)"
      using v w n by (simp add: buf_sprintf_def buf_snprintf_def fit_def)
    also have "\<dots> = Some (join '','' ((vs @ '','' @ ?v) # doc_versions db), join '','' ((ds @ '','' @ n) # doc_names db))"
      using Cons.prems n by (intro Cons.IH) (simp_all add: join_cons_snoc del: join.simps)
    finally show ?thesis using n by (simp add: join_cons_snoc del: join.simps)
  qed
qed simp

lemma version_list_walk_overflow:
  assumes "vcap \<le> length (join '','' (vs # doc_versions db))" "length vs < vcap"
  shows "version_list_walk vcap dcap db vs ds = None"
  using assms
proof (induction db arbitrary: vs ds)
  case (Cons d db)
  show ?case
  proof (cases "db_name d = None \<or> db_name d = Some ''root''")
    case True
    with Cons show ?thesis by auto
  next
    case False
    then obtain n where n: "db_name d = Some n" "n \<noteq> ''root''" by auto
    have "vcap \<le> length (join '','' ((vs @ '','' @ dec (unat (db_version d))) # doc_versions db))"
      using Cons.prems(1) n by (simp add: join_cons_snoc del: join.simps)
    with Cons.IH n show ?thesis by (auto simp: buf_sprintf_def split: option.split)
  qed
qed simp

definition root_text :: "string option \<Rightarrow> u32 \<Rightarrow> string" where
  "root_text root_str root_version =
     (case root_str of Some r \<Rightarrow> if r \<noteq> [] then r else dec (unat root_version) | None \<Rightarrow> dec (unat root_version))"

definition version_text :: "string option \<Rightarrow> u32 \<Rightarrow> webconfig_db_data list \<Rightarrow> string" where
  "version_text root_str root_version db = join '','' (root_text root_str root_version # doc_versions db)"

definition name_text :: "webconfig_db_data list \<Rightarrow> string" where
  "name_text db = join '','' (''root'' # doc_names db)"

definition lists_fit :: "string option \<Rightarrow> u32 \<Rightarrow> nat \<Rightarrow> nat \<Rightarrow> webconfig_db_data list \<Rightarrow> bool" where
  "lists_fit root_str root_version vcap dcap db \<longleftrightarrow>
     length (version_text root_str root_version db) < min vcap MAX_LBUFF_SIZE \<and>
     length (name_text db) < min dcap MAX_LBUFF_SIZE"

lemma buf_snprintf_fits: "length t < cap \<Longrightarrow> length t < n \<Longrightarrow> buf_snprintf cap n t = Some t"
  by (simp add: buf_snprintf_def buf_sprintf_def fit_def)

lemma list_root_fits: "length (root_text r v) < min vcap MAX_LBUFF_SIZE \<Longrightarrow> list_root r v vcap = Some (root_text r v)"
  by (auto simp: list_root_def root_text_def buf_sprintf_def buf_snprintf_def fit_def split: option.splits)

lemma list_versions_fits:
  assumes "lists_fit r v vcap dcap db" "db \<noteq> []"
  shows "list_versions r v vcap dcap db = Some (version_text r v db, name_text db)"
proof -
  have "length (root_text r v) < min vcap MAX_LBUFF_SIZE"
    using assms(1) length_join_hd [of "root_text r v" "'',''" "doc_versions db"]
    by (auto simp: lists_fit_def version_text_def simp del: join.simps)
  moreover have "length ''root'' < min dcap MAX_LBUFF_SIZE"
    using assms(1) length_join_hd [of "''root''" "'',''" "doc_names db"]
    by (auto simp: lists_fit_def name_text_def simp del: join.simps)
  then have "buf_snprintf dcap MAX_LBUFF_SIZE ''root'' = Some ''root''" by (intro buf_snprintf_fits) auto
  ultimately show ?thesis
    using assms version_list_walk_fits [of "root_text r v" db vcap "''root''" dcap]
    by (simp add: list_versions_def list_root_fits lists_fit_def version_text_def name_text_def del: join.simps)
qed

lemma list_versions_overflow:
  assumes "vcap \<le> length (version_text r v db)" "length (root_text r v) < min vcap MAX_LBUFF_SIZE" "db \<noteq> []"
  shows "list_versions r v vcap dcap db = None"
  using assms version_list_walk_overflow [of vcap "root_text r v" db]
  by (simp add: list_versions_def list_root_fits version_text_def split: option.split)
section \<open>The root version in the database\<close>

lemma root_version_walk_none:
  "None \<notin> set (db_names ds) \<Longrightarrow> db_map ds ''root'' = None \<Longrightarrow>
   root_version_walk ds (v, str, n) = Some (v, str, n + int (length ds))"
  by (induction ds arbitrary: n) (auto simp: db_names_def split: if_splits option.splits)

lemma root_version_walk_eq:
  assumes "None \<notin> set (db_names ds)" "distinct (db_names ds)"
  shows "root_version_walk ds (0, None, n) =
    Some (case db_map ds ''root'' of None \<Rightarrow> (0, None, n + int (length ds)) | Some (v, r) \<Rightarrow> (v, r, n + int (length ds)))"
  using assms
proof (induction ds arbitrary: n)
  case (Cons d ds)
  obtain name where d: "db_name d = Some name" using Cons.prems(1) by (cases "db_name d") (auto simp: db_names_def)
  show ?case
  proof (cases "name = ''root''")
    case True
    then have "db_map ds ''root'' = None" using Cons.prems d by (auto simp: db_names_def db_map_def find_None_iff image_iff)
    with Cons.prems True d show ?thesis
      by (simp add: root_version_walk_none db_names_def split: option.split)
  next
    case False
    with Cons d show ?thesis by (simp add: db_names_def split: option.splits prod.splits)
  qed
qed simp

lemma getRootDocVersion_eq:
  assumes "db_inv s"
  shows "getRootDocVersionFromDBCache s =
    Some (case db_map (webcfgdb_data s) ''root'' of
        None \<Rightarrow> (0, None, int (length (webcfgdb_data s)))
      | Some (v, r) \<Rightarrow> (v, r, int (length (webcfgdb_data s))))"
  using assms by (simp add: getRootDocVersionFromDBCache_def db_inv_def root_version_walk_eq split: option.split)

lemma fetch_reboot_reason_frame:
  "apply_inv (fetch_reboot_reason env s) = apply_inv s" "ev_ok e (fetch_reboot_reason env s) = ev_ok e s"
  "webcfgdb_data (fetch_reboot_reason env s) = webcfgdb_data s" "db_file (fetch_reboot_reason env s) = db_file s"
  by (simp_all add: fetch_reboot_reason_def apply_inv_def tmp_inv_def db_inv_def ev_ok_def timer_inv_def split: option.split)

lemma reset_once_frame:
  "apply_inv (s\<lparr>reset_once := k\<rparr>) = apply_inv s" "ev_ok e (s\<lparr>reset_once := k\<rparr>) = ev_ok e s"
  by (simp_all add: apply_inv_def tmp_inv_def db_inv_def ev_ok_def timer_inv_def)

lemma derive_total:
  assumes "db_inv s"
  obtains rs rv s1 where "derive_root_doc_version_string env status s = Some ((rs, rv), s1)"
    "apply_inv s1 = apply_inv s" "\<And>e. ev_ok e s1 = ev_ok e s" "webcfgdb_data s1 = webcfgdb_data s"
proof -
  let ?s = "fetch_reboot_reason env s"
  have inv: "db_inv ?s" using assms by (simp add: fetch_reboot_reason_def db_inv_def split: option.split)
  obtain v r n where g: "getRootDocVersionFromDBCache ?s = Some (v, r, n)"
    using getRootDocVersion_eq [OF inv] by (cases "db_map (webcfgdb_data ?s) ''root''") auto
  have "\<exists>rs rv s1. derive_root_doc_version_string env status s = Some ((rs, rv), s1) \<and> (s1 = ?s \<or> s1 = ?s\<lparr>reset_once := 1\<rparr>)"
  proof (cases "db_file ?s")
    case None
    then show ?thesis by (simp add: derive_root_doc_version_string_def Let_def)
  next
    case (Some f)
    then show ?thesis by (simp add: derive_root_doc_version_string_def Let_def g split: prod.split)
  qed
  then obtain rs rv s1 where d: "derive_root_doc_version_string env status s = Some ((rs, rv), s1)" "s1 = ?s \<or> s1 = ?s\<lparr>reset_once := 1\<rparr>"
    by blast
  from d(2) have "apply_inv s1 = apply_inv s" "\<And>e. ev_ok e s1 = ev_ok e s" "webcfgdb_data s1 = webcfgdb_data s"
    by (auto simp: fetch_reboot_reason_frame reset_once_frame)
  with d(1) that show thesis by blast
qed

section \<open>One refresh\<close>

lemma updateDB_walk_root:
  "updateDB_walk ''root'' v r ds = Some (st, ds') \<Longrightarrow> doc_versions ds' = doc_versions ds \<and> doc_names ds' = doc_names ds"
  by (induction ds arbitrary: ds') (auto split: option.splits if_splits)

lemma doc_lists_append [simp]:
  "doc_versions (a @ b) = doc_versions a @ doc_versions b" "doc_names (a @ b) = doc_names a @ doc_names b"
  by (simp_all add: doc_versions_def doc_names_def other_docs_def)

lemma updateDB_walk_miss: "updateDB_walk d v r ds = Some (WEBCFG_FAILURE, ds') \<Longrightarrow> ds' = ds"
  by (induction ds arbitrary: ds') (auto split: option.splits if_splits)

lemma checkDBList_root_docs:
  assumes "checkDBList ''root'' v r s = Some (st, s')"
  shows "doc_versions (webcfgdb_data s') = doc_versions (webcfgdb_data s) \<and>
    doc_names (webcfgdb_data s') = doc_names (webcfgdb_data s)"
proof -
  obtain st0 ds where w: "updateDB_walk ''root'' v r (webcfgdb_data s) = Some (st0, ds)"
    using assms by (auto simp: checkDBList_def updateDBlist_def split: option.splits)
  from updateDB_walk_root [OF w] assms show ?thesis
    by (auto simp: checkDBList_def updateDBlist_def addToDBList_def db_append_def w
        split: WEBCFG_STATUS.splits if_splits)
qed

text \<open>What a refresh does to a state in order: root is recorded in the database as derived, nothing
  else changes there, and the lists are those of the database, unless they do not fit.\<close>

lemma refresh_spec:
  fixes s :: "'z http_st_scheme"
  assumes "apply_inv s" "derive_root_doc_version_string env status s = Some ((rs, rv), s1)"
  obtains s' :: "'z http_st_scheme" where
    "refreshConfigVersionList env status vcap dcap s =
      map_option (\<lambda>lists. (lists, s')) (list_versions rs rv vcap dcap (webcfgdb_data s'))"
    "apply_inv s'" "\<And>e. ev_ok e s \<Longrightarrow> ev_ok e s'" "webcfgdb_data s' \<noteq> []"
    "db_map (webcfgdb_data s') = db_update ''root'' rv rs (db_map (webcfgdb_data s))"
    "doc_versions (webcfgdb_data s') = doc_versions (webcfgdb_data s)" "doc_names (webcfgdb_data s') = doc_names (webcfgdb_data s)"
    "same_docs s1 s'" "g_head s' = g_head s1" "db_st.more s' = db_st.more s1"
proof -
  have inv: "db_inv s" using assms(1) by (simp add: apply_inv_def)
  from derive_total [OF inv] assms(2) have s1: "apply_inv s1" "\<And>e. ev_ok e s1 = ev_ok e s" "webcfgdb_data s1 = webcfgdb_data s"
    using assms(1) by (metis (no_types, lifting) Pair_inject option.inject)+
  from checkDBList_keeps [OF s1(1)] obtain st s2 where c: "checkDBList ''root'' rv rs s1 = Some (st, s2)" "apply_inv s2"
    "same_docs s1 s2" "g_head s2 = g_head s1" "db_map (webcfgdb_data s2) = db_update ''root'' rv rs (db_map (webcfgdb_data s1))"
    by metis
  let ?s3 = "if st = WEBCFG_SUCCESS then snd (addNewDocEntry (ae_write (de_apply env)) (ae_can_open (de_apply env))
        (nat (success_doc_count s2)) s2) else s2"
  have db: "webcfgdb_data ?s3 = webcfgdb_data s2" "g_head ?s3 = g_head s2" "db_st.more ?s3 = db_st.more s2"
    by (simp_all add: addNewDocEntry_def writeToDBFile_def split: option.split)
  have "ev_frame s1 s2" by (rule checkDBList_ev [OF c(1)])
  then have f: "ev_frame s1 ?s3" by (simp add: evkeeps)
  have a: "apply_inv ?s3" "same_docs s1 ?s3" using c(2,3) by (simp_all add: keeps)
  have "db_map (webcfgdb_data s2) ''root'' \<noteq> None" using c(5) by (simp add: db_update_def)
  then have ne: "webcfgdb_data s2 \<noteq> []" by auto
  show thesis
  proof (rule that [of ?s3])
    show "refreshConfigVersionList env status vcap dcap s =
        map_option (\<lambda>lists. (lists, ?s3)) (list_versions rs rv vcap dcap (webcfgdb_data ?s3))"
      using assms(2) c(1) by (simp add: refreshConfigVersionList_def Let_def)
    show "ev_ok e ?s3" if "ev_ok e s" for e using ev_ok_frame [of e s1 ?s3] a(1) f that s1(2) by blast
    show "db_st.more ?s3 = db_st.more s1" using f by (simp only: ev_frame_def)
  qed (use a db ne c s1(3) checkDBList_root_docs [OF c(1)] in simp_all)
qed
text \<open>The part of the state a refresh changes.\<close>

lemma derive_form:
  assumes "derive_root_doc_version_string env status s = Some (x, s1)"
  shows "\<exists>r k. s1 = s\<lparr>g_RebootReason := r, reset_once := k\<rparr>"
proof -
  let ?s = "fetch_reboot_reason env s"
  have f: "\<exists>r. ?s = s\<lparr>g_RebootReason := r\<rparr>"
    by (cases "g_RebootReason s = []"; cases "de_reboot_reason env")
      (auto simp: fetch_reboot_reason_def intro: exI [of _ "g_RebootReason s"])
  then obtain r where r: "?s = s\<lparr>g_RebootReason := r\<rparr>" by blast
  have "s1 = ?s \<or> s1 = ?s\<lparr>reset_once := 1\<rparr>"
    using assms by (auto simp: derive_root_doc_version_string_def Let_def split: if_splits option.splits prod.splits)
  with r have "s1 = s\<lparr>g_RebootReason := r, reset_once := reset_once s\<rparr> \<or> s1 = s\<lparr>g_RebootReason := r, reset_once := 1\<rparr>"
    by auto
  then show ?thesis by blast
qed

lemma checkDBList_form:
  assumes "checkDBList d v r s = Some (st, s')"
  shows "\<exists>db n. s' = s\<lparr>webcfgdb_data := db, success_doc_count := n\<rparr>"
proof -
  obtain st0 ds where w: "updateDB_walk d v r (webcfgdb_data s) = Some (st0, ds)"
    using assms by (auto simp: checkDBList_def updateDBlist_def split: option.splits)
  have same: "s\<lparr>webcfgdb_data := ds\<rparr> = s\<lparr>webcfgdb_data := ds, success_doc_count := success_doc_count s\<rparr>" by simp
  have "s' = s\<lparr>webcfgdb_data := ds\<rparr> \<or> (\<exists>e. s' = addToDBList e (s\<lparr>webcfgdb_data := ds\<rparr>))"
    using assms w by (cases st0) (auto simp: checkDBList_def updateDBlist_def split: if_splits)
  then show ?thesis
  proof
    assume "s' = s\<lparr>webcfgdb_data := ds\<rparr>"
    from trans [OF this same] show ?thesis by (intro exI)
  qed (auto simp: addToDBList_def)
qed

lemma addNewDocEntry_form: "\<exists>f. snd (addNewDocEntry w can n s) = s\<lparr>db_file := f\<rparr>"
proof (cases can)
  case True
  then show ?thesis
    by (cases "webcfgdb_pack w (mem_ok s) (webcfgdb_data s) n") (auto simp: addNewDocEntry_def writeToDBFile_def)
next
  case False
  then have "snd (addNewDocEntry w can n s) = s" by (simp add: addNewDocEntry_def writeToDBFile_def)
  also have "\<dots> = s\<lparr>db_file := db_file s\<rparr>" by simp
  finally show ?thesis by (rule exI)
qed

lemma refresh_form:
  assumes "refreshConfigVersionList env status vcap dcap s = Some (texts, s')"
  shows "\<exists>r k db n f. s' = s\<lparr>g_RebootReason := r, reset_once := k, webcfgdb_data := db, success_doc_count := n, db_file := f\<rparr>"
proof -
  obtain x s1 st s2 where d: "derive_root_doc_version_string env status s = Some (x, s1)"
    and c: "checkDBList ''root'' (snd x) (fst x) s1 = Some (st, s2)"
    and s': "s' = (if st = WEBCFG_SUCCESS then snd (addNewDocEntry (ae_write (de_apply env)) (ae_can_open (de_apply env))
        (nat (success_doc_count s2)) s2) else s2)"
    using assms by (auto simp: refreshConfigVersionList_def Let_def split: option.splits prod.splits)
  obtain f where f: "s' = s2\<lparr>db_file := f\<rparr>"
  proof (cases "st = WEBCFG_SUCCESS")
    case True
    with s' addNewDocEntry_form that show thesis by (metis (full_types))
  next
    case False
    then have "s' = s2\<lparr>db_file := db_file s2\<rparr>" using s' by simp
    then show thesis by (rule that)
  qed
  from derive_form [OF d] checkDBList_form [OF c] obtain r k db n where
    "s1 = s\<lparr>g_RebootReason := r, reset_once := k\<rparr>" "s2 = s1\<lparr>webcfgdb_data := db, success_doc_count := n\<rparr>" by blast
  with f have "s' = s\<lparr>g_RebootReason := r, reset_once := k, webcfgdb_data := db, success_doc_count := n, db_file := f\<rparr>" by simp
  then show ?thesis by blast
qed

text \<open>A bound that keeps the lists within their buffers, and that a refresh keeps: the names, and
  the versions with the longest root entry that can be derived.\<close>

definition root_string_length :: "webconfig_db_data list \<Rightarrow> nat" where
  "root_string_length db = (case db_map db ''root'' of Some (_, Some r) \<Rightarrow> length r | _ \<Rightarrow> 0)"

definition lists_short :: "nat \<Rightarrow> webconfig_db_data list \<Rightarrow> bool" where
  "lists_short cap db \<longleftrightarrow>
     length (name_text db) < min cap MAX_LBUFF_SIZE \<and>
     length (join '','' ([] # doc_versions db)) + max 14 (root_string_length db) < min cap MAX_LBUFF_SIZE"

lemma length_join_cons: "length (join d (x # ys)) = length x + length (join d ([] # ys))"
  by (cases ys) auto

lemma length_root_text: "length (root_text r v) \<le> max 10 (case r of None \<Rightarrow> 0 | Some x \<Rightarrow> length x)"
proof -
  have "unat v < 2 ^ 32" using unsigned_less [of v, where ?'a = nat] by simp
  then show ?thesis using length_dec_u32 by (auto simp: root_text_def max_def le_max_iff_disj split: option.split)
qed

lemma derived_length:
  assumes "db_inv s" "derive_root_doc_version_string env status s = Some ((rs, rv), s1)"
  shows "(case rs of None \<Rightarrow> 0 | Some x \<Rightarrow> length x) \<le> max 14 (root_string_length (webcfgdb_data s))"
proof -
  let ?s = "fetch_reboot_reason env s"
  have inv: "db_inv ?s" using assms(1) by (simp add: fetch_reboot_reason_def db_inv_def split: option.split)
  have none: "length (no_db_root_string r) \<le> 14" for r by (simp add: no_db_root_string_def)
  have cached: "(case fst (root_from_db status reason k (v, r, n)) of None \<Rightarrow> 0 | Some x \<Rightarrow> length x)
      \<le> max 14 (case r of None \<Rightarrow> 0 | Some x \<Rightarrow> length x)" for reason k v r n
    by (simp add: root_from_db_def max_def split: option.split)
  obtain v r n where g: "getRootDocVersionFromDBCache ?s = Some (v, r, n)"
    "(case r of None \<Rightarrow> 0 | Some x \<Rightarrow> length x) = root_string_length (webcfgdb_data s)"
    using getRootDocVersion_eq [OF inv]
    by (cases "db_map (webcfgdb_data ?s) ''root''") (auto simp: root_string_length_def fetch_reboot_reason_frame split: option.split)
  show ?thesis
    using assms(2) none [of "g_RebootReason ?s"] cached [of "g_RebootReason ?s" "reset_once ?s" v r n] g
    by (auto simp: derive_root_doc_version_string_def Let_def le_max_iff_disj split: if_splits option.splits prod.splits)
qed

lemma lists_short_fit:
  assumes "db_inv s" "derive_root_doc_version_string env status s = Some ((rs, rv), s1)" "lists_short cap (webcfgdb_data s)"
  shows "lists_fit rs rv cap cap (webcfgdb_data s)"
proof -
  have "length (root_text rs rv) \<le> max 14 (root_string_length (webcfgdb_data s))"
    using length_root_text [of rs rv] derived_length [OF assms(1,2)] by linarith
  with assms(3) show ?thesis
    by (auto simp: lists_fit_def lists_short_def version_text_def length_join_cons [of _ "root_text rs rv"] simp del: join.simps)
qed

text \<open>Within this bound a refresh succeeds, whatever the status, and stays within the bound.\<close>

lemma refresh_short:
  fixes s :: "'z http_st_scheme"
  assumes "apply_inv s" "lists_short cap (webcfgdb_data s)"
  obtains rs rv s1 and s' :: "'z http_st_scheme" where "derive_root_doc_version_string env status s = Some ((rs, rv), s1)"
    "refreshConfigVersionList env status cap cap s =
      Some ((version_text rs rv (webcfgdb_data s'), name_text (webcfgdb_data s')), s')"
    "apply_inv s'" "\<And>e. ev_ok e s \<Longrightarrow> ev_ok e s'" "lists_short cap (webcfgdb_data s')"
    "db_map (webcfgdb_data s') = db_update ''root'' rv rs (db_map (webcfgdb_data s))"
    "doc_versions (webcfgdb_data s') = doc_versions (webcfgdb_data s)" "doc_names (webcfgdb_data s') = doc_names (webcfgdb_data s)"
proof -
  have inv: "db_inv s" using assms(1) by (simp add: apply_inv_def)
  from derive_total [OF inv, of env status] obtain rs rv s1 where
    d: "derive_root_doc_version_string env status s = Some ((rs, rv), s1)" by metis
  from refresh_spec [OF assms(1) d, of cap cap] obtain s' :: "'z http_st_scheme" where s':
    "refreshConfigVersionList env status cap cap s =
      map_option (\<lambda>lists. (lists, s')) (list_versions rs rv cap cap (webcfgdb_data s'))"
    "apply_inv s'" "\<And>e. ev_ok e s \<Longrightarrow> ev_ok e s'" "webcfgdb_data s' \<noteq> []"
    "db_map (webcfgdb_data s') = db_update ''root'' rv rs (db_map (webcfgdb_data s))"
    "doc_versions (webcfgdb_data s') = doc_versions (webcfgdb_data s)" "doc_names (webcfgdb_data s') = doc_names (webcfgdb_data s)"
    by metis
  have fit: "lists_fit rs rv cap cap (webcfgdb_data s')"
    using lists_short_fit [OF inv d assms(2)] s'(6,7) by (simp add: lists_fit_def version_text_def name_text_def)
  have "root_string_length (webcfgdb_data s') \<le> max 14 (root_string_length (webcfgdb_data s))"
    using derived_length [OF inv d] s'(5) by (simp add: root_string_length_def db_update_def split: option.splits)
  then have "max 14 (root_string_length (webcfgdb_data s')) \<le> max 14 (root_string_length (webcfgdb_data s))" by simp
  then have "lists_short cap (webcfgdb_data s')"
    using assms(2) unfolding lists_short_def name_text_def s'(6,7) min_less_iff_conj by linarith
  moreover have "refreshConfigVersionList env status cap cap s =
      Some ((version_text rs rv (webcfgdb_data s'), name_text (webcfgdb_data s')), s')"
    using s'(1) list_versions_fits [OF fit s'(4)] by simp
  ultimately show thesis using that d s' by blast
qed

section \<open>Properties of the lists\<close>

lemma db_map_member:
  "distinct (db_names ds) \<Longrightarrow> d \<in> set ds \<Longrightarrow> db_name d = Some n \<Longrightarrow> db_map ds n = Some (db_version d, db_root_string d)"
  by (induction ds) (auto simp: db_names_def image_iff)

lemma doc_names_nth:
  assumes "i < length (doc_names db)" "distinct (db_names db)"
  shows "\<exists>r. db_map db (doc_names db ! i) = Some (ucast (strtoul0 (doc_versions db ! i)), r)"
proof -
  let ?d = "other_docs db ! i"
  have i: "i < length (other_docs db)" using assms(1) by (simp add: doc_names_def)
  then have "?d \<in> set (other_docs db)" by simp
  then obtain n where d: "?d \<in> set db" "db_name ?d = Some n" by (auto simp: other_docs_def)
  define m where m: "m = unat (db_version ?d)"
  have "m < 2 ^ 64" using unsigned_less [of "db_version ?d", where ?'a = nat] by (simp add: m)
  then have "ucast (strtoul0 (dec m)) = db_version ?d" by (simp add: strtoul0_dec) (simp add: m)
  with db_map_member [OF assms(2) d] d(2) i show ?thesis by (simp add: doc_names_def doc_versions_def m)
qed

lemma doc_names_set:
  assumes "None \<notin> set (db_names db)"
  shows "n \<in> set (doc_names db) \<longleftrightarrow> n \<noteq> ''root'' \<and> db_map db n \<noteq> None"
  using assms by (induction db) (auto simp: db_names_def)

lemma root_text_nonempty [simp]: "root_text r v \<noteq> []"
  by (simp add: root_text_def dec_nonempty split: option.split)

definition plain_names :: "webconfig_db_data list \<Rightarrow> bool" where
  "plain_names db \<longleftrightarrow> (\<forall>n\<in>set (doc_names db). n \<noteq> [] \<and> CHR '','' \<notin> set n)"

text \<open>C11: the two lists of a sync request, when they fit their buffers, split at the commas into
  equally many entries: \<open>root\<close> with its derived version or string first, and then the name
  and the version of every other document of the database, in the same order.\<close>

theorem version_lists_match:
  assumes "apply_inv s" "derive_root_doc_version_string env status s = Some ((rs, rv), s1)"
    and "plain_names (webcfgdb_data s)" "CHR '','' \<notin> set (root_text rs rv)" "lists_fit rs rv vcap dcap (webcfgdb_data s)"
  shows "\<exists>vs ds names versions s'. refreshConfigVersionList env status vcap dcap s = Some ((vs, ds), s') \<and>
    strtok_all '','' vs = root_text rs rv # versions \<and> strtok_all '','' ds = ''root'' # names \<and>
    length versions = length names \<and>
    (\<forall>i<length names. \<exists>r. db_map (webcfgdb_data s') (names ! i) = Some (ucast (strtoul0 (versions ! i)), r)) \<and>
    (\<forall>n. n \<in> set names \<longleftrightarrow> n \<noteq> ''root'' \<and> db_map (webcfgdb_data s) n \<noteq> None) \<and>
    db_map (webcfgdb_data s') = db_update ''root'' rv rs (db_map (webcfgdb_data s))"
proof -
  from refresh_spec [OF assms(1,2), of vcap dcap] obtain s' where s':
    "refreshConfigVersionList env status vcap dcap s =
      map_option (\<lambda>lists. (lists, s')) (list_versions rs rv vcap dcap (webcfgdb_data s'))"
    "apply_inv s'" "webcfgdb_data s' \<noteq> []" "db_map (webcfgdb_data s') = db_update ''root'' rv rs (db_map (webcfgdb_data s))"
    "doc_versions (webcfgdb_data s') = doc_versions (webcfgdb_data s)" "doc_names (webcfgdb_data s') = doc_names (webcfgdb_data s)"
    by metis
  let ?db = "webcfgdb_data s'"
  have fit: "lists_fit rs rv vcap dcap ?db" using assms(5) s'(5,6) by (simp add: lists_fit_def version_text_def name_text_def)
  have inv: "None \<notin> set (db_names (webcfgdb_data s))" "distinct (db_names ?db)"
    using assms(1) s'(2) by (auto simp: apply_inv_def db_inv_def)
  have vs: "strtok_all '','' (version_text rs rv ?db) = root_text rs rv # doc_versions ?db"
    unfolding version_text_def using assms(4)
    by (intro strtok_all_join) (auto simp: doc_versions_def dec_nonempty dest: dec_plain)
  have ds: "strtok_all '','' (name_text ?db) = ''root'' # doc_names ?db"
    unfolding name_text_def using assms(3) s'(6) by (intro strtok_all_join) (simp add: plain_names_def)
  have "refreshConfigVersionList env status vcap dcap s = Some ((version_text rs rv ?db, name_text ?db), s')"
    using s'(1) list_versions_fits [OF fit s'(3)] by simp
  moreover have "\<forall>i<length (doc_names ?db). \<exists>r. db_map ?db (doc_names ?db ! i) = Some (ucast (strtoul0 (doc_versions ?db ! i)), r)"
    using doc_names_nth [OF _ inv(2)] by blast
  moreover have "\<forall>n. n \<in> set (doc_names ?db) \<longleftrightarrow> n \<noteq> ''root'' \<and> db_map (webcfgdb_data s) n \<noteq> None"
    using doc_names_set [OF inv(1)] s'(6) by simp
  ultimately show ?thesis using vs ds s'(4) by (metis doc_lists_simps(5))
qed

text \<open>As long as the platform reports no reboot reason, every refresh of the lists sets the
  root version in the database to 0 and asks the cloud with root version 0, whatever version
  is stored.\<close>

theorem unknown_reason_erases_root:
  assumes "apply_inv s" "g_RebootReason s = []" "de_reboot_reason env = None"
    and "lists_fit None 0 vcap dcap (webcfgdb_data s)"
  shows "\<exists>vs ds s'. refreshConfigVersionList env status vcap dcap s = Some ((vs, ds), s') \<and>
    vs = join '','' (''0'' # doc_versions (webcfgdb_data s)) \<and> db_map (webcfgdb_data s') ''root'' = Some (0, None)"
proof -
  have d: "derive_root_doc_version_string env status s = Some ((None, 0), s)"
    using assms(2,3) by (simp add: derive_root_doc_version_string_def fetch_reboot_reason_def)
  from refresh_spec [OF assms(1) d, of vcap dcap] obtain s' where s':
    "refreshConfigVersionList env status vcap dcap s =
      map_option (\<lambda>lists. (lists, s')) (list_versions None 0 vcap dcap (webcfgdb_data s'))"
    "webcfgdb_data s' \<noteq> []" "db_map (webcfgdb_data s') = db_update ''root'' 0 None (db_map (webcfgdb_data s))"
    "doc_versions (webcfgdb_data s') = doc_versions (webcfgdb_data s)" "doc_names (webcfgdb_data s') = doc_names (webcfgdb_data s)"
    by metis
  have "lists_fit None 0 vcap dcap (webcfgdb_data s')" using assms(4) s'(4,5) by (simp add: lists_fit_def version_text_def name_text_def)
  from s'(1) list_versions_fits [OF this s'(2)] s'(3,4) show ?thesis
    by (simp add: version_text_def root_text_def dec_zero db_update_def)
qed

text \<open>After a firmware upgrade a device with applied documents sends root version 0 in the first
  request, so that the cloud sends everything again, and the stored root version in every
  later one.\<close>

theorem firmware_upgrade_resets_once:
  assumes "db_inv s" "g_RebootReason (fetch_reboot_reason env s) \<in> {FW_UPGRADE_REBOOT_REASON, FORCED_FW_UPGRADE_REBOOT_REASON}"
    and "db_file s \<noteq> None" "db_map (webcfgdb_data s) ''root'' = Some (v, r)" "v \<noteq> 0" "1 < length (webcfgdb_data s)" "reset_once s = 0"
    and "db_inv s2" "g_RebootReason s2 = g_RebootReason (fetch_reboot_reason env s)" "db_file s2 \<noteq> None"
    and "db_map (webcfgdb_data s2) ''root'' = Some (v2, r2)" "v2 \<noteq> 0" "reset_once s2 \<noteq> 0"
  shows "(\<exists>s1. derive_root_doc_version_string env 0 s = Some ((None, 0), s1) \<and> reset_once s1 \<noteq> 0) \<and>
    derive_root_doc_version_string env2 0 s2 = Some ((None, v2), s2)"
proof -
  let ?s = "fetch_reboot_reason env s"
  have reason: "g_RebootReason ?s \<noteq> []" using assms(2) by (auto simp: FW_UPGRADE_REBOOT_REASON_def FORCED_FW_UPGRADE_REBOOT_REASON_def)
  have f: "reset_once ?s = 0" "db_inv ?s" using assms(1,7) by (simp_all add: fetch_reboot_reason_def db_inv_def split: option.split)
  have g: "getRootDocVersionFromDBCache ?s = Some (v, r, int (length (webcfgdb_data s)))"
    using assms(4) by (simp add: getRootDocVersion_eq [OF f(2)] fetch_reboot_reason_frame)
  have g2: "getRootDocVersionFromDBCache s2 = Some (v2, r2, int (length (webcfgdb_data s2)))"
    using assms(11) by (simp add: getRootDocVersion_eq [OF assms(8)])
  have "derive_root_doc_version_string env 0 s = Some ((None, 0), ?s\<lparr>reset_once := 1\<rparr>)"
    using assms(2,3,5,6) reason f(1) g
    by (auto simp: derive_root_doc_version_string_def Let_def root_from_db_def fetch_reboot_reason_frame)
  moreover have "derive_root_doc_version_string env2 0 s2 = Some ((None, v2), s2)"
    using assms(9,10,12,13) reason g2
    by (auto simp: derive_root_doc_version_string_def Let_def root_from_db_def fetch_reboot_reason_def)
  ultimately show ?thesis by simp
qed

section \<open>A concrete device\<close>

definition http_st0 :: http_st where
  "http_st0 = ev_st.extend ev_st0 \<lparr>g_RebootReason = [], reset_once = 0, g_bootTime = [], g_FirmwareVersion = [],
     g_systemReadyTime = [], g_productClass = [], g_ModelName = [], g_PartnerID = [], g_AccountID = [], g_deviceWanMac = [],
     supportedVersion_header = None, supportedDocs_header = None, supplementaryDocs_header = None, g_interface = [],
     URLVal = None, SupplementaryURLVal = None, requests = []\<rparr>"

lemma http_st0_simps [simp]:
  "mem_ok http_st0" "webcfgdb_data http_st0 = []" "g_head http_st0 = []" "success_doc_count http_st0 = 0"
  "numOfMpDocs http_st0 = 0" "g_mp_head http_st0 = []" "g_supplementarySync http_st0 = 0" "notifyMsgQ http_st0 = []"
  "g_RebootReason http_st0 = []" "reset_once http_st0 = 0" "g_timer_head http_st0 = []" "numOfEvents http_st0 = 0"
  "requests http_st0 = []"
  by (simp_all add: http_st0_def ev_st.defs ev_st0_def db_st.defs db_st0_defs)

definition demo_device :: device_env where
  "demo_device = \<lparr>de_apply = demo_env, de_reboot_reason = Some ''Software_upgrade'', de_auth_token = ''token'',
     de_boot_time = Some ''10'', de_firmware = None, de_ready_time = None, de_product_class = None, de_model = None,
     de_partner_id = None, de_account_id = None, de_wan_mac = None, de_uuid = ''uuid'', de_time = 1000,
     de_macs = (\<lambda>_. Some ''0a1b2c3d4e5f''), de_properties = None, de_url = ''https://x/device/{mac}/config'',
     de_supplementary_url = (\<lambda>_. ''NULL''), de_set_url_ok = True, de_digit_0 = None\<rparr>"

definition demo_db :: "webconfig_db_data list" where
  "demo_db = [\<lparr>db_name = Some ''root'', db_version = 9, db_root_string = None\<rparr>,
     \<lparr>db_name = Some ''wan'', db_version = 5, db_root_string = None\<rparr>]"

definition demo_http_st :: http_st where
  "demo_http_st = http_st0\<lparr>webcfgdb_data := demo_db, success_doc_count := 2, db_file := Some ''f''\<rparr>"

lemma demo_http_ok: "apply_inv demo_http_st" "db_inv demo_http_st" "webcfgdb_data demo_http_st = demo_db"
  by (simp_all add: demo_http_st_def apply_inv_def tmp_inv_def db_inv_def db_names_def demo_db_def)

lemma dec_five: "dec 5 = ''5''"
  by code_simp

lemma demo_db_lists: "doc_versions demo_db = [''5'']" "doc_names demo_db = [''wan'']" "db_map demo_db ''root'' = Some (9, None)"
  using dec_five by (simp_all add: demo_db_def)

lemma demo_fits: "lists_fit None 0 8192 8192 demo_db"
  by (simp add: lists_fit_def version_text_def name_text_def demo_db_lists root_text_def dec_zero MAX_LBUFF_SIZE_def)

theorem version_lists_match_witness:
  "\<exists>vs ds s'. refreshConfigVersionList demo_device 0 8192 8192 demo_http_st = Some ((vs, ds), s') \<and>
     strtok_all '','' ds = [''root'', ''wan''] \<and> hd (strtok_all '','' vs) = ''0''"
proof -
  have d: "\<exists>s1. derive_root_doc_version_string demo_device 0 demo_http_st = Some ((None, 0), s1)"
    using getRootDocVersion_eq [of "fetch_reboot_reason demo_device demo_http_st"]
    by (simp add: derive_root_doc_version_string_def fetch_reboot_reason_def demo_device_def demo_http_st_def fit_def
        getRootDocVersionFromDBCache_def demo_db_def root_from_db_def FW_UPGRADE_REBOOT_REASON_def)
  then obtain s1 where s1: "derive_root_doc_version_string demo_device 0 demo_http_st = Some ((None, 0), s1)" by blast
  have plain: "plain_names (webcfgdb_data demo_http_st)" "CHR '','' \<notin> set (root_text None 0)"
    by (simp_all add: plain_names_def demo_http_ok demo_db_lists root_text_def dec_zero)
  from version_lists_match [OF demo_http_ok(1) s1 plain, of 8192 8192] demo_fits obtain vs ds names versions s' where
    r: "refreshConfigVersionList demo_device 0 8192 8192 demo_http_st = Some ((vs, ds), s')"
      "strtok_all '','' vs = root_text None 0 # versions" "strtok_all '','' ds = ''root'' # names"
    by (auto simp: demo_http_ok)
  have "strtok_all '','' ds = [''root'', ''wan'']"
  proof -
    from refresh_spec [OF demo_http_ok(1) s1, of 8192 8192] obtain s2 where s2:
      "refreshConfigVersionList demo_device 0 8192 8192 demo_http_st =
        map_option (\<lambda>lists. (lists, s2)) (list_versions None 0 8192 8192 (webcfgdb_data s2))" "webcfgdb_data s2 \<noteq> []"
      "doc_versions (webcfgdb_data s2) = doc_versions demo_db" "doc_names (webcfgdb_data s2) = doc_names demo_db"
      by (metis demo_http_ok(3))
    have "lists_fit None 0 8192 8192 (webcfgdb_data s2)" using demo_fits s2(3,4) by (simp add: lists_fit_def version_text_def name_text_def)
    from list_versions_fits [OF this s2(2)] s2 r(1) have "ds = name_text demo_db" by (simp add: name_text_def)
    moreover have "strtok_all '','' (name_text demo_db) = [''root'', ''wan'']"
      unfolding name_text_def demo_db_lists by (intro strtok_all_join) auto
    ultimately show ?thesis by simp
  qed
  with r show ?thesis by (simp add: root_text_def dec_zero)
qed

theorem unknown_reason_erases_root_witness:
  "\<exists>vs ds s'. refreshConfigVersionList (demo_device\<lparr>de_reboot_reason := None\<rparr>) 0 8192 8192 demo_http_st = Some ((vs, ds), s') \<and>
     vs = ''0,5'' \<and> db_map (webcfgdb_data s') ''root'' = Some (0, None)"
proof -
  have "g_RebootReason demo_http_st = []" "de_reboot_reason (demo_device\<lparr>de_reboot_reason := None\<rparr>) = None"
    by (simp_all add: demo_http_st_def)
  from unknown_reason_erases_root [OF demo_http_ok(1) this, of 8192 8192 0] demo_fits show ?thesis
    by (simp add: demo_http_ok demo_db_lists)
qed

theorem firmware_upgrade_resets_once_witness:
  "(\<exists>s1. derive_root_doc_version_string demo_device 0 demo_http_st = Some ((None, 0), s1) \<and> reset_once s1 \<noteq> 0) \<and>
   derive_root_doc_version_string demo_device 0 (demo_http_st\<lparr>g_RebootReason := ''Software_upgrade'', reset_once := 1\<rparr>) =
     Some ((None, 9), demo_http_st\<lparr>g_RebootReason := ''Software_upgrade'', reset_once := 1\<rparr>)"
proof -
  let ?s2 = "demo_http_st\<lparr>g_RebootReason := ''Software_upgrade'', reset_once := 1\<rparr>"
  have r: "g_RebootReason (fetch_reboot_reason demo_device demo_http_st) = ''Software_upgrade''"
    by (simp add: fetch_reboot_reason_def demo_http_st_def demo_device_def fit_def)
  have "db_inv ?s2" "db_map (webcfgdb_data ?s2) ''root'' = Some (9, None)" "db_map (webcfgdb_data demo_http_st) ''root'' = Some (9, None)"
    using demo_http_ok by (simp_all add: db_inv_def demo_db_lists)
  then show ?thesis
    using firmware_upgrade_resets_once [of demo_http_st demo_device 9 None ?s2 9 None demo_device] r demo_http_ok(2)
    by (simp add: FW_UPGRADE_REBOOT_REASON_def) (simp add: demo_http_st_def demo_db_def)
qed

end
