(* ===== verification/Sync.thy ===== *)
theory Sync
  imports Versions
begin

text \<open>
  One sync with the cloud: the headers of the request (\<open>createCurlHeader\<close>), the request
  (\<open>webcfg_http_request\<close> of \<open>src/src/webcfg_multipart.c\<close>), the handling of the response and
  the retries (\<open>handlehttpResponse\<close>, \<open>processWebconfgSync\<close> of \<open>src/src/webcfg.c\<close>).
  libcurl is a parameter: what it delivers for a request is a record.
\<close>

section \<open>The headers\<close>

text \<open>A header that is formed in a buffer of \<open>MAX_BUF_SIZE\<close> bytes and appended.\<close>

definition MAX_BUF_SIZE :: nat where "MAX_BUF_SIZE = 256"

definition header :: "bool \<Rightarrow> string \<Rightarrow> string \<Rightarrow> string list" where
  "header mem label v = (if mem then [fit MAX_BUF_SIZE (label @ v)] else [])"

definition dec_int :: "int \<Rightarrow> string" where
  "dec_int x = (if x < 0 then CHR ''-'' # dec (nat (- x)) else dec (nat x))"

text \<open>A value of the platform is fetched until it was found once.\<close>

definition cached :: "string \<Rightarrow> string option \<Rightarrow> string" where
  "cached g v = (if g = [] then (case v of None \<Rightarrow> [] | Some x \<Rightarrow> fit 64 x) else g)"

definition cached_header :: "bool \<Rightarrow> string \<Rightarrow> string \<Rightarrow> string list" where
  "cached_header mem label g = (if g = [] then [] else header mem label g)"

text \<open>A header that is formed once and kept; \<open>checked\<close> tells whether the code looks at the result
  of \<open>malloc\<close>. The result is the header list and the header kept.\<close>

definition kept_header :: "bool \<Rightarrow> bool \<Rightarrow> string \<Rightarrow> string option \<Rightarrow> string option \<Rightarrow> (string list \<times> string option) option" where
  "kept_header mem checked label kept v =
     (case kept of
        Some h \<Rightarrow> Some ([h], Some h)
      | None \<Rightarrow>
          (case v of
             None \<Rightarrow> Some ([], None)
           | Some x \<Rightarrow> if mem then Some ([label @ x], Some (label @ x)) else if checked then Some ([], None) else None))"

text \<open>The headers with the versions and names, for a primary sync.\<close>

definition version_headers :: "device_env \<Rightarrow> 'z http_st_scheme \<Rightarrow> (string list \<times> 'z http_st_scheme) option" where
  "version_headers env s =
     (if g_supplementarySync s \<noteq> 0 then Some ([], s)
      else if mem_ok s then
        (case refreshConfigVersionList env 0 MAX_LBUFF_SIZE MAX_LBUFF_SIZE s of
           None \<Rightarrow> None
         | Some ((version, docList), s1) \<Rightarrow>
             Some ([fit (MAX_LBUFF_SIZE + 15) (''IF-NONE-MATCH:'' @ (if version \<noteq> [] then version else ''0'')),
                    fit (MAX_LBUFF_SIZE + 11) (''Doc-Name: '' @ docList),
                    ''POST-NONE-RETAIN: true''], s1))
      else Some ([''POST-NONE-RETAIN: true''], s))"

definition schema_headers :: "'z http_st_scheme \<Rightarrow> (string list \<times> 'z http_st_scheme) option" where
  "schema_headers s =
     (case kept_header (mem_ok s) False ''X-System-Schema-Version: '' (supportedVersion_header s) (supported_version s) of
        None \<Rightarrow> None
      | Some (h1, k1) \<Rightarrow>
          (case kept_header (mem_ok s) True ''X-System-Supported-Docs: '' (supportedDocs_header s) (supported_bits s) of
             None \<Rightarrow> None
           | Some (h2, k2) \<Rightarrow>
               (case (if g_supplementarySync s \<noteq> 0
                      then kept_header (mem_ok s) False ''X-System-SupplementaryService-Sync: ''
                             (supplementaryDocs_header s) (supplementary_docs s)
                      else Some ([], supplementaryDocs_header s)) of
                  None \<Rightarrow> None
                | Some (h3, k3) \<Rightarrow>
                    Some (header (mem_ok s) ''Schema-Version: '' ''v1.0'' @ h1 @ h2 @ h3,
                          s\<lparr>supportedVersion_header := k1, supportedDocs_header := k2, supplementaryDocs_header := k3\<rparr>))))"

definition device_headers :: "device_env \<Rightarrow> int \<Rightarrow> 'z http_st_scheme \<Rightarrow> string list \<times> 'z http_st_scheme" where
  "device_headers env status s =
     (let m = mem_ok s;
          s1 = s\<lparr>g_bootTime := cached (g_bootTime s) (de_boot_time env),
                 g_FirmwareVersion := cached (g_FirmwareVersion s) (de_firmware env),
                 g_systemReadyTime := cached (g_systemReadyTime s) (de_ready_time env)\<rparr>
      in (cached_header m ''X-System-Boot-Time: '' (g_bootTime s1)
            @ cached_header m ''X-System-Firmware-Version: '' (g_FirmwareVersion s1)
            @ header m ''X-System-Status: '' (if status \<noteq> 0 then ''Non-Operational'' else ''Operational'')
            @ header m ''X-System-Current-Time: '' (fit 32 (dec_int (c_int (de_time env))))
            @ cached_header m ''X-System-Ready-Time: '' (g_systemReadyTime s1), s1))"

definition product_headers :: "device_env \<Rightarrow> 'z http_st_scheme \<Rightarrow> string list \<times> 'z http_st_scheme" where
  "product_headers env s =
     (let m = mem_ok s;
          s1 = s\<lparr>g_productClass := cached (g_productClass s) (de_product_class env),
                 g_ModelName := cached (g_ModelName s) (de_model env)\<rparr>
      in (cached_header m ''X-System-Product-Class: '' (g_productClass s1)
            @ cached_header m ''X-System-Model-Name: '' (g_ModelName s1), s1))"

definition telemetry_headers :: "device_env \<Rightarrow> 'z http_st_scheme \<Rightarrow> string list \<times> 'z http_st_scheme" where
  "telemetry_headers env s =
     (if g_supplementarySync s = 0 then ([], s)
      else (let m = mem_ok s;
                s1 = s\<lparr>g_PartnerID := cached (g_PartnerID s) (de_partner_id env),
                       g_AccountID := cached (g_AccountID s) (de_account_id env),
                       g_deviceWanMac := cached (g_deviceWanMac s) (de_wan_mac env)\<rparr>
            in (header m ''X-System-Telemetry-Profile-Version: '' ''2.0''
                  @ cached_header m ''X-System-PartnerID: '' (g_PartnerID s1)
                  @ cached_header m ''X-System-AccountID: '' (g_AccountID s1)
                  @ cached_header m ''X-System-Wan-Mac: '' (g_deviceWanMac s1), s1)))"

text \<open>The headers, and the transaction id handed back.\<close>

definition createCurlHeader ::
  "device_env \<Rightarrow> int \<Rightarrow> 'z http_st_scheme \<Rightarrow> ((string list \<times> string option) \<times> 'z http_st_scheme) option" where
  "createCurlHeader env status s =
     (let auth = (if mem_ok s
                  then [fit 4096 (''Authorization:Bearer ''
                         @ printf_s (if de_auth_token env \<noteq> [] then Some (de_auth_token env) else None))]
                  else [])
      in case version_headers env s of
           None \<Rightarrow> None
         | Some (versions, s1) \<Rightarrow>
             (case schema_headers s1 of
                None \<Rightarrow> None
              | Some (schema, s2) \<Rightarrow>
                  (let (device, s3) = device_headers env status s2;
                       uuid = (if g_ForceSyncTransID s3 \<noteq> [] then g_ForceSyncTransID s3 else de_uuid env);
                       (product, s4) = product_headers env s3;
                       (telemetry, s5) = telemetry_headers env s4
                   in Some ((auth @ versions @ [''Accept: application/msgpack''] @ schema @ device
                               @ header (mem_ok s) ''Transaction-ID: '' uuid @ product @ telemetry,
                             if mem_ok s then Some uuid else None), s5))))"

section \<open>The request\<close>

text \<open>What libcurl delivers: whether \<open>curl_easy_init\<close> and \<open>curl_easy_perform\<close> succeed, the
  response code (0 without a response), the header lines and the pieces of the body passed
  to the callbacks, and the content type.\<close>

record curl_reply =
  cr_init :: bool
  cr_ok :: bool
  cr_code :: int
  cr_headers :: "string list"
  cr_chunks :: "string list"
  cr_content_type :: "string option"

text \<open>The variables of \<open>processWebconfgSync\<close> that live across its rounds.\<close>

record sync_vars =
  sv_data :: "string option"
  sv_ct :: string

definition toupper_first :: "string \<Rightarrow> string" where
  "toupper_first d =
     (case d of [] \<Rightarrow> []
      | c # cs \<Rightarrow> (let n = (of_char c :: nat) in if 97 \<le> n \<and> n \<le> 122 then char_of (n - 32) else c) # cs)"

text \<open>The URL before the place holder is replaced; \<open>None\<close>: the request is not made.\<close>

definition config_url :: "device_env \<Rightarrow> string option \<Rightarrow> 'z http_st_scheme \<Rightarrow> string option" where
  "config_url env docname s =
     (let url = (if g_supplementarySync s = 0 then de_url env
                 else (case docname of
                     Some d \<Rightarrow> if d \<noteq> [] then de_supplementary_url env (toupper_first (fit 64 d)) else []
                   | None \<Rightarrow> []))
      in if url = [] \<or> (g_supplementarySync s \<noteq> 0 \<and> url = ''NULL'') then None else Some url)"

text \<open>The URL of the request: its place holder replaced and its MAC checked.\<close>

definition request_url :: "device_env \<Rightarrow> string \<Rightarrow> string option" where
  "request_url env url =
     (case replaceMacWord True (Some url) (Some ''{mac}'') (de_macs env 0) of
        Some (Some u) \<Rightarrow>
          (case checkValidURL (\<lambda>i. de_macs env (Suc i)) (Some u) of
             Some (Some u', _) \<Rightarrow> Some u'
           | _ \<Rightarrow> None)
      | _ \<Rightarrow> None)"

definition store_url :: "device_env \<Rightarrow> string \<Rightarrow> 'z http_st_scheme \<Rightarrow> 'z http_st_scheme" where
  "store_url env url s =
     (if \<not> de_set_url_ok env then s
      else if g_supplementarySync s = 0 then s\<lparr>URLVal := Some url\<rparr> else s\<lparr>SupplementaryURLVal := Some url\<rparr>)"

definition fetch_interface :: "device_env \<Rightarrow> 'z http_st_scheme \<Rightarrow> 'z http_st_scheme" where
  "fetch_interface env s =
     (if g_interface s = []
      then (case get_webCfg_interface (de_properties env) of None \<Rightarrow> s | Some i \<Rightarrow> s\<lparr>g_interface := fit 32 i\<rparr>)
      else s)"

definition ip_mode :: "nat \<Rightarrow> ip_resolve" where
  "ip_mode r_count = (if r_count = 1 then IPRESOLVE_V4 else if r_count = 2 then IPRESOLVE_V6 else IPRESOLVE_WHATEVER)"

definition response_body :: "string list \<Rightarrow> string option" where
  "response_body chunks = fold (\<lambda>c d. snd (writer_callback_fn True c d)) chunks (Some [])"

text \<open>A successful response with code 200: only \<open>multipart/mixed\<close> is accepted; its content type
  is copied into 256 bytes.\<close>

definition accept_content ::
  "curl_reply \<Rightarrow> string option \<Rightarrow> sync_vars \<Rightarrow> 'z http_st_scheme \<Rightarrow> (sync_vars \<times> 'z http_st_scheme) option" where
  "accept_content reply uuid v s =
     (case cr_content_type reply of
        None \<Rightarrow> Some (v, s)
      | Some ct \<Rightarrow>
          if \<not> strncmp_eq ct ''multipart/mixed'' 15
          then (let (err, result) = getStatusErrorCodeAndMessage INVALID_CONTENT_TYPE
                in Some (v, addWebConfgNotifyMsg (Some ''root'') (ucast (strtoul0 (g_ETAG s))) (Some ''failed'') (Some result)
                              uuid 0 (Some ''status'') err None 200 s))
          else if length ct < 256 then Some (v\<lparr>sv_data := response_body (cr_chunks reply), sv_ct := ct\<rparr>, s)
          else None)"

text \<open>\<open>webcfg_http_request\<close>: whether it returns 0, the response code, the transaction id, the
  variables of the caller.\<close>

definition webcfg_http_request ::
  "device_env \<Rightarrow> curl_reply \<Rightarrow> nat \<Rightarrow> int \<Rightarrow> string option \<Rightarrow> sync_vars \<Rightarrow> 'z http_st_scheme \<Rightarrow>
   ((bool \<times> int \<times> string option \<times> sync_vars) \<times> 'z http_st_scheme) option" where
  "webcfg_http_request env reply r_count status docname v s =
     (if \<not> cr_init reply \<or> \<not> mem_ok s then Some ((False, 0, None, v), s)
      else (case createCurlHeader env status s of
          None \<Rightarrow> None
        | Some ((headers, uuid), s1) \<Rightarrow>
            (case config_url env docname s1 of
               None \<Rightarrow> Some ((False, 0, uuid, v), s1)
             | Some configURL \<Rightarrow>
                 (case request_url env configURL of
                    None \<Rightarrow> None
                  | Some url \<Rightarrow>
                      (let s2 = fetch_interface env (store_url env url s1);
                           s3 = s2\<lparr>requests := requests s2 @ [\<lparr>rq_url = url, rq_headers = headers,
                                  rq_ipresolve = ip_mode r_count, rq_interface = g_interface s2\<rparr>]\<rparr>;
                           s4 = fold (\<lambda>h t. snd (headr_callback h (length h) t)) (cr_headers reply) s3
                       in case (if cr_ok reply \<and> cr_code reply = 200 then accept_content reply uuid v s4 else Some (v, s4)) of
                            None \<Rightarrow> None
                          | Some (v', s5) \<Rightarrow> Some ((True, cr_code reply, uuid, v'), s5))))))"

section \<open>The response\<close>

text \<open>The first decimal digit of a positive code.\<close>

fun lead_digit :: "nat \<Rightarrow> nat" where
  "lead_digit n = (if n < 10 then n else lead_digit (n div 10))"

declare lead_digit.simps [simp del]

definition first_digit :: "device_env \<Rightarrow> int \<Rightarrow> int option" where
  "first_digit env code = (if 0 < code then Some (int (lead_digit (nat code))) else de_digit_0 env)"

text \<open>The notification of the root version with a response code, sent in several branches.\<close>

definition notify_root ::
  "string option \<Rightarrow> string option \<Rightarrow> string option \<Rightarrow> u16 \<Rightarrow> int \<Rightarrow> string option \<Rightarrow> 'z http_st_scheme \<Rightarrow> 'z http_st_scheme option" where
  "notify_root name status details err code uuid s =
     (case getRootDocVersionFromDBCache s of
        None \<Rightarrow> None
      | Some (db_root_version, root_string, subdocList) \<Rightarrow>
          Some (addWebConfgNotifyMsg name db_root_version status details uuid 0 (Some ''status'') err root_string code s))"

text \<open>The branches of 4xx, and of 5xx and all other codes, after those for the codes with a
  treatment of their own.\<close>

definition other_response ::
  "device_env \<Rightarrow> int \<Rightarrow> nat \<Rightarrow> string option \<Rightarrow> 'z http_st_scheme \<Rightarrow> (int \<times> 'z http_st_scheme) option" where
  "other_response env code retry_count uuid s =
     (case first_digit env code of
        None \<Rightarrow> None
      | Some digit \<Rightarrow>
          if code \<noteq> 403 \<and> digit = 4 then
            (case (if code = 404 then map_option snd (refreshConfigVersionList env code 512 512 s) else Some s) of
               None \<Rightarrow> None
             | Some s1 \<Rightarrow> map_option (\<lambda>s2. (1, s2)) (notify_root None None None 0 code uuid s1))
          else if retry_count = 3 \<and> code \<noteq> 403
          then map_option (\<lambda>s1. (0, s1)) (notify_root None None None 0 code uuid s)
          else Some (0, s))"

text \<open>A response 200 without data.\<close>

definition empty_response ::
  "device_env \<Rightarrow> nat \<Rightarrow> string option \<Rightarrow> 'z http_st_scheme \<Rightarrow> (int \<times> 'z http_st_scheme) option" where
  "empty_response env retry_count uuid s =
     (if g_contentLen s = Some ''0'' then
        map_option (\<lambda>(_, s1). (1, s1\<lparr>g_contentLen := None\<rparr>)) (refreshConfigVersionList env 200 512 512 s)
      else (let (err, result) = getStatusErrorCodeAndMessage WEBCONFIG_DATA_EMPTY
            in case (if retry_count = 3 then notify_root (Some ''root'') (Some ''failed'') (Some result) err 200 uuid s else Some s) of
                 None \<Rightarrow> None
               | Some s1 \<Rightarrow> other_response env 200 retry_count uuid s1))"

definition handlehttpResponse ::
  "device_env \<Rightarrow> int \<Rightarrow> nat \<Rightarrow> string option \<Rightarrow> sync_vars \<Rightarrow> 'z http_st_scheme \<Rightarrow> (int \<times> 'z http_st_scheme) option" where
  "handlehttpResponse env code retry_count uuid v s =
     (if code = 304 \<or> code = 204 \<or> code = 429
      then map_option (\<lambda>s1. (1, s1)) (notify_root None None None 0 code uuid s)
      else if code = 200 then
        (case sv_data v of
           Some (c # cs) \<Rightarrow>
             if c = NUL then empty_response env retry_count uuid s
             else map_option (\<lambda>(_, s1). (1, s1)) (parseMultipartDocument (de_apply env) (c # cs) (sv_ct v) uuid s)
         | _ \<Rightarrow> empty_response env retry_count uuid s)
      else other_response env code retry_count uuid s)"

section \<open>The retries\<close>

text \<open>The rounds of \<open>processWebconfgSync\<close> from \<open>retry_count\<close> on; \<open>io n\<close> is the device and the
  reply in round \<open>n\<close>.\<close>

function sync_rounds ::
  "(nat \<Rightarrow> device_env \<times> curl_reply) \<Rightarrow> int \<Rightarrow> string option \<Rightarrow> nat \<Rightarrow> sync_vars \<Rightarrow> 'z http_st_scheme \<Rightarrow> 'z http_st_scheme option" where
  "sync_rounds io status docname retry_count v s =
     (if 3 < retry_count then Some s
      else (case webcfg_http_request (fst (io retry_count)) (snd (io retry_count)) retry_count status docname v s of
          None \<Rightarrow> None
        | Some ((ret, code, uuid, v1), s1) \<Rightarrow>
            if ret then
              (case handlehttpResponse (fst (io retry_count)) code retry_count uuid v1 s1 of
                 None \<Rightarrow> None
               | Some (rv, s2) \<Rightarrow> if rv = 1 then Some s2 else sync_rounds io status docname (Suc retry_count) v1 s2)
            else sync_rounds io status docname (Suc retry_count) v1 s1))"
  by pat_completeness auto
termination
  by (relation "measure (\<lambda>(io, status, docname, retry_count, v, s). 4 - retry_count)") auto

declare sync_rounds.simps [simp del]

definition processWebconfgSync ::
  "(nat \<Rightarrow> device_env \<times> curl_reply) \<Rightarrow> int \<Rightarrow> string option \<Rightarrow> 'z http_st_scheme \<Rightarrow> 'z http_st_scheme option" where
  "processWebconfgSync io status docname s = sync_rounds io status docname 0 \<lparr>sv_data = None, sv_ct = []\<rparr> s"
section \<open>What a request leaves alone\<close>

text \<open>The header lines change the root version and the content length only.\<close>

definition header_upd :: "'z mp_st_scheme \<Rightarrow> 'z mp_st_scheme \<Rightarrow> bool" where
  "header_upd t t' \<longleftrightarrow> (\<exists>e c. t' = t\<lparr>g_ETAG := e, g_contentLen := c\<rparr>)"

lemma header_upd_intros [intro]:
  "header_upd t t" "header_upd t (t\<lparr>g_ETAG := e\<rparr>)" "header_upd t (t\<lparr>g_contentLen := c\<rparr>)"
proof -
  have "t = t\<lparr>g_ETAG := g_ETAG t, g_contentLen := g_contentLen t\<rparr>"
    "t\<lparr>g_ETAG := e\<rparr> = t\<lparr>g_ETAG := e, g_contentLen := g_contentLen t\<rparr>"
    "t\<lparr>g_contentLen := c\<rparr> = t\<lparr>g_ETAG := g_ETAG t, g_contentLen := c\<rparr>" by simp_all
  then show "header_upd t t" "header_upd t (t\<lparr>g_ETAG := e\<rparr>)" "header_upd t (t\<lparr>g_contentLen := c\<rparr>)"
    unfolding header_upd_def by blast+
qed

lemma header_upd_trans: "header_upd t t' \<Longrightarrow> header_upd t' t'' \<Longrightarrow> header_upd t t''"
proof -
  assume "header_upd t t'" "header_upd t' t''"
  then obtain e c e' c' where "t' = t\<lparr>g_ETAG := e, g_contentLen := c\<rparr>" "t'' = t'\<lparr>g_ETAG := e', g_contentLen := c'\<rparr>"
    unfolding header_upd_def by blast
  then have "t'' = t\<lparr>g_ETAG := e', g_contentLen := c'\<rparr>" by simp
  then show ?thesis unfolding header_upd_def by blast
qed

lemma header_upd_fold: "(\<And>v t. header_upd t (f v t)) \<Longrightarrow> header_upd t (fold f vs t)"
proof (induction vs arbitrary: t)
  case (Cons v vs)
  from Cons.prems have "header_upd t (f v t)" .
  moreover from Cons have "header_upd (f v t) (fold f vs (f v t))" by blast
  ultimately show ?case by (simp add: header_upd_trans)
qed auto

lemma headr_upd: "header_upd t (snd (headr_callback h n t))"
  by (auto simp: headr_callback_def intro!: header_upd_fold)

lemma headers_form: "\<exists>e c. fold (\<lambda>h t. snd (headr_callback h (length h) t)) hs t = t\<lparr>g_ETAG := e, g_contentLen := c\<rparr>"
  using header_upd_fold [of "\<lambda>h t. snd (headr_callback h (length h) t)", OF headr_upd] by (simp add: header_upd_def)

text \<open>The header, URL and response fields are not part of what the lists and the database
  promise.\<close>

definition sync_same :: "'z http_st_scheme \<Rightarrow> 'z http_st_scheme \<Rightarrow> bool" where
  "sync_same s s' \<longleftrightarrow> notifyMsgQ s' = notifyMsgQ s \<and> g_supplementarySync s' = g_supplementarySync s \<and> mem_ok s' = mem_ok s
     \<and> g_head s' = g_head s \<and> numOfMpDocs s' = numOfMpDocs s \<and> g_mp_head s' = g_mp_head s \<and> g_timer_head s' = g_timer_head s
     \<and> numOfEvents s' = numOfEvents s \<and> eventDataQ s' = eventDataQ s"

lemma sync_same_refl [simp]: "sync_same s s"
  by (simp add: sync_same_def)

lemma sync_same_trans: "sync_same s s' \<Longrightarrow> sync_same s' s'' \<Longrightarrow> sync_same s s''"
  by (simp add: sync_same_def)

lemma sync_same_inv:
  assumes "sync_same s s'" "db_inv s'"
  shows "apply_inv s \<Longrightarrow> apply_inv s'" "ev_ok e s \<Longrightarrow> ev_ok e s'"
  using assms by (simp_all add: sync_same_def apply_inv_def tmp_inv_def ev_ok_def timer_inv_def)

definition head_same :: "'z http_st_scheme \<Rightarrow> 'z http_st_scheme \<Rightarrow> bool" where
  "head_same s s' \<longleftrightarrow> sync_same s s' \<and> webcfgdb_data s' = webcfgdb_data s \<and> success_doc_count s' = success_doc_count s
     \<and> requests s' = requests s \<and> db_file s' = db_file s \<and> g_RebootReason s' = g_RebootReason s \<and> reset_once s' = reset_once s"

lemma head_same_trans: "head_same s s' \<Longrightarrow> head_same s' s'' \<Longrightarrow> head_same s s''"
  by (auto simp: head_same_def intro: sync_same_trans)

lemma head_same_upd:
  "head_same s (s\<lparr>supportedVersion_header := k1, supportedDocs_header := k2, supplementaryDocs_header := k3\<rparr>)"
  "head_same s (snd (device_headers env status s))" "head_same s (snd (product_headers env s))"
  "head_same s (snd (telemetry_headers env s))"
  by (simp_all add: device_headers_def product_headers_def telemetry_headers_def Let_def head_same_def sync_same_def)

lemma headers_frame:
  "device_headers env status s = (hs, s') \<Longrightarrow> head_same s s'" "product_headers env s = (hs, s') \<Longrightarrow> head_same s s'"
  "telemetry_headers env s = (hs, s') \<Longrightarrow> head_same s s'"
  using head_same_upd by (metis snd_conv)+

lemma schema_headers_frame: "schema_headers s = Some (hs, s') \<Longrightarrow> head_same s s'"
  unfolding schema_headers_def using head_same_upd(1) by (simp split: option.splits prod.splits) blast

lemma schema_headers_total: "mem_ok s \<Longrightarrow> \<exists>hs s'. schema_headers s = Some (hs, s')"
  by (simp add: schema_headers_def kept_header_def split: option.split)

lemma refresh_same:
  assumes "refreshConfigVersionList env status vcap dcap s = Some (texts, s')"
  shows "sync_same s s' \<and> requests s' = requests s"
proof -
  obtain r k db n f where "s' = s\<lparr>g_RebootReason := r, reset_once := k, webcfgdb_data := db, success_doc_count := n, db_file := f\<rparr>"
    using refresh_form [OF assms] by blast
  then show ?thesis by (simp add: sync_same_def)
qed
section \<open>A primary request\<close>

lemma fit_short: "length t < n \<Longrightarrow> fit n t = t"
  by (simp add: fit_def)

text \<open>The headers of a primary request, and what forming them changes.\<close>

lemma createCurlHeader_primary:
  fixes s :: "'z http_st_scheme"
  assumes "apply_inv s" "g_supplementarySync s = 0" "lists_short MAX_LBUFF_SIZE (webcfgdb_data s)"
  obtains rs rv s1 hs uuid and s2 s' :: "'z http_st_scheme" where
    "derive_root_doc_version_string env 0 s = Some ((rs, rv), s1)"
    "createCurlHeader env status s = Some ((hs, Some uuid), s')"
    "refreshConfigVersionList env 0 MAX_LBUFF_SIZE MAX_LBUFF_SIZE s =
      Some ((version_text rs rv (webcfgdb_data s'), name_text (webcfgdb_data s')), s2)"
    "''IF-NONE-MATCH:'' @ version_text rs rv (webcfgdb_data s') \<in> set hs" "''Doc-Name: '' @ name_text (webcfgdb_data s') \<in> set hs"
    "sync_same s s'" "requests s' = requests s" "apply_inv s'" "lists_short MAX_LBUFF_SIZE (webcfgdb_data s')"
    "db_map (webcfgdb_data s') = db_update ''root'' rv rs (db_map (webcfgdb_data s))" "db_file s' = db_file s2"
    "g_RebootReason s' = g_RebootReason s2"
    "doc_versions (webcfgdb_data s') = doc_versions (webcfgdb_data s)" "doc_names (webcfgdb_data s') = doc_names (webcfgdb_data s)"
proof -
  have mem: "mem_ok s" using assms(1) by (simp add: apply_inv_def)
  from refresh_short [OF assms(1,3), of env 0] obtain rs rv s1 and s2 :: "'z http_st_scheme" where
    d: "derive_root_doc_version_string env 0 s = Some ((rs, rv), s1)"
    and r: "refreshConfigVersionList env 0 MAX_LBUFF_SIZE MAX_LBUFF_SIZE s =
      Some ((version_text rs rv (webcfgdb_data s2), name_text (webcfgdb_data s2)), s2)"
    and s2: "apply_inv s2" "lists_short MAX_LBUFF_SIZE (webcfgdb_data s2)"
      "db_map (webcfgdb_data s2) = db_update ''root'' rv rs (db_map (webcfgdb_data s))"
      "doc_versions (webcfgdb_data s2) = doc_versions (webcfgdb_data s)" "doc_names (webcfgdb_data s2) = doc_names (webcfgdb_data s)"
    by metis
  have same2: "sync_same s s2" "requests s2 = requests s" using refresh_same [OF r] by auto
  let ?v = "version_text rs rv (webcfgdb_data s2)" and ?n = "name_text (webcfgdb_data s2)"
  have inv: "db_inv s" using assms(1) by (simp add: apply_inv_def)
  have short: "length ?v < MAX_LBUFF_SIZE" "length ?n < MAX_LBUFF_SIZE"
    using lists_short_fit [OF inv d assms(3)] s2(4,5) by (auto simp: lists_fit_def version_text_def name_text_def)
  have "?v \<noteq> []" using length_join_hd [of "root_text rs rv" "'',''" "doc_versions (webcfgdb_data s2)"]
    root_text_nonempty [of rs rv] by (auto simp: version_text_def simp del: join.simps root_text_nonempty)
  with short r mem assms(2) have vh: "version_headers env s =
      Some ([''IF-NONE-MATCH:'' @ ?v, ''Doc-Name: '' @ ?n, ''POST-NONE-RETAIN: true''], s2)"
    by (simp add: version_headers_def fit_short)
  have "mem_ok s2" using same2(1) mem by (simp add: sync_same_def)
  from schema_headers_total [OF this] obtain h3 s3 where h3: "schema_headers s2 = Some (h3, s3)" by blast
  obtain h4 s4 where h4: "device_headers env status s3 = (h4, s4)" by (cases "device_headers env status s3")
  obtain h5 s5 where h5: "product_headers env s4 = (h5, s5)" by (cases "product_headers env s4")
  obtain h6 s6 where h6: "telemetry_headers env s5 = (h6, s6)" by (cases "telemetry_headers env s5")
  have same: "head_same s2 s6" using schema_headers_frame [OF h3] headers_frame(1) [OF h4] headers_frame(2) [OF h5] headers_frame(3) [OF h6]
    by (blast intro: head_same_trans)
  then have inv6: "db_inv s6" using s2(1) by (simp add: head_same_def apply_inv_def db_inv_def)
  have "sync_same s2 s6" using same by (simp add: head_same_def)
  from sync_same_inv(1) [OF this inv6 s2(1)] sync_same_trans [OF same2(1) this] have "apply_inv s6" "sync_same s s6" by simp_all
  moreover obtain hs uuid where "createCurlHeader env status s = Some ((hs, Some uuid), s6)" "''IF-NONE-MATCH:'' @ ?v \<in> set hs"
    "''Doc-Name: '' @ ?n \<in> set hs"
    using vh h3 h4 h5 h6 mem by (simp add: createCurlHeader_def Let_def)
  ultimately show thesis using that [of rs rv s1 hs uuid s6 s2] d r s2 same2(2) same by (simp add: head_same_def)
qed

text \<open>A request that brings no document: it is logged, and the reply is handed to the caller.\<close>

lemma request_primary:
  fixes s :: "'z http_st_scheme"
  assumes "apply_inv s" "g_supplementarySync s = 0" "lists_short MAX_LBUFF_SIZE (webcfgdb_data s)"
    and "cr_init reply" "de_url env \<noteq> []" "request_url env (de_url env) = Some u" "\<not> (cr_ok reply \<and> cr_code reply = 200)"
  obtains rs rv s1 hs uuid i and s2 s' :: "'z http_st_scheme" where
    "derive_root_doc_version_string env 0 s = Some ((rs, rv), s1)"
    "webcfg_http_request env reply rc status docname v s = Some ((True, cr_code reply, Some uuid, v), s')"
    "refreshConfigVersionList env 0 MAX_LBUFF_SIZE MAX_LBUFF_SIZE s =
      Some ((version_text rs rv (webcfgdb_data s'), name_text (webcfgdb_data s')), s2)"
    "''IF-NONE-MATCH:'' @ version_text rs rv (webcfgdb_data s') \<in> set hs"
    "sync_same s s'" "requests s' = requests s @ [\<lparr>rq_url = u, rq_headers = hs, rq_ipresolve = ip_mode rc, rq_interface = i\<rparr>]"
    "apply_inv s'" "lists_short MAX_LBUFF_SIZE (webcfgdb_data s')" "db_file s' = db_file s2"
    "db_map (webcfgdb_data s') = db_update ''root'' rv rs (db_map (webcfgdb_data s))"
    "doc_versions (webcfgdb_data s') = doc_versions (webcfgdb_data s)" "doc_names (webcfgdb_data s') = doc_names (webcfgdb_data s)"
    "g_RebootReason s' = g_RebootReason s2"
proof -
  from createCurlHeader_primary [OF assms(1-3), of env status] obtain rs rv s1 hs uuid and s2 s3 :: "'z http_st_scheme" where
    d: "derive_root_doc_version_string env 0 s = Some ((rs, rv), s1)"
    and c: "createCurlHeader env status s = Some ((hs, Some uuid), s3)"
    and r: "refreshConfigVersionList env 0 MAX_LBUFF_SIZE MAX_LBUFF_SIZE s =
      Some ((version_text rs rv (webcfgdb_data s3), name_text (webcfgdb_data s3)), s2)"
    and h: "''IF-NONE-MATCH:'' @ version_text rs rv (webcfgdb_data s3) \<in> set hs"
    and s3: "sync_same s s3" "requests s3 = requests s" "apply_inv s3" "lists_short MAX_LBUFF_SIZE (webcfgdb_data s3)"
      "db_map (webcfgdb_data s3) = db_update ''root'' rv rs (db_map (webcfgdb_data s))" "db_file s3 = db_file s2" "g_RebootReason s3 = g_RebootReason s2"
      "doc_versions (webcfgdb_data s3) = doc_versions (webcfgdb_data s)" "doc_names (webcfgdb_data s3) = doc_names (webcfgdb_data s)"
    by metis
  have mem: "mem_ok s" using assms(1) by (simp add: apply_inv_def)
  have sup: "g_supplementarySync s3 = 0" using s3(1) assms(2) by (simp add: sync_same_def)
  have url: "config_url env docname s3 = Some (de_url env)" using sup assms(5) by (simp add: config_url_def)
  let ?s4 = "fetch_interface env (store_url env u s3)"
  have s4: "sync_same s3 ?s4" "webcfgdb_data ?s4 = webcfgdb_data s3" "success_doc_count ?s4 = success_doc_count s3"
    "requests ?s4 = requests s3" "db_file ?s4 = db_file s3" "g_RebootReason ?s4 = g_RebootReason s3"
    by (simp_all add: fetch_interface_def store_url_def sync_same_def split: option.split)
  let ?s5 = "?s4\<lparr>requests := requests ?s4 @ [\<lparr>rq_url = u, rq_headers = hs, rq_ipresolve = ip_mode rc, rq_interface = g_interface ?s4\<rparr>]\<rparr>"
  obtain e l where f: "fold (\<lambda>h t. snd (headr_callback h (length h) t)) (cr_headers reply) ?s5 = ?s5\<lparr>g_ETAG := e, g_contentLen := l\<rparr>"
    using headers_form by blast
  let ?s6 = "?s5\<lparr>g_ETAG := e, g_contentLen := l\<rparr>"
  have req: "webcfg_http_request env reply rc status docname v s = Some ((True, cr_code reply, Some uuid, v), ?s6)"
    using assms(4,6) mem c url f by (simp only: webcfg_http_request_def Let_def if_not_P [OF assms(7)]) simp
  have same: "sync_same s ?s6" using sync_same_trans [OF s3(1) s4(1)] by (simp add: sync_same_def)
  have "db_inv ?s6" using s3(3) s4(2,3) by (simp add: apply_inv_def db_inv_def)
  with sync_same_inv(1) [OF same this assms(1)] have inv: "apply_inv ?s6" by simp
  with that [of rs rv s1 uuid ?s6 s2 hs "g_interface ?s4"] d req r h same s3 s4 inv show thesis by simp
qed
section \<open>Retries and final answers\<close>

definition final_code :: "device_env \<Rightarrow> int \<Rightarrow> bool" where
  "final_code env code \<longleftrightarrow> code \<in> {204, 304, 429} \<or> (code \<notin> {403, 404} \<and> first_digit env code = Some 4)"

definition retry_code :: "device_env \<Rightarrow> int \<Rightarrow> bool" where
  "retry_code env code \<longleftrightarrow> code \<notin> {200, 204, 304, 429} \<and> (\<exists>d. first_digit env code = Some d \<and> (d \<noteq> 4 \<or> code = 403))"

lemma first_digit_403: "first_digit env 403 = Some 4" "first_digit env 404 = Some 4"
  by (simp_all add: first_digit_def lead_digit.simps)

lemma notify_root_total:
  assumes "db_inv s"
  obtains v r where "\<And>name st e err code uuid. notify_root name st e err code uuid s =
    Some (addWebConfgNotifyMsg name v st e uuid 0 (Some ''status'') err r code s)"
  using getRootDocVersion_eq [OF assms]
  by (cases "db_map (webcfgdb_data s) ''root''") (auto simp: notify_root_def)

lemma notify_same:
  "g_supplementarySync (addWebConfgNotifyMsg a b c d e f g h i j s) = g_supplementarySync s"
  "webcfgdb_data (addWebConfgNotifyMsg a b c d e f g h i j s) = webcfgdb_data s"
  "requests (addWebConfgNotifyMsg a b c d e f g h i j s) = requests s"
  "mem_ok s \<Longrightarrow> map nt_response_code (notifyMsgQ (addWebConfgNotifyMsg a b c d e f g h i j s)) = map nt_response_code (notifyMsgQ s) @ [j]"
  by (simp_all add: addWebConfgNotifyMsg_def notify_enqueue_def notify_msg_def)

lemma handle_retry:
  assumes "db_inv s" "retry_code env code"
  obtains v r where "handlehttpResponse env code rc uuid vars s =
    Some (0, if rc = 3 \<and> code \<noteq> 403 then addWebConfgNotifyMsg None v None None uuid 0 (Some ''status'') 0 r code s else s)"
proof -
  from notify_root_total [OF assms(1)] obtain v r where n: "\<And>name st e err code uuid. notify_root name st e err code uuid s =
    Some (addWebConfgNotifyMsg name v st e uuid 0 (Some ''status'') err r code s)" by blast
  from assms(2) obtain d where d: "first_digit env code = Some d" "d \<noteq> 4 \<or> code = 403" "code \<notin> {200, 204, 304, 429}"
    by (auto simp: retry_code_def)
  then have "handlehttpResponse env code rc uuid vars s = other_response env code rc uuid s" by (simp add: handlehttpResponse_def)
  also have "\<dots> = Some (0, if rc = 3 \<and> code \<noteq> 403 then addWebConfgNotifyMsg None v None None uuid 0 (Some ''status'') 0 r code s else s)"
    using d(1,2) n by (auto simp: other_response_def)
  finally show thesis by (rule that)
qed

lemma handle_final:
  assumes "db_inv s" "final_code env code"
  obtains v r where "handlehttpResponse env code rc uuid vars s =
    Some (1, addWebConfgNotifyMsg None v None None uuid 0 (Some ''status'') 0 r code s)"
proof -
  from notify_root_total [OF assms(1)] obtain v r where n: "\<And>name st e err code uuid. notify_root name st e err code uuid s =
    Some (addWebConfgNotifyMsg name v st e uuid 0 (Some ''status'') err r code s)" by blast
  have "first_digit env 200 = Some 2" by (simp add: first_digit_def lead_digit.simps)
  with assms(2) n have "handlehttpResponse env code rc uuid vars s =
      Some (1, addWebConfgNotifyMsg None v None None uuid 0 (Some ''status'') 0 r code s)"
    by (auto simp: final_code_def handlehttpResponse_def other_response_def)
  then show thesis by (rule that)
qed

text \<open>What a round needs from its surroundings.\<close>

definition round_ready :: "device_env \<times> curl_reply \<Rightarrow> bool" where
  "round_ready io \<longleftrightarrow> cr_init (snd io) \<and> de_url (fst io) \<noteq> [] \<and> request_url (fst io) (de_url (fst io)) \<noteq> None"

definition sync_ready :: "'z http_st_scheme \<Rightarrow> bool" where
  "sync_ready s \<longleftrightarrow> apply_inv s \<and> g_supplementarySync s = 0 \<and> lists_short MAX_LBUFF_SIZE (webcfgdb_data s)"

lemma round_request:
  fixes s :: "'z http_st_scheme"
  assumes "sync_ready s" "round_ready (env, reply)" "cr_code reply \<noteq> 200"
  obtains uuid r and s' :: "'z http_st_scheme" where
    "webcfg_http_request env reply rc status docname v s = Some ((True, cr_code reply, Some uuid, v), s')"
    "sync_ready s'" "db_inv s'" "notifyMsgQ s' = notifyMsgQ s" "requests s' = requests s @ [r]" "rq_ipresolve r = ip_mode rc"
    "mem_ok s'"
proof -
  obtain u where u: "request_url env (de_url env) = Some u" using assms(2) by (auto simp: round_ready_def)
  have r: "cr_init reply" "de_url env \<noteq> []" "\<not> (cr_ok reply \<and> cr_code reply = 200)"
    using assms(2,3) by (simp_all add: round_ready_def)
  have s: "apply_inv s" "g_supplementarySync s = 0" "lists_short MAX_LBUFF_SIZE (webcfgdb_data s)"
    using assms(1) by (simp_all add: sync_ready_def)
  from request_primary [OF s r(1,2) u r(3), of rc status docname v] obtain hs uuid i and s' :: "'z http_st_scheme" where
    s': "webcfg_http_request env reply rc status docname v s = Some ((True, cr_code reply, Some uuid, v), s')" "sync_same s s'"
    "requests s' = requests s @ [\<lparr>rq_url = u, rq_headers = hs, rq_ipresolve = ip_mode rc, rq_interface = i\<rparr>]"
    "apply_inv s'" "lists_short MAX_LBUFF_SIZE (webcfgdb_data s')" by metis
  then show thesis using that s(2) by (simp add: sync_ready_def sync_same_def apply_inv_def)
qed

lemma sync_ready_notify: "sync_ready (addWebConfgNotifyMsg a b c d e f g h i j s) = sync_ready s"
  by (simp add: sync_ready_def notify_same keeps)

lemma sync_rounds_retry:
  fixes s :: "'z http_st_scheme"
  assumes "rc \<le> 3" "sync_ready s" "\<forall>n. rc \<le> n \<and> n < 4 \<longrightarrow> round_ready (io n) \<and> retry_code (fst (io n)) (cr_code (snd (io n)))"
  shows "\<exists>s'. sync_rounds io status docname rc v s = Some s' \<and> sync_ready s' \<and>
    map rq_ipresolve (requests s') = map rq_ipresolve (requests s) @ map ip_mode [rc..<4] \<and>
    map nt_response_code (notifyMsgQ s') =
      map nt_response_code (notifyMsgQ s) @ (if cr_code (snd (io 3)) = 403 then [] else [cr_code (snd (io 3))])"
  using assms
proof (induction "3 - rc" arbitrary: rc s)
  case 0
  then have rc: "rc = 3" by simp
  obtain env reply where io: "io 3 = (env, reply)" by (cases "io 3")
  from 0(4) rc io have r: "round_ready (env, reply)" "retry_code env (cr_code reply)" by auto
  then have code: "cr_code reply \<noteq> 200" by (auto simp: retry_code_def)
  from round_request [OF 0(3) r(1) code, of 3 status docname v] obtain uuid q and s1 :: "'z http_st_scheme" where
    s1: "webcfg_http_request env reply 3 status docname v s = Some ((True, cr_code reply, Some uuid, v), s1)"
    "sync_ready s1" "db_inv s1" "notifyMsgQ s1 = notifyMsgQ s" "requests s1 = requests s @ [q]" "rq_ipresolve q = ip_mode 3" "mem_ok s1"
    by blast
  from handle_retry [OF s1(3) r(2), of 3 "Some uuid" v] obtain x y where
    h: "handlehttpResponse env (cr_code reply) 3 (Some uuid) v s1 = Some (0, if (3::nat) = 3 \<and> cr_code reply \<noteq> 403
      then addWebConfgNotifyMsg None x None None (Some uuid) 0 (Some ''status'') 0 y (cr_code reply) s1 else s1)" by blast
  have "sync_rounds io status docname rc v s = Some (if cr_code reply \<noteq> 403
      then addWebConfgNotifyMsg None x None None (Some uuid) 0 (Some ''status'') 0 y (cr_code reply) s1 else s1)"
    using s1(1) h by (subst sync_rounds.simps) (simp add: rc io, simp add: sync_rounds.simps)
  moreover have "[3..<4] = [3::nat]" by (simp add: upt_rec)
  ultimately show ?case using s1 rc io by (simp add: sync_ready_notify notify_same)
next
  case (Suc k)
  then have rc: "rc < 3" by simp
  obtain env reply where io: "io rc = (env, reply)" by (cases "io rc")
  have "round_ready (io rc) \<and> retry_code (fst (io rc)) (cr_code (snd (io rc)))" using Suc(5) rc by simp
  with io have r: "round_ready (env, reply)" "retry_code env (cr_code reply)" by auto
  then have code: "cr_code reply \<noteq> 200" by (auto simp: retry_code_def)
  from round_request [OF Suc(4) r(1) code, of rc status docname v] obtain uuid q and s1 :: "'z http_st_scheme" where
    s1: "webcfg_http_request env reply rc status docname v s = Some ((True, cr_code reply, Some uuid, v), s1)"
    "sync_ready s1" "db_inv s1" "notifyMsgQ s1 = notifyMsgQ s" "requests s1 = requests s @ [q]" "rq_ipresolve q = ip_mode rc" "mem_ok s1"
    by blast
  have h: "handlehttpResponse env (cr_code reply) rc (Some uuid) v s1 = Some (0, s1)"
    using handle_retry [OF s1(3) r(2), of rc "Some uuid" v] rc by auto
  have "sync_rounds io status docname rc v s = sync_rounds io status docname (Suc rc) v s1"
    using s1(1) h rc by (subst sync_rounds.simps) (simp add: io)
  moreover have "k = 3 - Suc rc" "Suc rc \<le> 3" using Suc(2) rc by simp_all
  moreover from Suc(1) [OF this s1(2)] Suc(5) obtain s' where "sync_rounds io status docname (Suc rc) v s1 = Some s'" "sync_ready s'"
    "map rq_ipresolve (requests s') = map rq_ipresolve (requests s1) @ map ip_mode [Suc rc..<4]"
    "map nt_response_code (notifyMsgQ s') =
      map nt_response_code (notifyMsgQ s1) @ (if cr_code (snd (io 3)) = 403 then [] else [cr_code (snd (io 3))])"
    by (metis Suc_leD)
  moreover have "[rc..<4] = rc # [Suc rc..<4]" using rc by (simp add: upt_rec)
  ultimately show ?case using s1 by simp
qed

text \<open>C4: a primary sync the cloud keeps refusing with a code to be retried (5xx, 403, or any code
  without a treatment of its own, provided \<open>log10\<close> of it is harmless) ends after exactly four
  requests, which resolve the host in the default, the IPv4, the IPv6 and the default mode,
  and reports the last code to the cloud once, unless it is 403, which is not reported.\<close>

theorem sync_gives_up:
  assumes "apply_inv s" "g_supplementarySync s = 0" "lists_short MAX_LBUFF_SIZE (webcfgdb_data s)"
    and "\<forall>n<4. round_ready (io n) \<and> retry_code (fst (io n)) (cr_code (snd (io n)))"
  shows "\<exists>s'. processWebconfgSync io status docname s = Some s' \<and>
    map rq_ipresolve (requests s') = map rq_ipresolve (requests s) @ [IPRESOLVE_WHATEVER, IPRESOLVE_V4, IPRESOLVE_V6, IPRESOLVE_WHATEVER] \<and>
    map nt_response_code (notifyMsgQ s') =
      map nt_response_code (notifyMsgQ s) @ (if cr_code (snd (io 3)) = 403 then [] else [cr_code (snd (io 3))])"
proof -
  have "map ip_mode [0..<4] = [IPRESOLVE_WHATEVER, IPRESOLVE_V4, IPRESOLVE_V6, IPRESOLVE_WHATEVER]"
    by (simp add: upt_rec ip_mode_def)
  with sync_rounds_retry [of 0 s io status docname "\<lparr>sv_data = None, sv_ct = []\<rparr>"] assms show ?thesis
    unfolding processWebconfgSync_def sync_ready_def by auto
qed

text \<open>C31: a response 304, 204, 429 or any 4xx but 403 and 404 is final: the primary sync ends after
  this one request and reports its code once; the lists and every document but root stay as
  they are in the database.\<close>

theorem sync_final_answer:
  fixes s :: "'z http_st_scheme"
  assumes "apply_inv s" "g_supplementarySync s = 0" "lists_short MAX_LBUFF_SIZE (webcfgdb_data s)"
    and "round_ready (io 0)" "final_code (fst (io 0)) (cr_code (snd (io 0)))"
  shows "\<exists>s' r. processWebconfgSync io status docname s = Some s' \<and> requests s' = requests s @ [r] \<and>
    map nt_response_code (notifyMsgQ s') = map nt_response_code (notifyMsgQ s) @ [cr_code (snd (io 0))] \<and>
    g_head s' = g_head s \<and> g_mp_head s' = g_mp_head s \<and>
    (\<forall>d. d \<noteq> ''root'' \<longrightarrow> db_map (webcfgdb_data s') d = db_map (webcfgdb_data s) d)"
proof -
  obtain env reply where io: "io 0 = (env, reply)" by (cases "io 0")
  obtain u where u: "request_url env (de_url env) = Some u" using assms(4) io by (auto simp: round_ready_def)
  have r: "cr_init reply" "de_url env \<noteq> []" "\<not> (cr_ok reply \<and> cr_code reply = 200)" "final_code env (cr_code reply)"
    using assms(4,5) io by (auto simp: round_ready_def final_code_def first_digit_def lead_digit.simps)
  from request_primary [OF assms(1-3) r(1,2) u r(3), of 0 status docname "\<lparr>sv_data = None, sv_ct = []\<rparr>"]
  obtain rs rv hs uuid i and s1 :: "'z http_st_scheme" where
    s1: "webcfg_http_request env reply 0 status docname \<lparr>sv_data = None, sv_ct = []\<rparr> s =
      Some ((True, cr_code reply, Some uuid, \<lparr>sv_data = None, sv_ct = []\<rparr>), s1)" "sync_same s s1"
    "requests s1 = requests s @ [\<lparr>rq_url = u, rq_headers = hs, rq_ipresolve = ip_mode 0, rq_interface = i\<rparr>]"
    "apply_inv s1" "db_map (webcfgdb_data s1) = db_update ''root'' rv rs (db_map (webcfgdb_data s))" by metis
  have "db_inv s1" using s1(4) by (simp add: apply_inv_def)
  from handle_final [OF this r(4), of 0 "Some uuid"] obtain x y where
    h: "handlehttpResponse env (cr_code reply) 0 (Some uuid) \<lparr>sv_data = None, sv_ct = []\<rparr> s1 =
      Some (1, addWebConfgNotifyMsg None x None None (Some uuid) 0 (Some ''status'') 0 y (cr_code reply) s1)" by metis
  let ?s2 = "addWebConfgNotifyMsg None x None None (Some uuid) 0 (Some ''status'') 0 y (cr_code reply) s1"
  have p: "processWebconfgSync io status docname s = Some ?s2"
    unfolding processWebconfgSync_def by (subst sync_rounds.simps) (simp add: io s1(1) h)
  have "mem_ok s1" using s1(4) by (simp add: apply_inv_def)
  moreover have "g_head ?s2 = g_head s1" "g_mp_head ?s2 = g_mp_head s1"
    by (simp_all add: addWebConfgNotifyMsg_def notify_enqueue_def)
  ultimately show ?thesis using p s1 io by (simp add: notify_same sync_same_def db_update_def)
qed
section \<open>The lists in the small buffers of the response\<close>

text \<open>\<open>handlehttpResponse\<close> gives the lists buffers of 512 bytes on the stack although they are
  formed for 8192: with documents enough for a version list of 512 bytes, a response 404
  makes \<open>refreshConfigVersionList\<close> write past the end of the buffer.\<close>

theorem response_404_overflow:
  assumes "apply_inv s" "512 \<le> length (join '','' ([] # doc_versions (webcfgdb_data s)))" "root_string_length (webcfgdb_data s) < 500"
  shows "handlehttpResponse env 404 retry_count uuid v s = None"
proof -
  have inv: "db_inv s" using assms(1) by (simp add: apply_inv_def)
  from derive_total [OF inv, of env 404] obtain rs rv s1 where d: "derive_root_doc_version_string env 404 s = Some ((rs, rv), s1)"
    by metis
  from refresh_spec [OF assms(1) d, of 512 512] obtain s' where s':
    "refreshConfigVersionList env 404 512 512 s = map_option (\<lambda>texts. (texts, s')) (list_versions rs rv 512 512 (webcfgdb_data s'))"
    "webcfgdb_data s' \<noteq> []" "doc_versions (webcfgdb_data s') = doc_versions (webcfgdb_data s)" by metis
  have "512 \<le> length (version_text rs rv (webcfgdb_data s'))"
    using assms(2) s'(3) by (simp add: version_text_def length_join_cons [of _ "root_text rs rv"] del: join.simps)
  moreover have "length (root_text rs rv) < min 512 MAX_LBUFF_SIZE"
    using length_root_text [of rs rv] derived_length [OF inv d] assms(3) by (simp add: MAX_LBUFF_SIZE_def)
  ultimately have "list_versions rs rv 512 512 (webcfgdb_data s') = None" using s'(2) by (rule list_versions_overflow)
  with s'(1) show ?thesis by (simp add: handlehttpResponse_def other_response_def first_digit_403)
qed

section \<open>The handshake after a factory reset\<close>

lemma refresh_creates_file:
  assumes "refreshConfigVersionList env status vcap dcap s = Some (texts, s')" "webcfgdb_data s = []" "mem_ok s" "ae_can_open (de_apply env)"
  shows "db_file s' \<noteq> None"
proof -
  obtain x s1 st s2 where d: "derive_root_doc_version_string env status s = Some (x, s1)"
    and c: "checkDBList ''root'' (snd x) (fst x) s1 = Some (st, s2)"
    and s': "s' = (if st = WEBCFG_SUCCESS then snd (addNewDocEntry (ae_write (de_apply env)) (ae_can_open (de_apply env))
        (nat (success_doc_count s2)) s2) else s2)"
    using assms(1) by (auto simp: refreshConfigVersionList_def Let_def split: option.splits prod.splits)
  obtain r k where "s1 = s\<lparr>g_RebootReason := r, reset_once := k\<rparr>" using derive_form [OF d] by blast
  with c assms(2,3) have "st = WEBCFG_SUCCESS" by (simp add: checkDBList_def updateDBlist_def)
  with s' assms(4) show ?thesis by (simp add: addNewDocEntry_def writeToDBFile_def split: option.split)
qed

lemma derive_reason:
  assumes "derive_root_doc_version_string env status s = Some (x, s1)"
  shows "g_RebootReason s1 = g_RebootReason (fetch_reboot_reason env s)"
  using assms by (auto simp: derive_root_doc_version_string_def Let_def split: if_splits option.splits prod.splits)

lemma refresh_reason:
  assumes "refreshConfigVersionList env status vcap dcap s = Some (texts, s')"
  shows "g_RebootReason s' = g_RebootReason (fetch_reboot_reason env s)"
proof -
  obtain x s1 st s2 where d: "derive_root_doc_version_string env status s = Some (x, s1)"
    and c: "checkDBList ''root'' (snd x) (fst x) s1 = Some (st, s2)"
    and s': "s' = (if st = WEBCFG_SUCCESS then snd (addNewDocEntry (ae_write (de_apply env)) (ae_can_open (de_apply env))
        (nat (success_doc_count s2)) s2) else s2)"
    using assms by (auto simp: refreshConfigVersionList_def Let_def split: option.splits prod.splits)
  obtain db n f where "s2 = s1\<lparr>webcfgdb_data := db, success_doc_count := n\<rparr>" using checkDBList_form [OF c] by blast
  moreover obtain f where "snd (addNewDocEntry (ae_write (de_apply env)) (ae_can_open (de_apply env)) (nat (success_doc_count s2)) s2) =
      s2\<lparr>db_file := f\<rparr>" using addNewDocEntry_form by blast
  ultimately have "g_RebootReason s' = g_RebootReason s1" using s' by (auto split: if_splits)
  with derive_reason [OF d] show ?thesis by simp
qed

text \<open>C30: after a factory reset, without a database, the first request carries the root version
  \<open>NONE\<close>; when the cloud answers 404, the device records \<open>POST-NONE\<close> for root and confirms it
  in the one notification of this sync.\<close>

theorem factory_reset_handshake:
  fixes s :: "'z http_st_scheme"
  assumes "apply_inv s" "g_supplementarySync s = 0" "webcfgdb_data s = []" "db_file s = None"
    and "g_RebootReason (fetch_reboot_reason (fst (io 0)) s) = FACTORY_RESET_REBOOT_REASON" "ae_can_open (de_apply (fst (io 0)))"
    and "round_ready (io 0)" "cr_code (snd (io 0)) = 404"
  shows "\<exists>s' r m. processWebconfgSync io status docname s = Some s' \<and> requests s' = requests s @ [r] \<and>
    ''IF-NONE-MATCH:NONE'' \<in> set (rq_headers r) \<and> db_map (webcfgdb_data s') ''root'' = Some (0, Some ''POST-NONE'') \<and>
    notifyMsgQ s' = notifyMsgQ s @ [m] \<and> nt_version m = Some ''POST-NONE'' \<and> nt_response_code m = 404"
proof -
  obtain env reply where io: "io 0 = (env, reply)" by (cases "io 0")
  obtain u where u: "request_url env (de_url env) = Some u" using assms(7) io by (auto simp: round_ready_def)
  have r: "cr_init reply" "de_url env \<noteq> []" "\<not> (cr_ok reply \<and> cr_code reply = 200)"
    using assms(7,8) io by (auto simp: round_ready_def)
  have short: "lists_short MAX_LBUFF_SIZE (webcfgdb_data s)"
    by (simp add: assms(3) lists_short_def name_text_def root_string_length_def MAX_LBUFF_SIZE_def)
  let ?v = "\<lparr>sv_data = None, sv_ct = []\<rparr>"
  from request_primary [OF assms(1,2) short r(1,2) u r(3), of 0 status docname ?v]
  obtain rs rv s0 hs uuid i and s2 s1 :: "'z http_st_scheme" where
    d: "derive_root_doc_version_string env 0 s = Some ((rs, rv), s0)"
    and req: "webcfg_http_request env reply 0 status docname ?v s = Some ((True, cr_code reply, Some uuid, ?v), s1)"
    and rf: "refreshConfigVersionList env 0 MAX_LBUFF_SIZE MAX_LBUFF_SIZE s =
      Some ((version_text rs rv (webcfgdb_data s1), name_text (webcfgdb_data s1)), s2)"
    and h: "''IF-NONE-MATCH:'' @ version_text rs rv (webcfgdb_data s1) \<in> set hs"
    and s1: "sync_same s s1" "requests s1 = requests s @ [\<lparr>rq_url = u, rq_headers = hs, rq_ipresolve = ip_mode 0, rq_interface = i\<rparr>]"
      "apply_inv s1" "db_file s1 = db_file s2" "db_map (webcfgdb_data s1) = db_update ''root'' rv rs (db_map (webcfgdb_data s))"
      "doc_versions (webcfgdb_data s1) = doc_versions (webcfgdb_data s)" "doc_names (webcfgdb_data s1) = doc_names (webcfgdb_data s)"
      "g_RebootReason s1 = g_RebootReason s2" by metis
  have reason: "g_RebootReason (fetch_reboot_reason env s) = ''factory-reset''"
    using assms(5) io by (simp add: FACTORY_RESET_REBOOT_REASON_def)
  then have rs: "rs = Some ''NONE''" "rv = 0"
    using d assms(4)
    by (auto simp: derive_root_doc_version_string_def Let_def fetch_reboot_reason_frame no_db_root_string_def FACTORY_RESET_REBOOT_REASON_def)
  have mem: "mem_ok s" "mem_ok s1" using assms(1) s1(3) by (simp_all add: apply_inv_def)
  have dbf: "db_file s1 \<noteq> None" using refresh_creates_file [OF rf assms(3) mem(1)] assms(6) s1(4) io by simp
  have reason1: "g_RebootReason s1 = ''factory-reset''" using refresh_reason [OF rf] s1(8) reason by simp
  have root1: "db_map (webcfgdb_data s1) ''root'' = Some (0, Some ''NONE'')" using s1(5) rs by (simp add: db_update_def)
  have inv1: "db_inv s1" using s1(3) by (simp add: apply_inv_def)
  have short1: "lists_short 512 (webcfgdb_data s1)"
    using root1 s1(6,7) by (simp add: assms(3) lists_short_def name_text_def root_string_length_def MAX_LBUFF_SIZE_def)
  have same1: "fetch_reboot_reason env s1 = s1" using reason1 by (simp add: fetch_reboot_reason_def)
  have d1: "derive_root_doc_version_string env 404 s1 = Some ((Some ''POST-NONE'', 0), s1)"
    using dbf getRootDocVersion_eq [OF inv1] root1
    by (auto simp: derive_root_doc_version_string_def Let_def same1 reason1 root_from_db_def)
  from refresh_short [OF s1(3) short1, of env 404] obtain rs' rv' s1' t and s3 :: "'z http_st_scheme" where
    d3: "derive_root_doc_version_string env 404 s1 = Some ((rs', rv'), s1')"
    and r3: "refreshConfigVersionList env 404 512 512 s1 = Some (t, s3)" "apply_inv s3"
      "db_map (webcfgdb_data s3) = db_update ''root'' rv' rs' (db_map (webcfgdb_data s1))" by metis
  have root3: "db_map (webcfgdb_data s3) ''root'' = Some (0, Some ''POST-NONE'')" using d3 d1 r3(3) by (simp add: db_update_def)
  have same3: "sync_same s1 s3" "requests s3 = requests s1" using refresh_same [OF r3(1)] by auto
  have "db_inv s3" using r3(2) by (simp add: apply_inv_def)
  then have g3: "getRootDocVersionFromDBCache s3 = Some (0, Some ''POST-NONE'', int (length (webcfgdb_data s3)))"
    using root3 by (simp add: getRootDocVersion_eq)
  let ?s4 = "addWebConfgNotifyMsg None 0 None None (Some uuid) 0 (Some ''status'') 0 (Some ''POST-NONE'') 404 s3"
  have "handlehttpResponse env 404 0 (Some uuid) ?v s1 = Some (1, ?s4)"
    using r3(1) g3 by (simp add: handlehttpResponse_def other_response_def first_digit_403 notify_root_def)
  then have p: "processWebconfgSync io status docname s = Some ?s4"
    using req assms(8) io unfolding processWebconfgSync_def by (subst sync_rounds.simps) simp
  have "mem_ok s3" using r3(2) by (simp add: apply_inv_def)
  then have "notifyMsgQ ?s4 = notifyMsgQ s @ [notify_msg None 0 None None (Some uuid) 0 (Some ''status'') 0 (Some ''POST-NONE'') 404]"
    "requests ?s4 = requests s1" "webcfgdb_data ?s4 = webcfgdb_data s3"
    using s1(1) same3 by (simp_all add: addWebConfgNotifyMsg_def notify_enqueue_def sync_same_def)
  moreover have "version_text rs rv (webcfgdb_data s1) = ''NONE''"
    using s1(6) by (simp add: version_text_def rs root_text_def assms(3))
  ultimately show ?thesis using p s1(2) h root3
    by (simp add: notify_msg_def notify_version_def fit_def)
qed
section \<open>Concrete syncs\<close>

definition demo_reply :: "int \<Rightarrow> curl_reply" where
  "demo_reply code = \<lparr>cr_init = True, cr_ok = True, cr_code = code, cr_headers = [], cr_chunks = [], cr_content_type = None\<rparr>"

lemma demo_ready: "round_ready (demo_device, demo_reply code)" "round_ready (demo_device\<lparr>de_reboot_reason := r\<rparr>, demo_reply code)"
proof -
  have "mac_parts ''{mac}'' ''https://x/device/{mac}/config'' = [''https://x/device/'', ''/config'']"
    using mac_parts_one [of "CHR ''{''" "''https://x/device/''" "''/config''" "''mac}''"] by simp
  then have "replaceMacWord True (Some ''https://x/device/{mac}/config'') (Some ''{mac}'') (Some ''0a1b2c3d4e5f'') =
      Some (Some ''https://x/device/0a1b2c3d4e5f/config'')"
    using replaceMacWord_parts [of "''{mac}''" "''https://x/device/{mac}/config''" "Some ''0a1b2c3d4e5f''"]
    by (simp add: fallback_mac_def)
  then show "round_ready (demo_device, demo_reply code)" "round_ready (demo_device\<lparr>de_reboot_reason := r\<rparr>, demo_reply code)"
    by (simp_all add: round_ready_def demo_reply_def demo_device_def request_url_def checkValidURL_def)
qed

lemma demo_short: "g_supplementarySync demo_http_st = 0" "lists_short MAX_LBUFF_SIZE (webcfgdb_data demo_http_st)"
proof -
  have "root_string_length demo_db = 0" by (simp add: root_string_length_def demo_db_lists)
  then show "g_supplementarySync demo_http_st = 0" "lists_short MAX_LBUFF_SIZE (webcfgdb_data demo_http_st)"
    by (simp_all add: demo_http_st_def demo_http_ok(3) [unfolded demo_http_st_def] lists_short_def name_text_def demo_db_lists MAX_LBUFF_SIZE_def)
qed

theorem sync_gives_up_witness:
  "\<exists>s'. processWebconfgSync (\<lambda>_. (demo_device, demo_reply 503)) 0 None demo_http_st = Some s' \<and>
     length (requests s') = length (requests demo_http_st) + 4"
proof -
  have "retry_code demo_device 503" by (simp add: retry_code_def first_digit_def lead_digit.simps)
  then obtain s' where "processWebconfgSync (\<lambda>_. (demo_device, demo_reply 503)) 0 None demo_http_st = Some s'"
    "map rq_ipresolve (requests s') = map rq_ipresolve (requests demo_http_st) @ [IPRESOLVE_WHATEVER, IPRESOLVE_V4, IPRESOLVE_V6, IPRESOLVE_WHATEVER]"
    using sync_gives_up [OF demo_http_ok(1) demo_short, of "\<lambda>_. (demo_device, demo_reply 503)" 0 None] demo_ready(1)
    by (auto simp: demo_reply_def)
  then show ?thesis by (auto dest: arg_cong [of _ _ length])
qed

theorem sync_final_answer_witness:
  "\<exists>s' r. processWebconfgSync (\<lambda>_. (demo_device, demo_reply 304)) 0 None demo_http_st = Some s' \<and>
     requests s' = requests demo_http_st @ [r]"
proof -
  let ?io = "\<lambda>_. (demo_device, demo_reply 304)"
  have "round_ready (?io 0)" "final_code (fst (?io 0)) (cr_code (snd (?io 0)))"
    using demo_ready(1) by (simp_all add: final_code_def demo_reply_def)
  from sync_final_answer [OF demo_http_ok(1) demo_short this, of 0 None] show ?thesis by blast
qed

theorem factory_reset_handshake_witness:
  "\<exists>s' r m. processWebconfgSync (\<lambda>_. (demo_device\<lparr>de_reboot_reason := Some ''factory-reset''\<rparr>, demo_reply 404)) 0 None http_st0 = Some s' \<and>
     requests s' = [r] \<and> notifyMsgQ s' = [m] \<and> nt_version m = Some ''POST-NONE''"
proof -
  let ?io = "\<lambda>_. (demo_device\<lparr>de_reboot_reason := Some ''factory-reset''\<rparr>, demo_reply 404)"
  have inv: "apply_inv http_st0" "g_supplementarySync http_st0 = 0" "webcfgdb_data http_st0 = []"
    by (simp_all add: apply_inv_def tmp_inv_def db_inv_def db_names_def)
  have db: "db_file http_st0 = None" by (simp add: http_st0_def ev_st.defs ev_st0_def db_st.defs db_st0_defs)
  have env: "g_RebootReason (fetch_reboot_reason (fst (?io 0)) http_st0) = FACTORY_RESET_REBOOT_REASON"
    "ae_can_open (de_apply (fst (?io 0)))" "round_ready (?io 0)" "cr_code (snd (?io 0)) = 404"
    using demo_ready(2) by (simp_all add: fetch_reboot_reason_def fit_def FACTORY_RESET_REBOOT_REASON_def demo_device_def demo_env_def demo_reply_def)
  from factory_reset_handshake [OF inv db env, of 0 None] show ?thesis by auto
qed

definition many_docs :: "nat \<Rightarrow> webconfig_db_data list" where
  "many_docs n = map (\<lambda>i. \<lparr>db_name = Some (CHR ''d'' # dec i), db_version = 5, db_root_string = None\<rparr>) [0..<n]"

lemma many_docs_versions: "doc_versions (many_docs n) = replicate n ''5''"
proof -
  have "filter (\<lambda>d. db_name d \<noteq> None \<and> db_name d \<noteq> Some ''root'') (many_docs n) = many_docs n"
    by (auto simp: many_docs_def filter_map filter_id_conv)
  then have "doc_versions (many_docs n) = map (\<lambda>d. dec (unat (db_version d))) (many_docs n)"
    by (simp only: doc_versions_def other_docs_def)
  then show ?thesis by (simp add: many_docs_def dec_five o_def map_replicate_const)
qed

lemma length_join_replicate: "length (join '','' ([] # replicate n ''5'')) = 2 * n"
  by (induction n) (simp_all add: length_join_cons [of _ "''5''"])

lemma dec_inj: "dec a = dec b \<longleftrightarrow> a = b"
  using foldl_dec by metis

theorem response_404_overflow_witness:
  "\<exists>s. apply_inv s \<and> handlehttpResponse demo_device 404 0 None \<lparr>sv_data = None, sv_ct = []\<rparr> (s :: http_st) = None"
proof -
  let ?s = "http_st0\<lparr>webcfgdb_data := many_docs 300, success_doc_count := 300\<rparr>"
  have "distinct (db_names (many_docs 300))" "None \<notin> set (db_names (many_docs 300))"
    by (auto simp: many_docs_def db_names_def distinct_map inj_on_def dec_inj)
  moreover have "length (many_docs 300) = 300" by (simp add: many_docs_def)
  ultimately have inv: "apply_inv ?s" by (simp add: apply_inv_def tmp_inv_def db_inv_def)
  have "512 \<le> length (join '','' ([] # doc_versions (webcfgdb_data ?s)))"
    by (simp add: many_docs_versions length_join_replicate del: join.simps)
  moreover have "find (\<lambda>n. db_name n = Some ''root'') (many_docs 300) = None" by (auto simp: find_None_iff many_docs_def)
  then have "root_string_length (webcfgdb_data ?s) < 500" by (simp add: root_string_length_def db_map_def)
  ultimately have "handlehttpResponse demo_device 404 0 None \<lparr>sv_data = None, sv_ct = []\<rparr> ?s = None"
    by (rule response_404_overflow [OF inv])
  with inv show ?thesis by blast
qed

end
