(* ===== verification/Force.thy ===== *)
theory Force
  imports Sync
begin

text \<open>
  Forced syncs: a poke from the cloud, from another component or from the program itself is
  put into a queue that the sync thread takes from (\<open>set_rbus_ForceSync\<close>,
  \<open>get_rbus_ForceSync\<close> and the queue operations of \<open>src/src/webcfg_rbus.c\<close>, reached through
  \<open>setForceSync\<close> and \<open>getForceSync\<close> of \<open>src/src/webcfg_generic.c\<close>). cJSON is a parameter.
\<close>

section \<open>State\<close>

record ForceSyncMsg =
  fm_ForceSyncVal :: "string option"
  fm_ForceSyncTransID :: "string option"

text \<open>\<open>sync_signal\<close>: \<open>sync_condition\<close> was signalled since the sync thread last began to wait;
  a signal nobody waits for is lost.\<close>

record force_st = http_st +
  ForceSync :: string
  ForceSyncTransID :: string
  ForceSyncMsgQ :: "ForceSyncMsg list"
  sync_signal :: bool

text \<open>What comes from outside with a request: the JSON of the payload as cJSON sees it, a new
  transaction id, and whether rbus is enabled. A JSON object gives for \<open>value\<close> and for
  \<open>transaction_id\<close> no item, an item that is not a string, or a string.\<close>

record force_env =
  fe_json :: "string \<Rightarrow> (string option option \<times> string option option) option"
  fe_uuid :: string
  fe_telemetry_url :: string
  fe_rbus_enabled :: bool

section \<open>The queue\<close>

definition force_enqueue :: "ForceSyncMsg \<Rightarrow> 'z force_st_scheme \<Rightarrow> 'z force_st_scheme" where
  "force_enqueue message s = s\<lparr>ForceSyncMsgQ := ForceSyncMsgQ s @ [message]\<rparr>"

definition force_dequeue :: "'z force_st_scheme \<Rightarrow> (ForceSyncMsg \<times> 'z force_st_scheme) option" where
  "force_dequeue s = (case ForceSyncMsgQ s of [] \<Rightarrow> None | m # q \<Rightarrow> Some (m, s\<lparr>ForceSyncMsgQ := q\<rparr>))"

interpretation fsq: msg_queue
  "force_enqueue :: ForceSyncMsg \<Rightarrow> 'z force_st_scheme \<Rightarrow> 'z force_st_scheme" force_dequeue ForceSyncMsgQ
  by unfold_locales (auto simp: force_enqueue_def force_dequeue_def split: list.splits)

definition addForceSyncMsgToQueue ::
  "string option \<Rightarrow> string option \<Rightarrow> 'z force_st_scheme \<Rightarrow> WEBCFG_STATUS \<times> 'z force_st_scheme" where
  "addForceSyncMsgToQueue val trans_id s =
     (if mem_ok s
      then (WEBCFG_SUCCESS, force_enqueue \<lparr>fm_ForceSyncVal = val, fm_ForceSyncTransID = trans_id\<rparr> s)
      else (WEBCFG_FAILURE, s))"

fun force_update :: "string \<Rightarrow> string \<Rightarrow> ForceSyncMsg list \<Rightarrow> bool \<times> ForceSyncMsg list" where
  "force_update val trans_id [] = (False, [])"
| "force_update val trans_id (m # ms) =
     (if fm_ForceSyncVal m = Some val then (True, m\<lparr>fm_ForceSyncTransID := Some trans_id\<rparr> # ms)
      else (case force_update val trans_id ms of (found, ms') \<Rightarrow> (found, m # ms')))"

text \<open>Looks for the value in the buffer \<open>ForceSync\<close>.\<close>

definition updateForceSyncMsgQueue :: "string option \<Rightarrow> 'z force_st_scheme \<Rightarrow> bool \<times> 'z force_st_scheme" where
  "updateForceSyncMsgQueue trans_id s =
     (case trans_id of
        None \<Rightarrow> (False, s)
      | Some t \<Rightarrow> (case force_update (ForceSync s) t (ForceSyncMsgQ s) of
            (found, q) \<Rightarrow> (found, s\<lparr>ForceSyncMsgQ := q\<rparr>)))"

definition deleteForceSyncMsgQueue :: "'z force_st_scheme \<Rightarrow> 'z force_st_scheme" where
  "deleteForceSyncMsgQueue s = s\<lparr>ForceSyncMsgQ := []\<rparr>"

section \<open>Requesting a sync\<close>

text \<open>The result: the return value, the value and the transaction id; \<open>None\<close> when the item
  \<open>transaction_id\<close> is missing and a field of NULL is read.\<close>

definition parseForceSyncJson :: "force_env \<Rightarrow> string \<Rightarrow> (int \<times> string option \<times> string option) option" where
  "parseForceSyncJson env payload =
     (case fe_json env payload of
        None \<Rightarrow> Some (0, None, None)
      | Some (None, _) \<Rightarrow> Some (0, None, None)
      | Some (Some valuestring, trans_item) \<Rightarrow>
          (case trans_item of
             None \<Rightarrow> None
           | Some transid \<Rightarrow>
               (let non_empty = (\<lambda>x. case x of None \<Rightarrow> None | Some t \<Rightarrow> if t \<noteq> [] then Some t else None)
                in if valuestring = Some ''telemetry'' \<and> strncmp_eq (fe_telemetry_url env) ''NULL'' 4
                   then Some (- 1, None, None)
                   else Some (0, non_empty valuestring, non_empty transid))))"

text \<open>The request goes into the queue: a bundle of root and telemetry replaces the queue, any
  other value is added unless it is there already.\<close>

definition queue_request :: "string \<Rightarrow> 'z force_st_scheme \<Rightarrow> WEBCFG_STATUS \<times> 'z force_st_scheme" where
  "queue_request trans_id s =
     (if ForceSync s = ''root,telemetry'' \<or> ForceSync s = ''telemetry,root'' then
        (let (str1, str2) = (if ForceSync s = ''root,telemetry'' then (''root'', ''telemetry'') else (''telemetry'', ''root''));
             s1 = deleteForceSyncMsgQueue (s\<lparr>ForceSync := str1\<rparr>)
         in case addForceSyncMsgToQueue (Some str1) (Some trans_id) s1 of
              (WEBCFG_SUCCESS, s2) \<Rightarrow> addForceSyncMsgToQueue (Some str2) (Some trans_id) s2
            | (ret, s2) \<Rightarrow> (ret, s2))
      else (case updateForceSyncMsgQueue (Some trans_id) s of
              (found, s1) \<Rightarrow>
                if found then (WEBCFG_SUCCESS, s1)
                else addForceSyncMsgToQueue (Some (ForceSync s1)) (Some trans_id) s1))"

text \<open>Whether a sync is running or has been started; the request is then served later.\<close>

definition sync_busy :: "'z force_st_scheme \<Rightarrow> bool" where
  "sync_busy s \<longleftrightarrow> bootSyncInProgress s \<or> maintenanceSyncInProgress s \<or> g_webcfg_forcedsync_started s = 1
     \<or> g_cloud_forcesync_retry_started s = 1 \<or> ForceSyncTransID s \<noteq> []"

definition request_sync :: "string \<Rightarrow> 'z force_st_scheme \<Rightarrow> (int \<times> int) \<times> 'z force_st_scheme" where
  "request_sync trans_id s =
     (case queue_request trans_id s of
        (WEBCFG_SUCCESS, s1) \<Rightarrow>
          if \<not> webcfgReady s1 then ((0, 2), s1)
          else if sync_busy s1 then ((0, 1), s1\<lparr>g_cloud_forcesync_retry_needed := 1\<rparr>)
          else ((1, 0), s1\<lparr>ForceSyncTransID := (if trans_id \<noteq> [] then webcfgStrncpy trans_id 256 else ForceSyncTransID s1),
                           sync_signal := True\<rparr>)
      | (_, s1) \<Rightarrow> ((0, 2), s1))"

text \<open>\<open>set_rbus_ForceSync\<close>: the return value and the status left in \<open>*pStatus\<close>, 0 before.\<close>

definition set_rbus_ForceSync ::
  "force_env \<Rightarrow> string option \<Rightarrow> 'z force_st_scheme \<Rightarrow> ((int \<times> int) \<times> 'z force_st_scheme) option" where
  "set_rbus_ForceSync env pString s =
     (case pString of
        None \<Rightarrow> Some ((1, 0), s\<lparr>ForceSync := [], ForceSyncTransID := []\<rparr>)
      | Some p \<Rightarrow>
          if p = [] then Some ((1, 0), s\<lparr>ForceSync := [], ForceSyncTransID := []\<rparr>)
          else (case parseForceSyncJson env p of
              None \<Rightarrow> None
            | Some (ret, val, transactionId) \<Rightarrow>
                (let s1 = s\<lparr>ForceSync := webcfgStrncpy p 256\<rparr>
                 in if ret = - 1 then Some ((0, 0), s1)
                    else (let s2 = (case val of None \<Rightarrow> s1 | Some v \<Rightarrow> s1\<lparr>ForceSync := webcfgStrncpy v 256\<rparr>);
                              trans_id = (case transactionId of None \<Rightarrow> fe_uuid env | Some t \<Rightarrow> t)
                          in Some (request_sync trans_id s2)))))"

text \<open>\<open>get_rbus_ForceSync\<close>: takes the first request; a request left makes the next sync follow
  at once.\<close>

definition get_rbus_ForceSync :: "'z force_st_scheme \<Rightarrow> (int \<times> string option \<times> string option) \<times> 'z force_st_scheme" where
  "get_rbus_ForceSync s =
     (case force_dequeue s of
        None \<Rightarrow> ((0, None, None), s)
      | Some (current, s1) \<Rightarrow>
          ((1, fm_ForceSyncVal current, fm_ForceSyncTransID current),
           if ForceSyncMsgQ s1 \<noteq> [] then s1\<lparr>g_cloud_forcesync_retry_needed := 1\<rparr> else s1))"

definition setForceSync :: "force_env \<Rightarrow> string \<Rightarrow> 'z force_st_scheme \<Rightarrow> 'z force_st_scheme option" where
  "setForceSync env pString s =
     (if fe_rbus_enabled env then map_option snd (set_rbus_ForceSync env (Some pString) s) else Some s)"

text \<open>\<open>str\<close> and \<open>transID\<close> are NULL before the call.\<close>

definition getForceSync :: "force_env \<Rightarrow> 'z force_st_scheme \<Rightarrow> (string option \<times> string option) \<times> 'z force_st_scheme" where
  "getForceSync env s =
     (if fe_rbus_enabled env then (case get_rbus_ForceSync s of ((_, str, trans_id), s1) \<Rightarrow> ((str, trans_id), s1))
      else ((None, None), s))"

definition trigger_webcfg_forcedsync :: "force_env \<Rightarrow> 'z force_st_scheme \<Rightarrow> 'z force_st_scheme option" where
  "trigger_webcfg_forcedsync env s =
     map_option snd (set_rbus_ForceSync env (Some ''root'') (s\<lparr>g_webcfg_forcedsync_needed := 1\<rparr>))"

section \<open>The values in the queue\<close>

definition queue_vals :: "'z force_st_scheme \<Rightarrow> string option list" where
  "queue_vals s = map fm_ForceSyncVal (ForceSyncMsgQ s)"

lemma force_update_vals: "map fm_ForceSyncVal (snd (force_update v t q)) = map fm_ForceSyncVal q"
  by (induction q) (auto split: prod.splits)

lemma force_update_found: "fst (force_update v t q) \<longleftrightarrow> Some v \<in> set (map fm_ForceSyncVal q)"
  by (induction q) (auto split: prod.splits)

section \<open>What a request does\<close>

text \<open>The values queued by a request for the value \<open>v\<close>.\<close>

definition queued_vals :: "string \<Rightarrow> string option list \<Rightarrow> string option list" where
  "queued_vals v vals =
     (if v = ''root,telemetry'' then [Some ''root'', Some ''telemetry'']
      else if v = ''telemetry,root'' then [Some ''telemetry'', Some ''root'']
      else if Some v \<in> set vals then vals else vals @ [Some v])"

lemma queue_request_spec:
  assumes "mem_ok s" "queue_request t s = (st, s')"
  shows "st = WEBCFG_SUCCESS" "queue_vals s' = queued_vals (ForceSync s) (queue_vals s)"
    "\<exists>f q. s' = s\<lparr>ForceSync := f, ForceSyncMsgQ := q\<rparr>"
proof -
  obtain found q where u: "force_update (ForceSync s) t (ForceSyncMsgQ s) = (found, q)" by fastforce
  have q: "map fm_ForceSyncVal q = queue_vals s" "found \<longleftrightarrow> Some (ForceSync s) \<in> set (queue_vals s)"
    using force_update_vals [of "ForceSync s" t "ForceSyncMsgQ s"] force_update_found [of "ForceSync s" t "ForceSyncMsgQ s"] u
    by (simp_all add: queue_vals_def)
  note defs = queue_request_def addForceSyncMsgToQueue_def force_enqueue_def deleteForceSyncMsgQueue_def updateForceSyncMsgQueue_def Let_def
  show "st = WEBCFG_SUCCESS" using assms u by (auto simp: defs split: if_splits)
  show "queue_vals s' = queued_vals (ForceSync s) (queue_vals s)"
    using assms u q by (auto simp: defs queued_vals_def queue_vals_def split: if_splits)
  have "\<exists>q'. s' = s\<lparr>ForceSync := ForceSync s', ForceSyncMsgQ := q'\<rparr>"
    using assms u by (cases "ForceSync s = ''root,telemetry'' \<or> ForceSync s = ''telemetry,root''")
      (auto simp: defs split: if_splits)
  then show "\<exists>f q. s' = s\<lparr>ForceSync := f, ForceSyncMsgQ := q\<rparr>" by blast
qed
text \<open>The value a payload asks for: the string of its JSON, or the payload itself; cut to the
  buffer \<open>ForceSync\<close>.\<close>

definition poke_value :: "string \<Rightarrow> string option \<Rightarrow> string" where
  "poke_value payload val = webcfgStrncpy (case val of None \<Rightarrow> payload | Some v \<Rightarrow> v) 256"

lemma set_rbus_ForceSync_poke:
  assumes "p \<noteq> []" "parseForceSyncJson env p = Some (ret, val, tid)" "ret \<noteq> - 1"
  shows "set_rbus_ForceSync env (Some p) s =
    Some (request_sync (case tid of None \<Rightarrow> fe_uuid env | Some t \<Rightarrow> t) (s\<lparr>ForceSync := poke_value p val\<rparr>))"
  using assms by (cases val) (simp_all add: set_rbus_ForceSync_def Let_def poke_value_def)


section \<open>The queue over time\<close>

text \<open>What the queue can meet: pokes through \<open>set_rbus_ForceSync\<close>, the requests the program
  makes itself, the sync thread that takes a request, and everything else, which leaves the
  queue alone.\<close>

inductive force_step :: "'z force_st_scheme \<Rightarrow> 'z force_st_scheme \<Rightarrow> bool" where
  poke: "set_rbus_ForceSync env p s = Some (r, s') \<Longrightarrow> force_step s s'"
| trigger: "trigger_webcfg_forcedsync env s = Some s' \<Longrightarrow> force_step s s'"
| take: "getForceSync env s = (r, s') \<Longrightarrow> force_step s s'"
| other: "ForceSyncMsgQ s' = ForceSyncMsgQ s \<Longrightarrow> force_step s s'"

inductive_cases force_stepE: "force_step s s'"

text \<open>An entry of the queue: a value that fits the buffer and is no bundle.\<close>

definition entry_ok :: "string option \<Rightarrow> bool" where
  "entry_ok v = (case v of None \<Rightarrow> False
     | Some x \<Rightarrow> x \<noteq> [] \<and> length x < 256 \<and> x \<noteq> ''root,telemetry'' \<and> x \<noteq> ''telemetry,root'')"

definition queue_inv :: "'z force_st_scheme \<Rightarrow> bool" where
  "queue_inv s \<longleftrightarrow> distinct (queue_vals s) \<and> (\<forall>v \<in> set (queue_vals s). entry_ok v)"

lemma queued_vals_inv:
  assumes "distinct vals" "\<forall>v \<in> set vals. entry_ok v" "v \<noteq> []" "length v < 256"
  shows "distinct (queued_vals v vals)" "\<forall>v \<in> set (queued_vals v vals). entry_ok v"
  using assms by (auto simp: queued_vals_def entry_ok_def)

lemma queue_request_inv:
  assumes "queue_inv s" "ForceSync s \<noteq> []" "length (ForceSync s) < 256"
  shows "queue_inv (snd (queue_request t s))"
proof (cases "mem_ok s")
  case True
  obtain st s' where r: "queue_request t s = (st, s')" by fastforce
  have "distinct (queued_vals (ForceSync s) (queue_vals s))" "\<forall>v \<in> set (queued_vals (ForceSync s) (queue_vals s)). entry_ok v"
    using assms queued_vals_inv [of "queue_vals s" "ForceSync s"] unfolding queue_inv_def by blast+
  then show ?thesis unfolding queue_inv_def r snd_conv queue_request_spec(2) [OF True r] by blast
next
  case False
  obtain found q where u: "force_update (ForceSync s) t (ForceSyncMsgQ s) = (found, q)" by fastforce
  have "map fm_ForceSyncVal q = queue_vals s"
    using force_update_vals [of "ForceSync s" t "ForceSyncMsgQ s"] u by (simp add: queue_vals_def)
  moreover have "queue_vals (snd (queue_request t s)) \<in> {[], map fm_ForceSyncVal q}"
    using False u by (auto simp: queue_request_def addForceSyncMsgToQueue_def deleteForceSyncMsgQueue_def
        updateForceSyncMsgQueue_def queue_vals_def Let_def)
  ultimately show ?thesis using assms(1) by (auto simp: queue_inv_def)
qed

lemma queue_inv_cong: "ForceSyncMsgQ s' = ForceSyncMsgQ s \<Longrightarrow> queue_inv s' = queue_inv s"
  by (simp add: queue_inv_def queue_vals_def)

lemma request_sync_inv:
  assumes "queue_inv s" "ForceSync s \<noteq> []" "length (ForceSync s) < 256"
  shows "queue_inv (snd (request_sync t s))"
  using queue_request_inv [OF assms, of t]
  by (auto simp: request_sync_def queue_inv_def queue_vals_def split: prod.split WEBCFG_STATUS.split)

lemma parseForceSyncJson_nonempty: "parseForceSyncJson env p = Some (ret, Some v, tid) \<Longrightarrow> v \<noteq> []"
  by (auto simp: parseForceSyncJson_def Let_def split: option.splits if_splits)

lemma set_rbus_ForceSync_inv:
  assumes "set_rbus_ForceSync env p s = Some (r, s')" "queue_inv s"
  shows "queue_inv s'"
proof (cases "p = None \<or> p = Some []")
  case True
  with assms show ?thesis by (auto simp: set_rbus_ForceSync_def queue_inv_def queue_vals_def)
next
  case False
  then obtain x where x: "p = Some x" "x \<noteq> []" by (cases p) auto
  then obtain ret val tid where pj: "parseForceSyncJson env x = Some (ret, val, tid)"
    using assms(1) by (auto simp: set_rbus_ForceSync_def split: option.splits)
  show ?thesis
  proof (cases "ret = - 1")
    case True
    with assms x pj show ?thesis by (auto simp: set_rbus_ForceSync_def queue_inv_def queue_vals_def)
  next
    case False
    let ?t = "case tid of None \<Rightarrow> fe_uuid env | Some t \<Rightarrow> t" and ?s = "s\<lparr>ForceSync := poke_value x val\<rparr>"
    have "poke_value x val \<noteq> []" "length (poke_value x val) < 256"
      using x(2) parseForceSyncJson_nonempty [of env x ret _ tid] pj
      by (cases val; simp add: poke_value_def webcfgStrncpy_def fit_def)+
    with request_sync_inv [of ?s ?t] assms(2) have "queue_inv (snd (request_sync ?t ?s))"
      by (simp add: queue_inv_def queue_vals_def)
    moreover have "(r, s') = request_sync ?t ?s"
      using assms(1) set_rbus_ForceSync_poke [OF x(2) pj False, of s] x(1) by simp
    ultimately show ?thesis by (metis snd_conv)
  qed
qed

lemma getForceSync_inv: "getForceSync env s = (r, s') \<Longrightarrow> queue_inv s \<Longrightarrow> queue_inv s'"
  by (auto simp: getForceSync_def get_rbus_ForceSync_def force_dequeue_def queue_inv_def queue_vals_def
      split: list.splits if_splits)

lemma force_step_inv: "force_step s s' \<Longrightarrow> queue_inv s \<Longrightarrow> queue_inv s'"
proof (induction rule: force_step.induct)
  case (poke env p s r s')
  then show ?case by (rule set_rbus_ForceSync_inv)
next
  case (trigger env s s')
  then obtain r where "set_rbus_ForceSync env (Some ''root'') (s\<lparr>g_webcfg_forcedsync_needed := 1\<rparr>) = Some (r, s')"
    by (auto simp: trigger_webcfg_forcedsync_def)
  moreover have "queue_inv (s\<lparr>g_webcfg_forcedsync_needed := 1\<rparr>)"
    using trigger by (simp add: queue_inv_def queue_vals_def)
  ultimately show ?case by (rule set_rbus_ForceSync_inv)
next
  case (take env s r s')
  then show ?case by (rule getForceSync_inv)
next
  case (other s' s)
  then show ?case by (simp only: queue_inv_cong [OF other(1)])
qed

text \<open>C13: whatever pokes, internal requests and takes happen in whatever order, with or
  without memory, the queue that starts empty never holds a value twice and never a missing,
  empty, overlong or bundled value; so two entries never ask the sync thread for the same
  documents, and it never gets NULL for a value.\<close>

theorem queue_never_twice:
  assumes "force_step\<^sup>*\<^sup>* s s'" "ForceSyncMsgQ s = []"
  shows "distinct (map fm_ForceSyncVal (ForceSyncMsgQ s')) \<and>
    (\<forall>m \<in> set (ForceSyncMsgQ s'). entry_ok (fm_ForceSyncVal m))"
proof -
  have "queue_inv s" using assms(2) by (simp add: queue_inv_def queue_vals_def)
  with assms(1) have "queue_inv s'" by (induction rule: rtranclp_induct) (auto intro: force_step_inv)
  then show ?thesis
    by (simp_all add: queue_inv_def queue_vals_def)
qed

section \<open>A concrete device\<close>

definition force_st0 :: force_st where
  "force_st0 = http_st.extend http_st0 \<lparr>ForceSync = [], ForceSyncTransID = [], ForceSyncMsgQ = [], sync_signal = False\<rparr>"

definition demo_force :: force_env where
  "demo_force = \<lparr>fe_json = (\<lambda>p. if p = ''{}'' then Some (Some (Some ''telemetry''), Some (Some ''t1'')) else None),
     fe_uuid = ''u'', fe_telemetry_url = ''https://x'', fe_rbus_enabled = True\<rparr>"

lemma force_st0_simps [simp]:
  "mem_ok force_st0" "ForceSyncMsgQ force_st0 = []" "ForceSyncTransID force_st0 = []" "ForceSync force_st0 = []"
  "webcfgReady force_st0 = webcfgReady http_st0" "bootSyncInProgress force_st0 = bootSyncInProgress http_st0"
  "maintenanceSyncInProgress force_st0 = maintenanceSyncInProgress http_st0"
  "g_webcfg_forcedsync_started force_st0 = g_webcfg_forcedsync_started http_st0"
  "g_cloud_forcesync_retry_started force_st0 = g_cloud_forcesync_retry_started http_st0"
  "g_cloud_forcesync_retry_needed force_st0 = g_cloud_forcesync_retry_needed http_st0"
  by (simp_all add: force_st0_def http_st.defs http_st0_def ev_st.defs ev_st0_def db_st.defs db_st0_defs)

lemma demo_parse:
  "parseForceSyncJson demo_force ''root'' = Some (0, None, None)"
  "parseForceSyncJson demo_force ''{}'' = Some (0, Some ''telemetry'', Some ''t1'')"
  by (simp_all add: parseForceSyncJson_def demo_force_def numeral_eq_Suc)


lemma request_sync_vals:
  assumes "mem_ok s" "request_sync t s = (r, s')"
  shows "queue_vals s' = queued_vals (ForceSync s) (queue_vals s)" "mem_ok s'"
proof -
  obtain st s1 where q: "queue_request t s = (st, s1)" by fastforce
  note spec = queue_request_spec [OF assms(1) q]
  have "mem_ok s1" using spec(3) assms(1) by auto
  moreover have "queue_vals s' = queue_vals s1 \<and> mem_ok s' = mem_ok s1"
    using assms(2) spec(1) q by (auto simp: request_sync_def queue_vals_def split: if_splits)
  ultimately show "queue_vals s' = queued_vals (ForceSync s) (queue_vals s)" "mem_ok s'" using spec(2) by simp_all
qed

lemma force_step_poke:
  assumes "p \<noteq> []" "parseForceSyncJson env p = Some (ret, val, tid)" "ret \<noteq> - 1" "mem_ok s"
  obtains s' where "force_step s s'" "mem_ok s'" "queue_vals s' = queued_vals (poke_value p val) (queue_vals s)"
proof -
  let ?t = "case tid of None \<Rightarrow> fe_uuid env | Some t \<Rightarrow> t" and ?s = "s\<lparr>ForceSync := poke_value p val\<rparr>"
  obtain r s' where q: "request_sync ?t ?s = (r, s')" by fastforce
  have "mem_ok ?s" "queue_vals ?s = queue_vals s" "ForceSync ?s = poke_value p val"
    using assms(4) by (simp_all add: queue_vals_def)
  with request_sync_vals [OF _ q] have "mem_ok s'" "queue_vals s' = queued_vals (poke_value p val) (queue_vals s)" by simp_all
  moreover have "force_step s s'"
    using set_rbus_ForceSync_poke [OF assms(1-3), of s] q by (intro force_step.poke) simp
  ultimately show thesis using that by blast
qed

theorem queue_never_twice_witness:
  "\<exists>s2. force_step\<^sup>*\<^sup>* force_st0 s2 \<and> queue_vals s2 = [Some ''root'', Some ''telemetry''] \<and>
     distinct (map fm_ForceSyncVal (ForceSyncMsgQ s2))"
proof -
  have v: "poke_value ''root'' None = ''root''" "poke_value ''{}'' (Some ''telemetry'') = ''telemetry''"
    by (simp_all add: poke_value_def webcfgStrncpy_def fit_def)
  have n: "(0 :: int) \<noteq> - 1" "''root'' \<noteq> []" "''{}'' \<noteq> []" by simp_all
  obtain s1 where s1: "force_step force_st0 s1" "mem_ok s1" "queue_vals s1 = queued_vals ''root'' (queue_vals force_st0)"
    using force_step_poke [OF n(2) demo_parse(1) n(1) force_st0_simps(1)] v by metis
  obtain s2 where s2: "force_step s1 s2" "queue_vals s2 = queued_vals ''telemetry'' (queue_vals s1)"
    using force_step_poke [OF n(3) demo_parse(2) n(1) s1(2)] v by metis
  have run: "force_step\<^sup>*\<^sup>* force_st0 s2" using s1(1) s2(1) by (meson converse_rtranclp_into_rtranclp r_into_rtranclp)
  have "queue_vals s2 = [Some ''root'', Some ''telemetry'']" using s2(2) s1(3) by (simp add: queue_vals_def [of force_st0] queued_vals_def)
  with queue_never_twice [OF run] run show ?thesis by (intro exI [of _ s2]) simp
qed

end
