(* ===== verification/Frame.thy ===== *)
theory Frame
  imports Force
begin

text \<open>
  What applying documents leaves alone: the flags of the sync thread, the names of the
  supplementary documents and every field added
  behind the lists of documents and the database (the event queue, the timers, what is
  cached for a request, the queue of forced syncs). The components that work on these fields
  rely on it. A sync with the cloud and the periodic retry keep the flags and the queue of
  forced syncs.
\<close>

section \<open>What is kept\<close>

definition flags :: "'z sync_st_scheme \<Rightarrow> bool list \<times> int list" where
  "flags s = ([mem_ok s, g_shutdown s, webcfgReady s, bootSyncInProgress s, maintenanceSyncInProgress s],
     [g_supplementarySync s, g_webcfg_forcedsync_needed s, g_webcfg_forcedsync_started s,
      g_cloud_forcesync_retry_needed s, g_cloud_forcesync_retry_started s])"

definition outer :: "'z db_st_scheme \<Rightarrow> (bool list \<times> int list) \<times> string list \<times> 'z" where
  "outer s = (flags s, g_spInfo s, db_st.more s)"

section \<open>Operations on the database and the list in progress\<close>

lemma outer_small [frame_simps]:
  "outer (addWebConfgNotifyMsg a1 a2 a3 a4 a5 a6 a7 a8 a9 a10 s) = outer s"
  "outer (snd (updateTmpList b1 b2 b3 b4 b5 b6 b7 b8 s)) = outer s"
  "outer (snd (updateFailureTimeStamp c1 c2 c3 s)) = outer s"
  "outer (set_doc_fail k s) = outer s"
  "outer (snd (updateRetryTimeDiff d1 d2 d3 s)) = outer s"
  "outer (snd (addNewDocEntry e1 e2 e3 s)) = outer s"
  "outer (deleteRootAndMultipartDocs s) = outer s"
  "outer (delete_tmp_list (reset_numOfMpDocs s)) = outer s"
  "outer (set_global_transID t s) = outer s"
  "outer (s\<lparr>g_head := h\<rparr>) = outer s"
  "outer (tmp_add n s) = outer s"
  by (simp_all add: outer_def flags_def addWebConfgNotifyMsg_def notify_enqueue_def updateTmpList_def
      updateFailureTimeStamp_def set_doc_fail_def updateRetryTimeDiff_def set_retry_timer_def tmp_add_def
      set_global_retry_timestamp_def addNewDocEntry_def writeToDBFile_def deleteRootAndMultipartDocs_def
      delete_multipart_def delete_tmp_list_def reset_numOfMpDocs_def set_global_transID_def Let_def split: option.split)

lemma outer_notify_doc [frame_simps]:
  "outer (notify_doc mp a b c d s) = outer s" "outer (doc_error mp i d2 ec b2 s) = outer s"
  by (simp_all add: notify_doc_def doc_error_def Let_def outer_small)

lemma outer_retry_count [frame_simps]: "outer (snd (checkAndUpdateTmpRetryCount p d s)) = outer s"
  by (simp add: checkAndUpdateTmpRetryCount_def Let_def frame_simps split: option.split)

lemma outer_checkDBList: "checkDBList d v r s = Some (st, s') \<Longrightarrow> outer s' = outer s"
proof -
  assume "checkDBList d v r s = Some (st, s')"
  from checkDBList_form [OF this] obtain db n where "s' = s\<lparr>webcfgdb_data := db, success_doc_count := n\<rparr>" by blast
  then show ?thesis by (simp add: outer_def flags_def)
qed

lemma outer_updateRootVersionToDB: "updateRootVersionToDB s = Some s' \<Longrightarrow> outer s' = outer s"
  by (auto simp: updateRootVersionToDB_def Let_def frame_simps split: option.splits if_splits dest!: outer_checkDBList)

lemma outer_deleteFromTmpList: "deleteFromTmpList d nx s = (st, nx', s') \<Longrightarrow> outer s' = outer s"
  by (auto simp: deleteFromTmpList_def outer_def flags_def split: option.splits)

lemma outer_tmp_walk: "tmp_walk sel p nx s = Some s' \<Longrightarrow> outer s' = outer s"
proof (induction sel p nx s rule: tmp_walk.induct)
  case (3 sel k nx s)
  then show ?case
    by (auto simp: tmp_walk.simps(3) dest: outer_deleteFromTmpList split: if_splits prod.splits)
qed auto

lemma outer_addToTmpList_loop: "addToTmpList_loop mps s = Some s' \<Longrightarrow> outer s' = outer (s :: 'a db_st_scheme)"
proof (induction mps arbitrary: s)
  case (Cons mp mps)
  let ?s1 = "if numOfMpDocs s = 0 then tmp_add (tmp_root_node s) s else s"
  let ?s2 = "if mp_isSupplementarySync mp = g_supplementarySync ?s1 \<and> mem_ok ?s1 then tmp_add (tmp_doc_node mp ?s1) ?s1 else ?s1"
  have guard: "(if P then None else X) = Some s' \<Longrightarrow> X = Some s'" for P and X :: "'a db_st_scheme option"
    by (simp split: if_splits)
  have "addToTmpList_loop mps ?s2 = Some s'"
    by (rule guard [of "numOfMpDocs s = 0 \<and> \<not> mem_ok s"]) (use Cons.prems in \<open>simp only: addToTmpList_loop.simps Let_def\<close>)
  from Cons.IH [OF this] show ?case by (simp add: frame_simps)
qed simp

lemma outer_addToTmpList: "addToTmpList s = Some (st, s') \<Longrightarrow> outer s' = outer s"
proof -
  assume "addToTmpList s = Some (st, s')"
  then obtain s2 where d: "delete_tmp_docs_list (checkTmpRootUpdate s) = Some s2" "addToTmpList_loop (g_mp_head s2) s2 = Some s'"
    by (auto simp: addToTmpList_def split: option.splits)
  have "outer (checkTmpRootUpdate s) = outer s" by (simp add: checkTmpRootUpdate_def frame_simps split: option.split)
  with outer_tmp_walk [OF d(1) [unfolded delete_tmp_docs_list_def]] outer_addToTmpList_loop [OF d(2)]
  show ?thesis by simp
qed

section \<open>Applying the documents\<close>

lemma outer_build_params: "build_params env i mp node j es L s = Some (ps, L', s') \<Longrightarrow> outer s' = outer s"
proof (induction es arbitrary: j L s ps L')
  case (Cons e es)
  then show ?case
    by (auto simp: Let_def frame_simps split: option.splits if_splits prod.splits dest!: Cons.IH)
qed simp

lemma outer_record_success: "record_success mp i b L s = Some (L', s') \<Longrightarrow> outer s' = outer s"
  by (auto simp: record_success_def Let_def frame_simps split: if_splits option.splits dest!: outer_checkDBList)

lemma outer_record_root: "record_root L s = Some (L', s') \<Longrightarrow> outer s' = outer s"
  by (auto simp: record_root_def frame_simps split: if_splits option.splits dest!: outer_checkDBList)

lemma outer_apply_success: "apply_success env mp i params L s = Some (L', s') \<Longrightarrow> outer s' = outer s"
  by (auto simp: apply_success_def split: list.splits option.splits dest!: outer_record_success outer_record_root)

lemma outer_apply_failure: "apply_failure env mp i c s = Some (stop, s') \<Longrightarrow> outer s' = outer s"
  by (auto simp: apply_failure_def Let_def frame_simps split: if_splits option.splits dest!: outer_updateRootVersionToDB)
lemma outer_apply_document: "apply_document env n mp i L s = Some (b, L', s') \<Longrightarrow> outer s' = outer s"
  by (auto simp: apply_document_def Let_def frame_simps
      dest!: outer_build_params outer_apply_success outer_apply_failure
      dest: arg_cong [where f = "\<lambda>r. outer (snd r)"]
      split: option.splits prod.splits if_splits WEBCFG_STATUS.splits)

lemma outer_apply_documents: "apply_documents env n mps L s = Some (L', s') \<Longrightarrow> outer s' = outer s"
proof (induction mps arbitrary: n L s)
  case (Cons mp mps)
  then show ?case
    by (auto simp: Let_def frame_simps dest!: outer_apply_document Cons.IH split: option.splits prod.splits if_splits)
qed simp

lemma outer_processMsgpackSubdoc: "processMsgpackSubdoc env t s = Some (st, s') \<Longrightarrow> outer s' = outer s"
  by (auto simp: processMsgpackSubdoc_def Let_def frame_simps dest!: outer_addToTmpList outer_apply_documents
      split: option.splits prod.splits if_splits)

section \<open>Splitting a response\<close>

definition mp_outer :: "'z mp_st_scheme \<Rightarrow> (bool list \<times> int list) \<times> string list \<times> 'z" where
  "mp_outer s = (flags s, g_spInfo s, mp_st.more s)"

lemma outer_of_mp: "mp_outer s' = mp_outer s \<Longrightarrow> outer s' = outer s"
  by (cases s; cases s') (simp add: outer_def mp_outer_def flags_def)

lemma mp_outer_subdoc_parser: "subdoc_parser p n s = Some s' \<Longrightarrow> mp_outer s' = mp_outer s"
proof -
  have notify: "mp_outer (addWebConfgNotifyMsg a1 a2 a3 a4 a5 a6 a7 a8 a9 a10 s) = mp_outer s" for a1 a2 a3 a4 a5 a6 a7 a8 a9 a10
    by (simp add: mp_outer_def flags_def addWebConfgNotifyMsg_def notify_enqueue_def)
  have add: "mp_outer (addToMpList e nm d s) = mp_outer s" for e nm d
    by (simp add: addToMpList_def mp_append_def mp_outer_def flags_def Let_def)
  assume "subdoc_parser p n s = Some s'"
  then show ?thesis
    by (auto simp: subdoc_parser_def subdoc_refused_def notify add Let_def split: option.splits if_splits prod.splits)
qed

lemma mp_outer_split_parts: "split_parts b p s = Some s' \<Longrightarrow> mp_outer s' = mp_outer s"
proof (induction "length p" arbitrary: p s rule: less_induct)
  case less
  have shorter: "memchr c n q = Some r \<Longrightarrow> length q \<le> length p \<Longrightarrow> length (drop 1 r) < length p" for c n and q r :: string
    using memchr_shorter [of c n q r] by simp
  show ?case
  proof (cases "length p \<le> 1")
    case True
    with less.prems show ?thesis by (simp add: split_parts.simps [of b p])
  next
    case False
    with less.prems obtain q where q: "memchr (CHR ''-'') (length p - 1) p = Some q"
      by (auto simp: split_parts.simps [of b p] split: option.splits)
    then have len: "length q \<le> length p" using memchr_shorter by fastforce
    let ?lb = "drop (length (line_boundary b) - 1) q"
    have eq: "split_parts b p s = (case memcmp_eq q (last_line_boundary b) of None \<Rightarrow> None | Some True \<Rightarrow> Some s
      | Some False \<Rightarrow> (case memcmp_eq q (line_boundary b) of None \<Rightarrow> None
        | Some True \<Rightarrow> (case next_boundary b (drop 1 ?lb) of None \<Rightarrow> None | Some e \<Rightarrow>
            (case subdoc_parser ?lb (length ?lb - length e - 2) s of None \<Rightarrow> None | Some s1 \<Rightarrow>
              (case memchr LF (length ?lb - 1) ?lb of None \<Rightarrow> None | Some r \<Rightarrow> split_parts b (drop 1 r) s1)))
        | Some False \<Rightarrow> (case memchr LF (length q - 1) q of None \<Rightarrow> None | Some r \<Rightarrow> split_parts b (drop 1 r) s)))"
      using False q by (subst split_parts.simps, unfold Let_def) simp
    have lb: "length ?lb \<le> length p" using len by simp
    note ih = less.hyps [OF shorter]
    from less.prems [unfolded eq] show ?thesis
      by (auto dest!: mp_outer_subdoc_parser dest: ih [OF _ len, unfolded One_nat_def] ih [OF _ lb, unfolded One_nat_def] split: option.splits bool.splits)
  qed
qed

lemma mp_outer_delete_mp_doc: "delete_mp_doc s = Some s' \<Longrightarrow> mp_outer s' = mp_outer s"
proof -
  have "delete_mp_doc_from i s = Some s' \<Longrightarrow> mp_outer s' = mp_outer s" for i s
  proof (induction i s rule: delete_mp_doc_from.induct)
    case (1 i s)
    have del: "deleteFromMpList d t = (st, t') \<Longrightarrow> mp_outer t' = mp_outer t" for d st and t t' :: "'a mp_st_scheme"
      by (auto simp: deleteFromMpList_def mp_outer_def flags_def split: option.splits)
    show ?case
      using 1 by (subst (asm) (4) delete_mp_doc_from.simps)
        (auto simp: Let_def dest: del split: if_splits prod.splits WEBCFG_STATUS.splits)
  qed
  then show "delete_mp_doc s = Some s' \<Longrightarrow> mp_outer s' = mp_outer s" by (simp add: delete_mp_doc_def)
qed
lemma outer_parseMultipartDocument: "parseMultipartDocument env body ct u s = Some (st, s') \<Longrightarrow> outer s' = outer s"
proof -
  have "parse_parts b body s = Some s1 \<Longrightarrow> outer s1 = outer s" for b s1
    by (intro outer_of_mp) (auto simp: parse_parts_def dest!: mp_outer_delete_mp_doc mp_outer_split_parts
        split: if_splits option.splits simp: Option.bind_eq_Some_conv)
  then show "parseMultipartDocument env body ct u s = Some (st, s') \<Longrightarrow> outer s' = outer s"
    by (auto simp: parseMultipartDocument_def Let_def frame_simps dest!: outer_processMsgpackSubdoc
        split: option.splits if_splits prod.splits)
qed

section \<open>The periodic retry\<close>

lemma outer_retry_params: "retry_params env gmp n j es L s = Some (ps, L', s') \<Longrightarrow> outer s' = outer s"
proof (induction es arbitrary: j L s ps L')
  case (Cons e es)
  then show ?case
    by (auto simp: Let_def frame_simps split: option.splits if_splits prod.splits dest!: Cons.IH)
qed simp

lemma outer_store_applied: "store_applied env i nm v s = Some s' \<Longrightarrow> outer s' = outer s"
  by (auto simp: store_applied_def frame_simps dest!: outer_checkDBList outer_updateRootVersionToDB
      split: option.splits if_splits)

lemma outer_retry_failure [frame_simps]: "outer (retry_failure env gmp i c s) = outer s"
  by (simp add: retry_failure_def Let_def frame_simps)

lemma outer_retry_document: "retry_document env gmp i s = Some (st, s') \<Longrightarrow> outer s' = outer s"
  by (auto simp: retry_document_def Let_def frame_simps dest!: outer_retry_params outer_store_applied
      split: option.splits prod.splits if_splits list.splits)

lemma outer_retryMultipartSubdoc: "retryMultipartSubdoc env n d s = Some (st, s') \<Longrightarrow> outer s' = outer s"
proof -
  have "checkAndUpdateTmpRetryCount n d s = (st, s1) \<Longrightarrow> outer s1 = outer s" for st s1
    using outer_retry_count [of n d s] by simp
  then show "retryMultipartSubdoc env n d s = Some (st, s') \<Longrightarrow> outer s' = outer s"
    by (auto simp: retryMultipartSubdoc_def dest!: outer_retry_document
        split: option.splits prod.splits if_splits WEBCFG_STATUS.splits)
qed

lemma outer_failedDocsRetry: "failedDocsRetry env s = Some s' \<Longrightarrow> outer s' = outer s"
proof -
  have "failed_docs_walk env n i s = Some s' \<Longrightarrow> outer s' = outer s" for n i s
  proof (induction n arbitrary: i s)
    case (Suc n)
    then show ?case
      by (auto simp: Let_def frame_simps dest!: outer_retryMultipartSubdoc Suc.IH split: option.splits if_splits)
  qed simp
  then show "failedDocsRetry env s = Some s' \<Longrightarrow> outer s' = outer s" by (simp add: failedDocsRetry_def)
qed

section \<open>A sync with the cloud\<close>

definition sync_outer :: "'z http_st_scheme \<Rightarrow> (bool list \<times> int list) \<times> string list \<times> 'z" where
  "sync_outer s = (flags s, g_spInfo s, http_st.more s)"

lemma sync_outer_of: "outer s' = outer s \<Longrightarrow> sync_outer s' = sync_outer s"
  by (cases s; cases s') (simp add: outer_def sync_outer_def flags_def)

lemma sync_outer_refresh: "refreshConfigVersionList env st vcap dcap s = Some (x, s') \<Longrightarrow> sync_outer s' = sync_outer s"
proof -
  assume "refreshConfigVersionList env st vcap dcap s = Some (x, s')"
  then obtain r k db n f where "s' = s\<lparr>g_RebootReason := r, reset_once := k, webcfgdb_data := db, success_doc_count := n, db_file := f\<rparr>"
    using refresh_form by blast
  then show ?thesis by (simp add: sync_outer_def flags_def)
qed

lemma sync_outer_headers: "createCurlHeader env st s = Some (x, s') \<Longrightarrow> sync_outer s' = sync_outer s"
proof -
  have v: "version_headers env s = Some (hs, s1) \<Longrightarrow> sync_outer s1 = sync_outer s" for hs s1
    by (auto simp: version_headers_def dest!: sync_outer_refresh split: if_splits option.splits)
  have d: "schema_headers s = Some (hs, s1) \<Longrightarrow> sync_outer s1 = sync_outer s" for hs and s s1 :: "'a http_st_scheme"
    by (auto simp: schema_headers_def sync_outer_def flags_def split: if_splits option.splits prod.splits)
  have h: "sync_outer (snd (device_headers env st s)) = sync_outer s" "sync_outer (snd (product_headers env s)) = sync_outer s"
    "sync_outer (snd (telemetry_headers env s)) = sync_outer s" for s :: "'a http_st_scheme"
    by (simp_all add: device_headers_def product_headers_def telemetry_headers_def sync_outer_def flags_def Let_def)
  assume "createCurlHeader env st s = Some (x, s')"
  then obtain hs1 s1 hs2 s2 where s: "version_headers env s = Some (hs1, s1)" "schema_headers s1 = Some (hs2, s2)"
    "s' = snd (telemetry_headers env (snd (product_headers env (snd (device_headers env st s2)))))"
    by (auto simp: createCurlHeader_def Let_def split: option.splits prod.splits)
  then show ?thesis using v [OF s(1)] d [OF s(2)] by (simp add: h)
qed

lemma sync_outer_notify_root: "notify_root nm st d er c u s = Some s' \<Longrightarrow> sync_outer s' = sync_outer s"
  by (auto simp: notify_root_def intro!: sync_outer_of simp: frame_simps split: option.splits)

lemma sync_outer_request:
  "webcfg_http_request env reply rc st d v s = Some (x, s') \<Longrightarrow> sync_outer s' = sync_outer s"
proof -
  have u: "sync_outer (fetch_interface env (store_url env u s1)) = sync_outer s1" for u and s1 :: "'a http_st_scheme"
    by (simp add: fetch_interface_def store_url_def sync_outer_def flags_def split: option.split)
  have r: "sync_outer (s1\<lparr>requests := q\<rparr>) = sync_outer s1" for q and s1 :: "'a http_st_scheme"
    by (simp add: sync_outer_def flags_def)
  have f: "sync_outer (fold (\<lambda>h t. snd (headr_callback h (length h) t)) hs s1) = sync_outer s1" for hs and s1 :: "'a http_st_scheme"
    using headers_form [of hs s1] by (auto simp: sync_outer_def flags_def)
  have a: "accept_content reply uuid v s1 = Some (v', s2) \<Longrightarrow> sync_outer s2 = sync_outer s1" for uuid v v' and s1 s2 :: "'a http_st_scheme"
    by (auto simp: accept_content_def Let_def intro!: sync_outer_of simp: frame_simps split: option.splits prod.splits if_splits)
  assume "webcfg_http_request env reply rc st d v s = Some (x, s')"
  then show ?thesis
    by (auto simp: webcfg_http_request_def Let_def u r f dest!: sync_outer_headers a split: option.splits prod.splits if_splits)
qed

lemma sync_outer_response: "handlehttpResponse env code rc uuid v s = Some (rv, s') \<Longrightarrow> sync_outer s' = sync_outer s"
proof -
  have o: "other_response env c k uuid s1 = Some (rv, s2) \<Longrightarrow> sync_outer s2 = sync_outer s1" for c k rv and s1 s2 :: "'a http_st_scheme"
    by (auto simp: other_response_def dest!: sync_outer_notify_root sync_outer_refresh split: option.splits if_splits)
  have e: "empty_response env rc uuid s = Some (rv, s') \<Longrightarrow> sync_outer s' = sync_outer s"
  proof -
    have l: "sync_outer (s1\<lparr>g_contentLen := c\<rparr>) = sync_outer s1" for c and s1 :: "'a http_st_scheme"
      by (simp add: sync_outer_def flags_def)
    show "empty_response env rc uuid s = Some (rv, s') \<Longrightarrow> sync_outer s' = sync_outer s"
      by (auto simp: empty_response_def Let_def l dest!: sync_outer_notify_root sync_outer_refresh o
          split: option.splits if_splits prod.splits)
  qed
  show "handlehttpResponse env code rc uuid v s = Some (rv, s') \<Longrightarrow> sync_outer s' = sync_outer s"
    by (auto simp: handlehttpResponse_def dest!: sync_outer_notify_root o e
        dest!: outer_parseMultipartDocument [THEN sync_outer_of] split: option.splits list.splits if_splits)
qed

text \<open>A sync keeps the flags of the sync thread and everything behind the fields of the
  requests, in particular the queue of forced syncs.\<close>

lemma sync_outer_processWebconfgSync: "processWebconfgSync io st d s = Some s' \<Longrightarrow> sync_outer s' = sync_outer s"
proof -
  have "sync_rounds io st d n v s = Some s' \<Longrightarrow> sync_outer s' = sync_outer s" for n v s
  proof (induction "4 - n" arbitrary: n v s rule: less_induct)
    case less
    show ?case
    proof (cases "3 < n")
      case True
      with less.prems show ?thesis by (simp add: sync_rounds.simps [of io st d n])
    next
      case False
      then have ih: "sync_rounds io st d (Suc n) v1 s1 = Some s' \<Longrightarrow> sync_outer s' = sync_outer s1" for v1 s1
        using less.hyps [of "Suc n"] by simp
      have eq: "sync_rounds io st d n v s =
        (case webcfg_http_request (fst (io n)) (snd (io n)) n st d v s of None \<Rightarrow> None
         | Some ((ret, code, uuid, v1), s1) \<Rightarrow>
             if ret then
               (case handlehttpResponse (fst (io n)) code n uuid v1 s1 of None \<Rightarrow> None
                | Some (rv, s2) \<Rightarrow> if rv = 1 then Some s2 else sync_rounds io st d (Suc n) v1 s2)
             else sync_rounds io st d (Suc n) v1 s1)"
        using False by (subst sync_rounds.simps) (simp only: if_False)
      from less.prems [unfolded eq] show ?thesis
        by (auto dest!: sync_outer_request sync_outer_response ih split: option.splits prod.splits if_splits)
    qed
  qed
  then show "processWebconfgSync io st d s = Some s' \<Longrightarrow> sync_outer s' = sync_outer s"
    by (simp add: processWebconfgSync_def)
qed

end
