(* ===== verification/Task.thy ===== *)
theory Task
  imports Frame
begin

text \<open>
  The sync thread \<open>WebConfigMultipartTask\<close> of \<open>src/src/webcfg.c\<close>: start-up with the syncs at
  boot, the loop of forced syncs, maintenance window, retries and waiting, and shutdown. The
  loop is cut at the places where other threads can take a turn; the turns of the thread and
  those of its environment form one transition system.
\<close>

section \<open>The thread\<close>

record task_vars =
  tv_status :: int
  tv_forced_sync :: bool
  tv_syncDoc :: "string option"
  tv_wait_flag :: bool
  tv_maintenance_doc_sync :: int
  tv_maintenance_count :: int

text \<open>What a turn finds outside: device and replies for each of its syncs, the platform of a
  forced sync and of applying documents (with the clock), the offset of the local time, the
  window for upgrades and the random key of the maintenance time, the properties file and the
  error number.\<close>

record task_env =
  te_sync :: "nat \<Rightarrow> nat \<Rightarrow> device_env \<times> curl_reply"
  te_force :: force_env
  te_apply :: apply_env
  te_offset :: int
  te_upgrade_start :: "string option"
  te_upgrade_end :: "string option"
  te_random_key :: u16
  te_properties :: "string option"

text \<open>Where the thread is: in the syncs at boot, before the forced sync of a turn, before the
  maintenance part, before it takes \<open>sync_mutex\<close>, waiting on \<open>sync_condition\<close> until a
  time or without end, after the wait with its result, or past the loop. A request that comes in
  during a sync meets the same flags as one at the end of the sync, since a sync keeps them.\<close>

datatype task_pc = TBoot | TForced | TMaintenance | TDecide | TWaiting "int option" | TWoken int | TExit

definition ETIMEDOUT :: int where "ETIMEDOUT = 110"

definition task_vars0 :: "int \<Rightarrow> task_vars" where
  "task_vars0 status = \<lparr>tv_status = status, tv_forced_sync = False, tv_syncDoc = None, tv_wait_flag = True,
     tv_maintenance_doc_sync = 0, tv_maintenance_count = 0\<rparr>"

text \<open>The syncs of the supplementary documents, the first one numbered \<open>k\<close>.\<close>

fun supplementary_syncs ::
  "(nat \<Rightarrow> nat \<Rightarrow> device_env \<times> curl_reply) \<Rightarrow> int \<Rightarrow> nat \<Rightarrow> string list \<Rightarrow> 'z http_st_scheme \<Rightarrow> 'z http_st_scheme option" where
  "supplementary_syncs io status k [] s = Some s"
| "supplementary_syncs io status k (d # ds) s =
     (case processWebconfgSync (io k) status (Some d) s of
        None \<Rightarrow> None
      | Some s1 \<Rightarrow> supplementary_syncs io status (Suc k) ds s1)"

definition task_initMaintenanceTimer :: "task_env \<Rightarrow> 'z timer_st_scheme \<Rightarrow> 'z timer_st_scheme option" where
  "task_initMaintenanceTimer env s = initMaintenanceTimer (te_upgrade_start env) (te_upgrade_end env) (te_random_key env) s"

section \<open>Start-up\<close>

definition task_init :: "task_env \<Rightarrow> 'z force_st_scheme \<Rightarrow> 'z force_st_scheme option" where
  "task_init env s =
     (case initWebcfgProperties (te_properties env) s of
        None \<Rightarrow> None
      | Some s1 \<Rightarrow>
          (case task_initMaintenanceTimer env
                  (snd (initDB (ae_write (te_apply env)) (ae_unpack (te_apply env)) (db_file s1) (ae_errno (te_apply env)) s1)) of
             None \<Rightarrow> None
           | Some s2 \<Rightarrow> Some ((if eventFlag s2 = 0 then set_global_eventFlag s2 else s2)
                 \<lparr>webcfgReady := True, bootSyncInProgress := True, g_supplementarySync := 0\<rparr>)))"

text \<open>The sync of the primary and of the supplementary documents at boot.\<close>

definition task_boot :: "task_env \<Rightarrow> int \<Rightarrow> 'z force_st_scheme \<Rightarrow> 'z force_st_scheme option" where
  "task_boot env status s =
     (case processWebconfgSync (te_sync env 0) status None s of
        None \<Rightarrow> None
      | Some s1 \<Rightarrow>
          map_option (\<lambda>s2. s2\<lparr>bootSyncInProgress := False, g_supplementarySync := 0\<rparr>)
            (supplementary_syncs (te_sync env) status 1 (g_spInfo s1) (s1\<lparr>g_supplementarySync := 1\<rparr>)))"

section \<open>The loop\<close>

definition task_forced :: "task_env \<Rightarrow> task_vars \<Rightarrow> 'z force_st_scheme \<Rightarrow> (task_vars \<times> 'z force_st_scheme) option" where
  "task_forced env v s =
     (if \<not> tv_forced_sync v then Some (v, s)
      else (case processWebconfgSync (te_sync env 0) (tv_status v) (tv_syncDoc v) s of
          None \<Rightarrow> None
        | Some s1 \<Rightarrow>
            map_option
              (\<lambda>s2. (v\<lparr>tv_forced_sync := False,
                       tv_syncDoc := (if g_supplementarySync s1 \<noteq> 0 \<and> tv_syncDoc v \<noteq> None then None else tv_syncDoc v)\<rparr>,
                     s2\<lparr>g_supplementarySync := 0, g_webcfg_forcedsync_started := 0, g_cloud_forcesync_retry_started := 0\<rparr>))
              (setForceSync (te_force env) [] (setForceSyncTransID (Some []) s1))))"

text \<open>The maintenance window: a request in the queue is taken and dropped.\<close>

definition maintenance_sync :: "task_env \<Rightarrow> task_vars \<Rightarrow> 'z force_st_scheme \<Rightarrow> 'z force_st_scheme option" where
  "maintenance_sync env v s =
     (case getForceSync (te_force env) (s\<lparr>maintenanceSyncInProgress := True\<rparr>) of
        ((doc, trans_id), s1) \<Rightarrow>
          (let s2 = setForceSyncTransID trans_id s1
           in case (if doc = None \<and> trans_id = None \<and> \<not> tv_forced_sync v \<and> \<not> bootSyncInProgress s2
                    then release_success_docs_tmplist s2 else Some s2) of
                None \<Rightarrow> None
              | Some s3 \<Rightarrow>
                  (case supplementary_syncs (te_sync env) (tv_status v) 1 (g_spInfo s3) s3 of
                     None \<Rightarrow> None
                   | Some s4 \<Rightarrow> map_option (\<lambda>s5. s5\<lparr>g_supplementarySync := 0\<rparr>) (task_initMaintenanceTimer env s4))))"

definition task_maintenance :: "task_env \<Rightarrow> task_vars \<Rightarrow> 'z force_st_scheme \<Rightarrow> (task_vars \<times> 'z force_st_scheme) option" where
  "task_maintenance env v s =
     (if \<not> tv_wait_flag v \<and> tv_maintenance_doc_sync v = 1 then
        (case checkMaintenanceTimer (ae_tz (te_apply env)) (ae_now (te_apply env)) (te_offset env) s of
           (started, s1) \<Rightarrow>
             if started = 1
             then map_option (\<lambda>s2. (v\<lparr>tv_maintenance_doc_sync := 0, tv_maintenance_count := 1\<rparr>, s2)) (maintenance_sync env v s1)
             else Some (v, s1))
      else Some (v, s))"

text \<open>The time of the next maintenance window or retry.\<close>

definition next_timeout :: "task_env \<Rightarrow> task_vars \<Rightarrow> 'z force_st_scheme \<Rightarrow> (int \<times> task_vars \<times> 'z force_st_scheme) option" where
  "next_timeout env v s =
     (let now = ae_now (te_apply env); tz = ae_tz (te_apply env)
      in if doc_fail_flag s = 0
         then Some (now + getMaintenanceSyncSeconds tz now (te_offset env) (tv_maintenance_count v) s,
                    v\<lparr>tv_maintenance_doc_sync := 1\<rparr>, s)
         else (case failedDocsRetry (te_apply env) (set_global_retry_timestamp 0 (set_retry_timer 900 s)) of
             None \<Rightarrow> None
           | Some s1 \<Rightarrow>
               (let s2 = (if g_retry_timestamp s1 \<noteq> 0 then set_retry_timer (retrySyncSeconds tz now s1) s1 else s1)
                in Some (now + g_retry_timer s2, v, s2))))"

text \<open>The part under \<open>sync_mutex\<close> before the wait. A pending request makes the thread go on at
  once; when it begins to wait, an earlier signal is gone.\<close>

definition task_decide :: "task_env \<Rightarrow> task_vars \<Rightarrow> 'z force_st_scheme \<Rightarrow> (task_pc \<times> task_vars \<times> 'z force_st_scheme) option" where
  "task_decide env v s =
     (if g_shutdown s then Some (TExit, v, s)
      else (let retry_flag = doc_fail_flag s
            in case next_timeout env v s of
                 None \<Rightarrow> None
               | Some (deadline, v1, s1) \<Rightarrow>
                   Some (if g_webcfg_forcedsync_needed s1 = 1 \<or> g_cloud_forcesync_retry_needed s1 = 1
                         then (TWoken 0, v1\<lparr>tv_forced_sync := True, tv_wait_flag := True\<rparr>, s1)
                         else if retry_flag = 1 \<or> tv_maintenance_doc_sync v1 = 1
                         then (TWaiting (Some deadline), v1, s1\<lparr>maintenanceSyncInProgress := False, sync_signal := False\<rparr>)
                         else (TWaiting None, v1, s1\<lparr>sync_signal := False\<rparr>))))"

text \<open>After the wait without an error: the request is taken from the queue.\<close>

definition started_flags :: "'z sync_st_scheme \<Rightarrow> 'z sync_st_scheme" where
  "started_flags s =
     (let s1 = (if g_webcfg_forcedsync_needed s \<noteq> 0
                then s\<lparr>g_webcfg_forcedsync_needed := 0, g_webcfg_forcedsync_started := 1\<rparr> else s)
      in if g_cloud_forcesync_retry_needed s1 \<noteq> 0
         then s1\<lparr>g_cloud_forcesync_retry_needed := 0, g_cloud_forcesync_retry_started := 1\<rparr> else s1)"

definition take_request :: "task_env \<Rightarrow> task_vars \<Rightarrow> 'z force_st_scheme \<Rightarrow> task_vars \<times> 'z force_st_scheme" where
  "take_request env v s =
     (case getForceSync (te_force env) (started_flags s) of
        ((doc, trans_id), s1) \<Rightarrow>
          (let s2 = setForceSyncTransID trans_id s1
           in case doc of
                None \<Rightarrow> (v, s2)
              | Some d \<Rightarrow>
                  if d = [] then (v, s2)
                  else if isSupplementaryDoc d s2 = WEBCFG_SUCCESS
                  then (v\<lparr>tv_forced_sync := True, tv_wait_flag := True, tv_syncDoc := Some d\<rparr>, s2\<lparr>g_supplementarySync := 1\<rparr>)
                  else (v\<lparr>tv_forced_sync := True, tv_wait_flag := True\<rparr>, s2)))"

definition task_woken :: "task_env \<Rightarrow> int \<Rightarrow> task_vars \<Rightarrow> 'z force_st_scheme \<Rightarrow> (task_pc \<times> task_vars \<times> 'z force_st_scheme) option" where
  "task_woken env rv v s =
     (if rv = 0 \<and> \<not> g_shutdown s then Some (TForced, take_request env v s)
      else if rv = ETIMEDOUT \<and> \<not> g_shutdown s then
        (if doc_fail_flag s = 1
         then map_option (\<lambda>s1. (TForced, v, s1))
                (failedDocsRetry (te_apply env) (set_global_retry_timestamp 0 (set_retry_timer 900 (set_doc_fail 0 s))))
         else Some (TForced, v\<lparr>tv_wait_flag := False, tv_maintenance_count := 0\<rparr>, s))
      else if g_shutdown s then Some (TExit, v, s)
      else Some (TForced, v, s))"

fun task_step :: "task_env \<Rightarrow> task_pc \<Rightarrow> task_vars \<Rightarrow> 'z force_st_scheme \<Rightarrow> (task_pc \<times> task_vars \<times> 'z force_st_scheme) option" where
  "task_step env TBoot v s = map_option (\<lambda>s1. (TForced, v, s1)) (task_boot env (tv_status v) s)"
| "task_step env TForced v s = map_option (\<lambda>r. (TMaintenance, r)) (task_forced env v s)"
| "task_step env TMaintenance v s = map_option (\<lambda>r. (TDecide, r)) (task_maintenance env v s)"
| "task_step env TDecide v s = task_decide env v s"
| "task_step env (TWoken rv) v s = task_woken env rv v s"
| "task_step env (TWaiting d) v s = None"
| "task_step env TExit v s = None"

section \<open>Shutdown\<close>

text \<open>The threads that are joined take no further turns.\<close>

definition task_shutdown :: "'z force_st_scheme \<Rightarrow> 'z force_st_scheme" where
  "task_shutdown s =
     (let s1 = (reset_global_eventFlag s)\<lparr>webcfgReady := False\<rparr>;
          s2 = reset_successDocCount (reset_numOfMpDocs (set_doc_fail 0 s1));
          s3 = set_retry_timer 0 (set_global_retry_timestamp 0
                 (set_global_maintenance_time 0 (s2\<lparr>maintenanceSyncInProgress := False\<rparr>)));
          s4 = s3\<lparr>g_supplementarySync := 0, g_webcfg_forcedsync_needed := 0, g_webcfg_forcedsync_started := 0,
                  g_cloud_forcesync_retry_needed := 0, g_cloud_forcesync_retry_started := 0\<rparr>
      in deleteForceSyncMsgQueue (delete_supplementary_list (delete_multipart (reset_db_node (delete_tmp_list s4)))))"
section \<open>The thread and its environment\<close>

text \<open>The turns of the thread; the end of its wait, by a signal or without one, or by time;
  requests from outside and from the program; shutdown; and everything the other threads do,
  which keeps the flags and the queue of requests.\<close>

type_synonym 'z sys = "task_pc \<times> task_vars \<times> 'z force_st_scheme"

inductive sys_step :: "'z sys \<Rightarrow> 'z sys \<Rightarrow> bool" where
  turn: "task_step env pc v s = Some (pc', v', s') \<Longrightarrow> fe_rbus_enabled (te_force env) \<Longrightarrow> sys_step (pc, v, s) (pc', v', s')"
| wake: "sys_step (TWaiting d, v, s) (TWoken 0, v, s)"
| timeout: "sys_step (TWaiting (Some t), v, s) (TWoken ETIMEDOUT, v, s)"
| poke: "set_rbus_ForceSync env p s = Some (r, s') \<Longrightarrow> sys_step (pc, v, s) (pc, v, s')"
| internal: "trigger_webcfg_forcedsync env s = Some s' \<Longrightarrow> fe_json env ''root'' = None \<Longrightarrow> sys_step (pc, v, s) (pc, v, s')"
| shutdown: "sys_step (pc, v, s) (pc, v, s\<lparr>g_shutdown := True, sync_signal := True\<rparr>)"
| others: "sync_outer s' = sync_outer s \<Longrightarrow> sys_step (pc, v, s) (pc, v, s')"

inductive_cases sys_step_waitingE: "sys_step (TWaiting d, v, s) x"
inductive_simps task_exit_simps: "sys_step (TExit, v, s) (pc', v', s')"

text \<open>What the invariants of the thread look at.\<close>

definition thread_view :: "'z http_st_scheme \<Rightarrow> (bool list \<times> int list) \<times> 'z" where
  "thread_view s = (flags s, http_st.more s)"

lemma sync_outer_view: "sync_outer s' = sync_outer s \<Longrightarrow> thread_view s' = thread_view s"
  by (simp add: sync_outer_def thread_view_def)

lemma view_fields:
  fixes s s' :: "'z force_st_scheme"
  assumes "thread_view s' = thread_view s"
  shows "mem_ok s' = mem_ok s" "g_shutdown s' = g_shutdown s" "webcfgReady s' = webcfgReady s"
    "bootSyncInProgress s' = bootSyncInProgress s" "maintenanceSyncInProgress s' = maintenanceSyncInProgress s"
    "g_supplementarySync s' = g_supplementarySync s" "g_webcfg_forcedsync_needed s' = g_webcfg_forcedsync_needed s"
    "g_webcfg_forcedsync_started s' = g_webcfg_forcedsync_started s"
    "g_cloud_forcesync_retry_needed s' = g_cloud_forcesync_retry_needed s"
    "g_cloud_forcesync_retry_started s' = g_cloud_forcesync_retry_started s"
    "ForceSync s' = ForceSync s" "ForceSyncTransID s' = ForceSyncTransID s" "ForceSyncMsgQ s' = ForceSyncMsgQ s"
    "sync_signal s' = sync_signal s"
  using assms by (cases s; cases s'; simp add: thread_view_def flags_def)+

lemmas sync_outer_fields = view_fields [OF sync_outer_view]

lemma sync_outer_small [frame_simps]:
  "sync_outer (setForceSyncTransID t s) = sync_outer s"
  "sync_outer (set_global_retry_timestamp k s) = sync_outer s" "sync_outer (set_retry_timer k s) = sync_outer s"
  "sync_outer (set_doc_fail k s) = sync_outer s"
  by (intro sync_outer_of; simp add: outer_def flags_def setForceSyncTransID_def set_global_retry_timestamp_def
      set_retry_timer_def set_doc_fail_def split: option.split)+

lemma sync_outer_supplementary: "supplementary_syncs io st k ds s = Some s' \<Longrightarrow> sync_outer s' = sync_outer s"
  by (induction io st k ds s rule: supplementary_syncs.induct)
    (auto dest!: sync_outer_processWebconfgSync split: option.splits)

lemma sync_outer_initMaintenanceTimer: "task_initMaintenanceTimer env s = Some s' \<Longrightarrow> sync_outer s' = sync_outer s"
  by (intro sync_outer_of)
    (auto simp: task_initMaintenanceTimer_def initMaintenanceTimer_def set_global_maintenance_time_def outer_def flags_def Let_def
      split: prod.splits simp: Option.bind_eq_Some_conv)

lemma sync_outer_release: "release_success_docs_tmplist s = Some s' \<Longrightarrow> sync_outer s' = sync_outer s"
  unfolding release_success_docs_tmplist_def by (intro sync_outer_of outer_tmp_walk)

lemma sync_outer_failedDocsRetry: "failedDocsRetry env s = Some s' \<Longrightarrow> sync_outer s' = sync_outer s"
  by (intro sync_outer_of outer_failedDocsRetry)

lemma sync_outer_next_timeout: "next_timeout env v s = Some (d, v', s') \<Longrightarrow> sync_outer s' = sync_outer s"
  by (auto simp: next_timeout_def Let_def frame_simps dest!: sync_outer_failedDocsRetry split: if_splits option.splits)
section \<open>What a request changes\<close>

lemma queued_vals_nonempty: "queued_vals v vals \<noteq> []"
  by (auto simp: queued_vals_def)

definition request_effect :: "'z force_st_scheme \<Rightarrow> 'z force_st_scheme \<Rightarrow> bool" where
  "request_effect s s' \<longleftrightarrow> (\<exists>k f t q g. s' = s\<lparr>g_cloud_forcesync_retry_needed := k, ForceSync := f, ForceSyncTransID := t,
      ForceSyncMsgQ := q, sync_signal := g\<rparr> \<and> (k = g_cloud_forcesync_retry_needed s \<or> k = 1 \<and> q \<noteq> []) \<and>
      (ForceSyncMsgQ s \<noteq> [] \<longrightarrow> q \<noteq> []))"

lemma request_effectI:
  "s' = s\<lparr>g_cloud_forcesync_retry_needed := k, ForceSync := f, ForceSyncTransID := t, ForceSyncMsgQ := q, sync_signal := g\<rparr> \<Longrightarrow>
   k = g_cloud_forcesync_retry_needed s \<or> k = 1 \<and> q \<noteq> [] \<Longrightarrow> (ForceSyncMsgQ s \<noteq> [] \<longrightarrow> q \<noteq> []) \<Longrightarrow> request_effect s s'"
  unfolding request_effect_def by blast

lemma request_sync_effect:
  assumes "mem_ok s" "request_sync t (s\<lparr>ForceSync := f\<rparr>) = (r, s')"
  shows "request_effect s s' \<and> ForceSyncMsgQ s' \<noteq> []"
proof -
  let ?s = "s\<lparr>ForceSync := f\<rparr>"
  obtain st s1 where q: "queue_request t ?s = (st, s1)" by fastforce
  have m: "mem_ok ?s" using assms(1) by simp
  note spec = queue_request_spec [OF m q]
  obtain f1 q1 where s1: "s1 = ?s\<lparr>ForceSync := f1, ForceSyncMsgQ := q1\<rparr>" using spec(3) by blast
  have "queue_vals s1 \<noteq> []" unfolding spec(2) by (rule queued_vals_nonempty)
  then have ne: "q1 \<noteq> []" by (auto simp: s1 queue_vals_def)
  have "s' = s\<lparr>g_cloud_forcesync_retry_needed := g_cloud_forcesync_retry_needed s', ForceSync := f1,
      ForceSyncTransID := ForceSyncTransID s', ForceSyncMsgQ := q1, sync_signal := sync_signal s'\<rparr> \<and>
      g_cloud_forcesync_retry_needed s' \<in> {g_cloud_forcesync_retry_needed s, 1}"
    using assms(2) q spec(1) by (auto simp: request_sync_def s1 split: if_splits)
  with ne have "request_effect s s'" by (intro request_effectI [where q = q1]) blast+
  moreover have "ForceSyncMsgQ s' = q1" using assms(2) q spec(1) by (auto simp: request_sync_def s1 split: if_splits)
  ultimately show ?thesis using ne by simp
qed

lemma set_rbus_ForceSync_effect:
  assumes "mem_ok s" "set_rbus_ForceSync env p s = Some (r, s')"
  shows "request_effect s s'"
proof (cases "p = None \<or> p = Some []")
  case True
  with assms(2) have "s' = s\<lparr>ForceSync := [], ForceSyncTransID := []\<rparr>" by (auto simp: set_rbus_ForceSync_def)
  then show ?thesis
    by (intro request_effectI [where k = "g_cloud_forcesync_retry_needed s" and q = "ForceSyncMsgQ s" and g = "sync_signal s"]) auto
next
  case False
  then obtain x where x: "p = Some x" "x \<noteq> []" by (cases p) auto
  then obtain ret val tid where pj: "parseForceSyncJson env x = Some (ret, val, tid)"
    using assms(2) by (auto simp: set_rbus_ForceSync_def split: option.splits)
  show ?thesis
  proof (cases "ret = - 1")
    case True
    with assms(2) x pj have "s' = s\<lparr>ForceSync := webcfgStrncpy x 256\<rparr>" by (auto simp: set_rbus_ForceSync_def)
    then show ?thesis
      by (intro request_effectI [where k = "g_cloud_forcesync_retry_needed s" and t = "ForceSyncTransID s"
          and q = "ForceSyncMsgQ s" and g = "sync_signal s"]) auto
  next
    case False
    with assms(2) set_rbus_ForceSync_poke [OF x(2) pj False, of s] x(1) show ?thesis
      using request_sync_effect [OF assms(1)] by (metis option.inject)
  qed
qed

lemma trigger_effect:
  assumes "mem_ok s" "trigger_webcfg_forcedsync env s = Some s'" "fe_json env ''root'' = None"
  shows "request_effect (s\<lparr>g_webcfg_forcedsync_needed := 1\<rparr>) s' \<and> ForceSyncMsgQ s' \<noteq> []"
proof -
  let ?s = "s\<lparr>g_webcfg_forcedsync_needed := 1\<rparr>"
  have pj: "parseForceSyncJson env ''root'' = Some (0, None, None)" using assms(3) by (simp add: parseForceSyncJson_def)
  have z: "(0 :: int) \<noteq> - 1" "''root'' \<noteq> []" by simp_all
  obtain r s1 where q: "request_sync (fe_uuid env) (?s\<lparr>ForceSync := poke_value ''root'' None\<rparr>) = (r, s1)" by fastforce
  have "s1 = s'" using assms(2) set_rbus_ForceSync_poke [OF z(2) pj z(1), of ?s] q by (simp add: trigger_webcfg_forcedsync_def)
  moreover have "mem_ok ?s" using assms(1) by simp
  ultimately show ?thesis using request_sync_effect [of ?s] q by blast
qed

section \<open>What holds in every reachable state\<close>

definition bit :: "int \<Rightarrow> bool" where
  "bit k \<longleftrightarrow> k = 0 \<or> k = 1"

lemma bit_simps [simp]: "bit 0" "bit 1"
  by (simp_all add: bit_def)

text \<open>The types of the flags and variables, which the program keeps in \<open>int\<close>.\<close>

definition task_types :: "task_vars \<Rightarrow> 'z force_st_scheme \<Rightarrow> bool" where
  "task_types v s \<longleftrightarrow> mem_ok s \<and> queue_inv s \<and> bit (g_supplementarySync s) \<and> bit (g_webcfg_forcedsync_needed s)
     \<and> bit (g_webcfg_forcedsync_started s) \<and> bit (g_cloud_forcesync_retry_needed s) \<and> bit (g_cloud_forcesync_retry_started s)
     \<and> bit (tv_maintenance_doc_sync v) \<and> bit (tv_maintenance_count v)"

text \<open>What the flags mean, by the place of the thread.\<close>

definition parked :: "task_pc \<Rightarrow> bool" where
  "parked pc = (case pc of TWaiting d \<Rightarrow> True | TWoken rv \<Rightarrow> True | _ \<Rightarrow> False)"

definition task_meaning :: "task_pc \<Rightarrow> task_vars \<Rightarrow> 'z force_st_scheme \<Rightarrow> bool" where
  "task_meaning pc v s \<longleftrightarrow> (bootSyncInProgress s \<longleftrightarrow> pc = TBoot)
     \<and> (g_supplementarySync s = 1 \<longleftrightarrow> tv_syncDoc v \<noteq> None)
     \<and> (tv_syncDoc v \<noteq> None \<longrightarrow> tv_forced_sync v \<and> pc = TForced)
     \<and> (tv_forced_sync v \<longrightarrow> pc = TForced \<or> pc = TWoken 0 \<or> pc = TExit)
     \<and> (g_webcfg_forcedsync_started s = 1 \<or> g_cloud_forcesync_retry_started s = 1 \<longrightarrow> tv_forced_sync v \<and> pc = TForced)
     \<and> (parked pc \<and> \<not> tv_forced_sync v \<and> (g_webcfg_forcedsync_needed s = 1 \<or> g_cloud_forcesync_retry_needed s = 1) \<longrightarrow> ForceSyncMsgQ s \<noteq> [])
     \<and> ((\<exists>d. pc = TWaiting (Some d)) \<longrightarrow> \<not> maintenanceSyncInProgress s)"

definition task_inv :: "'z sys \<Rightarrow> bool" where
  "task_inv x \<longleftrightarrow> (case x of (pc, v, s) \<Rightarrow> task_types v s \<and> task_meaning pc v s)"

lemma task_types_outer: "sync_outer s' = sync_outer s \<Longrightarrow> task_types v s' = task_types v s"
  by (frule sync_outer_fields) (simp add: task_types_def sync_outer_fields [of s' s] queue_inv_cong [of s' s])

lemma task_meaning_outer: "sync_outer s' = sync_outer s \<Longrightarrow> task_meaning pc v s' = task_meaning pc v s"
  by (simp add: task_meaning_def sync_outer_fields [of s' s])

lemma task_inv_outer: "sync_outer s' = sync_outer s \<Longrightarrow> task_inv (pc, v, s') = task_inv (pc, v, s)"
  by (simp add: task_inv_def task_types_outer [of s' s] task_meaning_outer [of s' s])

lemma task_inv_request:
  assumes "request_effect s s'" "queue_inv s'" "task_inv (pc, v, s)"
  shows "task_inv (pc, v, s')"
proof -
  obtain k f t q g where s': "s' = s\<lparr>g_cloud_forcesync_retry_needed := k, ForceSync := f, ForceSyncTransID := t,
      ForceSyncMsgQ := q, sync_signal := g\<rparr>" "k = g_cloud_forcesync_retry_needed s \<or> k = 1 \<and> q \<noteq> []" "ForceSyncMsgQ s \<noteq> [] \<longrightarrow> q \<noteq> []"
    using assms(1) unfolding request_effect_def by blast
  from assms(3) have "task_types v s" "task_meaning pc v s" by (simp_all add: task_inv_def)
  then have "task_types v s'" "task_meaning pc v s'"
    using assms(2) s'(2,3) by (auto simp: task_types_def task_meaning_def s'(1) bit_def)
  then show ?thesis by (simp add: task_inv_def)
qed

lemma task_inv_boot:
  assumes "task_inv (TBoot, v, s)" "task_boot env st s = Some s'"
  shows "task_inv (TForced, v, s')"
proof -
  from assms(2) obtain s1 s2 where s: "processWebconfgSync (te_sync env 0) st None s = Some s1"
    "supplementary_syncs (te_sync env) st 1 (g_spInfo s1) (s1\<lparr>g_supplementarySync := 1\<rparr>) = Some s2"
    "s' = s2\<lparr>bootSyncInProgress := False, g_supplementarySync := 0\<rparr>"
    by (auto simp: task_boot_def split: option.splits)
  note f1 = sync_outer_fields [OF sync_outer_processWebconfgSync [OF s(1)]]
  note f2 = sync_outer_fields [OF sync_outer_supplementary [OF s(2)]]
  from assms(1) f1 f2 show ?thesis
    by (auto simp: task_inv_def task_types_def task_meaning_def s(3) bit_def queue_inv_def queue_vals_def parked_def)
qed

lemma setForceSync_empty:
  "fe_rbus_enabled env \<Longrightarrow> setForceSync env [] s = Some (s\<lparr>ForceSync := [], ForceSyncTransID := []\<rparr>)"
  by (simp add: setForceSync_def set_rbus_ForceSync_def)

lemma task_inv_forced:
  assumes "task_inv (TForced, v, s)" "task_forced env v s = Some (v', s')" "fe_rbus_enabled (te_force env)"
  shows "task_inv (TMaintenance, v', s')"
proof (cases "tv_forced_sync v")
  case True
  with assms(2,3) obtain s1 where s: "processWebconfgSync (te_sync env 0) (tv_status v) (tv_syncDoc v) s = Some s1"
    "s' = (setForceSyncTransID (Some []) s1)\<lparr>ForceSync := [], ForceSyncTransID := [], g_supplementarySync := 0,
       g_webcfg_forcedsync_started := 0, g_cloud_forcesync_retry_started := 0\<rparr>"
    "v' = v\<lparr>tv_forced_sync := False, tv_syncDoc := (if g_supplementarySync s1 \<noteq> 0 \<and> tv_syncDoc v \<noteq> None then None else tv_syncDoc v)\<rparr>"
    by (auto simp: task_forced_def setForceSync_empty split: option.splits)
  have "sync_outer (setForceSyncTransID (Some []) s1) = sync_outer s"
    using sync_outer_processWebconfgSync [OF s(1)] by (simp add: frame_simps)
  note f = sync_outer_fields [OF this]
  have "g_supplementarySync s1 = g_supplementarySync s" using sync_outer_fields [OF sync_outer_processWebconfgSync [OF s(1)]] by simp
  moreover have inv: "task_types v s" "task_meaning TForced v s" using assms(1) by (simp_all add: task_inv_def)
  moreover have "task_types v' s'"
    using inv(1) f by (simp add: task_types_def s(2,3) bit_def queue_inv_def queue_vals_def)
  ultimately show ?thesis using f True
    by (cases "tv_syncDoc v") (simp_all add: task_inv_def task_meaning_def s(2,3) parked_def)
next
  case False
  with assms show ?thesis by (auto simp: task_forced_def task_inv_def task_meaning_def parked_def)
qed

text \<open>Taking a request: with rbus the first entry leaves the queue.\<close>

lemma getForceSync_cases:
  assumes "fe_rbus_enabled env"
  obtains (empty) "ForceSyncMsgQ s = []" "getForceSync env s = ((None, None), s)"
    | (entry) m q where "ForceSyncMsgQ s = m # q" "getForceSync env s = ((fm_ForceSyncVal m, fm_ForceSyncTransID m),
        s\<lparr>g_cloud_forcesync_retry_needed := (if q = [] then g_cloud_forcesync_retry_needed s else 1), ForceSyncMsgQ := q\<rparr>)"
  using assms by (cases "ForceSyncMsgQ s") (auto simp: getForceSync_def get_rbus_ForceSync_def force_dequeue_def)

lemma queue_inv_tl: "queue_inv s \<Longrightarrow> ForceSyncMsgQ s = m # q \<Longrightarrow> ForceSyncMsgQ s' = q \<Longrightarrow> queue_inv s' \<and> entry_ok (fm_ForceSyncVal m)"
  by (simp add: queue_inv_def queue_vals_def)

lemma maintenance_sync_effect:
  assumes "maintenance_sync env v s = Some s'" "fe_rbus_enabled (te_force env)"
  obtains s2 where "sync_outer s2 = sync_outer (snd (getForceSync (te_force env) (s\<lparr>maintenanceSyncInProgress := True\<rparr>)))"
    "s' = s2\<lparr>g_supplementarySync := 0\<rparr>"
proof -
  obtain doc tid s1 where g: "getForceSync (te_force env) (s\<lparr>maintenanceSyncInProgress := True\<rparr>) = ((doc, tid), s1)"
    by (metis prod.collapse)
  let ?s2 = "setForceSyncTransID tid s1"
  from assms(1) g obtain s3 s4 s5 where s: "(if doc = None \<and> tid = None \<and> \<not> tv_forced_sync v \<and> \<not> bootSyncInProgress ?s2
      then release_success_docs_tmplist ?s2 else Some ?s2) = Some s3"
    "supplementary_syncs (te_sync env) (tv_status v) 1 (g_spInfo s3) s3 = Some s4"
    "task_initMaintenanceTimer env s4 = Some s5" "s' = s5\<lparr>g_supplementarySync := 0\<rparr>"
    by (auto simp: maintenance_sync_def Let_def split: option.splits)
  have "sync_outer s3 = sync_outer ?s2" using s(1) sync_outer_release by (auto split: if_splits)
  with sync_outer_supplementary [OF s(2)] sync_outer_initMaintenanceTimer [OF s(3)]
  have "sync_outer s5 = sync_outer s1" by (simp add: frame_simps)
  with s(4) g show thesis by (intro that [of s5]) simp_all
qed

lemma task_inv_maintenance:
  assumes "task_inv (TMaintenance, v, s)" "task_maintenance env v s = Some (v', s')" "fe_rbus_enabled (te_force env)"
  shows "task_inv (TDecide, v', s')"
proof -
  have inv: "task_types v s" "task_meaning TMaintenance v s" using assms(1) by (simp_all add: task_inv_def)
  show ?thesis
  proof (cases "v' = v \<and> s' = s")
    case True
    with inv show ?thesis by (auto simp: task_inv_def task_meaning_def parked_def)
  next
    case False
    let ?s0 = "s\<lparr>g_supplementarySync := 1, maintenanceSyncInProgress := True\<rparr>"
    from False assms(2) have "maintenance_sync env v (s\<lparr>g_supplementarySync := 1\<rparr>) = Some s'"
      and v': "v' = v\<lparr>tv_maintenance_doc_sync := 0, tv_maintenance_count := 1\<rparr>"
      by (auto simp: task_maintenance_def checkMaintenanceTimer_def Let_def split: if_splits prod.splits)
    from maintenance_sync_effect [OF this(1) assms(3)] obtain s1 s2 where s: "s1 = snd (getForceSync (te_force env) ?s0)"
      "sync_outer s2 = sync_outer s1" "s' = s2\<lparr>g_supplementarySync := 0\<rparr>" by metis
    note f = sync_outer_fields [OF s(2)]
    obtain k q where k: "s1 = ?s0\<lparr>g_cloud_forcesync_retry_needed := k, ForceSyncMsgQ := q\<rparr>" "bit k" "queue_inv s1"
    proof (cases rule: getForceSync_cases [OF assms(3), of ?s0])
      case 1
      with inv(1) show thesis
        by (intro that [where k = "g_cloud_forcesync_retry_needed s" and q = "ForceSyncMsgQ s"])
          (simp_all add: s(1) task_types_def queue_inv_def queue_vals_def)
    next
      case (2 m q)
      with inv(1) queue_inv_tl [of s m q s1] show thesis
        by (intro that [where k = "if q = [] then g_cloud_forcesync_retry_needed s else 1" and q = q])
          (simp_all add: s(1) task_types_def bit_def)
    qed
    have "queue_inv s'" using k(3) f by (simp add: s(3) queue_inv_def queue_vals_def)
    moreover have "tv_syncDoc v = None" using inv(2) by (simp add: task_meaning_def)
    ultimately show ?thesis using inv f k(2)
      by (simp add: task_inv_def task_types_def task_meaning_def s(3) v' k(1) parked_def)
  qed
qed

lemma task_inv_decide:
  assumes "task_inv (TDecide, v, s)" "task_decide env v s = Some (pc', v', s')"
  shows "task_inv (pc', v', s')"
proof (cases "g_shutdown s")
  case True
  with assms show ?thesis by (auto simp: task_decide_def task_inv_def task_meaning_def parked_def)
next
  case False
  with assms(2) obtain deadline v1 s1 where n: "next_timeout env v s = Some (deadline, v1, s1)"
    and r: "(pc', v', s') =
       (if g_webcfg_forcedsync_needed s1 = 1 \<or> g_cloud_forcesync_retry_needed s1 = 1
        then (TWoken 0, v1\<lparr>tv_forced_sync := True, tv_wait_flag := True\<rparr>, s1)
        else if doc_fail_flag s = 1 \<or> tv_maintenance_doc_sync v1 = 1
        then (TWaiting (Some deadline), v1, s1\<lparr>maintenanceSyncInProgress := False, sync_signal := False\<rparr>)
        else (TWaiting None, v1, s1\<lparr>sync_signal := False\<rparr>))"
    by (auto simp: task_decide_def Let_def split: option.splits)
  have v1: "v1 = v \<or> v1 = v\<lparr>tv_maintenance_doc_sync := 1\<rparr>"
    using n by (auto simp: next_timeout_def Let_def split: if_splits option.splits)
  have "task_inv (TDecide, v1, s)"
    using v1 assms(1) by (elim disjE) (simp_all add: task_inv_def task_types_def task_meaning_def)
  then have "task_inv (TDecide, v1, s1)" by (simp only: task_inv_outer [OF sync_outer_next_timeout [OF n]])
  then have inv: "task_types v1 s1" "task_meaning TDecide v1 s1" by (simp_all add: task_inv_def)
  have types: "task_types (v1\<lparr>tv_forced_sync := True, tv_wait_flag := True\<rparr>) s1" "task_types v1 (s1\<lparr>sync_signal := False\<rparr>)"
    "task_types v1 (s1\<lparr>maintenanceSyncInProgress := False, sync_signal := False\<rparr>)"
    using inv(1) by (simp_all add: task_types_def queue_inv_def queue_vals_def)
  show ?thesis
  proof (cases "g_webcfg_forcedsync_needed s1 = 1 \<or> g_cloud_forcesync_retry_needed s1 = 1")
    case True
    with r have "pc' = TWoken 0" "v' = v1\<lparr>tv_forced_sync := True, tv_wait_flag := True\<rparr>" "s' = s1" by simp_all
    then show ?thesis using inv(2) types(1) by (simp add: task_inv_def task_meaning_def)
  next
    case needed: False
    show ?thesis
    proof (cases "doc_fail_flag s = 1 \<or> tv_maintenance_doc_sync v1 = 1")
      case True
      with needed r have e: "pc' = TWaiting (Some deadline)" "v' = v1" "s' = s1\<lparr>maintenanceSyncInProgress := False, sync_signal := False\<rparr>"
        by simp_all
      then show ?thesis using inv(2) types(3) needed by (simp add: task_inv_def task_meaning_def)
    next
      case False
      with needed r have e: "pc' = TWaiting None" "v' = v1" "s' = s1\<lparr>sync_signal := False\<rparr>" by simp_all
      then show ?thesis using inv(2) types(2) needed by (simp add: task_inv_def task_meaning_def)
    qed
  qed
qed

lemma started_flags_fields:
  "mem_ok (started_flags s) = mem_ok s" "ForceSyncMsgQ (started_flags s) = ForceSyncMsgQ s"
  "bootSyncInProgress (started_flags s) = bootSyncInProgress s" "g_supplementarySync (started_flags s) = g_supplementarySync s"
  "g_webcfg_forcedsync_needed (started_flags s) = 0" "g_cloud_forcesync_retry_needed (started_flags s) = 0"
  "g_webcfg_forcedsync_started (started_flags s) = (if g_webcfg_forcedsync_needed s = 0 then g_webcfg_forcedsync_started s else 1)"
  "g_cloud_forcesync_retry_started (started_flags s) =
    (if g_cloud_forcesync_retry_needed s = 0 then g_cloud_forcesync_retry_started s else 1)"
  "g_spInfo (started_flags s) = g_spInfo s"
  by (simp_all add: started_flags_def Let_def)

text \<open>What taking a request leaves: an entry of the queue makes the next turn a forced sync.\<close>

lemma take_request_cases:
  assumes "fe_rbus_enabled (te_force env)" "queue_inv s"
  obtains (empty) "ForceSyncMsgQ s = []" "take_request env v s = (v, setForceSyncTransID None (started_flags s))"
    | (entry) m q d s1 where "ForceSyncMsgQ s = m # q" "fm_ForceSyncVal m = Some d"
      "s1 = setForceSyncTransID (fm_ForceSyncTransID m)
        ((started_flags s)\<lparr>g_cloud_forcesync_retry_needed := (if q = [] then 0 else 1), ForceSyncMsgQ := q\<rparr>)"
      "take_request env v s =
        (if isSupplementaryDoc d s = WEBCFG_SUCCESS
         then (v\<lparr>tv_forced_sync := True, tv_wait_flag := True, tv_syncDoc := Some d\<rparr>, s1\<lparr>g_supplementarySync := 1\<rparr>)
         else (v\<lparr>tv_forced_sync := True, tv_wait_flag := True\<rparr>, s1))"
proof (cases rule: getForceSync_cases [OF assms(1), of "started_flags s"])
  case 1
  then show thesis by (intro empty) (simp_all add: take_request_def started_flags_fields)
next
  case (2 m q)
  then have q: "ForceSyncMsgQ s = m # q" by (simp add: started_flags_fields)
  with assms(2) obtain d where d: "fm_ForceSyncVal m = Some d" "d \<noteq> []"
    by (auto simp: queue_inv_def queue_vals_def entry_ok_def split: option.splits)
  let ?s1 = "setForceSyncTransID (fm_ForceSyncTransID m)
    ((started_flags s)\<lparr>g_cloud_forcesync_retry_needed := (if q = [] then 0 else 1), ForceSyncMsgQ := q\<rparr>)"
  have "isSupplementaryDoc d (setForceSyncTransID t ((started_flags s)\<lparr>g_cloud_forcesync_retry_needed := k, ForceSyncMsgQ := q\<rparr>)) =
      isSupplementaryDoc d s" for t k
    by (simp add: isSupplementaryDoc_def setForceSyncTransID_def started_flags_fields split: option.split)
  then have "take_request env v s =
        (if isSupplementaryDoc d s = WEBCFG_SUCCESS
         then (v\<lparr>tv_forced_sync := True, tv_wait_flag := True, tv_syncDoc := Some d\<rparr>, ?s1\<lparr>g_supplementarySync := 1\<rparr>)
         else (v\<lparr>tv_forced_sync := True, tv_wait_flag := True\<rparr>, ?s1))"
    using 2(2) d by (simp add: take_request_def started_flags_fields Let_def)
  with q d(1) show thesis by (intro entry) simp_all
qed

lemma task_inv_take:
  assumes "task_inv (TWoken 0, v, s)" "fe_rbus_enabled (te_force env)" "take_request env v s = (v', s')"
  shows "task_inv (TForced, v', s')"
proof -
  have inv: "task_types v s" "task_meaning (TWoken 0) v s" using assms(1) by (simp_all add: task_inv_def)
  then have "queue_inv s" by (simp add: task_types_def)
  from assms(2) this show ?thesis
  proof (cases rule: take_request_cases [of env s v])
    case empty
    have o: "sync_outer s' = sync_outer (started_flags s)" using empty(2) assms(3) by (simp add: frame_simps)
    have "task_inv (TForced, v, started_flags s)"
      using inv empty(1) by (auto simp: task_inv_def task_types_def task_meaning_def started_flags_fields bit_def parked_def
          queue_inv_def queue_vals_def)
    then show ?thesis using empty(2) assms(3) task_inv_outer [OF o] by simp
  next
    case (entry m q d s1)
    let ?t = "(started_flags s)\<lparr>g_cloud_forcesync_retry_needed := (if q = [] then 0 else 1), ForceSyncMsgQ := q\<rparr>"
    have o: "sync_outer s1 = sync_outer ?t" using entry(3) by (simp add: frame_simps)
    note f = sync_outer_fields [OF o]
    have "queue_inv s1" using queue_inv_tl [OF _ entry(1), of s1] inv(1) f by (simp add: task_types_def)
    moreover have "bit (g_webcfg_forcedsync_started s1)" "bit (g_cloud_forcesync_retry_started s1)" "bit (g_cloud_forcesync_retry_needed s1)"
      using inv(1) f by (simp_all add: task_types_def started_flags_fields bit_def)
    ultimately have t: "task_types v s1" using inv(1) f
      by (simp add: task_types_def started_flags_fields)
    have m: "tv_syncDoc v = None" "g_supplementarySync s1 = 0" "\<not> bootSyncInProgress s1"
      using inv f by (simp_all add: task_meaning_def task_types_def started_flags_fields bit_def)
    show ?thesis
    proof (cases "isSupplementaryDoc d s = WEBCFG_SUCCESS")
      case True
      with entry(4) assms(3) have e: "v' = v\<lparr>tv_forced_sync := True, tv_wait_flag := True, tv_syncDoc := Some d\<rparr>"
        "s' = s1\<lparr>g_supplementarySync := 1\<rparr>" by simp_all
      have "task_types v' s'" using t by (simp add: e task_types_def bit_def queue_inv_def queue_vals_def)
      with m show ?thesis by (simp add: task_inv_def task_meaning_def e parked_def)
    next
      case False
      with entry(4) assms(3) have e: "v' = v\<lparr>tv_forced_sync := True, tv_wait_flag := True\<rparr>" "s' = s1" by simp_all
      have "task_types v' s'" using t by (simp add: e task_types_def)
      with m show ?thesis by (simp add: task_inv_def task_meaning_def e parked_def)
    qed
  qed
qed

lemma task_inv_woken:
  assumes "task_inv (TWoken rv, v, s)" "task_woken env rv v s = Some (pc', v', s')" "fe_rbus_enabled (te_force env)"
  shows "task_inv (pc', v', s')"
proof (cases "rv = 0 \<and> \<not> g_shutdown s")
  case True
  with assms(2) have "pc' = TForced" "take_request env v s = (v', s')" by (auto simp: task_woken_def)
  with task_inv_take [of v s env v' s'] assms(1,3) True show ?thesis by simp
next
  case False
  have inv: "task_types v s" "task_meaning (TWoken rv) v s" using assms(1) by (simp_all add: task_inv_def)
  have stay: "task_inv (TForced, v, s)" if "rv \<noteq> 0"
    using inv that by (simp add: task_inv_def task_meaning_def parked_def)
  show ?thesis
  proof (cases "g_shutdown s")
    case True
    with assms(2) have "pc' = TExit" "v' = v" "s' = s" by (simp_all add: task_woken_def)
    with inv show ?thesis by (simp add: task_inv_def task_meaning_def parked_def)
  next
    case on: False
    with False have rv: "rv \<noteq> 0" by simp
    show ?thesis
    proof (cases "rv = ETIMEDOUT \<and> doc_fail_flag s = 1")
      case True
      with assms(2) on rv have e: "pc' = TForced" "v' = v"
        and f: "failedDocsRetry (te_apply env) (set_global_retry_timestamp 0 (set_retry_timer 900 (set_doc_fail 0 s))) = Some s'"
        by (auto simp: task_woken_def)
      have o: "sync_outer s' = sync_outer s" using sync_outer_failedDocsRetry [OF f] by (simp add: frame_simps)
      from stay [OF rv] show ?thesis by (simp only: e task_inv_outer [OF o])
    next
      case False
      then have "v' = (if rv = ETIMEDOUT then v\<lparr>tv_wait_flag := False, tv_maintenance_count := 0\<rparr> else v)"
        "pc' = TForced" "s' = s" using assms(2) on rv by (auto simp: task_woken_def split: if_splits)
      with stay [OF rv] show ?thesis by (simp add: task_inv_def task_types_def task_meaning_def)
    qed
  qed
qed

lemma task_inv_turn:
  assumes "task_step env pc v s = Some (pc', v', s')" "fe_rbus_enabled (te_force env)" "task_inv (pc, v, s)"
  shows "task_inv (pc', v', s')"
proof (cases pc)
  case TBoot
  with assms(1) have "task_boot env (tv_status v) s = Some s'" "pc' = TForced" "v' = v" by auto
  with task_inv_boot [of v s env "tv_status v" s'] assms(3) TBoot show ?thesis by simp
next
  case TForced
  with assms(1) have "task_forced env v s = Some (v', s')" "pc' = TMaintenance" by auto
  with task_inv_forced [of v s env v' s'] assms(2,3) TForced show ?thesis by simp
next
  case TMaintenance
  with assms(1) have "task_maintenance env v s = Some (v', s')" "pc' = TDecide" by auto
  with task_inv_maintenance [of v s env v' s'] assms(2,3) TMaintenance show ?thesis by simp
next
  case TDecide
  with assms task_inv_decide [of v s env] show ?thesis by simp
next
  case (TWoken rv)
  with assms task_inv_woken [of rv v s env] show ?thesis by simp
qed (use assms(1) in simp_all)

lemma task_inv_parked:
  assumes "task_inv (TWaiting d, v, s)"
  shows "task_inv (TWoken rv, v, s)"
  using assms by (simp add: task_inv_def task_meaning_def parked_def)

lemma sys_step_inv: "sys_step x y \<Longrightarrow> task_inv x \<Longrightarrow> task_inv (y :: 'z sys)"
proof (induction rule: sys_step.induct)
  case (turn env pc v s pc' v' s')
  then show ?case by (rule task_inv_turn)
next
  case (wake d v s)
  then show ?case by (rule task_inv_parked)
next
  case (timeout t v s)
  then show ?case by (rule task_inv_parked)
next
  case (poke env p s r s' pc v)
  have m: "mem_ok s" "queue_inv s" using poke(2) by (simp_all add: task_inv_def task_types_def)
  show ?case
    by (rule task_inv_request [OF set_rbus_ForceSync_effect [OF m(1) poke(1)] set_rbus_ForceSync_inv [OF poke(1) m(2)] poke(2)])
next
  case (internal env s s' pc v)
  let ?s = "s\<lparr>g_webcfg_forcedsync_needed := 1\<rparr>"
  have m: "mem_ok s" "queue_inv s" using internal(3) by (simp_all add: task_inv_def task_types_def)
  note e = trigger_effect [OF m(1) internal(1,2)]
  have "force_step s s'" using internal(1) by (rule force_step.trigger)
  from force_step_inv [OF this m(2)] have q: "queue_inv s'" .
  obtain k f t q g where s': "s' = ?s\<lparr>g_cloud_forcesync_retry_needed := k, ForceSync := f, ForceSyncTransID := t,
      ForceSyncMsgQ := q, sync_signal := g\<rparr>" "k = g_cloud_forcesync_retry_needed ?s \<or> k = 1 \<and> q \<noteq> []"
    using conjunct1 [OF e] unfolding request_effect_def by blast
  have "bit k" using s'(2) internal(3) by (auto simp: task_inv_def task_types_def)
  moreover have "q \<noteq> []" using conjunct2 [OF e] by (simp add: s'(1))
  ultimately show ?case using internal(3) q by (simp add: task_inv_def task_types_def task_meaning_def s'(1))
next
  case (shutdown pc v s)
  then show ?case by (simp add: task_inv_def task_types_def task_meaning_def queue_inv_def queue_vals_def)
next
  case (others s' s pc v)
  from others(2) show ?case by (simp only: task_inv_outer [OF others(1)])
qed

section \<open>From the start on\<close>

definition meta_outer :: "'z meta_st_scheme \<Rightarrow> (bool list \<times> int list) \<times> 'z" where
  "meta_outer s = (flags s, meta_st.more s)"

lemma view_of_meta: "meta_outer s' = meta_outer s \<Longrightarrow> thread_view s' = thread_view s"
  by (cases s; cases s') (simp add: thread_view_def meta_outer_def flags_def)

lemma meta_outer_parse_tokens: "parse_subdoc_tokens ts s = Some (go, s') \<Longrightarrow> meta_outer s' = meta_outer s"
  by (induction ts s rule: parse_subdoc_tokens.induct) (auto simp: meta_outer_def flags_def split: if_splits option.splits)

lemma meta_outer_small:
  "meta_outer (setsupportedDocs v s) = meta_outer s" "meta_outer (setsupportedVersion v s) = meta_outer s"
  "meta_outer (supplementaryDocs (setsupplementaryDocs v s)) = meta_outer s"
  by (simp_all add: setsupportedDocs_def setsupportedVersion_def supplementaryDocs_def setsupplementaryDocs_def
      meta_outer_def flags_def split: option.split)

lemma meta_outer_line:
  assumes "properties_line str s = Some (go, s')"
  shows "meta_outer s' = meta_outer s"
proof -
  let ?A = "''WEBCONFIG_SUPPORTED_DOCS_BIT=''" and ?C = "''WEBCONFIG_SUBDOC_MAP''" and ?D = "''WEBCONFIG_SUPPLEMENTARY_DOCS''"
  note def = assms [unfolded properties_line_def]
  obtain r1 where p1: "property_value ?A ?A str = Some r1" using def by (cases "property_value ?A ?A str") simp_all
  obtain s1 str1 where q1: "(case r1 of None \<Rightarrow> (s, str) | Some (v, str') \<Rightarrow> (setsupportedDocs (Some v) s, str')) = (s1, str1)"
    by fastforce
  note def = def [unfolded p1 bind.bind_lunit q1 Let_def prod.case]
  obtain r2 where p2: "property_value ''WEBCONFIG_DOC_SCHEMA_VERSION'' ''WEBCONFIG_DOC_SCHEMA_VERSION='' str1 = Some r2"
    using def by (cases "property_value ''WEBCONFIG_DOC_SCHEMA_VERSION'' ''WEBCONFIG_DOC_SCHEMA_VERSION='' str1") simp_all
  obtain s2 str2 where q2: "(case r2 of None \<Rightarrow> (s1, str1) | Some (v, str') \<Rightarrow> (setsupportedVersion (Some v) s1, str')) = (s2, str2)"
    by fastforce
  note def = def [unfolded p2 bind.bind_lunit q2 Let_def prod.case]
  obtain go3 s3 str3 where r3: "(if strncmp_eq str2 ?C (length ?C)
      then parse_subdoc_tokens (strtok_all '','' (case strtok '' ='' str2 of None \<Rightarrow> [] | Some (tok, rest) \<Rightarrow> rest)) s2 \<bind>
        (\<lambda>(go, s3). Some (go, s3, takeWhile (\<lambda>c. c \<notin> set '' ='') str2))
      else Some (True, s2, str2)) = Some (go3, s3, str3)"
    and r4: "(if \<not> go3 then Some (False, s3) else property_value ?D ''WEBCONFIG_SUPPLEMENTARY_DOCS='' str3 \<bind>
      (\<lambda>r4. Some (True, case r4 of None \<Rightarrow> s3 | Some (v, _) \<Rightarrow> supplementaryDocs (setsupplementaryDocs (Some v) s3)))) = Some (go, s')"
    using def by (fastforce simp only: Option.bind_eq_Some_conv split: prod.splits)
  have "meta_outer s1 = meta_outer s" using q1 by (auto simp: meta_outer_small split: option.splits)
  moreover have "meta_outer s2 = meta_outer s1" using q2 by (auto simp: meta_outer_small split: option.splits)
  moreover have "meta_outer s3 = meta_outer s2"
    using r3 by (auto dest: meta_outer_parse_tokens simp: Option.bind_eq_Some_conv split: if_splits)
  moreover have "meta_outer s' = meta_outer s3"
    using r4 by (auto simp: meta_outer_small Option.bind_eq_Some_conv split: if_splits option.splits)
  ultimately show ?thesis by simp
qed

lemma view_initWebcfgProperties: "initWebcfgProperties c s = Some s' \<Longrightarrow> thread_view s' = thread_view s"
proof -
  have "properties_lines ls s = Some s' \<Longrightarrow> meta_outer s' = meta_outer s" for ls s
    by (induction ls s rule: properties_lines.induct) (auto dest!: meta_outer_line split: option.splits prod.splits if_splits)
  then show "initWebcfgProperties c s = Some s' \<Longrightarrow> thread_view s' = thread_view s"
    by (auto simp: initWebcfgProperties_def intro: view_of_meta split: option.splits)
qed

lemma outer_initDB: "outer (snd (initDB write unpack c e s)) = outer s"
proof -
  have add: "outer (fold addToDBList es t) = outer t" for es and t :: "'a db_st_scheme"
    by (induction es arbitrary: t) (simp_all add: addToDBList_def outer_def flags_def)
  have reset: "outer (reset_db_node t) = outer t" for t :: "'a db_st_scheme"
    by (simp add: reset_db_node_def outer_def flags_def)
  have "process_webcfgdb wd obj er t = (rv, wd', er', t') \<Longrightarrow> outer t' = outer t" for wd obj er rv wd' er' and t t' :: "'a db_st_scheme"
    by (auto simp: process_webcfgdb_def add reset split: msgpack_object.splits if_splits prod.splits)
  then have "decodeData unpack b e s = (r, er, t) \<Longrightarrow> outer t = outer s" for b r er t
    by (auto simp: decodeData_def helper_convert_def Let_def
        split: if_splits option.splits prod.splits msgpack_object.splits)
  moreover have "outer (snd (generateBlob write t)) = outer t" for t :: "'a db_st_scheme"
    by (simp add: generateBlob_def outer_def flags_def)
  ultimately show ?thesis by (auto simp: initDB_def split: option.split prod.split)
qed

text \<open>A program that has just started: memory, an orderly queue (requests can come early), and
  no flag set.\<close>

definition fresh :: "'z force_st_scheme \<Rightarrow> bool" where
  "fresh s \<longleftrightarrow> mem_ok s \<and> queue_inv s \<and> g_webcfg_forcedsync_needed s = 0 \<and> g_webcfg_forcedsync_started s = 0
     \<and> g_cloud_forcesync_retry_needed s = 0 \<and> g_cloud_forcesync_retry_started s = 0"

lemma task_init_view:
  assumes "task_init env s0 = Some s"
  shows "mem_ok s = mem_ok s0" "webcfgReady s" "bootSyncInProgress s" "g_supplementarySync s = 0"
    "g_webcfg_forcedsync_needed s = g_webcfg_forcedsync_needed s0" "g_webcfg_forcedsync_started s = g_webcfg_forcedsync_started s0"
    "g_cloud_forcesync_retry_needed s = g_cloud_forcesync_retry_needed s0"
    "g_cloud_forcesync_retry_started s = g_cloud_forcesync_retry_started s0"
    "ForceSyncTransID s = ForceSyncTransID s0" "ForceSyncMsgQ s = ForceSyncMsgQ s0"
proof -
  from assms obtain s1 s2 where s: "initWebcfgProperties (te_properties env) s0 = Some s1"
    "task_initMaintenanceTimer env (snd (initDB (ae_write (te_apply env)) (ae_unpack (te_apply env)) (db_file s1)
      (ae_errno (te_apply env)) s1)) = Some s2"
    "s = (if eventFlag s2 = 0 then set_global_eventFlag s2 else s2)
       \<lparr>webcfgReady := True, bootSyncInProgress := True, g_supplementarySync := 0\<rparr>"
    by (auto simp: task_init_def split: option.splits)
  have "thread_view (if eventFlag s2 = 0 then set_global_eventFlag s2 else s2) = thread_view s2"
    by (simp add: set_global_eventFlag_def thread_view_def flags_def)
  also have "\<dots> = thread_view s0"
    using view_initWebcfgProperties [OF s(1)] sync_outer_view [OF sync_outer_initMaintenanceTimer [OF s(2)]]
      sync_outer_view [OF sync_outer_of [OF outer_initDB]] by metis
  finally have o: "thread_view (if eventFlag s2 = 0 then set_global_eventFlag s2 else s2) = thread_view s0" .
  show "mem_ok s = mem_ok s0" "webcfgReady s" "bootSyncInProgress s" "g_supplementarySync s = 0"
    "g_webcfg_forcedsync_needed s = g_webcfg_forcedsync_needed s0" "g_webcfg_forcedsync_started s = g_webcfg_forcedsync_started s0"
    "g_cloud_forcesync_retry_needed s = g_cloud_forcesync_retry_needed s0"
    "g_cloud_forcesync_retry_started s = g_cloud_forcesync_retry_started s0"
    "ForceSyncTransID s = ForceSyncTransID s0" "ForceSyncMsgQ s = ForceSyncMsgQ s0"
    using view_fields [OF o] by (simp_all add: s(3))
qed

lemma task_init_inv:
  assumes "fresh s0" "task_init env s0 = Some s"
  shows "task_inv (TBoot, task_vars0 st, s)"
  using assms(1) task_init_view [OF assms(2)]
  by (simp add: task_inv_def task_types_def task_meaning_def fresh_def task_vars0_def parked_def queue_inv_def queue_vals_def)

lemma task_boot_view:
  assumes "task_boot env st s = Some s'"
  shows "mem_ok s' = mem_ok s" "webcfgReady s' = webcfgReady s" "ForceSyncTransID s' = ForceSyncTransID s"
    "ForceSyncMsgQ s' = ForceSyncMsgQ s"
proof -
  from assms obtain s1 s2 where s: "processWebconfgSync (te_sync env 0) st None s = Some s1"
    "supplementary_syncs (te_sync env) st 1 (g_spInfo s1) (s1\<lparr>g_supplementarySync := 1\<rparr>) = Some s2"
    "s' = s2\<lparr>bootSyncInProgress := False, g_supplementarySync := 0\<rparr>"
    by (auto simp: task_boot_def split: option.splits)
  show "mem_ok s' = mem_ok s" "webcfgReady s' = webcfgReady s" "ForceSyncTransID s' = ForceSyncTransID s"
    "ForceSyncMsgQ s' = ForceSyncMsgQ s"
    using sync_outer_fields [OF sync_outer_processWebconfgSync [OF s(1)]] sync_outer_fields [OF sync_outer_supplementary [OF s(2)]]
    by (simp_all add: s(3))
qed

section \<open>Properties of the flags\<close>

text \<open>C12: while the thread waits for its time, nothing is marked as in progress: neither a boot
  nor a maintenance nor a forced sync, no supplementary sync, no document left over. So a poke
  is put off only if the transaction id of an earlier one is still set. And when a request is
  marked as needed the queue holds it.\<close>

theorem waiting_idle:
  assumes "fresh s0" "task_init env s0 = Some s1" "sys_step\<^sup>*\<^sup>* (TBoot, task_vars0 st, s1) (TWaiting (Some d), v, s)"
  shows "g_supplementarySync s = 0 \<and> \<not> bootSyncInProgress s \<and> \<not> maintenanceSyncInProgress s \<and>
    g_webcfg_forcedsync_started s = 0 \<and> g_cloud_forcesync_retry_started s = 0 \<and>
    \<not> tv_forced_sync v \<and> tv_syncDoc v = None \<and> (sync_busy s \<longleftrightarrow> ForceSyncTransID s \<noteq> []) \<and>
    (ForceSyncMsgQ s = [] \<longrightarrow> g_webcfg_forcedsync_needed s = 0 \<and> g_cloud_forcesync_retry_needed s = 0)"
proof -
  have "task_inv (TBoot, task_vars0 st, s1)" using task_init_inv [OF assms(1,2)] .
  with assms(3) have "task_inv (TWaiting (Some d), v, s)" by (induction rule: rtranclp_induct) (auto intro: sys_step_inv)
  then have t: "task_types v s" and m: "task_meaning (TWaiting (Some d)) v s" by (simp_all add: task_inv_def)
  from m have f: "\<not> bootSyncInProgress s" "\<not> maintenanceSyncInProgress s" "tv_syncDoc v = None" "\<not> tv_forced_sync v"
    "g_supplementarySync s \<noteq> 1" "g_webcfg_forcedsync_started s \<noteq> 1" "g_cloud_forcesync_retry_started s \<noteq> 1"
    by (simp_all add: task_meaning_def)
  then have z: "g_supplementarySync s = 0" "g_webcfg_forcedsync_started s = 0" "g_cloud_forcesync_retry_started s = 0"
    using t by (simp_all add: task_types_def bit_def)
  moreover have "ForceSyncMsgQ s = [] \<longrightarrow> g_webcfg_forcedsync_needed s = 0 \<and> g_cloud_forcesync_retry_needed s = 0"
    using t m f(4) by (auto simp: task_types_def task_meaning_def bit_def parked_def)
  ultimately show ?thesis using f by (simp add: sync_busy_def)
qed

section \<open>Requests are served\<close>

text \<open>One round from \<open>TDecide\<close> to \<open>TDecide\<close> without other threads: the document and the
  transaction id of the forced sync it makes; \<open>None\<close> when the thread waits instead.\<close>

definition forced_round :: "task_env \<Rightarrow> task_vars \<Rightarrow> 'z force_st_scheme \<Rightarrow>
    ((string option \<times> string) \<times> task_vars \<times> 'z force_st_scheme) option" where
  "forced_round env v s =
     (case task_step env TDecide v s of
        Some (TWoken rv, v1, s1) \<Rightarrow>
          (case task_step env (TWoken rv) v1 s1 of
             Some (TForced, v2, s2) \<Rightarrow>
               (case task_step env TForced v2 s2 of
                  Some (_, v3, s3) \<Rightarrow>
                    (case task_step env TMaintenance v3 s3 of
                       Some (_, v4, s4) \<Rightarrow> Some ((tv_syncDoc v2, g_ForceSyncTransID s2), v4, s4)
                     | None \<Rightarrow> None)
                | None \<Rightarrow> None)
           | _ \<Rightarrow> None)
      | _ \<Rightarrow> None)"

fun forced_rounds :: "nat \<Rightarrow> task_env \<Rightarrow> task_vars \<Rightarrow> 'z force_st_scheme \<Rightarrow>
    ((string option \<times> string) list \<times> task_vars \<times> 'z force_st_scheme) option" where
  "forced_rounds 0 env v s = Some ([], v, s)"
| "forced_rounds (Suc n) env v s =
     (case forced_round env v s of
        None \<Rightarrow> None
      | Some (r, v1, s1) \<Rightarrow> map_option (\<lambda>(rs, x). (r # rs, x)) (forced_rounds n env v1 s1))"

text \<open>The sync a queued request stands for.\<close>

definition request_of :: "string list \<Rightarrow> ForceSyncMsg \<Rightarrow> string option \<times> string" where
  "request_of docs m =
     (case fm_ForceSyncVal m of
        Some d \<Rightarrow> if isSupplementaryDoc_from docs d = WEBCFG_SUCCESS then Some d else None
      | None \<Rightarrow> None,
      case fm_ForceSyncTransID m of Some t \<Rightarrow> webcfgStrncpy t 128 | None \<Rightarrow> [])"

text \<open>The state without what the thread itself keeps in it: its flags, the request in the queue and
  the one taken, and the times of the next retry.\<close>

definition thread_free :: "'z force_st_scheme \<Rightarrow> 'z force_st_scheme" where
  "thread_free s = s\<lparr>g_supplementarySync := 0, g_webcfg_forcedsync_needed := 0, g_webcfg_forcedsync_started := 0,
     g_cloud_forcesync_retry_needed := 0, g_cloud_forcesync_retry_started := 0, g_retry_timer := 0, g_retry_timestamp := 0,
     g_ForceSyncTransID := [], ForceSync := [], ForceSyncTransID := [], ForceSyncMsgQ := []\<rparr>"

text \<open>Syncs and retries have no undefined behaviour as long as the documents, the database and the
  notifications satisfy \<open>Q\<close>, which they keep; \<open>Q\<close> does not look at what the thread keeps.\<close>

definition backend_ok :: "task_env \<Rightarrow> ('z force_st_scheme \<Rightarrow> bool) \<Rightarrow> bool" where
  "backend_ok env Q \<longleftrightarrow>
     (\<forall>st d t. Q (thread_free t) \<longrightarrow> (\<exists>t'. processWebconfgSync (te_sync env 0) st d t = Some t' \<and> Q (thread_free t'))) \<and>
     (\<forall>t. Q (thread_free t) \<longrightarrow> (\<exists>t'. failedDocsRetry (te_apply env) t = Some t' \<and> Q (thread_free t')))"

lemma thread_free_keeps [simp]:
  "thread_free (set_retry_timer k s) = thread_free s" "thread_free (set_global_retry_timestamp k s) = thread_free s"
  "thread_free (setForceSyncTransID t s) = thread_free s" "thread_free (started_flags s) = thread_free s"
  "thread_free (s\<lparr>g_supplementarySync := i\<rparr>) = thread_free s"
  "thread_free (s\<lparr>ForceSync := f, ForceSyncTransID := i2, g_supplementarySync := k, g_webcfg_forcedsync_started := k,
     g_cloud_forcesync_retry_started := k\<rparr>) = thread_free s"
  "thread_free (s\<lparr>g_cloud_forcesync_retry_needed := k, ForceSyncMsgQ := q\<rparr>) = thread_free s"
  by (simp_all add: thread_free_def set_retry_timer_def set_global_retry_timestamp_def setForceSyncTransID_def
      started_flags_def Let_def split: option.split)

lemma next_timeout_backend:
  assumes "backend_ok env Q" "Q (thread_free s)"
  shows "\<exists>d v' s'. next_timeout env v s = Some (d, v', s') \<and> Q (thread_free s')"
proof -
  let ?s = "set_global_retry_timestamp 0 (set_retry_timer 900 s)"
  have "Q (thread_free ?s)" using assms(2) by simp
  with assms(1) obtain t where "failedDocsRetry (te_apply env) ?s = Some t" "Q (thread_free t)" unfolding backend_ok_def by blast
  with assms(2) show ?thesis by (auto simp: next_timeout_def Let_def)
qed

lemma take_request_entry:
  assumes "fe_rbus_enabled (te_force env)" "queue_inv s" "ForceSyncMsgQ s = m # q" "g_supplementarySync s = 0" "tv_syncDoc v = None"
  obtains v' s' where "take_request env v s = (v', s')" "tv_forced_sync v'" "tv_wait_flag v'" "ForceSyncMsgQ s' = q"
    "(tv_syncDoc v', g_ForceSyncTransID s') = request_of (g_spInfo s) m" "g_shutdown s' = g_shutdown s" "g_spInfo s' = g_spInfo s"
    "q \<noteq> [] \<longrightarrow> g_cloud_forcesync_retry_needed s' = 1" "thread_free s' = thread_free s"
  using assms(1,2)
proof (cases rule: take_request_cases [of env s v])
  case (entry m' q' d s1)
  then have e: "m' = m" "q' = q" using assms(3) by simp_all
  have sd: "g_shutdown (started_flags s) = g_shutdown s" by (simp add: started_flags_def Let_def)
  have t: "g_ForceSyncTransID s1 = (case fm_ForceSyncTransID m of Some t \<Rightarrow> webcfgStrncpy t 128 | None \<Rightarrow> [])"
    "ForceSyncMsgQ s1 = q" "g_shutdown s1 = g_shutdown s" "g_spInfo s1 = g_spInfo s"
    "q \<noteq> [] \<longrightarrow> g_cloud_forcesync_retry_needed s1 = 1"
    by (simp_all add: entry(3) e setForceSyncTransID_def started_flags_fields sd split: option.split)
  have free: "thread_free s1 = thread_free s" by (simp add: entry(3))
  show thesis
  proof (cases "isSupplementaryDoc d s = WEBCFG_SUCCESS")
    case True
    with entry(4) show thesis
      by (intro that [of "v\<lparr>tv_forced_sync := True, tv_wait_flag := True, tv_syncDoc := Some d\<rparr>" "s1\<lparr>g_supplementarySync := 1\<rparr>"])
        (simp_all add: t free request_of_def entry(2) [unfolded e] isSupplementaryDoc_def)
  next
    case False
    with entry(4) assms(5) show thesis
      by (intro that [of "v\<lparr>tv_forced_sync := True, tv_wait_flag := True\<rparr>" s1])
        (simp_all add: t free request_of_def entry(2) [unfolded e] isSupplementaryDoc_def)
  qed
qed (use assms(3) in simp)

lemma forced_round_serves:
  fixes s :: "'z force_st_scheme"
  assumes "task_inv (TDecide, v, s)" "ForceSyncMsgQ s = m # q" "\<not> g_shutdown s"
    and "g_webcfg_forcedsync_needed s = 1 \<or> g_cloud_forcesync_retry_needed s = 1"
    and "fe_rbus_enabled (te_force env)" "backend_ok env Q" "Q (thread_free s)"
  obtains v' and s' :: "'z force_st_scheme" where "forced_round env v s = Some (request_of (g_spInfo s) m, v', s')"
    "task_inv (TDecide, v', s')" "ForceSyncMsgQ s' = q" "\<not> g_shutdown s'" "g_spInfo s' = g_spInfo s"
    "q \<noteq> [] \<longrightarrow> g_cloud_forcesync_retry_needed s' = 1" "Q (thread_free s')"
proof -
  from next_timeout_backend [OF assms(6,7), of v] obtain deadline v0 s1 where
    n: "next_timeout env v s = Some (deadline, v0, s1)" "Q (thread_free s1)" by blast
  have o: "sync_outer s1 = sync_outer s" using sync_outer_next_timeout [OF n(1)] .
  note f1 = sync_outer_fields [OF o]
  let ?v1 = "v0\<lparr>tv_forced_sync := True, tv_wait_flag := True\<rparr>"
  have step1: "task_step env TDecide v s = Some (TWoken 0, ?v1, s1)"
    using n(1) assms(3,4) f1 by (auto simp: task_decide_def Let_def)
  from task_inv_turn [OF step1 assms(5,1)] have inv1: "task_inv (TWoken 0, ?v1, s1)" .
  then have "queue_inv s1" "bit (g_supplementarySync s1)" "g_supplementarySync s1 \<noteq> 1" "tv_syncDoc ?v1 = None"
    by (simp_all add: task_inv_def task_types_def task_meaning_def)
  then have pre: "queue_inv s1" "g_supplementarySync s1 = 0" "tv_syncDoc ?v1 = None" by (simp_all add: bit_def)
  have q1: "ForceSyncMsgQ s1 = m # q" using f1 assms(2) by simp
  from take_request_entry [OF assms(5) pre(1) q1 pre(2,3)] obtain v2 s2 where t: "take_request env ?v1 s1 = (v2, s2)"
      "tv_forced_sync v2" "tv_wait_flag v2" "ForceSyncMsgQ s2 = q" "(tv_syncDoc v2, g_ForceSyncTransID s2) = request_of (g_spInfo s1) m"
      "g_shutdown s2 = g_shutdown s1" "g_spInfo s2 = g_spInfo s1" "q \<noteq> [] \<longrightarrow> g_cloud_forcesync_retry_needed s2 = 1"
      "thread_free s2 = thread_free s1"
    by blast
  have step2: "task_step env (TWoken 0) ?v1 s1 = Some (TForced, v2, s2)"
    using t(1) f1 assms(3) by (simp add: task_woken_def)
  from task_inv_turn [OF step2 assms(5) inv1] have inv2: "task_inv (TForced, v2, s2)" .
  have "Q (thread_free s2)" using n(2) t(9) by simp
  with assms(6) obtain s3 where sync: "processWebconfgSync (te_sync env 0) (tv_status v2) (tv_syncDoc v2) s2 = Some s3" "Q (thread_free s3)"
    unfolding backend_ok_def by blast
  have o3: "sync_outer (setForceSyncTransID (Some []) s3) = sync_outer s2"
    using sync_outer_processWebconfgSync [OF sync(1)] by (simp add: frame_simps)
  note f3 = sync_outer_fields [OF o3]
  have sp: "g_spInfo (setForceSyncTransID (Some []) s3) = g_spInfo s2" using o3 by (simp add: sync_outer_def)
  define v4 where "v4 = v2\<lparr>tv_forced_sync := False,
    tv_syncDoc := (if g_supplementarySync s3 \<noteq> 0 \<and> tv_syncDoc v2 \<noteq> None then None else tv_syncDoc v2)\<rparr>"
  define s4 where "s4 = (setForceSyncTransID (Some []) s3)\<lparr>ForceSync := [], ForceSyncTransID := [], g_supplementarySync := 0,
    g_webcfg_forcedsync_started := 0, g_cloud_forcesync_retry_started := 0\<rparr>"
  have step3: "task_step env TForced v2 s2 = Some (TMaintenance, v4, s4)"
    using t(2) sync(1) by (simp add: task_forced_def setForceSync_empty [OF assms(5)] v4_def s4_def)
  from task_inv_turn [OF step3 assms(5) inv2] have inv3: "task_inv (TMaintenance, v4, s4)" .
  have step4: "task_step env TMaintenance v4 s4 = Some (TDecide, v4, s4)"
    using t(3) by (simp add: task_maintenance_def v4_def)
  from task_inv_turn [OF step4 assms(5) inv3] have inv4: "task_inv (TDecide, v4, s4)" .
  have "forced_round env v s = Some (request_of (g_spInfo s) m, v4, s4)"
    using step1 step2 step3 step4 t(5) o by (simp add: forced_round_def sync_outer_def)
  moreover have "ForceSyncMsgQ s4 = q" "\<not> g_shutdown s4" "g_spInfo s4 = g_spInfo s" "q \<noteq> [] \<longrightarrow> g_cloud_forcesync_retry_needed s4 = 1"
    using f3 f1 sp t(4,6,7,8) assms(3) o by (simp_all add: s4_def sync_outer_def)
  moreover have "Q (thread_free s4)" using sync(2) by (simp add: s4_def)
  ultimately show thesis using that inv4 by blast
qed

lemma forced_rounds_serve:
  fixes s :: "'z force_st_scheme"
  assumes "task_inv (TDecide, v, s)" "\<not> g_shutdown s" "fe_rbus_enabled (te_force env)" "backend_ok env Q" "Q (thread_free s)"
    and "ForceSyncMsgQ s \<noteq> [] \<longrightarrow> g_webcfg_forcedsync_needed s = 1 \<or> g_cloud_forcesync_retry_needed s = 1"
  shows "\<exists>v' s'. forced_rounds (length (ForceSyncMsgQ s)) env v s = Some (map (request_of (g_spInfo s)) (ForceSyncMsgQ s), v', s') \<and>
    ForceSyncMsgQ (s' :: 'z force_st_scheme) = []"
  using assms(1,2,5,6)
proof (induction "ForceSyncMsgQ s" arbitrary: v s)
  case Nil
  then show ?case by simp
next
  case (Cons m q)
  then have q: "ForceSyncMsgQ s = m # q" by simp
  have pending: "g_webcfg_forcedsync_needed s = 1 \<or> g_cloud_forcesync_retry_needed s = 1" using Cons.prems(4) q by simp
  from forced_round_serves [OF Cons.prems(1) q Cons.prems(2) pending assms(3,4) Cons.prems(3)] obtain v1 and s1 :: "'z force_st_scheme" where r:
    "forced_round env v s = Some (request_of (g_spInfo s) m, v1, s1)" "task_inv (TDecide, v1, s1)" "ForceSyncMsgQ s1 = q"
    "\<not> g_shutdown s1" "g_spInfo s1 = g_spInfo s" "q \<noteq> [] \<longrightarrow> g_cloud_forcesync_retry_needed s1 = 1" "Q (thread_free s1)" by metis
  from Cons.hyps(1) [of s1 v1] r obtain v' and s' :: "'z force_st_scheme" where
    "forced_rounds (length q) env v1 s1 = Some (map (request_of (g_spInfo s)) q, v', s')" "ForceSyncMsgQ s' = []" by auto
  with r(1) q show ?case by auto
qed

text \<open>C5: pending requests are served at once and in order. When the thread comes to decide
  whether to wait and a request is marked as needed, it does not wait; left to itself it makes
  one forced sync for each entry of the queue, in the order of the queue, with the document
  (if it is supplementary) and the transaction id of the entry, and the queue is empty after as
  many rounds as it had entries. The state is any one reached by the program in which the
  documents satisfy some \<open>Q\<close> that keeps syncs and retries from undefined behaviour.\<close>

theorem requests_served:
  fixes s :: "'z force_st_scheme"
  assumes "fresh s0" "task_init env0 s0 = Some s1" "sys_step\<^sup>*\<^sup>* (TBoot, task_vars0 st, s1) (TDecide, v, s)"
    and "g_webcfg_forcedsync_needed s = 1 \<or> g_cloud_forcesync_retry_needed s = 1" "\<not> g_shutdown s"
    and "fe_rbus_enabled (te_force env)" "backend_ok env Q" "Q (thread_free s)"
  shows "\<exists>v' s'. forced_rounds (length (ForceSyncMsgQ s)) env v s = Some (map (request_of (g_spInfo s)) (ForceSyncMsgQ s), v', s') \<and>
    ForceSyncMsgQ s' = []"
proof -
  have "task_inv (TBoot, task_vars0 st, s1)" using task_init_inv [OF assms(1,2)] .
  with assms(3) have "task_inv (TDecide, v, s)" by (induction rule: rtranclp_induct) (auto intro: sys_step_inv)
  from forced_rounds_serve [OF this assms(5-8)] assms(4) show ?thesis by blast
qed

section \<open>Requests that are lost or put off\<close>

lemma set_rbus_ForceSync_busy:
  assumes "mem_ok s" "ForceSyncTransID s \<noteq> []" "p \<noteq> []" "set_rbus_ForceSync env (Some p) s = Some (r, s')"
  shows "fst r = 0 \<and> ForceSyncTransID s' = ForceSyncTransID s \<and> sync_signal s' = sync_signal s \<and> mem_ok s' \<and>
    (ForceSyncMsgQ s \<noteq> [] \<longrightarrow> ForceSyncMsgQ s' \<noteq> [])"
proof -
  obtain ret val tid where pj: "parseForceSyncJson env p = Some (ret, val, tid)"
    using assms(3,4) by (auto simp: set_rbus_ForceSync_def split: option.splits)
  show ?thesis
  proof (cases "ret = - 1")
    case True
    with assms pj have "r = (0, 0)" "s' = s\<lparr>ForceSync := webcfgStrncpy p 256\<rparr>" by (auto simp: set_rbus_ForceSync_def)
    with assms(1) show ?thesis by simp
  next
    case False
    let ?t = "case tid of None \<Rightarrow> fe_uuid env | Some t \<Rightarrow> t" and ?s = "s\<lparr>ForceSync := poke_value p val\<rparr>"
    have r: "request_sync ?t ?s = (r, s')" using set_rbus_ForceSync_poke [OF assms(3) pj False, of s] assms(4) by simp
    obtain st s1 where q: "queue_request ?t ?s = (st, s1)" by fastforce
    have m: "mem_ok ?s" using assms(1) by simp
    note spec = queue_request_spec [OF m q]
    obtain f1 q1 where s1: "s1 = ?s\<lparr>ForceSync := f1, ForceSyncMsgQ := q1\<rparr>" using spec(3) by blast
    have busy: "sync_busy s1" using assms(2) by (simp add: s1 sync_busy_def)
    have "fst r = 0 \<and> ForceSyncTransID s' = ForceSyncTransID s \<and> sync_signal s' = sync_signal s \<and> mem_ok s'"
      using r q spec(1) busy assms(1) by (auto simp: request_sync_def s1 split: if_splits)
    with conjunct2 [OF request_sync_effect [OF assms(1) r]] show ?thesis by blast
  qed
qed

text \<open>Pokes with a payload, one after the other.\<close>

inductive later_poke :: "'z force_st_scheme \<Rightarrow> 'z force_st_scheme \<Rightarrow> bool" where
  "set_rbus_ForceSync env (Some p) s = Some (r, s') \<Longrightarrow> p \<noteq> [] \<Longrightarrow> later_poke s s'"

lemma later_pokes_silent:
  assumes "later_poke\<^sup>*\<^sup>* s s'" "mem_ok s" "ForceSyncTransID s \<noteq> []" "\<not> sync_signal s" "ForceSyncMsgQ s \<noteq> []"
  shows "mem_ok s' \<and> ForceSyncTransID s' = ForceSyncTransID s \<and> \<not> sync_signal s' \<and> ForceSyncMsgQ s' \<noteq> []"
  using assms
proof (induction rule: rtranclp_induct)
  case (step s' s'')
  then have i: "mem_ok s'" "ForceSyncTransID s' \<noteq> []" "\<not> sync_signal s'" "ForceSyncMsgQ s' \<noteq> []"
      "ForceSyncTransID s' = ForceSyncTransID s" by simp_all
  from step.hyps(2) show ?case
  proof (cases rule: later_poke.cases)
    case (1 env p r)
    from set_rbus_ForceSync_busy [OF i(1,2) 1(2,1)] i(3-5) show ?thesis by simp
  qed
qed simp

text \<open>C19: a poke can be lost although it was accepted. When it comes between the end of a forced
  sync (or of the boot) and the wait, it is accepted and signals a condition nobody waits for
  yet; the thread then waits for its next time with the request in the queue. No later poke
  with a payload helps: since the transaction id of the first one is still set, each of them is
  put off and none signals.\<close>

theorem lost_wakeup:
  assumes "mem_ok s" "webcfgReady s" "\<not> g_shutdown s" "\<not> sync_busy s" "doc_fail_flag s = 0"
    and "g_webcfg_forcedsync_needed s = 0" "g_cloud_forcesync_retry_needed s = 0"
    and "p \<noteq> []" "parseForceSyncJson env p = Some (ret, val, Some t)" "ret \<noteq> - 1" "t \<noteq> []"
  shows "\<exists>s1 s2 d v'. set_rbus_ForceSync env (Some p) s = Some ((1, 0), s1) \<and>
    task_step tenv TDecide v s1 = Some (TWaiting (Some d), v', s2) \<and>
    (\<forall>s3. later_poke\<^sup>*\<^sup>* s2 s3 \<longrightarrow> \<not> sync_signal s3 \<and> ForceSyncMsgQ s3 \<noteq> [])"
proof -
  let ?s = "s\<lparr>ForceSync := poke_value p val\<rparr>"
  obtain st s0 where q: "queue_request t ?s = (st, s0)" by fastforce
  have m: "mem_ok ?s" using assms(1) by simp
  note spec = queue_request_spec [OF m q]
  obtain f1 q1 where s0: "s0 = ?s\<lparr>ForceSync := f1, ForceSyncMsgQ := q1\<rparr>" using spec(3) by blast
  have "queue_vals s0 \<noteq> []" unfolding spec(2) by (rule queued_vals_nonempty)
  then have q1: "q1 \<noteq> []" by (auto simp: s0 queue_vals_def)
  let ?s1 = "s\<lparr>ForceSync := f1, ForceSyncTransID := webcfgStrncpy t 256, ForceSyncMsgQ := q1, sync_signal := True\<rparr>"
  have "\<not> sync_busy s0" "webcfgReady s0" using assms(2,4) by (simp_all add: s0 sync_busy_def)
  with q spec(1) assms(11) have "request_sync t ?s = ((1, 0), ?s1)" by (simp add: request_sync_def s0)
  with set_rbus_ForceSync_poke [OF assms(8,9,10), of s] have accepted: "set_rbus_ForceSync env (Some p) s = Some ((1, 0), ?s1)" by simp
  let ?v = "v\<lparr>tv_maintenance_doc_sync := 1\<rparr>" and ?s2 = "?s1\<lparr>maintenanceSyncInProgress := False, sync_signal := False\<rparr>"
  have waits: "\<exists>d. task_step tenv TDecide v ?s1 = Some (TWaiting (Some d), ?v, ?s2)"
    using assms(3,5,6,7) by (simp add: task_decide_def next_timeout_def Let_def)
  have "mem_ok ?s2" "ForceSyncTransID ?s2 \<noteq> []" "\<not> sync_signal ?s2" "ForceSyncMsgQ ?s2 \<noteq> []"
    using assms(1,11) q1 by (simp_all add: webcfgStrncpy_def fit_def)
  from later_pokes_silent [OF _ this] accepted waits show ?thesis by blast
qed

text \<open>The maintenance window takes the first request of the queue and drops it. The flags
  of the thread do not remember it: if it was the only one, the queue is empty, no forced sync
  is due, and the thread waits for its next time.\<close>

theorem maintenance_drops_request:
  assumes "task_step env TMaintenance v s = Some (pc, v', s')" "\<not> tv_wait_flag v" "tv_maintenance_doc_sync v = 1" "\<not> tv_forced_sync v"
    and "g_maintenance_time s \<le> getTimeInSeconds (ae_tz (te_apply env)) (ae_now (te_apply env) + te_offset env)"
    and "fe_rbus_enabled (te_force env)" "ForceSyncMsgQ s = m # q"
  shows "ForceSyncMsgQ s' = q \<and> \<not> tv_forced_sync v' \<and>
    (q = [] \<and> \<not> g_shutdown s \<and> g_webcfg_forcedsync_needed s \<noteq> 1 \<and> g_cloud_forcesync_retry_needed s \<noteq> 1 \<and> doc_fail_flag s' = 0 \<longrightarrow>
      (\<exists>d v'' s''. task_step env TDecide v' s' = Some (TWaiting (Some d), v'', s'') \<and> ForceSyncMsgQ s'' = []))"
proof -
  let ?s0 = "s\<lparr>g_supplementarySync := 1, maintenanceSyncInProgress := True\<rparr>"
  have "task_maintenance env v s = Some (v', s')" using assms(1) by auto
  then have "maintenance_sync env v (s\<lparr>g_supplementarySync := 1\<rparr>) = Some s'"
    and v': "v' = v\<lparr>tv_maintenance_doc_sync := 0, tv_maintenance_count := 1\<rparr>"
    using assms(2,3,5) by (auto simp: task_maintenance_def checkMaintenanceTimer_def Let_def)
  from maintenance_sync_effect [OF this(1) assms(6)] obtain s2 where s: "sync_outer s2 = sync_outer (snd (getForceSync (te_force env) ?s0))"
    "s' = s2\<lparr>g_supplementarySync := 0\<rparr>" by metis
  have g: "snd (getForceSync (te_force env) ?s0) =
      ?s0\<lparr>g_cloud_forcesync_retry_needed := (if q = [] then g_cloud_forcesync_retry_needed s else 1), ForceSyncMsgQ := q\<rparr>"
    using assms(6,7) by (cases rule: getForceSync_cases [OF assms(6), of ?s0]) simp_all
  note f = sync_outer_fields [OF s(1) [unfolded g]]
  have r: "ForceSyncMsgQ s' = q" "g_shutdown s' = g_shutdown s" "g_webcfg_forcedsync_needed s' = g_webcfg_forcedsync_needed s"
    "g_cloud_forcesync_retry_needed s' = (if q = [] then g_cloud_forcesync_retry_needed s else 1)"
    using f by (simp_all add: s(2))
  have "\<exists>d v'' s''. task_step env TDecide v' s' = Some (TWaiting (Some d), v'', s'') \<and> ForceSyncMsgQ s'' = []"
    if "q = []" "\<not> g_shutdown s" "g_webcfg_forcedsync_needed s \<noteq> 1" "g_cloud_forcesync_retry_needed s \<noteq> 1" "doc_fail_flag s' = 0"
  proof -
    have "\<exists>d. task_step env TDecide v' s' = Some (TWaiting (Some d), v'\<lparr>tv_maintenance_doc_sync := 1\<rparr>,
        s'\<lparr>maintenanceSyncInProgress := False, sync_signal := False\<rparr>)"
      using that r by (simp add: task_decide_def next_timeout_def Let_def)
    moreover have "ForceSyncMsgQ (s'\<lparr>maintenanceSyncInProgress := False, sync_signal := False\<rparr>) = []" using r that(1) by simp
    ultimately show ?thesis by blast
  qed
  with r(1) v' assms(4) show ?thesis by auto
qed

lemma task_shutdown_fields:
  "mem_ok (task_shutdown s) = mem_ok s" "ForceSyncTransID (task_shutdown s) = ForceSyncTransID s"
  "ForceSyncMsgQ (task_shutdown s) = []" "sync_signal (task_shutdown s) = sync_signal s"
  "g_webcfg_forcedsync_needed (task_shutdown s) = 0" "g_webcfg_forcedsync_started (task_shutdown s) = 0"
  "g_cloud_forcesync_retry_needed (task_shutdown s) = 0" "g_cloud_forcesync_retry_started (task_shutdown s) = 0"
  by (simp_all add: task_shutdown_def Let_def deleteForceSyncMsgQueue_def delete_supplementary_list_def delete_multipart_def
      reset_db_node_def delete_tmp_list_def set_retry_timer_def set_global_retry_timestamp_def set_global_maintenance_time_def
      reset_successDocCount_def reset_numOfMpDocs_def set_doc_fail_def reset_global_eventFlag_def)

text \<open>Shutdown leaves one thing behind, the transaction id of a poke that was accepted
  and not served any more. After the next start, whatever the boot does, every poke is answered
  \<open>in progress\<close> and signals nothing; apart from it the program starts afresh.\<close>

theorem restart_refuses_pokes:
  assumes "mem_ok s" "ForceSyncTransID s \<noteq> []" "task_init tenv (task_shutdown s) = Some s1" "task_boot tenv st s1 = Some s2"
    and "p \<noteq> []" "parseForceSyncJson env p = Some (ret, val, tid)" "ret \<noteq> - 1"
  shows "fresh (task_shutdown s) \<and> (\<exists>s3. set_rbus_ForceSync env (Some p) s2 = Some ((0, 1), s3) \<and> sync_signal s3 = sync_signal s2)"
proof -
  have fresh: "fresh (task_shutdown s)" using assms(1) by (simp add: fresh_def task_shutdown_fields queue_inv_def queue_vals_def)
  from task_init_view [OF assms(3)] have i: "ForceSyncTransID s1 = ForceSyncTransID s" "webcfgReady s1" "mem_ok s1"
    using assms(1) by (simp_all add: task_shutdown_fields)
  from task_boot_view [OF assms(4)] i have b: "ForceSyncTransID s2 \<noteq> []" "webcfgReady s2" "mem_ok s2" using assms(2) by simp_all
  let ?t = "case tid of None \<Rightarrow> fe_uuid env | Some t \<Rightarrow> t" and ?s = "s2\<lparr>ForceSync := poke_value p val\<rparr>"
  obtain st' s0 where q: "queue_request ?t ?s = (st', s0)" by fastforce
  have m: "mem_ok ?s" using b(3) by simp
  note spec = queue_request_spec [OF m q]
  obtain f1 q1 where s0: "s0 = ?s\<lparr>ForceSync := f1, ForceSyncMsgQ := q1\<rparr>" using spec(3) by blast
  have "sync_busy s0" "webcfgReady s0" using b by (simp_all add: s0 sync_busy_def)
  then have "request_sync ?t ?s = ((0, 1), s0\<lparr>g_cloud_forcesync_retry_needed := 1\<rparr>)" using q spec(1) by (simp add: request_sync_def)
  then have "set_rbus_ForceSync env (Some p) s2 = Some ((0, 1), s0\<lparr>g_cloud_forcesync_retry_needed := 1\<rparr>)"
    using set_rbus_ForceSync_poke [OF assms(5,6,7), of s2] by simp
  moreover have "sync_signal (s0\<lparr>g_cloud_forcesync_retry_needed := 1\<rparr>) = sync_signal s2" by (simp add: s0)
  ultimately show ?thesis using fresh by blast
qed

section \<open>A cloud that answers\<close>

text \<open>Every request is made and gets an answer without documents: any code that is final or
  leads to a retry. There are no URLs for supplementary documents. No document is in progress.\<close>

definition online :: "(nat \<Rightarrow> device_env \<times> curl_reply) \<Rightarrow> bool" where
  "online io \<longleftrightarrow> (\<forall>n. round_ready (io n) \<and> (\<forall>d. de_supplementary_url (fst (io n)) d = ''NULL'') \<and>
     (retry_code (fst (io n)) (cr_code (snd (io n))) \<or> final_code (fst (io n)) (cr_code (snd (io n)))))"

definition docs_idle :: "'z http_st_scheme \<Rightarrow> bool" where
  "docs_idle s \<longleftrightarrow> apply_inv s \<and> lists_short MAX_LBUFF_SIZE (webcfgdb_data s) \<and> g_head s = []"

lemma docs_idle_free: "docs_idle (thread_free s) = docs_idle s"
  by (simp add: docs_idle_def thread_free_def apply_inv_def tmp_inv_def db_inv_def)

lemma docs_idle_notify: "docs_idle (addWebConfgNotifyMsg a b c d e f g h i j s) = docs_idle s"
  by (simp add: docs_idle_def keeps notify_same)

lemma request_supplementary_null:
  assumes "docs_idle s" "g_supplementarySync s \<noteq> 0" "\<forall>d. de_supplementary_url env d = ''NULL''"
  obtains uuid s' where "webcfg_http_request env reply rc status docname v s = Some ((False, 0, uuid, v), s')"
    "docs_idle s'" "g_supplementarySync s' \<noteq> 0"
proof (cases "cr_init reply")
  case False
  with that [of None s] assms(1,2) show thesis by (simp add: webcfg_http_request_def)
next
  case True
  have mem: "mem_ok s" using assms(1) by (simp add: docs_idle_def apply_inv_def)
  from schema_headers_total [OF mem] obtain h3 s3 where h3: "schema_headers s = Some (h3, s3)" by blast
  obtain h4 s4 where h4: "device_headers env status s3 = (h4, s4)" by (cases "device_headers env status s3")
  obtain h5 s5 where h5: "product_headers env s4 = (h5, s5)" by (cases "product_headers env s4")
  obtain h6 s6 where h6: "telemetry_headers env s5 = (h6, s6)" by (cases "telemetry_headers env s5")
  have same: "head_same s s6" using schema_headers_frame [OF h3] headers_frame(1) [OF h4] headers_frame(2) [OF h5] headers_frame(3) [OF h6]
    by (blast intro: head_same_trans)
  obtain hs uuid where c: "createCurlHeader env status s = Some ((hs, uuid), s6)"
    using h3 h4 h5 h6 assms(2) by (simp add: createCurlHeader_def version_headers_def Let_def)
  have "docs_idle s6" "g_supplementarySync s6 \<noteq> 0"
    using same assms(1,2) by (simp_all add: head_same_def sync_same_def docs_idle_def apply_inv_def tmp_inv_def db_inv_def)
  moreover have "config_url env docname s6 = None"
    using assms(3) calculation(2) by (simp add: config_url_def split: option.split)
  ultimately show thesis using that c True mem by (simp add: webcfg_http_request_def)
qed

lemma online_sync:
  fixes s :: "'z http_st_scheme"
  assumes "online io" "docs_idle s"
  shows "\<exists>s'. processWebconfgSync io status docname s = Some s' \<and> docs_idle s'"
proof -
  have "\<exists>s'. sync_rounds io status docname n v s = Some s' \<and> docs_idle s'" if "docs_idle s" for n v and s :: "'z http_st_scheme"
    using that
  proof (induction "4 - n" arbitrary: n s rule: less_induct)
    case less
    show ?case
    proof (cases "3 < n")
      case True
      then show ?thesis using less.prems by (simp add: sync_rounds.simps [of _ _ _ n])
    next
      case False
      then have "4 - Suc n < 4 - n" by simp
      note ih = less.hyps [OF this]
      obtain env reply where io: "io n = (env, reply)" by (cases "io n")
      have e: "round_ready (env, reply)" "\<forall>d. de_supplementary_url env d = ''NULL''"
        "retry_code env (cr_code reply) \<or> final_code env (cr_code reply)"
        using assms(1) io by (auto simp: online_def dest: spec [of _ n])
      show ?thesis
      proof (cases "g_supplementarySync s = 0")
        case True
        have code: "cr_code reply \<noteq> 200" using e(3) by (auto simp: retry_code_def final_code_def first_digit_def lead_digit.simps)
        obtain u where u: "request_url env (de_url env) = Some u" using e(1) by (auto simp: round_ready_def)
        have r: "cr_init reply" "de_url env \<noteq> []" "\<not> (cr_ok reply \<and> cr_code reply = 200)" using e(1) code by (simp_all add: round_ready_def)
        have p: "apply_inv s" "lists_short MAX_LBUFF_SIZE (webcfgdb_data s)" "g_head s = []" using less.prems by (simp_all add: docs_idle_def)
        from request_primary [OF p(1) True p(2) r(1,2) u r(3), of n status docname v] obtain uuid and s1 :: "'z http_st_scheme" where
          s1: "webcfg_http_request env reply n status docname v s = Some ((True, cr_code reply, Some uuid, v), s1)" "sync_same s s1"
          "apply_inv s1" "lists_short MAX_LBUFF_SIZE (webcfgdb_data s1)" by metis
        then have i: "docs_idle s1" "db_inv s1" using p(3) by (simp_all add: docs_idle_def sync_same_def apply_inv_def)
        obtain rv s2 where h: "handlehttpResponse env (cr_code reply) n (Some uuid) v s1 = Some (rv, s2)" "docs_idle s2"
          using e(3)
        proof
          assume "retry_code env (cr_code reply)"
          from handle_retry [OF i(2) this, of n "Some uuid" v] obtain x y where "handlehttpResponse env (cr_code reply) n (Some uuid) v s1 =
            Some (0, if n = 3 \<and> cr_code reply \<noteq> 403 then addWebConfgNotifyMsg None x None None (Some uuid) 0 (Some ''status'') 0 y (cr_code reply) s1 else s1)"
            by blast
          then show thesis by (rule that) (simp add: i(1) docs_idle_notify)
        next
          assume "final_code env (cr_code reply)"
          from handle_final [OF i(2) this, of n "Some uuid" v] obtain x y where "handlehttpResponse env (cr_code reply) n (Some uuid) v s1 =
            Some (1, addWebConfgNotifyMsg None x None None (Some uuid) 0 (Some ''status'') 0 y (cr_code reply) s1)" by blast
          then show thesis by (rule that) (simp add: i(1) docs_idle_notify)
        qed
        from ih [OF h(2)] False s1(1) h show ?thesis by (subst sync_rounds.simps) (simp add: io)
      next
        case False2: False
        from request_supplementary_null [OF less.prems False2 e(2)] obtain uuid s1 where
          s1: "webcfg_http_request env reply n status docname v s = Some ((False, 0, uuid, v), s1)" "docs_idle s1" by metis
        from ih [OF s1(2)] False s1(1) show ?thesis by (subst sync_rounds.simps) (simp add: io)
      qed
    qed
  qed
  with assms(2) show ?thesis by (simp add: processWebconfgSync_def)
qed

lemma online_backend: "online (te_sync env 0) \<Longrightarrow> backend_ok env docs_idle"
proof -
  assume o: "online (te_sync env 0)"
  have "failedDocsRetry (te_apply env) t = Some t" if "docs_idle t" for t
    using that by (simp add: failedDocsRetry_def docs_idle_def)
  with online_sync [OF o] show ?thesis unfolding backend_ok_def docs_idle_free by blast
qed

section \<open>A concrete device\<close>

definition demo_task :: task_env where
  "demo_task = \<lparr>te_sync = (\<lambda>_ _. (demo_device, (demo_reply 0)\<lparr>cr_init := False\<rparr>)), te_force = demo_force,
     te_apply = demo_env\<lparr>ae_unpack := \<lambda>_. None\<rparr>, te_offset = 0, te_upgrade_start = None, te_upgrade_end = None,
     te_random_key = 7, te_properties = None\<rparr>"

lemma demo_sync: "processWebconfgSync (te_sync demo_task k) st d s = Some s"
proof -
  have r: "sync_rounds (te_sync demo_task k) st d n v s = sync_rounds (te_sync demo_task k) st d (Suc n) v s" if "\<not> 3 < n" for n v
    using that by (subst sync_rounds.simps) (simp add: demo_task_def webcfg_http_request_def)
  have e: "sync_rounds (te_sync demo_task k) st d 4 v s = Some s" for v by (simp add: sync_rounds.simps)
  show ?thesis using r [of 0] r [of 1] r [of 2] r [of 3] e by (simp add: processWebconfgSync_def numeral_eq_Suc)
qed

lemma demo_supplementary: "supplementary_syncs (te_sync demo_task) st k ds s = Some s"
  by (induction ds arbitrary: k) (simp_all add: demo_sync)

text \<open>From the start to the first wait, and on to a request made by the program.\<close>

definition demo_start :: "force_st \<Rightarrow> force_st" where
  "demo_start s = (set_global_eventFlag (set_global_maintenance_time 3607 s))
     \<lparr>webcfgReady := True, bootSyncInProgress := True, g_supplementarySync := 0\<rparr>"

lemma demo_init: "eventFlag s = 0 \<Longrightarrow> db_file s = None \<Longrightarrow> task_init demo_task s = Some (demo_start s)"
  by (simp add: task_init_def initWebcfgProperties_def demo_task_def initDB_def task_initMaintenanceTimer_def initMaintenanceTimer_def
      maintenance_window_def MIN_MAINTENANCE_TIME_def MAX_MAINTENANCE_TIME_def c_rem_def Let_def demo_start_def
      set_global_maintenance_time_def)

lemma http_st0_flags [simp]:
  "g_webcfg_forcedsync_needed http_st0 = 0" "g_cloud_forcesync_retry_needed http_st0 = 0"
  "g_webcfg_forcedsync_started http_st0 = 0" "g_cloud_forcesync_retry_started http_st0 = 0"
  "bootSyncInProgress http_st0 = False" "maintenanceSyncInProgress http_st0 = False"
  by (simp_all add: http_st0_def ev_st.defs ev_st0_def db_st.defs db_st0_defs)

lemma demo_files: "eventFlag force_st0 = 0" "db_file force_st0 = None" "g_spInfo force_st0 = []" "doc_fail_flag force_st0 = 0"
  "g_shutdown force_st0 = False" "g_webcfg_forcedsync_needed force_st0 = 0" "g_cloud_forcesync_retry_needed force_st0 = 0"
  "g_webcfg_forcedsync_started force_st0 = 0" "g_cloud_forcesync_retry_started force_st0 = 0"
  "bootSyncInProgress force_st0 = False" "maintenanceSyncInProgress force_st0 = False" "g_maintenance_time force_st0 = 0"
  "g_supplementarySync force_st0 = 0"
  by (simp_all add: force_st0_def http_st.defs http_st0_def ev_st.defs ev_st0_def db_st.defs db_st0_defs)

lemma demo_fresh: "fresh force_st0"
  by (simp add: fresh_def demo_files queue_inv_def queue_vals_def)

definition demo_idle :: force_st where
  "demo_idle = (demo_start force_st0)\<lparr>bootSyncInProgress := False, g_supplementarySync := 0\<rparr>"

lemma demo_idle_simps [simp]:
  "mem_ok demo_idle" "ForceSyncMsgQ demo_idle = []" "ForceSyncTransID demo_idle = []" "webcfgReady demo_idle"
  "g_shutdown demo_idle = False" "doc_fail_flag demo_idle = 0" "g_spInfo demo_idle = []"
  "g_webcfg_forcedsync_needed demo_idle = 0" "g_cloud_forcesync_retry_needed demo_idle = 0"
  "sync_busy demo_idle = False"
  by (simp_all add: demo_idle_def demo_start_def set_global_eventFlag_def set_global_maintenance_time_def demo_files sync_busy_def)

lemma demo_rbus [simp]: "te_force demo_task = demo_force" "fe_rbus_enabled demo_force"
  by (simp_all add: demo_task_def demo_force_def)

lemma demo_rbus_task: "fe_rbus_enabled (te_force demo_task)"
  by simp

lemma demo_to_decide: "sys_step\<^sup>*\<^sup>* (TBoot, task_vars0 0, demo_start force_st0) (TDecide, task_vars0 0, demo_idle)"
proof -
  have "task_step demo_task TBoot (task_vars0 0) (demo_start force_st0) = Some (TForced, task_vars0 0, demo_idle)"
    by (simp add: task_boot_def demo_sync demo_supplementary demo_idle_def)
  moreover have "task_step demo_task TForced (task_vars0 0) demo_idle = Some (TMaintenance, task_vars0 0, demo_idle)"
    "task_step demo_task TMaintenance (task_vars0 0) demo_idle = Some (TDecide, task_vars0 0, demo_idle)"
    by (simp_all add: task_forced_def task_maintenance_def task_vars0_def)
  ultimately have "sys_step (TBoot, task_vars0 0, demo_start force_st0) (TForced, task_vars0 0, demo_idle)"
    "sys_step (TForced, task_vars0 0, demo_idle) (TMaintenance, task_vars0 0, demo_idle)"
    "sys_step (TMaintenance, task_vars0 0, demo_idle) (TDecide, task_vars0 0, demo_idle)"
    using demo_rbus_task by (metis sys_step.turn)+
  then show ?thesis by (meson converse_rtranclp_into_rtranclp r_into_rtranclp)
qed

lemma demo_decide: "\<exists>d. task_step demo_task TDecide v (demo_idle\<lparr>sync_signal := b\<rparr>) =
   Some (TWaiting (Some d), v\<lparr>tv_maintenance_doc_sync := 1\<rparr>, demo_idle\<lparr>maintenanceSyncInProgress := False, sync_signal := False\<rparr>)"
  by (simp add: task_decide_def next_timeout_def Let_def)

theorem waiting_idle_witness:
  "\<exists>d v s. sys_step\<^sup>*\<^sup>* (TBoot, task_vars0 0, demo_start force_st0) (TWaiting (Some d), v, s) \<and> \<not> sync_busy s \<and> \<not> tv_forced_sync v"
proof -
  let ?v = "(task_vars0 0)\<lparr>tv_maintenance_doc_sync := 1\<rparr>" and ?s = "demo_idle\<lparr>maintenanceSyncInProgress := False, sync_signal := False\<rparr>"
  have "demo_idle\<lparr>sync_signal := sync_signal demo_idle\<rparr> = demo_idle" by simp
  then obtain d where "task_step demo_task TDecide (task_vars0 0) demo_idle = Some (TWaiting (Some d), ?v, ?s)"
    using demo_decide [of "task_vars0 0" "sync_signal demo_idle"] by metis
  then have "sys_step (TDecide, task_vars0 0, demo_idle) (TWaiting (Some d), ?v, ?s)" by (rule sys_step.turn) simp
  with demo_to_decide have run: "sys_step\<^sup>*\<^sup>* (TBoot, task_vars0 0, demo_start force_st0) (TWaiting (Some d), ?v, ?s)"
    by (rule rtranclp.rtrancl_into_rtrancl)
  from waiting_idle [OF demo_fresh demo_init [OF demo_files(1,2)] run] have "\<not> tv_forced_sync ?v" "sync_busy ?s \<longleftrightarrow> ForceSyncTransID ?s \<noteq> []"
    by blast+
  moreover have "ForceSyncTransID ?s = []" by simp
  ultimately show ?thesis using run by blast
qed

text \<open>A device that reaches the cloud, which answers 304.\<close>

definition demo_online :: task_env where
  "demo_online = demo_task\<lparr>te_sync := \<lambda>_ _. (demo_device, demo_reply 304)\<rparr>"

lemma demo_online_rbus: "fe_rbus_enabled (te_force demo_online)"
  by (simp add: demo_online_def)

lemma demo_online_backend: "backend_ok demo_online docs_idle"
proof (rule online_backend)
  have "final_code demo_device 304" by (simp add: final_code_def)
  then show "online (te_sync demo_online 0)" using demo_ready(1)
    by (simp add: online_def demo_online_def demo_reply_def demo_device_def)
qed

lemma demo_idle_docs: "docs_idle demo_idle"
  by (simp add: docs_idle_def demo_idle_def demo_start_def set_global_eventFlag_def set_global_maintenance_time_def apply_inv_def
      tmp_inv_def db_inv_def db_names_def force_st0_def http_st.defs http_st0_def ev_st.defs ev_st0_def db_st.defs db_st0_defs
      lists_short_def root_string_length_def doc_versions_def name_text_def doc_names_def MAX_LBUFF_SIZE_def other_docs_def)

lemma docs_idle_request: "trigger_webcfg_forcedsync env s = Some s' \<Longrightarrow> docs_idle s \<Longrightarrow> docs_idle s'"
proof -
  assume t: "trigger_webcfg_forcedsync env s = Some s'" and d: "docs_idle s"
  let ?s = "s\<lparr>g_webcfg_forcedsync_needed := 1\<rparr>"
  from t obtain x where "set_rbus_ForceSync env (Some ''root'') ?s = Some (x, s')" by (auto simp: trigger_webcfg_forcedsync_def)
  then have "request_effect ?s s'" using d by (intro set_rbus_ForceSync_effect) (simp_all add: docs_idle_def apply_inv_def)
  then show ?thesis using d by (auto simp: request_effect_def docs_idle_def apply_inv_def tmp_inv_def db_inv_def)
qed

theorem requests_served_witness:
  "\<exists>s v' s'. trigger_webcfg_forcedsync demo_force demo_idle = Some s \<and>
    forced_rounds 1 demo_online (task_vars0 0) s = Some ([(None, ''u'')], v', s') \<and> ForceSyncMsgQ s' = []"
proof -
  let ?m = "\<lparr>fm_ForceSyncVal = Some ''root'', fm_ForceSyncTransID = Some ''u''\<rparr>"
  have j: "fe_json demo_force ''root'' = None" by (simp add: demo_force_def)
  have pv: "poke_value ''root'' None = ''root''" by (simp add: poke_value_def webcfgStrncpy_def fit_def)
  have busy: "\<not> sync_busy (demo_idle\<lparr>g_webcfg_forcedsync_needed := 1, ForceSync := ''root'', ForceSyncMsgQ := [?m]\<rparr>)"
    using demo_idle_simps(10) by (simp add: sync_busy_def)
  obtain s where s: "trigger_webcfg_forcedsync demo_force demo_idle = Some s" "ForceSyncMsgQ s = [?m]"
    "g_webcfg_forcedsync_needed s = 1" "\<not> g_shutdown s" "g_spInfo s = []"
    using set_rbus_ForceSync_poke [OF _ demo_parse(1), of "demo_idle\<lparr>g_webcfg_forcedsync_needed := 1\<rparr>"] busy
    by (simp add: trigger_webcfg_forcedsync_def pv request_sync_def queue_request_def updateForceSyncMsgQueue_def
        addForceSyncMsgToQueue_def force_enqueue_def demo_force_def)
  have "sys_step (TDecide, task_vars0 0, demo_idle) (TDecide, task_vars0 0, s)" using s(1) j by (rule sys_step.internal)
  with demo_to_decide have run: "sys_step\<^sup>*\<^sup>* (TBoot, task_vars0 0, demo_start force_st0) (TDecide, task_vars0 0, s)"
    by (rule rtranclp.rtrancl_into_rtrancl)
  have free: "docs_idle (thread_free s)" using docs_idle_request [OF s(1)] demo_idle_docs by (simp add: docs_idle_free)
  from requests_served [OF demo_fresh demo_init [OF demo_files(1,2)] run _ s(4) demo_online_rbus demo_online_backend free] s obtain v' s' where
    "forced_rounds 1 demo_online (task_vars0 0) s = Some ([request_of [] ?m], v', s')" "ForceSyncMsgQ s' = []" by auto
  moreover have "request_of [] ?m = (None, ''u'')" by (simp add: request_of_def webcfgStrncpy_def fit_def)
  ultimately show ?thesis using s(1) by auto
qed

theorem lost_wakeup_witness:
  "\<exists>s1 s2 d v'. set_rbus_ForceSync demo_force (Some ''{}'') demo_idle = Some ((1, 0), s1) \<and>
    task_step demo_task TDecide (task_vars0 0) s1 = Some (TWaiting (Some d), v', s2) \<and> \<not> sync_signal s2"
  using lost_wakeup [of demo_idle "''{}''" demo_force 0 "Some ''telemetry''" "''t1''" demo_task "task_vars0 0"] demo_parse(2) by auto

theorem maintenance_drops_request_witness:
  "\<exists>v' s'. task_step demo_task TMaintenance ((task_vars0 0)\<lparr>tv_wait_flag := False, tv_maintenance_doc_sync := 1\<rparr>)
      (force_st0\<lparr>ForceSyncMsgQ := [\<lparr>fm_ForceSyncVal = Some ''root'', fm_ForceSyncTransID = Some ''u''\<rparr>]\<rparr>) = Some (TDecide, v', s') \<and>
    ForceSyncMsgQ s' = []"
proof -
  let ?m = "\<lparr>fm_ForceSyncVal = Some ''root'', fm_ForceSyncTransID = Some ''u''\<rparr>"
  let ?v = "(task_vars0 0)\<lparr>tv_wait_flag := False, tv_maintenance_doc_sync := 1\<rparr>" and ?s = "force_st0\<lparr>ForceSyncMsgQ := [?m]\<rparr>"
  have time: "g_maintenance_time ?s \<le> getTimeInSeconds (ae_tz (te_apply demo_task)) (ae_now (te_apply demo_task) + te_offset demo_task)"
    using getTimeInSeconds_range by (simp add: demo_files)
  have init: "task_initMaintenanceTimer demo_task t \<noteq> None" for t :: force_st
    by (simp add: task_initMaintenanceTimer_def initMaintenanceTimer_def demo_task_def maintenance_window_def
        MIN_MAINTENANCE_TIME_def MAX_MAINTENANCE_TIME_def c_rem_def Let_def)
  have "task_step demo_task TMaintenance ?v ?s \<noteq> None"
    using time init by (simp add: task_maintenance_def checkMaintenanceTimer_def Let_def task_vars0_def maintenance_sync_def
        getForceSync_def get_rbus_ForceSync_def force_dequeue_def demo_supplementary demo_force_def)
  then obtain v' s' where r: "task_step demo_task TMaintenance ?v ?s = Some (TDecide, v', s')" by auto
  from maintenance_drops_request [OF r _ _ _ time, of ?m "[]"] r show ?thesis by (simp add: task_vars0_def demo_force_def)
qed

theorem restart_refuses_pokes_witness:
  "\<exists>s1 s2 s3. task_init demo_task (task_shutdown (force_st0\<lparr>ForceSyncTransID := ''t''\<rparr>)) = Some s1 \<and>
    task_boot demo_task 0 s1 = Some s2 \<and> set_rbus_ForceSync demo_force (Some ''{}'') s2 = Some ((0, 1), s3)"
proof -
  let ?s = "task_shutdown (force_st0\<lparr>ForceSyncTransID := ''t''\<rparr>)"
  have "eventFlag ?s = 0" "db_file ?s = None"
    by (simp_all add: task_shutdown_def Let_def deleteForceSyncMsgQueue_def delete_supplementary_list_def delete_multipart_def
      reset_db_node_def delete_tmp_list_def set_retry_timer_def set_global_retry_timestamp_def set_global_maintenance_time_def
      reset_successDocCount_def reset_numOfMpDocs_def set_doc_fail_def reset_global_eventFlag_def demo_files)
  from demo_init [OF this] have i: "task_init demo_task ?s = Some (demo_start ?s)" .
  obtain s2 where b: "task_boot demo_task 0 (demo_start ?s) = Some s2" by (simp add: task_boot_def demo_sync demo_supplementary)
  from restart_refuses_pokes [OF _ _ i b _ demo_parse(2)] i b show ?thesis by auto
qed

end
