(* ===== verification/Rbus.thy ===== *)
theory Rbus
  imports Task
begin

text \<open>
  The data model of webconfig on rbus: the set and get handlers of its parameters, the method
  that fetches a cached document and the reset of documents by force
  (\<open>src/src/webcfg_rbus.c\<close>). The bus and the parameter store of the platform are parameters:
  what their calls return is a field of the environment, what the program asks of them is an
  output of its state.
\<close>

section \<open>The bus\<close>

text \<open>\<open>RBUS_CODE\<close> stands for any other value of \<open>rbusError_t\<close>.\<close>

datatype rbusError =
    RBUS_ERROR_SUCCESS | RBUS_ERROR_BUS_ERROR | RBUS_ERROR_INVALID_INPUT | RBUS_ERROR_NOT_INITIALIZED
  | RBUS_ERROR_OUT_OF_RESOURCES | RBUS_ERROR_DESTINATION_NOT_FOUND | RBUS_ERROR_DESTINATION_NOT_REACHABLE
  | RBUS_ERROR_DESTINATION_RESPONSE_FAILURE | RBUS_ERROR_INVALID_RESPONSE_FROM_DESTINATION
  | RBUS_ERROR_INVALID_OPERATION | RBUS_ERROR_INVALID_EVENT | RBUS_ERROR_INVALID_HANDLE
  | RBUS_ERROR_SESSION_ALREADY_EXIST | RBUS_ERROR_ELEMENT_DOES_NOT_EXIST | RBUS_ERROR_ACCESS_NOT_ALLOWED
  | RBUS_CODE int

text \<open>A value on the bus: its type and content as far as the handlers look at them. The
  conversion \<open>rbusValue_ToString\<close> of a string allocates a copy.\<close>

datatype rbusValue = RV_BOOLEAN bool | RV_STRING string | RV_UINT8 u8 | RV_UINT32 u32 | RV_BYTES string | RV_OTHER

record rbusProperty =
  rp_key :: "string option"
  rp_val :: "rbusValue option"

text \<open>The answers of the bus and of the store to the calls of a handler: whether rbus is
  enabled is \<open>fe_rbus_enabled\<close>; \<open>re_get\<close> is the result of \<open>rbus_GetValueFromDB\<close> with the
  pointer it leaves, \<open>re_store\<close> that of \<open>rbus_StoreValueIntoDB\<close>, \<open>re_publish\<close> that of
  \<open>rbusEvent_Publish\<close>; \<open>re_time\<close> is the result of \<open>time\<close>.\<close>

record rbus_env =
  re_apply :: apply_env
  re_force :: force_env
  re_get :: "string \<Rightarrow> rbusError \<times> string option"
  re_store :: "string \<Rightarrow> string \<Rightarrow> rbusError"
  re_publish :: "string \<Rightarrow> rbusValue \<Rightarrow> rbusError"
  re_time :: int

text \<open>\<open>g_mpthreadId\<close> and \<open>rbus_handle\<close> say whether the pointers are not NULL. The outputs:
  the sync threads started, with their status; the requests to store a value; the events
  published.\<close>

record rbus_st = force_st +
  rbus_handle :: bool
  RfcVal :: bool
  isRbus :: bool
  BinDataVal :: "string option"
  SupportedDocsVal :: "string option"
  SupportedVersionVal :: "string option"
  subscribed :: int
  start_time :: int
  force_reset_call_count :: int
  g_mpthreadId :: bool
  threads_started :: "int list"
  store_requests :: "(string \<times> string) list"
  events_published :: "(string \<times> rbusValue) list"

definition maxParamLen :: nat where "maxParamLen = 128"
definition WEBCFG_RFC_PARAM :: string where "WEBCFG_RFC_PARAM = ''Device.X_RDK_WebConfig.RfcEnable''"
definition WEBCFG_URL_PARAM :: string where "WEBCFG_URL_PARAM = ''Device.X_RDK_WebConfig.URL''"
definition WEBCFG_FORCESYNC_PARAM :: string where "WEBCFG_FORCESYNC_PARAM = ''Device.X_RDK_WebConfig.ForceSync''"
definition WEBCFG_DATA_PARAM :: string where "WEBCFG_DATA_PARAM = ''Device.X_RDK_WebConfig.Data''"
definition WEBCFG_SUPPORTED_DOCS_PARAM :: string where
  "WEBCFG_SUPPORTED_DOCS_PARAM = ''Device.X_RDK_WebConfig.SupportedDocs''"
definition WEBCFG_SUPPORTED_VERSION_PARAM :: string where
  "WEBCFG_SUPPORTED_VERSION_PARAM = ''Device.X_RDK_WebConfig.SupportedSchemaVersion''"
definition WEBCFG_SUPPLEMENTARY_TELEMETRY_PARAM :: string where
  "WEBCFG_SUPPLEMENTARY_TELEMETRY_PARAM = ''Device.X_RDK_WebConfig.SupplementaryServiceUrls.Telemetry''"
definition WEBCFG_SUBDOC_FORCERESET_PARAM :: string where
  "WEBCFG_SUBDOC_FORCERESET_PARAM = ''Device.X_RDK_WebConfig.webcfgSubdocForceReset''"
definition WEBCFG_UPSTREAM_EVENT :: string where "WEBCFG_UPSTREAM_EVENT = ''Webconfig.Upstream''"
definition WEBCFG_UTIL_METHOD :: string where "WEBCFG_UTIL_METHOD = ''Device.X_RDK_WebConfig.FetchCachedBlob''"
definition paramRFCEnable :: string where "paramRFCEnable = ''eRT.com.cisco.spvtg.ccsp.webpa.WebConfigRfcEnable''"

lemmas param_defs = maxParamLen_def WEBCFG_RFC_PARAM_def WEBCFG_URL_PARAM_def WEBCFG_FORCESYNC_PARAM_def
  WEBCFG_DATA_PARAM_def WEBCFG_SUPPORTED_DOCS_PARAM_def WEBCFG_SUPPORTED_VERSION_PARAM_def
  WEBCFG_SUPPLEMENTARY_TELEMETRY_PARAM_def WEBCFG_SUBDOC_FORCERESET_PARAM_def WEBCFG_UPSTREAM_EVENT_def
  WEBCFG_UTIL_METHOD_def paramRFCEnable_def

text \<open>\<open>strncmp (name, param, maxParamLen) == 0\<close>; NULL is not compared.\<close>

definition is_param :: "string \<Rightarrow> string \<Rightarrow> bool" where
  "is_param name param \<longleftrightarrow> strncmp_eq name param maxParamLen"

section \<open>Enabling and disabling\<close>

definition isRbusEnabled :: "rbus_env \<Rightarrow> 'z rbus_st_scheme \<Rightarrow> bool \<times> 'z rbus_st_scheme" where
  "isRbusEnabled env s = (fe_rbus_enabled (re_force env), s\<lparr>isRbus := fe_rbus_enabled (re_force env)\<rparr>)"

definition isRfcEnabled :: "'z rbus_st_scheme \<Rightarrow> bool" where
  "isRfcEnabled s = RfcVal s"

text \<open>The pointer is set even when the thread could not be created.\<close>

definition initWebConfigMultipartTask :: "int \<Rightarrow> 'z rbus_st_scheme \<Rightarrow> 'z rbus_st_scheme" where
  "initWebConfigMultipartTask status s = s\<lparr>threads_started := threads_started s @ [status], g_mpthreadId := True\<rparr>"

definition rbus_StoreValueIntoDB :: "rbus_env \<Rightarrow> string \<Rightarrow> string \<Rightarrow> 'z rbus_st_scheme \<Rightarrow> rbusError \<times> 'z rbus_st_scheme" where
  "rbus_StoreValueIntoDB env name v s = (re_store env name v, s\<lparr>store_requests := store_requests s @ [(name, v)]\<rparr>)"

text \<open>The signals to the sync thread, before the value is stored.\<close>

definition rfc_signal :: "bool \<Rightarrow> 'z rbus_st_scheme \<Rightarrow> 'z rbus_st_scheme" where
  "rfc_signal bValue s =
     (if bValue then
        (if \<not> RfcVal s then
           (let s1 = s\<lparr>g_shutdown := False\<rparr>
            in if \<not> g_mpthreadId s1 then initWebConfigMultipartTask 0 s1 else s1)
         else s)
      else (if RfcVal s then s\<lparr>g_shutdown := True, sync_signal := True\<rparr> else s))"

definition set_rbus_RfcEnable :: "rbus_env \<Rightarrow> bool \<Rightarrow> 'z rbus_st_scheme \<Rightarrow> int \<times> 'z rbus_st_scheme" where
  "set_rbus_RfcEnable env bValue s =
     (case rbus_StoreValueIntoDB env paramRFCEnable (if bValue then ''true'' else ''false'') (rfc_signal bValue s) of
        (ret, s1) \<Rightarrow> if ret \<noteq> RBUS_ERROR_SUCCESS then (1, s1) else (0, s1\<lparr>RfcVal := bValue\<rparr>))"

text \<open>The value of \<open>RfcVal\<close> after reading the store: only the texts true and TRUE change it.\<close>

definition rfc_from_store :: "rbus_env \<Rightarrow> bool \<Rightarrow> bool" where
  "rfc_from_store env rfc =
     (case re_get env paramRFCEnable of
        (RBUS_ERROR_SUCCESS, Some t) \<Rightarrow> if t = ''true'' \<or> t = ''TRUE'' then True else rfc
      | _ \<Rightarrow> rfc)"

section \<open>Set handlers\<close>

text \<open>The result: the return value and the state; \<open>None\<close> when the property has no name. An
  \<open>int\<close> returned as \<open>rbusError_t\<close>: 0 is success.\<close>

definition rbus_int :: "int \<Rightarrow> rbusError" where
  "rbus_int n = (if n = 0 then RBUS_ERROR_SUCCESS else RBUS_CODE n)"

definition webcfgRfcSetHandler :: "rbus_env \<Rightarrow> rbusProperty \<Rightarrow> 'z rbus_st_scheme \<Rightarrow> (rbusError \<times> 'z rbus_st_scheme) option" where
  "webcfgRfcSetHandler env prop s =
     (case rp_key prop of
        None \<Rightarrow> None
      | Some paramName \<Rightarrow>
          if \<not> is_param paramName WEBCFG_RFC_PARAM then Some (RBUS_ERROR_ELEMENT_DOES_NOT_EXIST, s)
          else Some (case rp_val prop of
              Some (RV_BOOLEAN paramval) \<Rightarrow>
                (case set_rbus_RfcEnable env paramval s of
                   (ret, s1) \<Rightarrow> if rbus_int ret \<noteq> RBUS_ERROR_SUCCESS then (rbus_int ret, s1)
                                else (RBUS_ERROR_SUCCESS, s1\<lparr>RfcVal := paramval\<rparr>))
            | _ \<Rightarrow> (RBUS_ERROR_INVALID_INPUT, s)))"

text \<open>The handlers of the two URLs: the cached value is replaced before it is stored.
  \<open>rbusValue_ToString\<close> yields NULL when memory is short.\<close>

definition url_set ::
  "rbus_env \<Rightarrow> string \<Rightarrow> (string \<Rightarrow> 'z rbus_st_scheme \<Rightarrow> 'z rbus_st_scheme) \<Rightarrow> rbusProperty \<Rightarrow>
   'z rbus_st_scheme \<Rightarrow> (rbusError \<times> 'z rbus_st_scheme) option" where
  "url_set env param cache prop s =
     (case rp_key prop of
        None \<Rightarrow> None
      | Some paramName \<Rightarrow>
          if \<not> is_param paramName param then Some (RBUS_ERROR_ELEMENT_DOES_NOT_EXIST, s)
          else if rp_val prop = None then Some (RBUS_ERROR_INVALID_INPUT, s)
          else if \<not> isRfcEnabled s then Some (RBUS_ERROR_ACCESS_NOT_ALLOWED, s)
          else Some (case rp_val prop of
              Some (RV_STRING data) \<Rightarrow>
                if mem_ok s then rbus_StoreValueIntoDB env param data (cache data s) else (RBUS_ERROR_SUCCESS, s)
            | _ \<Rightarrow> (RBUS_ERROR_INVALID_INPUT, s)))"

definition webcfgUrlSetHandler :: "rbus_env \<Rightarrow> rbusProperty \<Rightarrow> 'z rbus_st_scheme \<Rightarrow> (rbusError \<times> 'z rbus_st_scheme) option" where
  "webcfgUrlSetHandler env = url_set env WEBCFG_URL_PARAM (\<lambda>data s. s\<lparr>URLVal := Some data\<rparr>)"

definition webcfgTelemetrySetHandler :: "rbus_env \<Rightarrow> rbusProperty \<Rightarrow> 'z rbus_st_scheme \<Rightarrow> (rbusError \<times> 'z rbus_st_scheme) option" where
  "webcfgTelemetrySetHandler env =
     url_set env WEBCFG_SUPPLEMENTARY_TELEMETRY_PARAM (\<lambda>data s. s\<lparr>SupplementaryURLVal := Some data\<rparr>)"

text \<open>The parameters that cannot be set.\<close>

definition refuse_set :: "string \<Rightarrow> rbusProperty \<Rightarrow> rbusError option" where
  "refuse_set param prop =
     (case rp_key prop of
        None \<Rightarrow> None
      | Some paramName \<Rightarrow> Some (if is_param paramName param then RBUS_ERROR_ACCESS_NOT_ALLOWED else RBUS_ERROR_SUCCESS))"

definition webcfgDataSetHandler :: "rbusProperty \<Rightarrow> rbusError option" where
  "webcfgDataSetHandler = refuse_set WEBCFG_DATA_PARAM"

definition webcfgSupportedDocsSetHandler :: "rbusProperty \<Rightarrow> rbusError option" where
  "webcfgSupportedDocsSetHandler = refuse_set WEBCFG_SUPPORTED_DOCS_PARAM"

definition webcfgSupportedVersionSetHandler :: "rbusProperty \<Rightarrow> rbusError option" where
  "webcfgSupportedVersionSetHandler = refuse_set WEBCFG_SUPPORTED_VERSION_PARAM"

text \<open>The force sync: the status left by \<open>set_rbus_ForceSync\<close> decides before its result.\<close>

definition webcfgFrSetHandler :: "rbus_env \<Rightarrow> rbusProperty \<Rightarrow> 'z rbus_st_scheme \<Rightarrow> (rbusError \<times> 'z rbus_st_scheme) option" where
  "webcfgFrSetHandler env prop s =
     (case rp_key prop of
        None \<Rightarrow> None
      | Some paramName \<Rightarrow>
          if \<not> is_param paramName WEBCFG_FORCESYNC_PARAM then Some (RBUS_ERROR_ELEMENT_DOES_NOT_EXIST, s)
          else if rp_val prop = None then Some (RBUS_ERROR_INVALID_INPUT, s)
          else if \<not> isRfcEnabled s then Some (RBUS_ERROR_ACCESS_NOT_ALLOWED, s)
          else (case rp_val prop of
              Some (RV_STRING data) \<Rightarrow>
                if \<not> mem_ok s then Some (RBUS_ERROR_SUCCESS, s)
                else if data = ''telemetry'' \<and> strncmp_eq (fe_telemetry_url (re_force env)) ''NULL'' 4
                then Some (RBUS_ERROR_BUS_ERROR, s)
                else (case set_rbus_ForceSync (re_force env) (Some data) s of
                    None \<Rightarrow> None
                  | Some ((ret, session_status), s1) \<Rightarrow>
                      Some (if session_status = 2 then RBUS_ERROR_NOT_INITIALIZED
                            else if session_status = 1 then RBUS_ERROR_SESSION_ALREADY_EXIST
                            else if ret = 0 then RBUS_ERROR_BUS_ERROR
                            else RBUS_ERROR_SUCCESS, s1))
            | _ \<Rightarrow> Some (RBUS_ERROR_INVALID_INPUT, s)))"

section \<open>Get handlers\<close>

text \<open>The result: the return value, the value the property is given, if any, and the state. A
  parameter that is disabled reads as the empty string.\<close>

type_synonym 'z get_result = "rbusError \<times> rbusValue option \<times> 'z rbus_st_scheme"

definition get_handler ::
  "string \<Rightarrow> ('z rbus_st_scheme \<Rightarrow> 'z get_result) \<Rightarrow> string option \<Rightarrow> 'z rbus_st_scheme \<Rightarrow> 'z get_result" where
  "get_handler param body propertyName s =
     (case propertyName of
        None \<Rightarrow> (RBUS_ERROR_INVALID_INPUT, None, s)
      | Some name \<Rightarrow> if is_param name param then body s else (RBUS_ERROR_SUCCESS, None, s))"

definition webcfgRfcGetHandler :: "rbus_env \<Rightarrow> string option \<Rightarrow> 'z rbus_st_scheme \<Rightarrow> 'z get_result" where
  "webcfgRfcGetHandler env = get_handler WEBCFG_RFC_PARAM (\<lambda>s.
     if fst (re_get env paramRFCEnable) \<noteq> RBUS_ERROR_SUCCESS then (fst (re_get env paramRFCEnable), None, s)
     else (let v = rfc_from_store env (RfcVal s) in (RBUS_ERROR_SUCCESS, Some (RV_BOOLEAN v), s\<lparr>RfcVal := v\<rparr>)))"

text \<open>\<open>pointer\<close> is the value of the global pointer; what the store leaves in it replaces it.\<close>

definition url_get ::
  "rbus_env \<Rightarrow> string \<Rightarrow> ('z rbus_st_scheme \<Rightarrow> string option) \<Rightarrow> (string option \<Rightarrow> 'z rbus_st_scheme \<Rightarrow> 'z rbus_st_scheme) \<Rightarrow>
   'z rbus_st_scheme \<Rightarrow> 'z get_result" where
  "url_get env param pointer cache s =
     (if \<not> isRfcEnabled s then (RBUS_ERROR_SUCCESS, Some (RV_STRING []), s)
      else (case pointer s of
          Some url \<Rightarrow> (RBUS_ERROR_SUCCESS, Some (RV_STRING url), s)
        | None \<Rightarrow>
            (case re_get env param of
               (ret, v) \<Rightarrow>
                 if ret \<noteq> RBUS_ERROR_SUCCESS then (ret, None, cache v s)
                 else (RBUS_ERROR_SUCCESS, Some (RV_STRING (case v of None \<Rightarrow> [] | Some url \<Rightarrow> url)), cache v s))))"

definition webcfgUrlGetHandler :: "rbus_env \<Rightarrow> string option \<Rightarrow> 'z rbus_st_scheme \<Rightarrow> 'z get_result" where
  "webcfgUrlGetHandler env = get_handler WEBCFG_URL_PARAM (url_get env WEBCFG_URL_PARAM URLVal (\<lambda>v s. s\<lparr>URLVal := v\<rparr>))"

definition webcfgTelemetryGetHandler :: "rbus_env \<Rightarrow> string option \<Rightarrow> 'z rbus_st_scheme \<Rightarrow> 'z get_result" where
  "webcfgTelemetryGetHandler env = get_handler WEBCFG_SUPPLEMENTARY_TELEMETRY_PARAM
     (url_get env WEBCFG_SUPPLEMENTARY_TELEMETRY_PARAM SupplementaryURLVal (\<lambda>v s. s\<lparr>SupplementaryURLVal := v\<rparr>))"

text \<open>A text of the program: the empty string stands for NULL.\<close>

definition text_get :: "string option \<Rightarrow> 'z rbus_st_scheme \<Rightarrow> 'z get_result" where
  "text_get v s = (RBUS_ERROR_SUCCESS, Some (RV_STRING (case v of None \<Rightarrow> [] | Some t \<Rightarrow> t)), s)"

definition webcfgDataGetHandler :: "rbus_env \<Rightarrow> string option \<Rightarrow> 'z rbus_st_scheme \<Rightarrow> 'z get_result" where
  "webcfgDataGetHandler env = get_handler WEBCFG_DATA_PARAM (\<lambda>s.
     if \<not> isRfcEnabled s then text_get None s
     else (case get_DB_BLOB_base64 (ae_write (re_apply env)) (ae_b64 (re_apply env)) s of
         (v, s1) \<Rightarrow> text_get v (s1\<lparr>BinDataVal := v\<rparr>)))"

definition webcfgSupportedDocsGetHandler :: "string option \<Rightarrow> 'z rbus_st_scheme \<Rightarrow> 'z get_result" where
  "webcfgSupportedDocsGetHandler = get_handler WEBCFG_SUPPORTED_DOCS_PARAM (\<lambda>s.
     if \<not> isRfcEnabled s then text_get None s
     else text_get (supported_bits s) (s\<lparr>SupportedDocsVal := supported_bits s\<rparr>))"

definition webcfgSupportedVersionGetHandler :: "string option \<Rightarrow> 'z rbus_st_scheme \<Rightarrow> 'z get_result" where
  "webcfgSupportedVersionGetHandler = get_handler WEBCFG_SUPPORTED_VERSION_PARAM (\<lambda>s.
     if \<not> isRfcEnabled s then text_get None s
     else text_get (supported_version s) (s\<lparr>SupportedVersionVal := supported_version s\<rparr>))"

definition webcfgFrGetHandler :: "string option \<Rightarrow> 'z rbus_st_scheme \<Rightarrow> 'z get_result" where
  "webcfgFrGetHandler = get_handler WEBCFG_FORCESYNC_PARAM (text_get None)"

definition webcfgSubdocForceResetGetHandler :: "string option \<Rightarrow> 'z rbus_st_scheme \<Rightarrow> 'z get_result" where
  "webcfgSubdocForceResetGetHandler = get_handler WEBCFG_SUBDOC_FORCERESET_PARAM (text_get None)"

section \<open>Resetting documents by force\<close>

datatype webcfgError = ERROR_SUCCESS | ERROR_FAILURE | ERROR_INVALID_INPUT | ERROR_ELEMENT_DOES_NOT_EXIST

definition MAX_FORCE_RESET_SET_COUNT :: int where "MAX_FORCE_RESET_SET_COUNT = 3"
definition MAX_FORCE_RESET_TIME_SECS :: int where "MAX_FORCE_RESET_TIME_SECS = 24 * 60 * 60"
definition MAX_SUBDOC_COUNT :: nat where "MAX_SUBDOC_COUNT = 16"
definition MAX_SUBDOC_NAME_LEN :: nat where "MAX_SUBDOC_NAME_LEN = 32"

text \<open>\<open>None\<close>: an entry without a name is compared.\<close>

fun check_subdoc_walk :: "string \<Rightarrow> webconfig_db_data list \<Rightarrow> webcfgError option" where
  "check_subdoc_walk docname [] = Some ERROR_ELEMENT_DOES_NOT_EXIST"
| "check_subdoc_walk docname (d # ds) =
     (case db_name d of
        None \<Rightarrow> None
      | Some name \<Rightarrow> if name = docname then Some ERROR_SUCCESS else check_subdoc_walk docname ds)"

definition checkSubdocInDb :: "string \<Rightarrow> 'z db_st_scheme \<Rightarrow> webcfgError option" where
  "checkSubdocInDb docname s =
     (if webcfgdb_data s = [] then Some ERROR_FAILURE else check_subdoc_walk docname (webcfgdb_data s))"

definition resetSubdocVersion :: "apply_env \<Rightarrow> string \<Rightarrow> 'z db_st_scheme \<Rightarrow> (webcfgError \<times> 'z db_st_scheme) option" where
  "resetSubdocVersion env docname s =
     (case updateDBlist docname 0 None s of
        None \<Rightarrow> None
      | Some (ret_db, s1) \<Rightarrow>
          if ret_db = WEBCFG_FAILURE then Some (ERROR_ELEMENT_DOES_NOT_EXIST, s1)
          else (let s2 = snd (addNewDocEntry (ae_write env) (ae_can_open env) (nat (success_doc_count s1)) s1)
                in case getTmpNode docname s2 of
                     None \<Rightarrow> Some (ERROR_SUCCESS, s2)
                   | Some i \<Rightarrow>
                       (let t = tmp_node i s2
                        in Some (ERROR_SUCCESS, snd (updateTmpList (Some i) docname 0 (tmp_status t) (tmp_error_details t)
                             (tmp_error_code t) (tmp_trans_id t) (tmp_retry_count t) s2)))))"

definition publish :: "rbus_env \<Rightarrow> string \<Rightarrow> rbusValue \<Rightarrow> 'z rbus_st_scheme \<Rightarrow> rbusError \<times> 'z rbus_st_scheme" where
  "publish env name v s = (re_publish env name v, s\<lparr>events_published := events_published s @ [(name, v)]\<rparr>)"

definition publishSubdocResetEvent :: "rbus_env \<Rightarrow> string \<Rightarrow> 'z rbus_st_scheme \<Rightarrow> rbusError \<times> 'z rbus_st_scheme" where
  "publishSubdocResetEvent env subdocName = publish env WEBCFG_SUBDOC_FORCERESET_PARAM (RV_STRING (fit 128 subdocName))"

text \<open>The documents of the request, in the array \<open>subdocNames\<close>: root and the names, each cut to
  its row; \<open>None\<close>: there are more names than rows.\<close>

definition reset_names :: "string \<Rightarrow> string list option" where
  "reset_names SubdocResetVal =
     (let names = strtok_all '','' (fit (MAX_SUBDOC_COUNT * MAX_SUBDOC_NAME_LEN) SubdocResetVal)
      in if names = [] then Some []
         else if MAX_SUBDOC_COUNT \<le> length names then None
         else Some (''root'' # map (fit MAX_SUBDOC_NAME_LEN) names))"

fun check_names :: "string list \<Rightarrow> 'z db_st_scheme \<Rightarrow> bool option" where
  "check_names [] s = Some True"
| "check_names (d # ds) s =
     (case checkSubdocInDb d s of
        None \<Rightarrow> None
      | Some ret \<Rightarrow> if ret \<noteq> ERROR_SUCCESS then Some False else check_names ds s)"

fun reset_versions :: "apply_env \<Rightarrow> string list \<Rightarrow> 'z db_st_scheme \<Rightarrow> (bool \<times> 'z db_st_scheme) option" where
  "reset_versions env [] s = Some (True, s)"
| "reset_versions env (d # ds) s =
     (case resetSubdocVersion env d s of
        None \<Rightarrow> None
      | Some (ret, s1) \<Rightarrow> if ret \<noteq> ERROR_SUCCESS then Some (False, s1) else reset_versions env ds s1)"

text \<open>The limit on the requests of a day: the window starts with the first request.\<close>

definition reset_gate :: "int \<Rightarrow> 'z rbus_st_scheme \<Rightarrow> bool \<times> 'z rbus_st_scheme" where
  "reset_gate now s =
     (let s1 = (if force_reset_call_count s = 0 then s\<lparr>start_time := now\<rparr> else s)
      in if MAX_FORCE_RESET_SET_COUNT \<le> force_reset_call_count s1 then
           (if now - start_time s1 < MAX_FORCE_RESET_TIME_SECS then (False, s1)
            else (True, s1\<lparr>force_reset_call_count := 0, start_time := now\<rparr>))
         else (True, s1))"

text \<open>The request itself, when it is a string.\<close>

definition reset_subdocs :: "rbus_env \<Rightarrow> string \<Rightarrow> 'z rbus_st_scheme \<Rightarrow> (rbusError \<times> 'z rbus_st_scheme) option" where
  "reset_subdocs env data s =
     (case reset_names data of
        None \<Rightarrow> None
      | Some names \<Rightarrow>
          (case check_names names s of
             None \<Rightarrow> None
           | Some False \<Rightarrow> Some (RBUS_ERROR_INVALID_INPUT, s)
           | Some True \<Rightarrow>
               (case reset_versions (re_apply env) names s of
                  None \<Rightarrow> None
                | Some (False, s1) \<Rightarrow> Some (RBUS_ERROR_BUS_ERROR, s1)
                | Some (True, s1) \<Rightarrow>
                    (case publishSubdocResetEvent env data s1 of
                       (rc, s2) \<Rightarrow>
                         if rc \<noteq> RBUS_ERROR_SUCCESS then Some (RBUS_ERROR_BUS_ERROR, s2)
                         else map_option (\<lambda>s3. (RBUS_ERROR_SUCCESS, s3)) (trigger_webcfg_forcedsync (re_force env) s2)))))"

definition webcfgSubdocForceResetSetHandler :: "rbus_env \<Rightarrow> rbusProperty \<Rightarrow> 'z rbus_st_scheme \<Rightarrow> (rbusError \<times> 'z rbus_st_scheme) option" where
  "webcfgSubdocForceResetSetHandler env prop s =
     (case reset_gate (re_time env) s of
        (False, s1) \<Rightarrow> Some (RBUS_ERROR_OUT_OF_RESOURCES, s1)
      | (True, s1) \<Rightarrow>
          (case rp_key prop of
             None \<Rightarrow> None
           | Some paramName \<Rightarrow>
               if \<not> is_param paramName WEBCFG_SUBDOC_FORCERESET_PARAM then Some (RBUS_ERROR_ELEMENT_DOES_NOT_EXIST, s1)
               else if rp_val prop = None then Some (RBUS_ERROR_INVALID_INPUT, s1)
               else if \<not> isRfcEnabled s1 then Some (RBUS_ERROR_ACCESS_NOT_ALLOWED, s1)
               else (case rp_val prop of
                   Some (RV_STRING data) \<Rightarrow>
                     if \<not> mem_ok s1 then Some (RBUS_ERROR_INVALID_INPUT, s1)
                     else (case reset_subdocs env data s1 of
                         None \<Rightarrow> None
                       | Some (ret, s2) \<Rightarrow>
                           Some (ret, if ret = RBUS_ERROR_SUCCESS
                                      then s2\<lparr>force_reset_call_count := force_reset_call_count s2 + 1\<rparr> else s2))
                 | _ \<Rightarrow> Some (RBUS_ERROR_INVALID_INPUT, s1))))"

section \<open>Subscriptions and the method\<close>

definition eventSubHandler :: "bool \<Rightarrow> string \<Rightarrow> 'z rbus_st_scheme \<Rightarrow> rbusError \<times> 'z rbus_st_scheme" where
  "eventSubHandler subscribe eventName s =
     (RBUS_ERROR_SUCCESS,
      if eventName = WEBCFG_UPSTREAM_EVENT then s\<lparr>subscribed := (if subscribe then 1 else 0)\<rparr> else s)"

text \<open>Only logs; the second component is \<open>*autoPublish\<close>.\<close>

definition resetEventSubHandler :: "bool \<Rightarrow> string \<Rightarrow> rbusError \<times> bool" where
  "resetEventSubHandler subscribe eventName = (RBUS_ERROR_SUCCESS, False)"

fun webcfgError_ToString :: "webcfgError \<Rightarrow> string" where
  "webcfgError_ToString ERROR_SUCCESS = ''method success''"
| "webcfgError_ToString ERROR_FAILURE = ''method failure''"
| "webcfgError_ToString ERROR_INVALID_INPUT = ''Invalid Input''"
| "webcfgError_ToString ERROR_ELEMENT_DOES_NOT_EXIST = ''subdoc name is not found in cache''"

fun webcfgError_code :: "webcfgError \<Rightarrow> u8" where
  "webcfgError_code ERROR_SUCCESS = 0"
| "webcfgError_code ERROR_FAILURE = 1"
| "webcfgError_code ERROR_INVALID_INPUT = 2"
| "webcfgError_code ERROR_ELEMENT_DOES_NOT_EXIST = 3"

definition setFetchCachedBlobErrCode :: "webcfgError \<Rightarrow> (string \<times> rbusValue) list" where
  "setFetchCachedBlobErrCode errorCode =
     [(''error_code'', RV_UINT8 (webcfgError_code errorCode)), (''error_string'', RV_STRING (webcfgError_ToString errorCode))]"

definition fetchMpBlobData :: "string \<Rightarrow> 'z mp_st_scheme \<Rightarrow> webcfgError + string \<times> u32" where
  "fetchMpBlobData docname s =
     (if g_mp_head s = [] then Inl ERROR_FAILURE
      else (case find (\<lambda>mp. mp_name_space mp = docname) (g_mp_head s) of
          None \<Rightarrow> Inl ERROR_ELEMENT_DOES_NOT_EXIST
        | Some mp \<Rightarrow> Inr (mp_data mp, mp_etag mp)))"

text \<open>\<open>valueString\<close> is the string of the first property of the input, if it has one; the second
  component is what the output object is given.\<close>

definition fetchCachedBlobHandler ::
  "string option \<Rightarrow> string option \<Rightarrow> 'z rbus_st_scheme \<Rightarrow> rbusError \<times> (string \<times> rbusValue) list" where
  "fetchCachedBlobHandler methodName valueString s =
     (if methodName \<noteq> Some WEBCFG_UTIL_METHOD then (RBUS_ERROR_BUS_ERROR, setFetchCachedBlobErrCode ERROR_FAILURE)
      else if \<not> isRfcEnabled s then (RBUS_ERROR_BUS_ERROR, setFetchCachedBlobErrCode ERROR_FAILURE)
      else (case valueString of
          None \<Rightarrow> (RBUS_ERROR_BUS_ERROR, setFetchCachedBlobErrCode ERROR_INVALID_INPUT)
        | Some docname \<Rightarrow>
            if docname = [] then (RBUS_ERROR_BUS_ERROR, setFetchCachedBlobErrCode ERROR_INVALID_INPUT)
            else (case fetchMpBlobData docname s of
                Inr (blob, etag) \<Rightarrow> (RBUS_ERROR_SUCCESS, [(''etag'', RV_UINT32 etag), (''data'', RV_BYTES blob)])
              | Inl ret \<Rightarrow> (RBUS_ERROR_BUS_ERROR, setFetchCachedBlobErrCode ret))))"

section \<open>The tables of the data elements\<close>

text \<open>The handlers that \<open>regWebConfigDataModel\<close> registers for the properties; the bus calls the
  handlers of an element with its name.\<close>

type_synonym 'z set_fun = "rbusProperty \<Rightarrow> 'z rbus_st_scheme \<Rightarrow> (rbusError \<times> 'z rbus_st_scheme) option"
type_synonym 'z get_fun = "string option \<Rightarrow> 'z rbus_st_scheme \<Rightarrow> 'z get_result"

definition read_only :: "(rbusProperty \<Rightarrow> rbusError option) \<Rightarrow> 'z set_fun" where
  "read_only h prop s = map_option (\<lambda>ret. (ret, s)) (h prop)"

definition dataElements :: "rbus_env \<Rightarrow> (string \<times> 'z get_fun \<times> 'z set_fun) list" where
  "dataElements env =
     [(WEBCFG_RFC_PARAM, webcfgRfcGetHandler env, webcfgRfcSetHandler env),
      (WEBCFG_DATA_PARAM, webcfgDataGetHandler env, read_only webcfgDataSetHandler),
      (WEBCFG_SUPPORTED_DOCS_PARAM, webcfgSupportedDocsGetHandler, read_only webcfgSupportedDocsSetHandler),
      (WEBCFG_SUPPORTED_VERSION_PARAM, webcfgSupportedVersionGetHandler, read_only webcfgSupportedVersionSetHandler),
      (WEBCFG_SUBDOC_FORCERESET_PARAM, webcfgSubdocForceResetGetHandler, webcfgSubdocForceResetSetHandler env),
      (WEBCFG_URL_PARAM, webcfgUrlGetHandler env, webcfgUrlSetHandler env),
      (WEBCFG_FORCESYNC_PARAM, webcfgFrGetHandler, webcfgFrSetHandler env),
      (WEBCFG_SUPPLEMENTARY_TELEMETRY_PARAM, webcfgTelemetryGetHandler env, webcfgTelemetrySetHandler env)]"

lemma is_param_refl [simp]: "is_param p p"
  by (simp add: is_param_def)

lemma reset_gate_eq:
  "reset_gate now s =
     (if force_reset_call_count s = 0 then (True, s\<lparr>start_time := now\<rparr>)
      else if force_reset_call_count s < MAX_FORCE_RESET_SET_COUNT then (True, s)
      else if now - start_time s < MAX_FORCE_RESET_TIME_SECS then (False, s)
      else (True, s\<lparr>force_reset_call_count := 0, start_time := now\<rparr>))"
  by (simp add: reset_gate_def MAX_FORCE_RESET_SET_COUNT_def)

lemma reset_gate_form: "\<exists>t c. snd (reset_gate now s) = s\<lparr>start_time := t, force_reset_call_count := c\<rparr>"
proof -
  have e: "\<exists>t c. s = s\<lparr>start_time := t, force_reset_call_count := c\<rparr>"
    "\<exists>t c. s\<lparr>start_time := now\<rparr> = s\<lparr>start_time := t, force_reset_call_count := c\<rparr>"
    "\<exists>t c. s\<lparr>force_reset_call_count := 0, start_time := now\<rparr> = s\<lparr>start_time := t, force_reset_call_count := c\<rparr>"
    by (rule exI [of _ "start_time s"], rule exI [of _ "force_reset_call_count s"], simp)
      (rule exI [of _ now], rule exI [of _ "force_reset_call_count s"], simp,
       rule exI [of _ now], rule exI [of _ 0], simp)
  show ?thesis unfolding reset_gate_eq by (simp only: e snd_conv split: if_split) simp
qed

lemmas handler_defs = get_handler_def read_only_def refuse_set_def text_get_def url_set_def url_get_def
  webcfgDataGetHandler_def webcfgSupportedDocsGetHandler_def webcfgSupportedVersionGetHandler_def
  webcfgSubdocForceResetGetHandler_def webcfgUrlGetHandler_def webcfgFrGetHandler_def webcfgTelemetryGetHandler_def
  webcfgDataSetHandler_def webcfgSupportedDocsSetHandler_def webcfgSupportedVersionSetHandler_def
  webcfgUrlSetHandler_def webcfgFrSetHandler_def webcfgTelemetrySetHandler_def isRfcEnabled_def

text \<open>What a handler does while the feature is disabled: a get gives the empty string, a set of
  any value ends with an error and leaves the state \<open>s'\<close>.\<close>

definition refuses :: "string \<Rightarrow> 'z get_fun \<Rightarrow> 'z set_fun \<Rightarrow> 'z rbus_st_scheme \<Rightarrow> 'z rbus_st_scheme \<Rightarrow> bool" where
  "refuses name getter setter s s' \<longleftrightarrow>
     getter (Some name) s = (RBUS_ERROR_SUCCESS, Some (RV_STRING []), s) \<and>
     (\<forall>v. \<exists>ret. setter \<lparr>rp_key = Some name, rp_val = v\<rparr> s = Some (ret, s') \<and> ret \<noteq> RBUS_ERROR_SUCCESS)"

text \<open>The window of the force resets at the time \<open>now\<close>: with no reset counted it starts now, a
  window that is used up starts again after a day, and else it stays as it is. The count never
  grows.\<close>

definition day_window :: "int \<Rightarrow> 'z rbus_st_scheme \<Rightarrow> 'z rbus_st_scheme" where
  "day_window now s =
     (if force_reset_call_count s = 0 then s\<lparr>start_time := now\<rparr>
      else if MAX_FORCE_RESET_SET_COUNT \<le> force_reset_call_count s \<and> start_time s + MAX_FORCE_RESET_TIME_SECS \<le> now
      then s\<lparr>force_reset_call_count := 0, start_time := now\<rparr>
      else s)"

lemma reset_gate_day_window: "snd (reset_gate now s) = day_window now s"
  by (auto simp: reset_gate_eq day_window_def)

lemma day_window_RfcVal [simp]: "RfcVal (day_window now s) = RfcVal s"
  by (simp add: day_window_def)

lemma refusesI:
  assumes "getter (Some name) s = (RBUS_ERROR_SUCCESS, Some (RV_STRING []), s)"
    and "\<And>v. \<exists>ret. setter \<lparr>rp_key = Some name, rp_val = v\<rparr> s = Some (ret, s') \<and> ret \<noteq> RBUS_ERROR_SUCCESS"
  shows "refuses name getter setter s s'"
  using assms unfolding refuses_def by blast

lemma refuses_force_reset:
  assumes "\<not> RfcVal s"
  shows "refuses WEBCFG_SUBDOC_FORCERESET_PARAM webcfgSubdocForceResetGetHandler (webcfgSubdocForceResetSetHandler env) s
    (day_window (re_time env) s)"
proof (rule refusesI)
  show "webcfgSubdocForceResetGetHandler (Some WEBCFG_SUBDOC_FORCERESET_PARAM) s = (RBUS_ERROR_SUCCESS, Some (RV_STRING []), s)"
    by (simp add: handler_defs)
next
  fix v
  obtain go where g: "reset_gate (re_time env) s = (go, day_window (re_time env) s)"
    using reset_gate_day_window [of "re_time env" s] by (cases "reset_gate (re_time env) s") simp
  have "\<not> RfcVal (day_window (re_time env) s)" using assms by simp
  with g show "\<exists>ret. webcfgSubdocForceResetSetHandler env \<lparr>rp_key = Some WEBCFG_SUBDOC_FORCERESET_PARAM, rp_val = v\<rparr> s =
      Some (ret, day_window (re_time env) s) \<and> ret \<noteq> RBUS_ERROR_SUCCESS"
    by (cases go) (auto simp: webcfgSubdocForceResetSetHandler_def isRfcEnabled_def)
qed

text \<open>C15: while the feature is disabled, the data model gives nothing away and changes nothing.
  Every parameter but the switch itself reads as the empty string; every set is refused with an
  error, whatever the value, and leaves the state exactly as it is. Only the handler of the force
  reset, which looks at the limit of the day before the switch, opens the window of the day as it
  does for a request it serves; but no refused set is counted, so none uses up the limit. And no
  cached document can be fetched.\<close>

theorem rfc_disabled_refuses:
  assumes "\<not> RfcVal s"
  shows "(\<forall>(name, getter, setter) \<in> set (dataElements env). name \<noteq> WEBCFG_RFC_PARAM \<longrightarrow>
      refuses name getter setter s (if name = WEBCFG_SUBDOC_FORCERESET_PARAM then day_window (re_time env) s else s)) \<and>
    force_reset_call_count (day_window (re_time env) s) \<in> {0, force_reset_call_count s} \<and>
    fetchCachedBlobHandler m v s = (RBUS_ERROR_BUS_ERROR, setFetchCachedBlobErrCode ERROR_FAILURE)"
proof -
  note rf = refusesI [where s = s and s' = s]
  have "refuses WEBCFG_DATA_PARAM (webcfgDataGetHandler env) (read_only webcfgDataSetHandler) s s"
    "refuses WEBCFG_SUPPORTED_DOCS_PARAM webcfgSupportedDocsGetHandler (read_only webcfgSupportedDocsSetHandler) s s"
    "refuses WEBCFG_SUPPORTED_VERSION_PARAM webcfgSupportedVersionGetHandler (read_only webcfgSupportedVersionSetHandler) s s"
    "refuses WEBCFG_URL_PARAM (webcfgUrlGetHandler env) (webcfgUrlSetHandler env) s s"
    "refuses WEBCFG_FORCESYNC_PARAM webcfgFrGetHandler (webcfgFrSetHandler env) s s"
    "refuses WEBCFG_SUPPLEMENTARY_TELEMETRY_PARAM (webcfgTelemetryGetHandler env) (webcfgTelemetrySetHandler env) s s"
    using assms by (intro rf; simp add: handler_defs)+
  moreover note refuses_force_reset [OF assms, of env]
  moreover have "force_reset_call_count (day_window (re_time env) s) \<in> {0, force_reset_call_count s}" by (simp add: day_window_def)
  moreover have "fetchCachedBlobHandler m v s = (RBUS_ERROR_BUS_ERROR, setFetchCachedBlobErrCode ERROR_FAILURE)"
    using assms by (simp add: fetchCachedBlobHandler_def isRfcEnabled_def)
  ultimately show ?thesis by (simp add: dataElements_def param_defs)
qed

definition rbus_st0 :: rbus_st where
  "rbus_st0 = force_st.extend force_st0 \<lparr>rbus_handle = True, RfcVal = False, isRbus = True, BinDataVal = None,
     SupportedDocsVal = None, SupportedVersionVal = None, subscribed = 0, start_time = 0, force_reset_call_count = 0,
     g_mpthreadId = False, threads_started = [], store_requests = [], events_published = []\<rparr>"

text \<open>A device whose store keeps nothing and takes everything, at the time \<open>now\<close>.\<close>

definition demo_rbus :: "int \<Rightarrow> rbus_env" where
  "demo_rbus now = \<lparr>re_apply = demo_env, re_force = demo_force, re_get = (\<lambda>_. (RBUS_ERROR_SUCCESS, None)),
     re_store = (\<lambda>_ _. RBUS_ERROR_SUCCESS), re_publish = (\<lambda>_ _. RBUS_ERROR_SUCCESS), re_time = now\<rparr>"

lemma rbus_st0_simps [simp]:
  "mem_ok rbus_st0" "\<not> RfcVal rbus_st0" "URLVal rbus_st0 = None" "force_reset_call_count rbus_st0 = 0"
  "webcfgdb_data rbus_st0 = []" "g_head rbus_st0 = []" "success_doc_count rbus_st0 = 0" "ForceSyncMsgQ rbus_st0 = []"
  "threads_started rbus_st0 = []" "\<not> g_mpthreadId rbus_st0" "events_published rbus_st0 = []"
  by (simp_all add: rbus_st0_def force_st.defs force_st0_def http_st.defs http_st0_def ev_st.defs ev_st0_def db_st.defs db_st0_defs)

theorem rfc_disabled_refuses_witness:
  "refuses WEBCFG_URL_PARAM (webcfgUrlGetHandler (demo_rbus 9)) (webcfgUrlSetHandler (demo_rbus 9)) rbus_st0 rbus_st0 \<and>
   refuses WEBCFG_SUBDOC_FORCERESET_PARAM webcfgSubdocForceResetGetHandler (webcfgSubdocForceResetSetHandler (demo_rbus 9))
     rbus_st0 (rbus_st0\<lparr>start_time := 9\<rparr>)"
proof -
  let ?url = "(WEBCFG_URL_PARAM, webcfgUrlGetHandler (demo_rbus 9), webcfgUrlSetHandler (demo_rbus 9))"
  let ?reset = "(WEBCFG_SUBDOC_FORCERESET_PARAM, webcfgSubdocForceResetGetHandler, webcfgSubdocForceResetSetHandler (demo_rbus 9))"
  note all = rfc_disabled_refuses [OF rbus_st0_simps(2), of "demo_rbus 9" None None, THEN conjunct1]
  have "?url \<in> set (dataElements (demo_rbus 9))" "?reset \<in> set (dataElements (demo_rbus 9))" by (simp_all add: dataElements_def)
  note this [THEN all [THEN bspec], unfolded prod.case]
  moreover have "WEBCFG_URL_PARAM \<noteq> WEBCFG_RFC_PARAM" "WEBCFG_SUBDOC_FORCERESET_PARAM \<noteq> WEBCFG_RFC_PARAM"
    "WEBCFG_URL_PARAM \<noteq> WEBCFG_SUBDOC_FORCERESET_PARAM" by (simp_all add: param_defs)
  moreover have "day_window (re_time (demo_rbus 9)) rbus_st0 = rbus_st0\<lparr>start_time := 9\<rparr>"
    by (simp add: day_window_def demo_rbus_def)
  ultimately show ?thesis by simp
qed

section \<open>Switching the feature off and on\<close>

text \<open>The end of the sync thread: shutdown, then the pointer is cleared.\<close>

definition thread_end :: "'z rbus_st_scheme \<Rightarrow> 'z rbus_st_scheme" where
  "thread_end s = (task_shutdown s)\<lparr>g_mpthreadId := False\<rparr>"

lemma thread_end_fields [simp]:
  "RfcVal (thread_end s) = RfcVal s" "threads_started (thread_end s) = threads_started s"
  "\<not> g_mpthreadId (thread_end s)" "g_shutdown (thread_end s) = g_shutdown s"
  by (simp_all add: thread_end_def task_shutdown_def Let_def deleteForceSyncMsgQueue_def delete_supplementary_list_def
      delete_multipart_def reset_db_node_def delete_tmp_list_def set_retry_timer_def set_global_retry_timestamp_def
      set_global_maintenance_time_def reset_successDocCount_def reset_numOfMpDocs_def set_doc_fail_def reset_global_eventFlag_def)

lemma set_rbus_RfcEnable_stored:
  assumes "\<forall>n v. re_store env n v = RBUS_ERROR_SUCCESS"
  shows "RfcVal (snd (set_rbus_RfcEnable env b s)) = b"
    "threads_started (snd (set_rbus_RfcEnable env b s)) =
       threads_started s @ (if b \<and> \<not> RfcVal s \<and> \<not> g_mpthreadId s then [0] else [])"
    "g_mpthreadId (snd (set_rbus_RfcEnable env b s)) \<longleftrightarrow> g_mpthreadId s \<or> b \<and> \<not> RfcVal s"
    "g_shutdown (snd (set_rbus_RfcEnable env b s)) \<longleftrightarrow>
       (if b \<and> \<not> RfcVal s then False else if \<not> b \<and> RfcVal s then True else g_shutdown s)"
  using assms by (simp_all add: set_rbus_RfcEnable_def rbus_StoreValueIntoDB_def rfc_signal_def initWebConfigMultipartTask_def Let_def)

text \<open>Switching off and on again. Switching off makes the sync thread leave its loop. If the
  thread has ended when the feature is switched on, a new thread is started. If it is still on
  its way out, none is started, and after its end the feature counts as enabled without any
  thread: switching it on once more starts none either.\<close>

theorem rfc_off_on:
  assumes "\<forall>n v. re_store env n v = RBUS_ERROR_SUCCESS" "RfcVal s" "g_mpthreadId s"
  defines "off \<equiv> snd (set_rbus_RfcEnable env False s)"
  defines "late \<equiv> snd (set_rbus_RfcEnable env True (thread_end off))"
    and "early \<equiv> thread_end (snd (set_rbus_RfcEnable env True off))"
  shows "task_decide te v off = Some (TExit, v, off) \<and>
    threads_started late = threads_started s @ [0] \<and> \<not> g_shutdown late \<and>
    RfcVal early \<and> \<not> g_mpthreadId early \<and>
    threads_started (snd (set_rbus_RfcEnable env True early)) = threads_started s"
proof -
  note st = set_rbus_RfcEnable_stored [OF assms(1)]
  have off: "\<not> RfcVal off" "g_shutdown off" "g_mpthreadId off" "threads_started off = threads_started s"
    unfolding off_def using assms(2,3) by (simp_all add: st)
  then have "task_decide te v off = Some (TExit, v, off)" by (simp add: task_decide_def)
  moreover have "threads_started late = threads_started s @ [0]" "\<not> g_shutdown late"
    unfolding late_def using off by (simp_all add: st)
  moreover have e: "RfcVal early" "\<not> g_mpthreadId early" "threads_started early = threads_started s"
    unfolding early_def using off by (simp_all add: st)
  then have "threads_started (snd (set_rbus_RfcEnable env True early)) = threads_started s" by (simp add: st)
  ultimately show ?thesis using e by blast
qed

theorem rfc_off_on_witness:
  "threads_started (snd (set_rbus_RfcEnable (demo_rbus 0) True (thread_end
     (snd (set_rbus_RfcEnable (demo_rbus 0) False (rbus_st0\<lparr>RfcVal := True, g_mpthreadId := True\<rparr>)))))) = [0]"
proof -
  have "\<forall>n v. re_store (demo_rbus 0) n v = RBUS_ERROR_SUCCESS" by (simp add: demo_rbus_def)
  from rfc_off_on [OF this, of "rbus_st0\<lparr>RfcVal := True, g_mpthreadId := True\<rparr>"] show ?thesis by simp
qed

text \<open>Switching off when the store refuses the value. The caller is told of the failure and
  the feature stays enabled, but the sync thread has been told to end already; switching on does
  not take this back.\<close>

theorem rfc_store_failure:
  assumes "re_store env paramRFCEnable ''false'' \<noteq> RBUS_ERROR_SUCCESS" "RfcVal s"
  defines "s1 \<equiv> snd (set_rbus_RfcEnable env False s)"
  shows "fst (set_rbus_RfcEnable env False s) = 1 \<and> RfcVal s1 \<and> g_shutdown s1 \<and>
    g_shutdown (snd (set_rbus_RfcEnable env' True s1)) \<and> task_decide te v s1 = Some (TExit, v, s1)"
proof -
  have "fst (set_rbus_RfcEnable env False s) = 1" "RfcVal s1" "g_shutdown s1"
    using assms by (simp_all add: s1_def set_rbus_RfcEnable_def rbus_StoreValueIntoDB_def rfc_signal_def)
  then show ?thesis
    by (simp add: set_rbus_RfcEnable_def rbus_StoreValueIntoDB_def rfc_signal_def task_decide_def)
qed

theorem rfc_store_failure_witness:
  "g_shutdown (snd (set_rbus_RfcEnable (demo_rbus 0) True
     (snd (set_rbus_RfcEnable (demo_rbus 0\<lparr>re_store := \<lambda>_ _. RBUS_ERROR_BUS_ERROR\<rparr>) False (rbus_st0\<lparr>RfcVal := True\<rparr>)))))"
  using rfc_store_failure [of "demo_rbus 0\<lparr>re_store := \<lambda>_ _. RBUS_ERROR_BUS_ERROR\<rparr>" "rbus_st0\<lparr>RfcVal := True\<rparr>" "demo_rbus 0"]
  by simp

section \<open>Reading back what was set\<close>

text \<open>A URL that was set is the one that is read. The set hands the URL to the store of the
  platform and answers with the result of the store; from then on the parameter reads as this
  URL, without asking the store, even when the store has refused it.\<close>

theorem url_set_get:
  assumes "RfcVal s" "mem_ok s"
  shows "\<exists>s'. webcfgUrlSetHandler env \<lparr>rp_key = Some WEBCFG_URL_PARAM, rp_val = Some (RV_STRING url)\<rparr> s =
      Some (re_store env WEBCFG_URL_PARAM url, s') \<and>
    store_requests s' = store_requests s @ [(WEBCFG_URL_PARAM, url)] \<and>
    webcfgUrlGetHandler env' (Some WEBCFG_URL_PARAM) s' = (RBUS_ERROR_SUCCESS, Some (RV_STRING url), s')"
  using assms by (simp add: webcfgUrlSetHandler_def url_set_def isRfcEnabled_def rbus_StoreValueIntoDB_def
      webcfgUrlGetHandler_def get_handler_def url_get_def)

theorem url_set_get_witness:
  "\<exists>s' :: rbus_st. webcfgUrlGetHandler (demo_rbus 0) (Some WEBCFG_URL_PARAM) s' = (RBUS_ERROR_SUCCESS, Some (RV_STRING ''https://x/''), s')"
proof -
  have "RfcVal (rbus_st0\<lparr>RfcVal := True\<rparr>)" "mem_ok (rbus_st0\<lparr>RfcVal := True\<rparr>)" by simp_all
  from url_set_get [OF this, of "demo_rbus 0" "''https://x/''" "demo_rbus 0"] show ?thesis by blast
qed

end
