(* ===== verification/Reset.thy ===== *)
theory Reset
  imports Rbus
begin

text \<open>
  Resetting documents by force, the handler \<open>webcfgSubdocForceResetSetHandler\<close> of
  \<open>src/src/webcfg_rbus.c\<close>: how often it lets a request through, and what a request does to the
  database, the list in progress and the queue of syncs.
\<close>

section \<open>What a reset by force keeps\<close>

lemma outer_rbus_fields:
  fixes s s' :: "'z rbus_st_scheme"
  assumes "outer s' = outer s"
  shows "mem_ok s' = mem_ok s" "start_time s' = start_time s" "force_reset_call_count s' = force_reset_call_count s"
    "ForceSyncMsgQ s' = ForceSyncMsgQ s" "ForceSyncTransID s' = ForceSyncTransID s" "force_st.more s' = force_st.more s"
  using assms by (cases s; cases s'; simp add: outer_def flags_def)+

lemma updateDBlist_form: "updateDBlist d v r s = Some (st, s') \<Longrightarrow> \<exists>ds. s' = s\<lparr>webcfgdb_data := ds\<rparr>"
  by (auto simp: updateDBlist_def split: option.splits)

lemma outer_resetSubdocVersion: "resetSubdocVersion env d s = Some (ret, s') \<Longrightarrow> outer s' = outer s"
proof -
  assume r: "resetSubdocVersion env d s = Some (ret, s')"
  then obtain st s1 where u: "updateDBlist d 0 None s = Some (st, s1)"
    by (auto simp: resetSubdocVersion_def split: option.splits)
  then obtain ds where "s1 = s\<lparr>webcfgdb_data := ds\<rparr>" using updateDBlist_form by blast
  then have "outer s1 = outer s" by (simp add: outer_def flags_def)
  with r u show ?thesis by (auto simp: resetSubdocVersion_def Let_def frame_simps split: if_splits option.splits)
qed

lemma outer_reset_versions: "reset_versions env ds s = Some (ok, s') \<Longrightarrow> outer s' = outer s"
proof (induction ds arbitrary: s)
  case (Cons d ds)
  then show ?case
    by (auto dest: outer_resetSubdocVersion split: option.splits if_splits)
qed simp

lemma trigger_more:
  fixes s s' :: "'z rbus_st_scheme"
  assumes "mem_ok s" "trigger_webcfg_forcedsync env s = Some s'"
  shows "force_st.more s' = force_st.more s"
proof -
  let ?s = "s\<lparr>g_webcfg_forcedsync_needed := 1\<rparr>"
  obtain r where "set_rbus_ForceSync env (Some ''root'') ?s = Some (r, s')"
    using assms(2) by (auto simp: trigger_webcfg_forcedsync_def)
  then have "request_effect ?s s'" using assms(1) by (intro set_rbus_ForceSync_effect) simp_all
  then obtain k f t q g where "s' = ?s\<lparr>g_cloud_forcesync_retry_needed := k, ForceSync := f, ForceSyncTransID := t,
      ForceSyncMsgQ := q, sync_signal := g\<rparr>" unfolding request_effect_def by blast
  then show ?thesis by simp
qed

lemma more_rbus_fields:
  fixes s s' :: "'z rbus_st_scheme"
  assumes "force_st.more s' = force_st.more s"
  shows "start_time s' = start_time s" "force_reset_call_count s' = force_reset_call_count s" "RfcVal s' = RfcVal s"
  using assms by (cases s; cases s'; simp)+

text \<open>A request that succeeds, cut into its parts.\<close>

lemma reset_subdocs_success:
  fixes s s' :: "'z rbus_st_scheme"
  assumes "reset_subdocs env data s = Some (RBUS_ERROR_SUCCESS, s')"
  obtains names s1 where "reset_names data = Some names" "check_names names s = Some True"
    "reset_versions (re_apply env) names s = Some (True, s1)"
    "trigger_webcfg_forcedsync (re_force env) (snd (publishSubdocResetEvent env data s1)) = Some s'"
proof -
  from assms obtain names where n: "reset_names data = Some names" by (auto simp: reset_subdocs_def split: option.splits)
  with assms have c: "check_names names s = Some True"
    by (auto simp: reset_subdocs_def split: option.splits bool.splits)
  with assms n obtain s1 where v: "reset_versions (re_apply env) names s = Some (True, s1)"
    by (auto simp: reset_subdocs_def split: option.splits bool.splits)
  obtain rc s2 where p: "publishSubdocResetEvent env data s1 = (rc, s2)" by fastforce
  with assms n c v have "trigger_webcfg_forcedsync (re_force env) s2 = Some s'"
    by (auto simp: reset_subdocs_def split: if_splits)
  with p have "trigger_webcfg_forcedsync (re_force env) (snd (publishSubdocResetEvent env data s1)) = Some s'" by simp
  then show thesis by (rule that [OF n c v])
qed

lemma publish_fields:
  "outer (snd (publish env n v s)) = (fst (outer s), fst (snd (outer s)), db_st.more (snd (publish env n v s)))"
  "start_time (snd (publish env n v s)) = start_time s"
  "force_reset_call_count (snd (publish env n v s)) = force_reset_call_count s"
  "mem_ok (snd (publish env n v s)) = mem_ok s"
  by (simp_all add: publish_def outer_def flags_def)

lemma reset_versions_counter:
  fixes s s' :: "'z rbus_st_scheme"
  assumes "reset_versions env ds s = Some (ok, s')"
  shows "start_time s' = start_time s \<and> force_reset_call_count s' = force_reset_call_count s"
  using outer_rbus_fields(2,3) [OF outer_reset_versions [OF assms]] by simp

lemma reset_subdocs_counter:
  fixes s s' :: "'z rbus_st_scheme"
  assumes "reset_subdocs env data s = Some (ret, s')" "mem_ok s"
  shows "start_time s' = start_time s \<and> force_reset_call_count s' = force_reset_call_count s"
proof (cases "ret = RBUS_ERROR_SUCCESS")
  case True
  with assms(1) obtain names s1 where v: "reset_versions (re_apply env) names s = Some (True, s1)"
    and t: "trigger_webcfg_forcedsync (re_force env) (snd (publishSubdocResetEvent env data s1)) = Some s'"
    using reset_subdocs_success by metis
  note o = outer_rbus_fields [OF outer_reset_versions [OF v]]
  let ?s2 = "snd (publishSubdocResetEvent env data s1)"
  have "mem_ok ?s2" using o(1) assms(2) by (simp add: publishSubdocResetEvent_def publish_fields)
  from more_rbus_fields [OF trigger_more [OF this t]] o show ?thesis
    by (simp add: publishSubdocResetEvent_def publish_fields)
next
  case False
  with assms show ?thesis
    by (auto simp: reset_subdocs_def publishSubdocResetEvent_def publish_def
        dest!: reset_versions_counter split: option.splits bool.splits if_splits)
qed

text \<open>What the handler does to the counter and the start of the window.\<close>

lemma force_reset_counter:
  assumes "webcfgSubdocForceResetSetHandler env prop s = Some (ret, s')"
  shows "start_time s' = start_time (snd (reset_gate (re_time env) s)) \<and>
    force_reset_call_count s' = force_reset_call_count (snd (reset_gate (re_time env) s)) + (if ret = RBUS_ERROR_SUCCESS then 1 else 0) \<and>
    (ret = RBUS_ERROR_SUCCESS \<longrightarrow> fst (reset_gate (re_time env) s))"
proof -
  obtain go s1 where g: "reset_gate (re_time env) s = (go, s1)" by fastforce
  with assms show ?thesis
    by (auto simp: webcfgSubdocForceResetSetHandler_def dest!: reset_subdocs_counter
        split: bool.splits option.splits if_splits rbusValue.splits)
qed

section \<open>The limit of resets by force\<close>

text \<open>A run of the program: calls of the handler at times that do not go back, and everything
  else, which leaves the counter alone. \<open>ts\<close> are the times of the calls that succeeded, the
  earliest first, \<open>now\<close> is the time of the last call.\<close>

inductive reset_run :: "'z rbus_st_scheme \<Rightarrow> int \<Rightarrow> int list \<Rightarrow> 'z rbus_st_scheme \<Rightarrow> bool" for s0 where
  start: "reset_run s0 now [] s0"
| call: "reset_run s0 now ts s \<Longrightarrow> now \<le> re_time env \<Longrightarrow> webcfgSubdocForceResetSetHandler env prop s = Some (ret, s') \<Longrightarrow>
    reset_run s0 (re_time env) (ts @ (if ret = RBUS_ERROR_SUCCESS then [re_time env] else [])) s'"
| other: "reset_run s0 now ts s \<Longrightarrow> start_time s' = start_time s \<Longrightarrow> force_reset_call_count s' = force_reset_call_count s \<Longrightarrow>
    reset_run s0 now ts s'"

text \<open>The successes come in windows of three; a window starts with its first success, a day
  after the one before at the earliest.\<close>

definition windows :: "int list \<Rightarrow> bool" where
  "windows ts \<longleftrightarrow> sorted ts \<and> (\<forall>k. 3 * k + 3 < length ts \<longrightarrow> ts ! (3 * k) + MAX_FORCE_RESET_TIME_SECS \<le> ts ! (3 * k + 3))"

definition window_state :: "int \<Rightarrow> int list \<Rightarrow> int \<Rightarrow> int \<Rightarrow> bool" where
  "window_state now ts start count \<longleftrightarrow> windows ts \<and> (\<forall>t\<in>set ts. t \<le> now) \<and>
     (\<exists>m c. length ts = 3 * m + c \<and> int c = count \<and> c \<le> 3 \<and>
        (0 < c \<longrightarrow> ts ! (3 * m) = start) \<and> (c = 0 \<and> 0 < m \<longrightarrow> ts ! (3 * m - 3) + MAX_FORCE_RESET_TIME_SECS \<le> now))"

lemma sorted_snoc: "sorted ts \<Longrightarrow> \<forall>t\<in>set ts. t \<le> (x :: int) \<Longrightarrow> sorted (ts @ [x])"
  by (simp add: sorted_append)

lemma window_state_later: "window_state now ts start count \<Longrightarrow> now \<le> now' \<Longrightarrow> window_state now' ts start count"
proof -
  assume a: "window_state now ts start count" "now \<le> now'"
  then obtain m c where mc: "length ts = 3 * m + c" "int c = count" "c \<le> 3" "0 < c \<longrightarrow> ts ! (3 * m) = start"
      "c = 0 \<and> 0 < m \<longrightarrow> ts ! (3 * m - 3) + MAX_FORCE_RESET_TIME_SECS \<le> now" "windows ts" "\<forall>t\<in>set ts. t \<le> now"
    unfolding window_state_def by blast
  then show ?thesis using a(2) unfolding window_state_def
    by (intro conjI exI [of _ m] exI [of _ c]) (auto intro: order_trans)
qed

lemma window_state_open: "window_state now ts start 0 \<Longrightarrow> window_state now ts start' 0"
  by (auto simp: window_state_def)

lemma window_state_roll:
  assumes "window_state now ts start count" "\<not> count < 3" "start + MAX_FORCE_RESET_TIME_SECS \<le> now"
  shows "window_state now ts start' 0"
proof -
  from assms(1) obtain m c where mc: "length ts = 3 * m + c" "int c = count" "c \<le> 3" "0 < c \<longrightarrow> ts ! (3 * m) = start"
    unfolding window_state_def by blast
  with assms(2) have "c = 3" by simp
  then have "length ts = 3 * Suc m + 0 \<and> ts ! (3 * Suc m - 3) + MAX_FORCE_RESET_TIME_SECS \<le> now"
    using mc assms(3) by simp
  then have "\<exists>m c. length ts = 3 * m + c \<and> int c = 0 \<and> c \<le> 3 \<and> (0 < c \<longrightarrow> ts ! (3 * m) = start') \<and>
      (c = 0 \<and> 0 < m \<longrightarrow> ts ! (3 * m - 3) + MAX_FORCE_RESET_TIME_SECS \<le> now)"
    by (intro exI [of _ "Suc m"] exI [of _ 0]) simp
  with assms(1) show ?thesis by (simp add: window_state_def)
qed

lemma window_state_success:
  assumes "window_state now ts start count" "count < 3" "count = 0 \<Longrightarrow> start = now"
  shows "window_state now (ts @ [now]) start (count + 1)"
proof -
  from assms(1) obtain m c where mc: "length ts = 3 * m + c" "int c = count" "0 < c \<longrightarrow> ts ! (3 * m) = start"
      "c = 0 \<and> 0 < m \<longrightarrow> ts ! (3 * m - 3) + MAX_FORCE_RESET_TIME_SECS \<le> now"
    and w: "windows ts" "\<forall>t\<in>set ts. t \<le> now"
    unfolding window_state_def by blast
  have c: "c < 3" using mc(2) assms(2) by simp
  have "(ts @ [now]) ! (3 * k) + MAX_FORCE_RESET_TIME_SECS \<le> (ts @ [now]) ! (3 * k + 3)" if k: "3 * k + 3 < Suc (length ts)" for k
  proof (cases "3 * k + 3 < length ts")
    case True
    with w(1) show ?thesis by (simp add: windows_def nth_append)
  next
    case False
    with k have l: "length ts = 3 * k + 3" by simp
    with mc(1) c have "c = 0 \<and> m = Suc k" by presburger
    with mc(4) l show ?thesis by (simp add: nth_append)
  qed
  then have "windows (ts @ [now])" using w by (simp add: windows_def sorted_snoc)
  moreover have "(ts @ [now]) ! (3 * m) = start" using mc assms(3) by (cases "c = 0") (simp_all add: nth_append)
  then have "\<exists>m c. length (ts @ [now]) = 3 * m + c \<and> int c = count + 1 \<and> c \<le> 3 \<and> (0 < c \<longrightarrow> (ts @ [now]) ! (3 * m) = start) \<and>
      (c = 0 \<and> 0 < m \<longrightarrow> (ts @ [now]) ! (3 * m - 3) + MAX_FORCE_RESET_TIME_SECS \<le> now)"
    using mc(1,2) c by (intro exI [of _ m] exI [of _ "Suc c"]) simp
  ultimately show ?thesis using w(2) by (simp add: window_state_def)
qed

text \<open>The gate keeps the windows, and opens only when a window has room.\<close>

lemma reset_gate_window:
  assumes "window_state now ts (start_time s) (force_reset_call_count s)" "now \<le> now'" "reset_gate now' s = (go, s1)"
  shows "window_state now' ts (start_time s1) (force_reset_call_count s1) \<and>
    (go \<longrightarrow> force_reset_call_count s1 < 3 \<and> (force_reset_call_count s1 = 0 \<longrightarrow> start_time s1 = now'))"
proof -
  note w = window_state_later [OF assms(1,2)]
  consider (zero) "force_reset_call_count s = 0" | (room) "force_reset_call_count s \<noteq> 0" "force_reset_call_count s < 3"
    | (full) "\<not> force_reset_call_count s < 3" by fastforce
  then show ?thesis
  proof cases
    case zero
    with w assms(3) show ?thesis by (auto simp: reset_gate_eq intro: window_state_open)
  next
    case room
    with w assms(3) show ?thesis by (auto simp: reset_gate_eq MAX_FORCE_RESET_SET_COUNT_def)
  next
    case full
    with w assms(3) window_state_roll [OF w full, of now'] show ?thesis
      by (auto simp: reset_gate_eq MAX_FORCE_RESET_SET_COUNT_def split: if_splits)
  qed
qed

lemma reset_run_window:
  assumes "reset_run s0 now ts s" "force_reset_call_count s0 = 0"
  shows "window_state now ts (start_time s) (force_reset_call_count s)"
  using assms(1)
proof induction
  case (start now)
  then show ?case using assms(2) by (auto simp: window_state_def windows_def)
next
  case (call now ts s env p ret s')
  obtain go s1 where g: "reset_gate (re_time env) s = (go, s1)" by fastforce
  note w = reset_gate_window [OF call.IH call.hyps(2) g]
  note c = force_reset_counter [OF call.hyps(3)]
  show ?case
  proof (cases "ret = RBUS_ERROR_SUCCESS")
    case True
    with c g have "go" by simp
    with w have "window_state (re_time env) (ts @ [re_time env]) (start_time s1) (force_reset_call_count s1 + 1)"
      by (intro window_state_success) simp_all
    with True c g show ?thesis by simp
  next
    case False
    with w c g show ?thesis by simp
  qed
next
  case (other now ts s s')
  then show ?case by simp
qed

text \<open>C16: the limit of resets by force. However the calls of the handler are timed, and whatever
  happens between them, among six resets in a row that succeeded the last is at least a day after
  the first: five resets, not three, is what any day allows. (A reset succeeds only after the
  documents were reset, the event published and the sync triggered.)\<close>

theorem force_reset_limit:
  assumes "reset_run s0 now ts s" "force_reset_call_count s0 = 0" "i + 5 < length ts"
  shows "24 * 60 * 60 \<le> ts ! (i + 5) - ts ! i"
proof -
  have w: "windows ts" using reset_run_window [OF assms(1,2)] by (simp add: window_state_def)
  obtain k where k: "i \<le> 3 * k" "3 * k + 3 \<le> i + 5"
  proof -
    have "i \<le> 3 * ((i + 2) div 3) \<and> 3 * ((i + 2) div 3) + 3 \<le> i + 5" by presburger
    then show thesis using that by blast
  qed
  have "ts ! i \<le> ts ! (3 * k)" "ts ! (3 * k + 3) \<le> ts ! (i + 5)"
    using w k assms(3) by (auto simp: windows_def intro!: sorted_nth_mono)
  moreover have "ts ! (3 * k) + MAX_FORCE_RESET_TIME_SECS \<le> ts ! (3 * k + 3)"
    using w k assms(3) by (simp add: windows_def)
  ultimately show ?thesis by (simp add: MAX_FORCE_RESET_TIME_SECS_def)
qed

text \<open>A request without names succeeds on the example device, whenever the gate is open.\<close>

definition empty_request :: rbusProperty where
  "empty_request = \<lparr>rp_key = Some WEBCFG_SUBDOC_FORCERESET_PARAM, rp_val = Some (RV_STRING [])\<rparr>"

lemma set_rbus_ForceSync_root:
  assumes "fe_json env ''root'' = None"
  shows "\<exists>r s'. set_rbus_ForceSync env (Some ''root'') s = Some (r, s')"
  using assms by (simp add: set_rbus_ForceSync_def parseForceSyncJson_def)

lemma empty_request_ok:
  fixes s :: "'z rbus_st_scheme"
  assumes "RfcVal s" "mem_ok s" "fst (reset_gate now s)"
  shows "\<exists>s'. webcfgSubdocForceResetSetHandler (demo_rbus now) empty_request s = Some (RBUS_ERROR_SUCCESS, s') \<and>
    RfcVal s' \<and> mem_ok s'"
proof -
  obtain s1 where g: "reset_gate now s = (True, s1)" using assms(3) by (cases "reset_gate now s") simp
  obtain t c where s1: "s1 = s\<lparr>start_time := t, force_reset_call_count := c\<rparr>" using reset_gate_form [of now s] g by auto
  let ?s2 = "snd (publishSubdocResetEvent (demo_rbus now) [] s1)"
  have m: "mem_ok ?s2" "RfcVal ?s2" using assms(1,2) by (simp_all add: s1 publishSubdocResetEvent_def publish_def)
  have j: "fe_json demo_force ''root'' = None" by (simp add: demo_force_def)
  obtain r s3 where t: "set_rbus_ForceSync demo_force (Some ''root'') (?s2\<lparr>g_webcfg_forcedsync_needed := 1\<rparr>) = Some (r, s3)"
    using set_rbus_ForceSync_root [OF j] by blast
  then have tr: "trigger_webcfg_forcedsync demo_force ?s2 = Some s3" by (simp add: trigger_webcfg_forcedsync_def)
  have "request_effect (?s2\<lparr>g_webcfg_forcedsync_needed := 1\<rparr>) s3"
    using set_rbus_ForceSync_effect [OF _ t] m by simp
  then have m3: "mem_ok s3" "RfcVal s3" using m by (auto simp: request_effect_def)
  have "strtok_all '','' [] = []" by (simp add: strtok_all.simps strtok_def)
  then have n: "reset_names [] = Some []" by (simp add: reset_names_def fit_def)
  have rc: "fst (publishSubdocResetEvent (demo_rbus now) [] s1) = RBUS_ERROR_SUCCESS"
    by (simp add: publishSubdocResetEvent_def publish_def demo_rbus_def)
  have e: "re_force (demo_rbus now) = demo_force" "re_time (demo_rbus now) = now" by (simp_all add: demo_rbus_def)
  have "reset_subdocs (demo_rbus now) [] s1 = Some (RBUS_ERROR_SUCCESS, s3)"
    using n rc tr e by (simp add: reset_subdocs_def split: prod.split) auto
  then have "webcfgSubdocForceResetSetHandler (demo_rbus now) empty_request s =
      Some (RBUS_ERROR_SUCCESS, s3\<lparr>force_reset_call_count := force_reset_call_count s3 + 1\<rparr>)"
    using g assms(1,2) e by (simp add: webcfgSubdocForceResetSetHandler_def empty_request_def isRfcEnabled_def s1)
  then show ?thesis using m3 by simp
qed

definition reset_reached :: "int \<Rightarrow> int list \<Rightarrow> int \<Rightarrow> int \<Rightarrow> bool" where
  "reset_reached now ts st c \<longleftrightarrow> (\<exists>s. reset_run (rbus_st0\<lparr>RfcVal := True\<rparr>) now ts s \<and> RfcVal s \<and> mem_ok s \<and>
     start_time s = st \<and> force_reset_call_count s = c)"

lemma reset_reached_call:
  assumes "reset_reached now ts st c" "now \<le> t" "c < 3 \<or> st + MAX_FORCE_RESET_TIME_SECS \<le> t"
  shows "reset_reached t (ts @ [t]) (if c = 0 \<or> 3 \<le> c then t else st) (if c < 3 then c + 1 else 1)"
proof -
  obtain s where s: "reset_run (rbus_st0\<lparr>RfcVal := True\<rparr>) now ts s" "RfcVal s" "mem_ok s" "start_time s = st"
    "force_reset_call_count s = c" using assms(1) by (auto simp: reset_reached_def)
  have g: "fst (reset_gate t s)" using assms(3) s by (auto simp: reset_gate_eq MAX_FORCE_RESET_SET_COUNT_def)
  obtain s' where s': "webcfgSubdocForceResetSetHandler (demo_rbus t) empty_request s = Some (RBUS_ERROR_SUCCESS, s')"
    "RfcVal s'" "mem_ok s'" using empty_request_ok [OF s(2,3) g] by blast
  have e: "re_time (demo_rbus t) = t" by (simp add: demo_rbus_def)
  from reset_run.call [OF s(1) _ s'(1)] assms(2) have "reset_run (rbus_st0\<lparr>RfcVal := True\<rparr>) t (ts @ [t]) s'" by (simp add: e)
  with force_reset_counter [OF s'(1)] s' s show ?thesis
    unfolding reset_reached_def e by (intro exI [of _ s']) (auto simp: reset_gate_eq MAX_FORCE_RESET_SET_COUNT_def split: if_splits)
qed

theorem force_reset_limit_witness:
  "\<exists>now s. reset_run (rbus_st0\<lparr>RfcVal := True\<rparr>) now [0, 86399, 86399, 86400, 86400, 86400] s \<and>
     (24 * 60 * 60 :: int) \<le> [0, 86399, 86399, 86400, 86400, 86400] ! (0 + 5) - [0, 86399, 86399, 86400, 86400, 86400] ! 0"
proof -
  have "reset_reached 0 [] 0 0" by (auto simp: reset_reached_def intro!: exI [of _ "rbus_st0\<lparr>RfcVal := True\<rparr>"] reset_run.start)
      (simp add: rbus_st0_def force_st.defs)
  note r = reset_reached_call [OF this, of 0, simplified]
  note r = reset_reached_call [OF r, of 86399, simplified]
  note r = reset_reached_call [OF r, of 86399, simplified]
  note r = reset_reached_call [OF r, of 86400, simplified MAX_FORCE_RESET_TIME_SECS_def, simplified]
  note r = reset_reached_call [OF r, of 86400, simplified]
  note r = reset_reached_call [OF r, of 86400, simplified]
  then obtain s where s: "reset_run (rbus_st0\<lparr>RfcVal := True\<rparr>) 86400 [0, 86399, 86399, 86400, 86400, 86400] s"
    by (auto simp: reset_reached_def)
  have "force_reset_call_count (rbus_st0\<lparr>RfcVal := True\<rparr>) = 0" by simp
  from force_reset_limit [OF s this, of 0] s show ?thesis by (intro exI conjI) simp_all
qed

section \<open>What a reset by force does\<close>

lemma check_subdoc_walk_map:
  "None \<notin> set (db_names ds) \<Longrightarrow>
   check_subdoc_walk d ds = Some (if db_map ds d = None then ERROR_ELEMENT_DOES_NOT_EXIST else ERROR_SUCCESS)"
  by (induction ds) (auto simp: db_names_def split: option.splits)

lemma checkSubdocInDb_map:
  assumes "db_inv s"
  shows "\<exists>ret. checkSubdocInDb d s = Some ret \<and> (ret = ERROR_SUCCESS \<longleftrightarrow> db_map (webcfgdb_data s) d \<noteq> None)"
  using assms check_subdoc_walk_map [of "webcfgdb_data s" d] by (auto simp: checkSubdocInDb_def db_inv_def)

lemma check_names_map:
  assumes "db_inv s"
  shows "check_names ds s = Some (\<forall>d\<in>set ds. db_map (webcfgdb_data s) d \<noteq> None)"
proof (induction ds)
  case (Cons d ds)
  obtain ret where "checkSubdocInDb d s = Some ret" "ret = ERROR_SUCCESS \<longleftrightarrow> db_map (webcfgdb_data s) d \<noteq> None"
    using checkSubdocInDb_map [OF assms] by blast
  with Cons show ?case by auto
qed simp

text \<open>The entry of a document in the list in progress, back at version 0.\<close>

definition tmp_zero :: "webconfig_tmp_data \<Rightarrow> webconfig_tmp_data" where
  "tmp_zero t = t\<lparr>tmp_version := 0\<rparr>"

lemma tmp_update_zero:
  "tmp_update 0 (tmp_status t) (tmp_error_details t) (tmp_error_code t) (tmp_trans_id t) (tmp_retry_count t) t = tmp_zero t"
  by (simp add: tmp_update_def tmp_zero_def)

text \<open>What the two lists hold, as maps; what a reset of a document makes of them.\<close>

definition docs_view :: "'z db_st_scheme \<Rightarrow> (string \<Rightarrow> (u32 \<times> string option) option) \<times> (string \<Rightarrow> webconfig_tmp_data option)" where
  "docs_view s = (db_map (webcfgdb_data s), \<lambda>d. tmp_lookup d s)"

definition reset_view ::
  "string set \<Rightarrow> (string \<Rightarrow> (u32 \<times> string option) option) \<times> (string \<Rightarrow> webconfig_tmp_data option) \<Rightarrow>
   (string \<Rightarrow> (u32 \<times> string option) option) \<times> (string \<Rightarrow> webconfig_tmp_data option)" where
  "reset_view ds v =
     ((\<lambda>d. if d \<in> ds then map_option (\<lambda>(_, r). (0, if d = ''root'' then None else r)) (fst v d) else fst v d),
      (\<lambda>d. if d \<in> ds then map_option tmp_zero (snd v d) else snd v d))"

lemma tmp_lookup_node: "getTmpNode d s = Some i \<Longrightarrow> tmp_lookup d s = Some (tmp_node i s)"
proof -
  assume "getTmpNode d s = Some i"
  then have "find_idx (\<lambda>t. tmp_name t = d) (g_head s) = Some i" by (simp add: getTmpNode_def tmp_search_find_idx)
  then show ?thesis
    using tl.lookup_find [of "g_head s" d] by (simp add: tmp_lookup_def tmp_node_def tl.get_eq_find_idx)
qed

lemma resetSubdocVersion_spec:
  assumes "db_inv s" "db_map (webcfgdb_data s) d \<noteq> None"
  shows "\<exists>s'. resetSubdocVersion env d s = Some (ERROR_SUCCESS, s') \<and> db_inv s' \<and> docs_view s' = reset_view {d} (docs_view s)"
proof -
  have names: "None \<notin> set (db_names (webcfgdb_data s))" using assms(1) by (simp add: db_inv_def)
  from updateDB_walk_spec [OF names, of d 0 None] assms(2) obtain st ds' where
    w: "updateDB_walk d 0 None (webcfgdb_data s) = Some (st, ds')" "db_names ds' = db_names (webcfgdb_data s)"
      "st \<noteq> WEBCFG_FAILURE" "db_map ds' = db_update d 0 None (db_map (webcfgdb_data s))"
    by (elim exE conjE) (metis that)
  let ?s1 = "s\<lparr>webcfgdb_data := ds'\<rparr>"
  have u: "updateDBlist d 0 None s = Some (st, ?s1)" by (simp add: updateDBlist_def w(1))
  define s2 where "s2 = snd (addNewDocEntry (ae_write env) (ae_can_open env) (nat (success_doc_count ?s1)) ?s1)"
  have s2: "webcfgdb_data s2 = ds'" "success_doc_count s2 = success_doc_count s" "\<And>x. tmp_lookup x s2 = tmp_lookup x s"
    by (simp_all add: s2_def addNewDocEntry_def writeToDBFile_def tmp_lookup_def split: option.split)
  have len: "length ds' = length (webcfgdb_data s)" using w(2) by (metis db_names_def length_map)
  have inv: "db_inv s2" using assms(1) w(2) len by (simp add: db_inv_def s2)
  have m: "db_map ds' x = fst (reset_view {d} (docs_view s)) x" for x
    using w(4) assms(2) by (auto simp: db_update_def reset_view_def docs_view_def split: option.splits)
  show ?thesis
  proof (cases "getTmpNode d s2")
    case None
    then have "tmp_lookup d s2 = None"
      using tl.lookup_find [of "g_head s2" d] by (simp add: getTmpNode_def tmp_lookup_def)
    then have "docs_view s2 = reset_view {d} (docs_view s)"
      using m by (simp add: docs_view_def reset_view_def s2 fun_eq_iff)
    moreover have "resetSubdocVersion env d s = Some (ERROR_SUCCESS, s2)"
      using None u w(3) by (simp add: resetSubdocVersion_def s2_def Let_def)
    ultimately show ?thesis using inv by blast
  next
    case (Some i)
    let ?t = "tmp_node i s2"
    let ?r = "updateTmpList (Some i) d 0 (tmp_status ?t) (tmp_error_details ?t) (tmp_error_code ?t) (tmp_trans_id ?t) (tmp_retry_count ?t) s2"
    have "webcfgdb_data (snd ?r) = webcfgdb_data s2" "success_doc_count (snd ?r) = success_doc_count s2"
      by (simp_all add: updateTmpList_def)
    moreover have "tmp_lookup x (snd ?r) = (if x = d then Some (tmp_zero ?t) else tmp_lookup x s2)" for x
      using updateTmpList_lookup [OF Some, THEN conjunct2, of x] tmp_lookup_node [OF Some] by (simp add: tmp_update_zero)
    moreover have "tmp_lookup d s = Some ?t" using tmp_lookup_node [OF Some] s2(3) by simp
    ultimately have "docs_view (snd ?r) = reset_view {d} (docs_view s)" "db_inv (snd ?r)"
      using m inv by (auto simp: docs_view_def reset_view_def s2 fun_eq_iff db_inv_def)
    moreover have "resetSubdocVersion env d s = Some (ERROR_SUCCESS, snd ?r)"
      using Some u w(3) by (simp add: resetSubdocVersion_def s2_def Let_def)
    ultimately show ?thesis by blast
  qed
qed

lemma reset_view_Un: "reset_view B (reset_view A v) = reset_view (A \<union> B) v"
  by (auto simp: reset_view_def tmp_zero_def fun_eq_iff option.map_comp comp_def intro!: option.map_cong split: prod.split)

lemma reset_view_dom: "fst (reset_view A v) d = None \<longleftrightarrow> fst v d = None"
  by (auto simp: reset_view_def)

lemma reset_versions_spec:
  assumes "db_inv s" "\<forall>d\<in>set ds. db_map (webcfgdb_data s) d \<noteq> None"
  shows "\<exists>s'. reset_versions env ds s = Some (True, s') \<and> db_inv s' \<and> docs_view s' = reset_view (set ds) (docs_view s)"
  using assms
proof (induction ds arbitrary: s)
  case Nil
  then show ?case by (simp add: reset_view_def docs_view_def)
next
  case (Cons d ds)
  then obtain s1 where s1: "resetSubdocVersion env d s = Some (ERROR_SUCCESS, s1)" "db_inv s1"
      "docs_view s1 = reset_view {d} (docs_view s)" using resetSubdocVersion_spec [of s d env] by auto
  have "db_map (webcfgdb_data s1) x = None \<longleftrightarrow> db_map (webcfgdb_data s) x = None" for x
    using s1(3) reset_view_dom [of "{d}" "docs_view s" x] by (metis docs_view_def fst_conv)
  then have "\<forall>x\<in>set ds. db_map (webcfgdb_data s1) x \<noteq> None" using Cons.prems(2) by simp
  from Cons.IH [OF s1(2) this] obtain s' where "reset_versions env ds s1 = Some (True, s')" "db_inv s'"
      "docs_view s' = reset_view (set ds) (docs_view s1)" by blast
  then show ?case using s1 by (auto simp: reset_view_Un)
qed

lemma reset_trigger_effect:
  fixes s :: "'z force_st_scheme"
  assumes "mem_ok s" "fe_json env ''root'' = None"
  obtains s' where "trigger_webcfg_forcedsync env s = Some s'" "queue_vals s' = queued_vals ''root'' (queue_vals s)"
    "webcfgdb_data s' = webcfgdb_data s" "g_head s' = g_head s" "success_doc_count s' = success_doc_count s"
proof -
  let ?s = "s\<lparr>g_webcfg_forcedsync_needed := 1\<rparr>"
  have p: "parseForceSyncJson env ''root'' = Some (0, None, None)" using assms(2) by (simp add: parseForceSyncJson_def)
  have v: "poke_value ''root'' None = ''root''" by (simp add: poke_value_def webcfgStrncpy_def fit_def)
  let ?f = "?s\<lparr>ForceSync := ''root''\<rparr>"
  have fe: "set_rbus_ForceSync env (Some ''root'') ?s = Some (request_sync (fe_uuid env) ?f)"
    using set_rbus_ForceSync_poke [OF _ p, of ?s] by (simp add: v)
  obtain r s' where q: "request_sync (fe_uuid env) ?f = (r, s')" by fastforce
  have m: "mem_ok ?f" using assms(1) by simp
  have t: "set_rbus_ForceSync env (Some ''root'') ?s = Some (r, s')" by (simp add: fe q)
  then have "request_effect ?s s'" using assms(1) by (intro set_rbus_ForceSync_effect) simp_all
  then have k: "webcfgdb_data s' = webcfgdb_data s" "g_head s' = g_head s" "success_doc_count s' = success_doc_count s"
    by (auto simp: request_effect_def)
  have "queue_vals s' = queued_vals ''root'' (queue_vals s)"
    using request_sync_vals(1) [OF m q] by (simp add: queue_vals_def)
  moreover have "trigger_webcfg_forcedsync env s = Some s'" by (simp add: trigger_webcfg_forcedsync_def t)
  ultimately show thesis using k by (intro that)
qed

lemma docs_view_cong:
  "webcfgdb_data s' = webcfgdb_data s \<Longrightarrow> g_head s' = g_head s \<Longrightarrow> docs_view s' = docs_view s"
  by (simp add: docs_view_def tmp_lookup_def)


text \<open>A database of root, wan and lan.\<close>

definition reset_demo :: rbus_st where
  "reset_demo = rbus_st0\<lparr>RfcVal := True, success_doc_count := 3, webcfgdb_data :=
     [\<lparr>db_name = Some ''root'', db_version = 7, db_root_string = Some ''r''\<rparr>,
      \<lparr>db_name = Some ''wan'', db_version = 8, db_root_string = None\<rparr>,
      \<lparr>db_name = Some ''lan'', db_version = 9, db_root_string = None\<rparr>]\<rparr>"

lemma reset_demo_names: "reset_names ''wan'' = Some [''root'', ''wan'']"
  by (simp add: reset_names_def fit_def MAX_SUBDOC_COUNT_def MAX_SUBDOC_NAME_LEN_def strtok_all.simps strtok_def)


end
