(* ===== verification/BusIo.thy ===== *)
theory BusIo
  imports Rbus
begin

text \<open>
  What webconfig does on the bus as a client: setting and reading the parameters of other
  components, sending notifications, registering its data model, and the start of the program
  (\<open>src/src/webcfg_rbus.c\<close>, \<open>src/src/webcfg_generic.c\<close>, \<open>src/src/webcfg_wanhandle.c\<close>,
  \<open>src/src/main.c\<close>).
\<close>

section \<open>Types and codes\<close>

datatype rbusValueType =
    RBUS_BOOLEAN | RBUS_CHAR | RBUS_BYTE | RBUS_INT8 | RBUS_UINT8 | RBUS_INT16 | RBUS_UINT16 | RBUS_INT32 | RBUS_UINT32
  | RBUS_INT64 | RBUS_UINT64 | RBUS_SINGLE | RBUS_DOUBLE | RBUS_DATETIME | RBUS_STRING | RBUS_BYTES | RBUS_PROPERTY
  | RBUS_OBJECT | RBUS_NONE

text \<open>\<open>WDMP_OTHER\<close> stands for the constants that the sources do not map.\<close>

datatype DATA_TYPE =
    WDMP_STRING | WDMP_INT | WDMP_UINT | WDMP_BOOLEAN | WDMP_DATETIME | WDMP_BASE64 | WDMP_LONG | WDMP_ULONG
  | WDMP_FLOAT | WDMP_DOUBLE | WDMP_BYTE | WDMP_NONE | WDMP_OTHER

fun mapRbusToWdmpDataType :: "rbusValueType \<Rightarrow> DATA_TYPE" where
  "mapRbusToWdmpDataType RBUS_INT16 = WDMP_INT"
| "mapRbusToWdmpDataType RBUS_INT32 = WDMP_INT"
| "mapRbusToWdmpDataType RBUS_UINT16 = WDMP_UINT"
| "mapRbusToWdmpDataType RBUS_UINT32 = WDMP_UINT"
| "mapRbusToWdmpDataType RBUS_INT64 = WDMP_LONG"
| "mapRbusToWdmpDataType RBUS_UINT64 = WDMP_ULONG"
| "mapRbusToWdmpDataType RBUS_SINGLE = WDMP_FLOAT"
| "mapRbusToWdmpDataType RBUS_DOUBLE = WDMP_DOUBLE"
| "mapRbusToWdmpDataType RBUS_DATETIME = WDMP_DATETIME"
| "mapRbusToWdmpDataType RBUS_BOOLEAN = WDMP_BOOLEAN"
| "mapRbusToWdmpDataType RBUS_CHAR = WDMP_INT"
| "mapRbusToWdmpDataType RBUS_INT8 = WDMP_INT"
| "mapRbusToWdmpDataType RBUS_UINT8 = WDMP_UINT"
| "mapRbusToWdmpDataType RBUS_BYTE = WDMP_UINT"
| "mapRbusToWdmpDataType RBUS_STRING = WDMP_STRING"
| "mapRbusToWdmpDataType RBUS_BYTES = WDMP_BYTE"
| "mapRbusToWdmpDataType RBUS_PROPERTY = WDMP_NONE"
| "mapRbusToWdmpDataType RBUS_OBJECT = WDMP_NONE"
| "mapRbusToWdmpDataType RBUS_NONE = WDMP_NONE"

fun mapWdmpToRbusDataType :: "DATA_TYPE \<Rightarrow> rbusValueType" where
  "mapWdmpToRbusDataType WDMP_INT = RBUS_INT32"
| "mapWdmpToRbusDataType WDMP_UINT = RBUS_UINT32"
| "mapWdmpToRbusDataType WDMP_LONG = RBUS_INT64"
| "mapWdmpToRbusDataType WDMP_ULONG = RBUS_UINT64"
| "mapWdmpToRbusDataType WDMP_FLOAT = RBUS_SINGLE"
| "mapWdmpToRbusDataType WDMP_DOUBLE = RBUS_DOUBLE"
| "mapWdmpToRbusDataType WDMP_DATETIME = RBUS_DATETIME"
| "mapWdmpToRbusDataType WDMP_BOOLEAN = RBUS_BOOLEAN"
| "mapWdmpToRbusDataType WDMP_STRING = RBUS_STRING"
| "mapWdmpToRbusDataType WDMP_BASE64 = RBUS_STRING"
| "mapWdmpToRbusDataType WDMP_BYTE = RBUS_BYTES"
| "mapWdmpToRbusDataType WDMP_NONE = RBUS_NONE"
| "mapWdmpToRbusDataType WDMP_OTHER = RBUS_NONE"

definition CCSP_Msg_Bus_OK :: int where "CCSP_Msg_Bus_OK = 100"
definition CCSP_Msg_Bus_OOM :: int where "CCSP_Msg_Bus_OOM = 101"
definition CCSP_Msg_Bus_ERROR :: int where "CCSP_Msg_Bus_ERROR = 102"
definition CCSP_Msg_BUS_CANNOT_CONNECT :: int where "CCSP_Msg_BUS_CANNOT_CONNECT = 190"
definition CCSP_Msg_BUS_TIMEOUT :: int where "CCSP_Msg_BUS_TIMEOUT = 191"
definition CCSP_Msg_BUS_NOT_SUPPORT :: int where "CCSP_Msg_BUS_NOT_SUPPORT = 193"
definition CCSP_ERR_UNSUPPORTED_NAMESPACE :: int where "CCSP_ERR_UNSUPPORTED_NAMESPACE = 204"
definition CCSP_ERR_INVALID_PARAMETER_VALUE :: int where "CCSP_ERR_INVALID_PARAMETER_VALUE = 9007"
definition CCSP_ERR_UNSUPPORTED_PROTOCOL :: int where "CCSP_ERR_UNSUPPORTED_PROTOCOL = 9013"

lemmas ccsp_defs = CCSP_Msg_Bus_OK_def CCSP_Msg_Bus_OOM_def CCSP_Msg_Bus_ERROR_def CCSP_Msg_BUS_CANNOT_CONNECT_def
  CCSP_Msg_BUS_TIMEOUT_def CCSP_Msg_BUS_NOT_SUPPORT_def CCSP_ERR_UNSUPPORTED_NAMESPACE_def
  CCSP_ERR_INVALID_PARAMETER_VALUE_def CCSP_ERR_UNSUPPORTED_PROTOCOL_def

fun mapRbusToCcspStatus :: "rbusError \<Rightarrow> int" where
  "mapRbusToCcspStatus RBUS_ERROR_SUCCESS = CCSP_Msg_Bus_OK"
| "mapRbusToCcspStatus RBUS_ERROR_BUS_ERROR = CCSP_Msg_Bus_ERROR"
| "mapRbusToCcspStatus RBUS_ERROR_INVALID_INPUT = CCSP_ERR_INVALID_PARAMETER_VALUE"
| "mapRbusToCcspStatus RBUS_ERROR_NOT_INITIALIZED = CCSP_Msg_Bus_ERROR"
| "mapRbusToCcspStatus RBUS_ERROR_OUT_OF_RESOURCES = CCSP_Msg_Bus_OOM"
| "mapRbusToCcspStatus RBUS_ERROR_DESTINATION_NOT_FOUND = CCSP_Msg_BUS_CANNOT_CONNECT"
| "mapRbusToCcspStatus RBUS_ERROR_DESTINATION_NOT_REACHABLE = CCSP_ERR_UNSUPPORTED_NAMESPACE"
| "mapRbusToCcspStatus RBUS_ERROR_DESTINATION_RESPONSE_FAILURE = CCSP_Msg_BUS_TIMEOUT"
| "mapRbusToCcspStatus RBUS_ERROR_INVALID_RESPONSE_FROM_DESTINATION = CCSP_ERR_UNSUPPORTED_PROTOCOL"
| "mapRbusToCcspStatus RBUS_ERROR_INVALID_OPERATION = CCSP_Msg_BUS_NOT_SUPPORT"
| "mapRbusToCcspStatus RBUS_ERROR_INVALID_EVENT = CCSP_Msg_BUS_NOT_SUPPORT"
| "mapRbusToCcspStatus RBUS_ERROR_INVALID_HANDLE = CCSP_Msg_BUS_NOT_SUPPORT"
| "mapRbusToCcspStatus RBUS_ERROR_SESSION_ALREADY_EXIST = CCSP_Msg_BUS_NOT_SUPPORT"
| "mapRbusToCcspStatus RBUS_ERROR_ELEMENT_DOES_NOT_EXIST = CCSP_Msg_Bus_ERROR"
| "mapRbusToCcspStatus RBUS_ERROR_ACCESS_NOT_ALLOWED = CCSP_Msg_Bus_ERROR"
| "mapRbusToCcspStatus (RBUS_CODE n) = CCSP_Msg_Bus_ERROR"

datatype WDMP_STATUS =
    WDMP_SUCCESS | WDMP_FAILURE | WDMP_ERR_TIMEOUT | WDMP_ERR_INVALID_PARAMETER_VALUE | WDMP_ERR_UNSUPPORTED_NAMESPACE
  | WDMP_CODE int

text \<open>Without rbus the number itself is the status.\<close>

definition mapStatus :: "bool \<Rightarrow> int \<Rightarrow> WDMP_STATUS" where
  "mapStatus rbus ret =
     (if \<not> rbus then WDMP_CODE ret
      else if ret = CCSP_Msg_Bus_OK then WDMP_SUCCESS
      else if ret = CCSP_Msg_BUS_TIMEOUT then WDMP_ERR_TIMEOUT
      else if ret = CCSP_ERR_INVALID_PARAMETER_VALUE then WDMP_ERR_INVALID_PARAMETER_VALUE
      else if ret = CCSP_ERR_UNSUPPORTED_NAMESPACE then WDMP_ERR_UNSUPPORTED_NAMESPACE
      else WDMP_FAILURE)"

section \<open>What comes from outside\<close>

text \<open>\<open>bi_type\<close> reads the number of a data type; \<open>bi_set\<close>, \<open>bi_setMulti\<close>, \<open>bi_getExt\<close>,
  \<open>bi_open\<close>, \<open>bi_reg\<close> and \<open>bi_unreg\<close> are the results of the calls of rbus (the handle and
  the properties they leave with them), a property read having its type and its text, or no
  value; \<open>bi_subscribed k\<close>: a subscriber is there after \<open>k\<close> sleeps; \<open>bi_encode\<close> is
  \<open>wrp_struct_to\<close>; \<open>bi_status\<close> is the result of \<open>rbus_waitUntilSystemReady\<close>.\<close>

record wrp_event =
  we_source :: string
  we_dest :: string
  we_content_type :: string
  we_payload :: "string option"

record bus_env = rbus_env +
  bi_type :: "u16 \<Rightarrow> DATA_TYPE"
  bi_set :: "string \<Rightarrow> string \<Rightarrow> rbusError"
  bi_setMulti :: "(string option \<times> rbusValueType \<times> string option) list \<Rightarrow> rbusError"
  bi_getExt :: "string list \<Rightarrow> rbusError \<times> nat \<times> (string \<times> (rbusValueType \<times> string) option) list"
  bi_open :: "rbusError \<times> bool"
  bi_reg :: "string list \<Rightarrow> rbusError"
  bi_unreg :: "string list \<Rightarrow> rbusError"
  bi_subscribed :: "nat \<Rightarrow> bool"
  bi_encode :: "wrp_event \<Rightarrow> string"
  bi_status :: int

definition bus_enabled :: "'a bus_env_scheme \<Rightarrow> bool" where
  "bus_enabled env = fe_rbus_enabled (re_force env)"

section \<open>Setting the parameters of a component\<close>

text \<open>The status, and \<open>*ccspRetStatus\<close> where it is written.\<close>

definition blobSet_rbus ::
  "'a bus_env_scheme \<Rightarrow> string \<Rightarrow> string \<Rightarrow> 'z rbus_st_scheme \<Rightarrow> WDMP_STATUS \<times> int option" where
  "blobSet_rbus env name bufVal s =
     (if \<not> rbus_handle s then (WDMP_FAILURE, None)
      else (let ccsp = mapRbusToCcspStatus (bi_set env name bufVal) in (mapStatus (bus_enabled env) ccsp, Some ccsp)))"

text \<open>The type of each parameter on the bus, up to the first one that has none.\<close>

definition bus_type :: "'a bus_env_scheme \<Rightarrow> req_param \<Rightarrow> rbusValueType" where
  "bus_type env p = mapWdmpToRbusDataType (bi_type env (rp_type p))"

definition typed_params :: "'a bus_env_scheme \<Rightarrow> req_param list \<Rightarrow> req_param list" where
  "typed_params env ps = takeWhile (\<lambda>p. bus_type env p \<noteq> RBUS_NONE) ps"

text \<open>\<open>None\<close>: values behind a parameter of an invalid type are released without having been
  initialised.\<close>

definition setValues_rbus ::
  "'a bus_env_scheme \<Rightarrow> req_param list \<Rightarrow> 'z rbus_st_scheme \<Rightarrow> (WDMP_STATUS \<times> int option) option" where
  "setValues_rbus env paramVal s =
     (if \<not> rbus_handle s then Some (WDMP_FAILURE, None)
      else (let cnt = length (typed_params env paramVal)
            in if Suc cnt < length paramVal then None
               else (let ret = (if cnt = length paramVal
                                then bi_setMulti env (map (\<lambda>p. (rp_name p, bus_type env p, rp_value p)) paramVal)
                                else RBUS_ERROR_INVALID_INPUT);
                         ccsp = mapRbusToCcspStatus ret
                     in Some (mapStatus (bus_enabled env) ccsp, Some ccsp))))"

text \<open>\<open>setValues\<close> of the platform layer; the component's status is 0 when it was not written,
  and both are left alone when rbus is not enabled.\<close>

definition setValues ::
  "'a bus_env_scheme \<Rightarrow> req_param list \<Rightarrow> 'z rbus_st_scheme \<Rightarrow> (WDMP_STATUS \<times> int) option option" where
  "setValues env paramVal s =
     (if \<not> bus_enabled env then Some None
      else map_option (\<lambda>(ret, ccsp). Some (ret, case ccsp of None \<Rightarrow> 0 | Some c \<Rightarrow> c)) (setValues_rbus env paramVal s))"

section \<open>Reading the parameters of a component\<close>

text \<open>The entries of \<open>*paramArr\<close> that are written, \<open>*retValCount\<close> where it is written, and the
  status; \<open>None\<close>: the bus announces more properties than it returns.\<close>

fun read_props ::
  "nat \<Rightarrow> (string \<times> (rbusValueType \<times> string) option) list \<Rightarrow> (string \<times> string \<times> DATA_TYPE) option list option" where
  "read_props 0 props = Some []"
| "read_props (Suc n) [] = None"
| "read_props (Suc n) ((name, v) # props) =
     map_option (\<lambda>r. map_option (\<lambda>(t, txt). (name, txt, mapRbusToWdmpDataType t)) v # r) (read_props n props)"

definition getValues_rbus ::
  "'a bus_env_scheme \<Rightarrow> string list \<Rightarrow> 'z rbus_st_scheme \<Rightarrow>
   ((string \<times> string \<times> DATA_TYPE) option list \<times> nat option \<times> WDMP_STATUS) option" where
  "getValues_rbus env paramName s =
     (if \<not> rbus_handle s then Some ([], None, WDMP_FAILURE)
      else (case bi_getExt env paramName of
          (rc, resCount, props) \<Rightarrow>
            if rc \<noteq> RBUS_ERROR_SUCCESS \<or> props = [] \<or> resCount \<noteq> length paramName then Some ([], None, WDMP_FAILURE)
            else map_option
                   (\<lambda>arr. if list_all (\<lambda>x. x = None) arr then (arr, None, WDMP_FAILURE) else (arr, Some resCount, WDMP_SUCCESS))
                   (read_props resCount props)))"

section \<open>Notifications\<close>

text \<open>The number of sleeps of 5 seconds until a subscriber is there or the time is over.\<close>

function wait_loop :: "(nat \<Rightarrow> bool) \<Rightarrow> nat \<Rightarrow> nat \<Rightarrow> nat" where
  "wait_loop sub n count =
     (if sub count then count
      else if n \<le> Suc count then Suc count
      else wait_loop sub n (Suc count))"
  by pat_completeness auto
termination by (relation "measure (\<lambda>(sub, n, count). n - count)") auto

declare wait_loop.simps [simp del]

definition waitForUpstreamEventSubscribe ::
  "'a bus_env_scheme \<Rightarrow> nat \<Rightarrow> 'z rbus_st_scheme \<Rightarrow> nat \<times> 'z rbus_st_scheme" where
  "waitForUpstreamEventSubscribe env wait_time s =
     (let sub = (\<lambda>k. if k = 0 then subscribed s \<noteq> 0 else bi_subscribed env k);
          k = wait_loop sub (wait_time div 5) 0
      in (k, s\<lparr>subscribed := (if k = 0 then subscribed s else if bi_subscribed env k then 1 else 0)\<rparr>))"

definition sendNotification_rbus ::
  "'a bus_env_scheme \<Rightarrow> string option \<Rightarrow> string option \<Rightarrow> string option \<Rightarrow> 'z rbus_st_scheme \<Rightarrow> 'z rbus_st_scheme" where
  "sendNotification_rbus env payload source destination s =
     (case (source, destination) of
        (Some src, Some dest) \<Rightarrow>
          if mem_ok s then
            (let msg = \<lparr>we_source = src, we_dest = dest, we_content_type = ''application/json'', we_payload = payload\<rparr>;
                 s1 = (if subscribed s = 0 then snd (waitForUpstreamEventSubscribe env 30 s) else s)
             in if subscribed s1 \<noteq> 0
                then snd (publish (rbus_env.truncate env) WEBCFG_UPSTREAM_EVENT (RV_BYTES (bi_encode env msg)) s1)
                else s1)
          else s
      | _ \<Rightarrow> s)"

definition sendNotification ::
  "'a bus_env_scheme \<Rightarrow> string option \<Rightarrow> string option \<Rightarrow> string option \<Rightarrow> 'z rbus_st_scheme \<Rightarrow> 'z rbus_st_scheme" where
  "sendNotification env payload source destination s =
     (if bus_enabled env then sendNotification_rbus env payload source destination s else s)"

section \<open>Events from other components\<close>

definition WEBCFG_EVENT_NAME :: string where "WEBCFG_EVENT_NAME = ''webconfigSignal''"

text \<open>A component reports the result of a document by setting this element; \<open>data\<close> is the text
  of the value, cut to the buffer of 128 bytes.\<close>

definition rbusWebcfgEventHandler :: "string option \<Rightarrow> string option \<Rightarrow> 'z rbus_st_scheme \<Rightarrow> rbusError \<times> 'z rbus_st_scheme" where
  "rbusWebcfgEventHandler paramName data s =
     (RBUS_ERROR_SUCCESS,
      case (paramName, data) of
        (Some name, Some d) \<Rightarrow> if is_param name WEBCFG_EVENT_NAME then webcfgCallback (webcfgStrncpy d 128) s else s
      | _ \<Rightarrow> s)"

definition registerRBUSEventElement :: "'a bus_env_scheme \<Rightarrow> 'z rbus_st_scheme \<Rightarrow> rbusError" where
  "registerRBUSEventElement env s = (if rbus_handle s then bi_reg env [WEBCFG_EVENT_NAME] else RBUS_ERROR_BUS_ERROR)"

definition removeRBUSEventElement :: "'a bus_env_scheme \<Rightarrow> 'z rbus_st_scheme \<Rightarrow> rbusError" where
  "removeRBUSEventElement env s = (if rbus_handle s then bi_unreg env [WEBCFG_EVENT_NAME] else RBUS_ERROR_BUS_ERROR)"

definition registerWebcfgEvent :: "'a bus_env_scheme \<Rightarrow> 'z rbus_st_scheme \<Rightarrow> int" where
  "registerWebcfgEvent env s = (if bus_enabled env \<and> registerRBUSEventElement env s = RBUS_ERROR_SUCCESS then 1 else 0)"

definition unregisterWebcfgEvent :: "'a bus_env_scheme \<Rightarrow> 'z rbus_st_scheme \<Rightarrow> int" where
  "unregisterWebcfgEvent env s = (if bus_enabled env \<and> removeRBUSEventElement env s = RBUS_ERROR_SUCCESS then 1 else 0)"

section \<open>Changes of the WAN\<close>

definition set_global_interface :: "string \<Rightarrow> 'z http_st_scheme \<Rightarrow> 'z http_st_scheme" where
  "set_global_interface value s = s\<lparr>g_interface := fit 32 value\<rparr>"

text \<open>The active interface has changed: the values are those of the event, when it has them.\<close>

definition interface_event ::
  "'a bus_env_scheme \<Rightarrow> string option \<Rightarrow> string option \<Rightarrow> 'z rbus_st_scheme \<Rightarrow> 'z rbus_st_scheme option" where
  "interface_event env newValue oldValue s =
     (case newValue of
        None \<Rightarrow> Some s
      | Some interface \<Rightarrow>
          (let s1 = set_global_interface interface s
           in if oldValue \<noteq> None \<and> webcfgReady s1 then trigger_webcfg_forcedsync (re_force env) s1 else Some s1))"

text \<open>The status of the WAN has changed.\<close>

definition wan_status_event :: "'a bus_env_scheme \<Rightarrow> string option \<Rightarrow> 'z rbus_st_scheme \<Rightarrow> 'z rbus_st_scheme option" where
  "wan_status_event env newValue s =
     (if newValue = Some ''Up'' \<and> webcfgReady s then trigger_webcfg_forcedsync (re_force env) s else Some s)"

section \<open>Start of the program\<close>

definition webconfigRbusInit :: "'a bus_env_scheme \<Rightarrow> 'z rbus_st_scheme \<Rightarrow> WEBCFG_STATUS \<times> 'z rbus_st_scheme" where
  "webconfigRbusInit env s =
     (case bi_open env of
        (ret, handle) \<Rightarrow>
          if ret \<noteq> RBUS_ERROR_SUCCESS then (WEBCFG_FAILURE, s\<lparr>rbus_handle := handle\<rparr>)
          else (WEBCFG_SUCCESS, s\<lparr>rbus_handle := handle, ForceSyncMsgQ := []\<rparr>))"

definition dataElements1 :: "string list" where
  "dataElements1 = [WEBCFG_RFC_PARAM, WEBCFG_DATA_PARAM, WEBCFG_SUPPORTED_DOCS_PARAM, WEBCFG_SUPPORTED_VERSION_PARAM,
     WEBCFG_SUBDOC_FORCERESET_PARAM, WEBCFG_UPSTREAM_EVENT, WEBCFG_UTIL_METHOD]"

definition dataElements2 :: "string list" where
  "dataElements2 = [WEBCFG_URL_PARAM, WEBCFG_FORCESYNC_PARAM, WEBCFG_SUPPLEMENTARY_TELEMETRY_PARAM]"

definition regWebConfigDataModel :: "'a bus_env_scheme \<Rightarrow> 'z rbus_st_scheme \<Rightarrow> WEBCFG_STATUS \<times> 'z rbus_st_scheme" where
  "regWebConfigDataModel env s =
     (if \<not> rbus_handle s then (WEBCFG_FAILURE, s)
      else if bi_reg env dataElements1 = RBUS_ERROR_SUCCESS \<and> bi_reg env dataElements2 = RBUS_ERROR_SUCCESS
      then (WEBCFG_SUCCESS, s\<lparr>ForceSync := [], ForceSyncTransID := [], RfcVal := rfc_from_store (rbus_env.truncate env) (RfcVal s)\<rparr>)
      else (WEBCFG_FAILURE, s))"

text \<open>The text of the flag in the buffer \<open>RfcEnable\<close>.\<close>

definition stored_rfc :: "'a bus_env_scheme \<Rightarrow> string" where
  "stored_rfc env =
     (case re_get env paramRFCEnable of
        (RBUS_ERROR_SUCCESS, Some v) \<Rightarrow> webcfgStrncpy v 64
      | _ \<Rightarrow> [])"

text \<open>The part of \<open>main\<close> before it waits for ever: the state, and the time at which the system
  was ready.\<close>

definition main_start :: "'a bus_env_scheme \<Rightarrow> 'z rbus_st_scheme \<Rightarrow> string option \<times> 'z rbus_st_scheme" where
  "main_start env s =
     (if \<not> bus_enabled env then (None, s\<lparr>isRbus := False\<rparr>)
      else (let s1 = snd (webconfigRbusInit env (s\<lparr>isRbus := True\<rparr>));
                s2 = snd (regWebConfigDataModel env s1);
                systemReadyTime = fit 32 (dec_int (c_int (re_time env)));
                s3 = snd (waitForUpstreamEventSubscribe env 300 s2)
            in (Some systemReadyTime,
                if stored_rfc env \<noteq> [] \<and> strncmp_eq (stored_rfc env) ''true'' 4 \<and> \<not> g_mpthreadId s3
                then initWebConfigMultipartTask (bi_status env) s3 else s3)))"

section \<open>Types, codes and answers\<close>

lemma map_type_back:
  "mapWdmpToRbusDataType t \<noteq> RBUS_NONE \<Longrightarrow>
   mapRbusToWdmpDataType (mapWdmpToRbusDataType t) = (if t = WDMP_BASE64 then WDMP_STRING else t)"
  by (cases t) simp_all

lemma map_status_success: "mapStatus True (mapRbusToCcspStatus r) = WDMP_SUCCESS \<longleftrightarrow> r = RBUS_ERROR_SUCCESS"
  by (cases r) (simp_all add: mapStatus_def ccsp_defs)

lemma length_takeWhile_all: "length (takeWhile P xs) = length xs \<longleftrightarrow> (\<forall>x\<in>set xs. P x)"
  by (induction xs) auto

text \<open>C17: a request to set parameters succeeds exactly when the bus has taken all of them. The
  status is success only after one call of the bus with every parameter of the request, in order,
  under its name, with the type that reads back as its own (base64 as a string), and only if the
  bus has accepted it; otherwise the component's status is not the code of success either.\<close>

theorem setValues_success:
  assumes "bus_enabled env" "setValues env ps s = Some (Some (st, ccsp))"
  defines "call \<equiv> map (\<lambda>p. (rp_name p, bus_type env p, rp_value p)) ps"
  shows "(st = WDMP_SUCCESS \<longleftrightarrow> rbus_handle s \<and> (\<forall>p\<in>set ps. bus_type env p \<noteq> RBUS_NONE) \<and> bi_setMulti env call = RBUS_ERROR_SUCCESS) \<and>
    (st = WDMP_SUCCESS \<longleftrightarrow> ccsp = CCSP_Msg_Bus_OK) \<and>
    (st = WDMP_SUCCESS \<longrightarrow> map (\<lambda>(n, t, v). mapRbusToWdmpDataType t) call =
       map (\<lambda>p. if bi_type env (rp_type p) = WDMP_BASE64 then WDMP_STRING else bi_type env (rp_type p)) ps)"
proof (cases "rbus_handle s")
  case False
  with assms(1,2) have "st = WDMP_FAILURE" "ccsp = 0" by (auto simp: setValues_def setValues_rbus_def)
  with False show ?thesis by (simp add: ccsp_defs)
next
  case True
  let ?all = "\<forall>p\<in>set ps. bus_type env p \<noteq> RBUS_NONE"
  have l: "length (typed_params env ps) = length ps \<longleftrightarrow> ?all"
    unfolding typed_params_def by (rule length_takeWhile_all)
  define ret where "ret = (if ?all then bi_setMulti env call else RBUS_ERROR_INVALID_INPUT)"
  have r: "st = mapStatus True (mapRbusToCcspStatus ret)" "ccsp = mapRbusToCcspStatus ret"
    using assms(1,2) True by (auto simp: setValues_def setValues_rbus_def Let_def l ret_def call_def split: if_splits)
  have s: "st = WDMP_SUCCESS \<longleftrightarrow> ret = RBUS_ERROR_SUCCESS" by (simp add: r map_status_success)
  moreover have "ccsp = CCSP_Msg_Bus_OK \<longleftrightarrow> ret = RBUS_ERROR_SUCCESS" by (cases ret) (simp_all add: r(2) ccsp_defs)
  moreover have "map (\<lambda>(n, t, v). mapRbusToWdmpDataType t) call =
       map (\<lambda>p. if bi_type env (rp_type p) = WDMP_BASE64 then WDMP_STRING else bi_type env (rp_type p)) ps" if ?all
    using that by (simp add: call_def bus_type_def map_type_back)
  ultimately show ?thesis using True by (auto simp: ret_def)
qed

text \<open>A bus that takes everything.\<close>

definition demo_bus :: bus_env where
  "demo_bus = rbus_env.extend (demo_rbus 0)
     \<lparr>bi_type = (\<lambda>n. if n = 0 then WDMP_STRING else if n = 1 then WDMP_INT else WDMP_OTHER),
      bi_set = (\<lambda>_ _. RBUS_ERROR_SUCCESS), bi_setMulti = (\<lambda>_. RBUS_ERROR_SUCCESS),
      bi_getExt = (\<lambda>_. (RBUS_ERROR_SUCCESS, 0, [])), bi_open = (RBUS_ERROR_SUCCESS, True),
      bi_reg = (\<lambda>_. RBUS_ERROR_SUCCESS), bi_unreg = (\<lambda>_. RBUS_ERROR_SUCCESS), bi_subscribed = (\<lambda>k. 3 \<le> k),
      bi_encode = (\<lambda>m. we_dest m), bi_status = 0\<rparr>"

lemma demo_bus_simps [simp]:
  "bus_enabled demo_bus" "bi_setMulti demo_bus c = RBUS_ERROR_SUCCESS"
  "bi_type demo_bus n = (if n = 0 then WDMP_STRING else if n = 1 then WDMP_INT else WDMP_OTHER)"
  by (simp_all add: demo_bus_def rbus_env.defs bus_enabled_def demo_rbus_def demo_force_def)

theorem setValues_success_witness:
  "setValues demo_bus [\<lparr>rp_name = Some ''a'', rp_value = Some ''1'', rp_type = 1\<rparr>] rbus_st0 = Some (Some (WDMP_SUCCESS, 100))"
proof -
  let ?ps = "[\<lparr>rp_name = Some ''a'', rp_value = Some ''1'', rp_type = 1\<rparr>]"
  have h: "rbus_handle rbus_st0" by (simp add: rbus_st0_def force_st.defs)
  obtain st c where v: "setValues demo_bus ?ps rbus_st0 = Some (Some (st, c))"
    using h by (auto simp: setValues_def setValues_rbus_def typed_params_def bus_type_def Let_def)
  from setValues_success [OF demo_bus_simps(1) v] h v show ?thesis by (auto simp: bus_type_def ccsp_defs)
qed

section \<open>Waiting for a subscriber\<close>

lemma wait_loop_spec:
  assumes "c < n"
  shows "c \<le> wait_loop sub n c \<and> wait_loop sub n c \<le> n \<and> (\<forall>j. c \<le> j \<and> j < wait_loop sub n c \<longrightarrow> \<not> sub j) \<and>
    (sub (wait_loop sub n c) \<or> wait_loop sub n c = n)"
  using assms
proof (induction sub n c rule: wait_loop.induct)
  case (1 sub n c)
  show ?case
  proof (cases "sub c \<or> n \<le> Suc c")
    case True
    then show ?thesis using "1.prems" by (subst (1 2 3 4 5) wait_loop.simps) (auto simp: less_Suc_eq_le dest: antisym)
  next
    case False
    then have e: "wait_loop sub n c = wait_loop sub n (Suc c)" by (subst wait_loop.simps) simp
    note IH = "1.IH" [of] False
    have "Suc c \<le> wait_loop sub n (Suc c) \<and> wait_loop sub n (Suc c) \<le> n \<and>
        (\<forall>j. Suc c \<le> j \<and> j < wait_loop sub n (Suc c) \<longrightarrow> \<not> sub j) \<and> (sub (wait_loop sub n (Suc c)) \<or> wait_loop sub n (Suc c) = n)"
      using False by (intro "1.IH") auto
    then show ?thesis unfolding e using False by (metis Suc_leD Suc_leI le_neq_implies_less)
  qed
qed

text \<open>C18: a notification waits half a minute for a subscriber and is then sent once or not at
  all. When a subscriber is there, or comes within the six sleeps of 5 seconds, the encoded
  message is published once, with its source, destination and payload; otherwise nothing is
  published.\<close>

theorem notification_sent:
  assumes "bus_enabled env" "mem_ok s"
  defines "sub k \<equiv> if k = 0 then subscribed s \<noteq> 0 else bi_subscribed env k"
  shows "events_published (sendNotification env payload (Some src) (Some dest) s) =
    events_published s @ (if \<exists>k\<le>6. sub k
      then [(WEBCFG_UPSTREAM_EVENT, RV_BYTES (bi_encode env \<lparr>we_source = src, we_dest = dest,
               we_content_type = ''application/json'', we_payload = payload\<rparr>))] else [])"
proof -
  let ?k = "wait_loop sub 6 0" and ?s1 = "if subscribed s = 0 then snd (waitForUpstreamEventSubscribe env 30 s) else s"
  have w: "?k \<le> 6" "sub ?k \<or> ?k = 6" "\<And>j. j < ?k \<Longrightarrow> \<not> sub j" using wait_loop_spec [of 0 6 sub] by auto
  have "sub ?k \<longleftrightarrow> (\<exists>k\<le>6. sub k)"
    using w by (metis le_neq_implies_less)
  moreover have "subscribed ?s1 \<noteq> 0 \<longleftrightarrow> sub ?k"
  proof (cases "subscribed s = 0")
    case True
    have "(\<lambda>k. if k = 0 then subscribed s \<noteq> 0 else bi_subscribed env k) = sub" by (simp add: sub_def fun_eq_iff)
    then have "subscribed ?s1 = (if ?k = 0 then subscribed s else if bi_subscribed env ?k then 1 else 0)"
      using True by (simp add: waitForUpstreamEventSubscribe_def Let_def)
    then show ?thesis using True by (simp add: sub_def)
  next
    case False
    then have "sub 0" by (simp add: sub_def)
    then have "?k = 0" by (simp add: wait_loop.simps)
    with False \<open>sub 0\<close> show ?thesis by simp
  qed
  moreover have "events_published ?s1 = events_published s" by (simp add: waitForUpstreamEventSubscribe_def Let_def)
  ultimately show ?thesis using assms(1,2)
    by (simp add: sendNotification_def sendNotification_rbus_def publish_def Let_def)
qed

theorem notification_sent_witness:
  "events_published (sendNotification demo_bus (Some ''p'') (Some ''s'') (Some ''d'') rbus_st0) =
     [(WEBCFG_UPSTREAM_EVENT, RV_BYTES ''d'')]"
proof -
  have "\<exists>k\<le>6. if k = 0 then subscribed rbus_st0 \<noteq> 0 else bi_subscribed demo_bus k"
    by (intro exI [of _ 3]) (simp add: demo_bus_def rbus_env.defs)
  note n = notification_sent [OF demo_bus_simps(1) rbus_st0_simps(1), of "Some ''p''" "''s''" "''d''", unfolded if_P [OF this]]
  have "bi_encode demo_bus = (\<lambda>m. we_dest m)" by (simp add: demo_bus_def rbus_env.defs)
  with n show ?thesis by simp
qed

section \<open>The switch at the start of the program\<close>

text \<open>The data model and the program read the stored switch differently. With the text true
  the feature is enabled and a sync thread started; with TRUE it is enabled but no thread is
  started, and switching it on later starts none either; with a longer text that begins with true
  a thread is started although the feature is disabled.\<close>

theorem stored_switch:
  assumes "bus_enabled env" "bi_open env = (RBUS_ERROR_SUCCESS, True)" "\<forall>e. bi_reg env e = RBUS_ERROR_SUCCESS"
    "re_get env paramRFCEnable = (RBUS_ERROR_SUCCESS, Some v)" "\<not> g_mpthreadId s" "\<not> RfcVal s"
  defines "s' \<equiv> snd (main_start env s)"
  shows "(v = ''true'' \<longrightarrow> RfcVal s' \<and> threads_started s' = threads_started s @ [bi_status env]) \<and>
    (v = ''TRUE'' \<longrightarrow> RfcVal s' \<and> threads_started s' = threads_started s \<and>
       threads_started (snd (set_rbus_RfcEnable env' True s')) = threads_started s) \<and>
    (v = ''true '' \<longrightarrow> \<not> RfcVal s' \<and> threads_started s' = threads_started s @ [bi_status env])"
proof -
  have w: "RfcVal (snd (waitForUpstreamEventSubscribe env 300 x)) = RfcVal x"
    "g_mpthreadId (snd (waitForUpstreamEventSubscribe env 300 x)) = g_mpthreadId x"
    "threads_started (snd (waitForUpstreamEventSubscribe env 300 x)) = threads_started x" for x :: "'z rbus_st_scheme"
    by (simp_all add: waitForUpstreamEventSubscribe_def Let_def)
  have s': "RfcVal s' = rfc_from_store (rbus_env.truncate env) False"
    "threads_started s' = threads_started s @ (if stored_rfc env \<noteq> [] \<and> strncmp_eq (stored_rfc env) ''true'' 4 then [bi_status env] else [])"
    using assms(1-3,5,6)
    by (simp_all add: s'_def main_start_def Let_def w webconfigRbusInit_def regWebConfigDataModel_def initWebConfigMultipartTask_def)
  have r: "rfc_from_store (rbus_env.truncate env) False \<longleftrightarrow> v = ''true'' \<or> v = ''TRUE''"
    using assms(4) by (simp add: rfc_from_store_def rbus_env.defs)
  have t: "stored_rfc env = fit 64 v" using assms(4) by (simp add: stored_rfc_def webcfgStrncpy_def)
  have "threads_started (snd (set_rbus_RfcEnable env' True s')) = threads_started s'" if "RfcVal s'"
    using that by (simp add: set_rbus_RfcEnable_def rbus_StoreValueIntoDB_def rfc_signal_def)
  then show ?thesis using s' r t by (auto simp: fit_def)
qed

theorem stored_switch_witness:
  "threads_started (snd (main_start (demo_bus\<lparr>re_get := \<lambda>_. (RBUS_ERROR_SUCCESS, Some ''true'')\<rparr>) rbus_st0)) = [0]"
  using stored_switch [of "demo_bus\<lparr>re_get := \<lambda>_. (RBUS_ERROR_SUCCESS, Some ''true'')\<rparr>" "''true''" rbus_st0 "demo_rbus 0"]
  by (simp add: demo_bus_def rbus_env.defs bus_enabled_def demo_rbus_def demo_force_def)

end
