(* ===== verification/Aker.thy ===== *)
theory Aker
  imports Events Url
begin

text \<open>
  The documents of aker, which are sent as requests over parodus instead of being set on a
  component (\<open>src/src/webcfg_aker.c\<close>), the connection to parodus
  (\<open>src/src/webcfg_client.c\<close>), and the loop of \<open>processMsgpackSubdoc\<close> that waits for aker
  (\<open>src/src/webcfg_multipart.c\<close>). All of it is compiled with \<open>FEATURE_SUPPORT_AKER\<close>. The
  result \<open>None\<close> marks undefined behaviour.
\<close>

section \<open>State and environment\<close>

datatype crud_type = CRUD_RETRIEVE | CRUD_UPDATE | CRUD_DELETE | CRUD_OTHER

record crud_msg =
  cm_type :: crud_type
  cm_source :: string
  cm_dest :: string
  cm_uuid :: "string option"
  cm_content_type :: string
  cm_payload :: "string option"

text \<open>A message received: the service and the application of its source, its payload as a C
  string, its status.\<close>

record crud_reply =
  cr_type :: crud_type
  cr_service :: "string option"
  cr_application :: "string option"
  cr_payload :: "string option"
  cr_status :: int

text \<open>The pointer \<open>aker_status\<close>.\<close>

datatype aker_ptr = AkNull | AkText string | AkFreed

text \<open>The outputs: the messages handed to parodus and the seconds of each wait.\<close>

record aker_st = ev_st +
  akerDocVersion :: int
  akerTransId :: u16
  wakeFlag :: bool
  aker_status :: aker_ptr
  send_aker_flag :: bool
  sleep_counter :: int
  crud_sent :: "crud_msg list"
  aker_waits :: "nat list"

text \<open>What can end a wait for the status before its timeout.\<close>

datatype wake = WakeStatus string | WakeShutdown | WakeSpurious

text \<open>\<open>ak_send n\<close> is the result of \<open>libparodus_send\<close> for the \<open>n\<close>-th message, \<open>ak_wakes n\<close> what
  happens while its answer is awaited; \<open>ak_shutdown n\<close>: the program is shut down in the course
  of the \<open>n\<close>-th wait; \<open>ak_init n\<close> is the result of the \<open>n\<close>-th \<open>libparodus_init\<close>.
  \<open>ak_unpack\<close> yields the object in a payload and the bytes of the payload behind the value of
  its first entry, to which the strings of msgpack point; \<open>ak_service_status\<close> is what cJSON
  finds: no JSON, no item, or the item's \<open>valuestring\<close>.\<close>

record aker_env =
  ak_apply :: apply_env
  ak_mac :: "string option"
  ak_uuid :: "string option"
  ak_send :: "nat \<Rightarrow> int"
  ak_wakes :: "nat \<Rightarrow> wake list"
  ak_shutdown :: "nat \<Rightarrow> bool"
  ak_init :: "nat \<Rightarrow> int"
  ak_unpack :: "string \<Rightarrow> (msgpack_object \<times> string) option"
  ak_service_status :: "string option \<Rightarrow> string option option option"

definition AKER_UPDATE_PARAM :: string where "AKER_UPDATE_PARAM = ''Device.DeviceInfo.X_RDKCENTRAL-COM_Aker.Update''"
definition AKER_DELETE_PARAM :: string where "AKER_DELETE_PARAM = ''Device.DeviceInfo.X_RDKCENTRAL-COM_Aker.Delete''"
definition AKER_STATUS_ONLINE :: string where "AKER_STATUS_ONLINE = ''online''"
definition CONTENT_TYPE_JSON :: string where "CONTENT_TYPE_JSON = ''application/json''"

definition akerwait :: "aker_env \<Rightarrow> nat \<Rightarrow> 'z aker_st_scheme \<Rightarrow> bool \<times> 'z aker_st_scheme" where
  "akerwait env secs s =
     (let flag = g_shutdown s \<or> ak_shutdown env (length (aker_waits s))
      in (flag, s\<lparr>g_shutdown := flag, aker_waits := aker_waits s @ [secs]\<rparr>))"

definition libparodus_send :: "aker_env \<Rightarrow> crud_msg \<Rightarrow> 'z aker_st_scheme \<Rightarrow> int \<times> 'z aker_st_scheme" where
  "libparodus_send env msg s = (ak_send env (length (crud_sent s)), s\<lparr>crud_sent := crud_sent s @ [msg]\<rparr>)"

section \<open>Sending a document\<close>

definition aker_msg :: "aker_env \<Rightarrow> crud_type \<Rightarrow> u16 \<Rightarrow> string option \<Rightarrow> crud_msg" where
  "aker_msg env ty docTransId payload =
     \<lparr>cm_type = ty, cm_source = fit 256 (''mac:'' @ printf_s (ak_mac env) @ ''/webcfg''),
      cm_dest = fit 256 (''mac:'' @ printf_s (ak_mac env) @ ''/aker/schedule''),
      cm_uuid = Some (fit 64 (dec (unat docTransId))), cm_content_type = CONTENT_TYPE_JSON, cm_payload = payload\<rparr>"

function send_loop :: "aker_env \<Rightarrow> crud_msg \<Rightarrow> nat \<Rightarrow> nat \<Rightarrow> 'z aker_st_scheme \<Rightarrow> bool \<times> 'z aker_st_scheme" where
  "send_loop env msg retry_count c s =
     (if retry_count \<le> 3 then
        (case libparodus_send env msg s of
           (sendStatus, s1) \<Rightarrow>
             if sendStatus = 0 then (True, s1)
             else (case akerwait env (2 ^ c - 1) s1 of
                 (True, s2) \<Rightarrow> (False, s2)
               | (False, s2) \<Rightarrow> send_loop env msg (Suc retry_count) (Suc c) s2))
      else (False, s))"
  by pat_completeness auto
termination by (relation "measure (\<lambda>(env, msg, retry_count, c, s). 4 - retry_count)") auto

declare send_loop.simps [simp del]

text \<open>The first component is \<open>ret == WDMP_SUCCESS\<close>.\<close>

definition send_aker_blob ::
  "aker_env \<Rightarrow> string option \<Rightarrow> string \<Rightarrow> u32 \<Rightarrow> u16 \<Rightarrow> int \<Rightarrow> 'z aker_st_scheme \<Rightarrow> bool \<times> 'z aker_st_scheme" where
  "send_aker_blob env paramName blob blobSize docTransId version s =
     (case paramName of
        None \<Rightarrow> (False, s)
      | Some name \<Rightarrow>
          (let s1 = s\<lparr>akerDocVersion := version, akerTransId := docTransId\<rparr>
           in if \<not> mem_ok s1 then (False, s1)
              else if strncmp_eq name AKER_UPDATE_PARAM (Suc (length AKER_UPDATE_PARAM)) \<and> 0 < blobSize
              then send_loop env (aker_msg env CRUD_UPDATE docTransId (Some (take (unat blobSize) blob))) 0 2 s1
              else if strncmp_eq name AKER_DELETE_PARAM (Suc (length AKER_DELETE_PARAM))
              then send_loop env (aker_msg env CRUD_DELETE docTransId None) 0 2 s1
              else (False, s1)))"

section \<open>Asking whether aker is online\<close>

definition set_global_status :: "string \<Rightarrow> 'z aker_st_scheme \<Rightarrow> 'z aker_st_scheme" where
  "set_global_status status s = s\<lparr>wakeFlag := True, aker_status := AkText status\<rparr>"

text \<open>The wait of \<open>get_global_status\<close>; when nothing more happens it ends by its timeout.\<close>

fun get_global_status :: "wake list \<Rightarrow> 'z aker_st_scheme \<Rightarrow> aker_ptr \<times> 'z aker_st_scheme" where
  "get_global_status ws s =
     (if wakeFlag s \<or> g_shutdown s then (aker_status s, s\<lparr>wakeFlag := False\<rparr>)
      else (case ws of
          [] \<Rightarrow> (AkNull, s)
        | w # ws' \<Rightarrow> get_global_status ws'
            (case w of WakeStatus st \<Rightarrow> set_global_status st s | WakeShutdown \<Rightarrow> s\<lparr>g_shutdown := True\<rparr> | WakeSpurious \<Rightarrow> s)))"

declare get_global_status.simps [simp del]

text \<open>The text is freed here, the global pointer keeps pointing to it.\<close>

definition checkAkerStatus :: "aker_env \<Rightarrow> 'z aker_st_scheme \<Rightarrow> (WEBCFG_STATUS \<times> 'z aker_st_scheme) option" where
  "checkAkerStatus env s =
     (if \<not> mem_ok s then Some (WEBCFG_FAILURE, s)
      else (case libparodus_send env
              \<lparr>cm_type = CRUD_RETRIEVE, cm_source = fit 64 (''mac:'' @ printf_s (ak_mac env) @ ''/webcfg''),
               cm_dest = fit 64 (''mac:'' @ printf_s (ak_mac env) @ ''/parodus/service-status/aker''),
               cm_uuid = ak_uuid env, cm_content_type = CONTENT_TYPE_JSON, cm_payload = None\<rparr> s of
          (sendStatus, s1) \<Rightarrow>
            if sendStatus \<noteq> 0 then Some (WEBCFG_FAILURE, s1)
            else (case get_global_status (ak_wakes env (length (crud_sent s))) s1 of
                (AkNull, s2) \<Rightarrow> Some (WEBCFG_FAILURE, s2)
              | (AkFreed, s2) \<Rightarrow> None
              | (AkText v, s2) \<Rightarrow>
                  Some (if v = AKER_STATUS_ONLINE then WEBCFG_SUCCESS else WEBCFG_FAILURE, s2\<lparr>aker_status := AkFreed\<rparr>))))"

section \<open>Processing the document\<close>

text \<open>A failure is recorded in the node, if there is one, and reported.\<close>

definition aker_report ::
  "nat option \<Rightarrow> string \<Rightarrow> u32 \<Rightarrow> string \<Rightarrow> u16 \<Rightarrow> 'z db_st_scheme \<Rightarrow> 'z db_st_scheme" where
  "aker_report docNode name version details err s =
     (case docNode of
        None \<Rightarrow> s
      | Some i \<Rightarrow>
          (let s1 = snd (updateTmpList docNode name version ''failed'' details err 0 0 s)
           in addWebConfgNotifyMsg (Some name) version (Some ''failed'') (Some details) (Some (tmp_cloud_trans_id (tmp_node i s1)))
                0 (Some ''status'') err None 200 s1))"

definition aker_error :: "nat option \<Rightarrow> string \<Rightarrow> u32 \<Rightarrow> WEBCFG_ERROR_CODE \<Rightarrow> 'z db_st_scheme \<Rightarrow> 'z db_st_scheme" where
  "aker_error docNode name version code s =
     (case getStatusErrorCodeAndMessage code of (err, result) \<Rightarrow> aker_report docNode name version result err s)"

text \<open>The error of the document in progress called aker.\<close>

definition aker_doc_error :: "WEBCFG_ERROR_CODE \<Rightarrow> 'z db_st_scheme \<Rightarrow> 'z db_st_scheme" where
  "aker_doc_error code s =
     (case getTmpNode ''aker'' s of
        None \<Rightarrow> s
      | Some i \<Rightarrow> aker_error (Some i) ''aker'' (tmp_version (tmp_node i s)) code s)"

definition updateAkerMaxRetry :: "nat option \<Rightarrow> string \<Rightarrow> 'z db_st_scheme \<Rightarrow> 'z db_st_scheme" where
  "updateAkerMaxRetry temp docname s =
     (case temp of
        None \<Rightarrow> s
      | Some i \<Rightarrow>
          if docname = tmp_name (tmp_node i s)
          then aker_report temp (tmp_name (tmp_node i s)) (tmp_version (tmp_node i s)) ''aker_service_unavailable'' 0 s
          else s)"

datatype AKER_STATUS = AKER_SUCCESS | AKER_FAILURE | AKER_UNAVAILABLE

text \<open>The loop over the parameters: the parameters, or none when the loop is left at one that
  is no blob, and the transaction id. \<open>strdup\<close> of a document that is not base64 looks for a NUL.\<close>

fun aker_params ::
  "aker_env \<Rightarrow> multipartdocs \<Rightarrow> nat option \<Rightarrow> nat \<Rightarrow> wparam list \<Rightarrow> u16 \<Rightarrow> 'z db_st_scheme \<Rightarrow>
   (req_param list option \<times> u16 \<times> 'z db_st_scheme) option" where
  "aker_params env gmp docNode j [] tid s = Some (Some [], tid, s)"
| "aker_params env gmp docNode j (e # es) tid s =
     (case wp_value e of
        None \<Rightarrow>
          map_option (\<lambda>(ps, r). (map_option (Cons req_zero) ps, r)) (aker_params env gmp docNode (Suc j) es tid s)
      | Some v \<Rightarrow>
          if wp_type e = ae_WDMP_BLOB (ak_apply env) then
            (let a = ak_apply env; direct = rbus_direct a (mp_name_space gmp) s
             in case webcfg_appendeddoc (ae_write a) (ae_b64 a) direct (mem_ok s) (mp_name_space gmp) (mp_etag gmp) v
                       (generateRandomId (ae_random a 0 j)) of
                  None \<Rightarrow> None
                | Some r \<Rightarrow>
                    (let (p, tid1) = (case r of
                           None \<Rightarrow> (req_zero, tid)
                         | Some (doc, t, _) \<Rightarrow>
                             (\<lparr>rp_name = wp_name e, rp_value = Some (cstr doc), rp_type = ae_WDMP_BASE64 a\<rparr>, t));
                         s1 = snd (updateTmpList docNode (mp_name_space gmp) (mp_etag gmp) ''pending'' ''none'' 0 tid1 0 s)
                     in if direct \<and> (\<exists>doc t n. r = Some (doc, t, n) \<and> NUL \<notin> set doc) then None
                        else map_option (\<lambda>(ps, r'). (map_option (Cons p) ps, r')) (aker_params env gmp docNode (Suc j) es tid1 s1)))
          else Some (None, tid, aker_error docNode (mp_name_space gmp) (mp_etag gmp) INCORRECT_BLOB_TYPE s))"

text \<open>The first entry is read even when there is none.\<close>

definition aker_send ::
  "aker_env \<Rightarrow> nat option \<Rightarrow> multipartdocs \<Rightarrow> wparam list \<Rightarrow> u16 \<Rightarrow> 'z aker_st_scheme \<Rightarrow> (AKER_STATUS \<times> 'z aker_st_scheme) option" where
  "aker_send env docNode gmp pm tid s =
     (case pm of
        [] \<Rightarrow> None
      | e # _ \<Rightarrow>
          (case wp_value e of
             None \<Rightarrow> None
           | Some v \<Rightarrow>
               (case send_aker_blob env (wp_name e) v (wp_value_size e) tid (c_int (uint (mp_etag gmp))) s of
                  (True, s1) \<Rightarrow> Some (AKER_SUCCESS, s1\<lparr>send_aker_flag := True\<rparr>)
                | (False, s1) \<Rightarrow>
                    Some (AKER_FAILURE, aker_report docNode (mp_name_space gmp) (mp_etag gmp) ''doc_rejected''
                      (fst (getStatusErrorCodeAndMessage AKER_SUBDOC_PROCESSING_FAILED)) s1))))"

definition processAkerSubdoc ::
  "aker_env \<Rightarrow> nat option \<Rightarrow> multipartdocs option \<Rightarrow> 'z aker_st_scheme \<Rightarrow> (AKER_STATUS \<times> 'z aker_st_scheme) option" where
  "processAkerSubdoc env docNode akerIndex s =
     (case akerIndex of
        None \<Rightarrow>
          Some (AKER_FAILURE, case docNode of
              None \<Rightarrow> s
            | Some i \<Rightarrow> aker_error docNode ''aker'' (tmp_version (tmp_node i s)) AKER_SUBDOC_PROCESSING_FAILED s)
      | Some gmp \<Rightarrow>
          if mp_name_space gmp \<noteq> ''aker'' then Some (AKER_FAILURE, s)
          else (let a = ak_apply env
                in case webcfgparam_convert (mem_ok s) (ae_unpack a) (Some (mp_data gmp @ [ae_beyond a])) (ae_errno a) of
                     (None, err) \<Rightarrow>
                       (case getStatusErrorCodeAndMessage DECODE_ROOT_FAILURE of
                          (code, errMsg) \<Rightarrow>
                            Some (AKER_FAILURE, aker_report docNode (mp_name_space gmp) (mp_etag gmp)
                              (fit 128 (errMsg @ '':'' @ webcfgparam_strerror err)) code s))
                   | (Some pm, err) \<Rightarrow>
                       (case aker_params env gmp docNode 0 pm 0 s of
                          None \<Rightarrow> None
                        | Some (None, tid, s1) \<Rightarrow> Some (AKER_FAILURE, s1)
                        | Some (Some reqParam, tid, s1) \<Rightarrow>
                            if validate_request_param reqParam = WEBCFG_SUCCESS then aker_send env docNode gmp pm tid s1
                            else Some (AKER_FAILURE,
                              aker_error docNode (mp_name_space gmp) (mp_etag gmp) BLOB_PARAM_VALIDATION_FAILURE s1))))"

section \<open>Waiting for aker\<close>

text \<open>The loop at the end of \<open>processMsgpackSubdoc\<close>, with \<open>c = 4\<close> and no waiting time at first.\<close>

definition aker_max_retry_sleep :: nat where "aker_max_retry_sleep = 127"

lemma backoff_max: "2 ^ c - Suc 0 < aker_max_retry_sleep \<Longrightarrow> c < 7"
  using power_increasing [of 7 c "2 :: nat"] by (fastforce simp: aker_max_retry_sleep_def not_less [symmetric])

function aker_rounds ::
  "aker_env \<Rightarrow> nat option \<Rightarrow> multipartdocs \<Rightarrow> nat \<Rightarrow> nat \<Rightarrow> 'z aker_st_scheme \<Rightarrow> 'z aker_st_scheme option" where
  "aker_rounds env subdoc_node akerIndex backoff c s =
     (case checkAkerStatus env s of
        None \<Rightarrow> None
      | Some (st, s1) \<Rightarrow>
          if st = WEBCFG_SUCCESS then map_option snd (processAkerSubdoc env subdoc_node (Some akerIndex) s1)
          else (let s2 = snd (updateTmpList subdoc_node (mp_name_space akerIndex) (mp_etag akerIndex) ''pending''
                           ''aker_service_unavailable'' 0 0 0 s1)
                in if aker_max_retry_sleep \<le> backoff then Some (updateAkerMaxRetry subdoc_node ''aker'' s2)
                   else (case akerwait env (2 ^ c - 1) s2 of
                       (True, s3) \<Rightarrow> Some s3
                     | (False, s3) \<Rightarrow> aker_rounds env subdoc_node akerIndex (2 ^ c - 1) (Suc c) s3)))"
  by pat_completeness auto
termination
  by (relation "measure (\<lambda>(env, node, mp, backoff, c, s). if aker_max_retry_sleep \<le> backoff then 0 else Suc (7 - c))")
    (auto simp: not_le dest: backoff_max)

declare aker_rounds.simps [simp del]

definition apply_aker :: "aker_env \<Rightarrow> multipartdocs \<Rightarrow> 'z aker_st_scheme \<Rightarrow> 'z aker_st_scheme option" where
  "apply_aker env akerIndex s = aker_rounds env (getTmpNode (mp_name_space akerIndex) s) akerIndex 0 4 s"

section \<open>Answers of aker\<close>

text \<open>What \<open>via.str\<close> reads: the bytes of a string, a binary or an extension; for any other
  object it is no pointer to text.\<close>

fun via_str :: "msgpack_object \<Rightarrow> string option" where
  "via_str (MpStr t) = Some t"
| "via_str (MpBin t) = Some t"
| "via_str (MpExt t) = Some t"
| "via_str _ = None"

text \<open>\<open>strdup\<close> of a value copies the bytes of the payload up to its end. The first component is
  the text, if any.\<close>

definition decodePayload :: "aker_env \<Rightarrow> string \<Rightarrow> 'z aker_st_scheme \<Rightarrow> (string option \<times> 'z aker_st_scheme) option" where
  "decodePayload env payload s =
     (case ak_unpack env payload of
        None \<Rightarrow> Some (None, aker_doc_error AKER_RESPONSE_PARSE_FAILURE s)
      | Some (MpMap kvs, after) \<Rightarrow>
          (case kvs of
             [] \<Rightarrow> None
           | (key, val) # _ \<Rightarrow>
               (case via_str key of
                  None \<Rightarrow> None
                | Some k \<Rightarrow>
                    if match_key k ''message'' then map_option (\<lambda>v. (Some (cstr (v @ after)), s)) (via_str val)
                    else Some (None, s)))
      | Some _ \<Rightarrow> Some (None, s))"

definition parsePayloadForAkerStatus :: "aker_env \<Rightarrow> string option \<Rightarrow> string option" where
  "parsePayloadForAkerStatus env payload =
     (case ak_service_status env payload of
        Some (Some (Some v)) \<Rightarrow> if v \<noteq> [] then Some v else None
      | _ \<Rightarrow> None)"

text \<open>\<open>%u\<close> prints the version as an unsigned number.\<close>

definition aker_ack_data :: "'z aker_st_scheme \<Rightarrow> string" where
  "aker_ack_data s = fit 256 (''aker,'' @ dec (unat (akerTransId s)) @ '','' @ dec (unat (word_of_int (akerDocVersion s) :: u32)) @ '',ACK,'' @ dec 0)"

definition aker_nack_data :: "int \<Rightarrow> string \<Rightarrow> 'z aker_st_scheme \<Rightarrow> string" where
  "aker_nack_data status payload s =
     fit 256 (''aker,'' @ dec (unat (akerTransId s)) @ '','' @ dec (unat (word_of_int (akerDocVersion s) :: u32)) @ '',NACK,'' @ dec 0
       @ '',aker,'' @ dec (nat status) @ '','' @ payload)"

definition handleAkerStatus :: "int \<Rightarrow> string \<Rightarrow> 'z aker_st_scheme \<Rightarrow> 'z aker_st_scheme" where
  "handleAkerStatus status payload s =
     (if status = 201 \<or> status = 200 then webcfgCallback (aker_ack_data s) s
      else if status = 534 \<or> status = 535 then webcfgCallback (aker_nack_data status payload s) s
      else aker_doc_error INVALID_AKER_RESPONSE s)"

definition processAkerUpdateDelete :: "aker_env \<Rightarrow> crud_reply \<Rightarrow> 'z aker_st_scheme \<Rightarrow> 'z aker_st_scheme option" where
  "processAkerUpdateDelete env wrpMsg s =
     (if cr_service wrpMsg = Some ''aker'' \<and> cr_application wrpMsg = Some ''schedule'' then
        (case cr_payload wrpMsg of
           None \<Rightarrow> None
         | Some p \<Rightarrow>
             map_option (\<lambda>(payload, s1). case payload of None \<Rightarrow> s1 | Some t \<Rightarrow> handleAkerStatus (cr_status wrpMsg) t s1)
               (decodePayload env p s))
      else Some s)"

definition processAkerRetrieve :: "aker_env \<Rightarrow> crud_reply \<Rightarrow> 'z aker_st_scheme \<Rightarrow> 'z aker_st_scheme" where
  "processAkerRetrieve env wrpMsg s =
     (if cr_service wrpMsg = Some ''parodus'' \<and> cr_application wrpMsg = Some ''service-status/aker'' then
        (case parsePayloadForAkerStatus env (cr_payload wrpMsg) of None \<Rightarrow> s | Some status \<Rightarrow> set_global_status status s)
      else s)"

section \<open>The connection to parodus\<close>

text \<open>The result of \<open>libparodus_receive\<close>: 1 after its timeout, an error, or 0 with a message.\<close>

datatype received = RecvTimeout | RecvError | RecvMsg crud_reply

text \<open>One turn of the loop of \<open>parodus_receive\<close>; the flag says whether the loop goes on.\<close>

definition parodus_receive_turn :: "aker_env \<Rightarrow> received \<Rightarrow> 'z aker_st_scheme \<Rightarrow> (bool \<times> 'z aker_st_scheme) option" where
  "parodus_receive_turn env r s =
     (if g_shutdown s then Some (False, s\<lparr>sleep_counter := 0\<rparr>)
      else (case r of
          RecvTimeout \<Rightarrow> Some (True, s\<lparr>sleep_counter := 0\<rparr>)
        | RecvError \<Rightarrow>
            (let s1 = s\<lparr>sleep_counter := sleep_counter s + 1\<rparr>
             in Some (True,
                  if send_aker_flag s1 \<and> sleep_counter s1 = 14
                  then (aker_doc_error LIBPARODUS_RECEIVE_FAILURE s1)\<lparr>sleep_counter := 0, send_aker_flag := False\<rparr>
                  else s1))
        | RecvMsg m \<Rightarrow>
            (let s1 = s\<lparr>send_aker_flag := False, sleep_counter := 0\<rparr>
             in if cr_type m = CRUD_UPDATE \<or> cr_type m = CRUD_DELETE
                then map_option (Pair True) (processAkerUpdateDelete env m s1)
                else Some (True, if cr_type m = CRUD_RETRIEVE then processAkerRetrieve env m s1 else s1))))"

definition PARODUS_URL_DEFAULT :: string where "PARODUS_URL_DEFAULT = ''tcp://127.0.0.1:6666''"
definition CLIENT_URL_DEFAULT :: string where "CLIENT_URL_DEFAULT = ''tcp://127.0.0.1:6659''"

text \<open>The last line with the key; a line loses its newline.\<close>

definition chomp :: "string \<Rightarrow> string" where
  "chomp str = (if str \<noteq> [] \<and> last str = CHR 0x0A then butlast str else str)"

definition last_prop :: "string \<Rightarrow> string list \<Rightarrow> string option" where
  "last_prop key strs =
     foldl (\<lambda>v str. case strstr (chomp str) key of None \<Rightarrow> v | Some value \<Rightarrow> Some (drop (length key) value)) None strs"

definition get_parodus_url :: "string option \<Rightarrow> string \<times> string" where
  "get_parodus_url file =
     (case file of
        None \<Rightarrow> (PARODUS_URL_DEFAULT, CLIENT_URL_DEFAULT)
      | Some text \<Rightarrow>
          (let strs = fgets_lines 255 text
           in (case last_prop ''PARODUS_URL='' strs of None \<Rightarrow> PARODUS_URL_DEFAULT | Some u \<Rightarrow> u,
               case last_prop ''WEBCFG_CLIENT_URL='' strs of None \<Rightarrow> CLIENT_URL_DEFAULT | Some u \<Rightarrow> u)))"

text \<open>The loop of \<open>connect_parodus\<close>: the attempt \<open>k\<close>, the waiting time and the exponent. The
  flag says whether parodus was reached.\<close>

partial_function (option) connect_loop ::
  "aker_env \<Rightarrow> nat \<Rightarrow> nat \<Rightarrow> nat \<Rightarrow> 'z aker_st_scheme \<Rightarrow> (bool \<times> 'z aker_st_scheme) option" where
  "connect_loop env k backoff c s =
     (let backoff1 = (if backoff < 31 then 2 ^ c - 1 else backoff)
      in if ak_init env k = 0 then Some (True, s)
         else (let s1 = snd (akerwait env backoff1 s)
               in if fst (akerwait env backoff1 s) then Some (False, s1)
                  else if backoff1 = 31 then connect_loop env (Suc k) 0 2 s1 else connect_loop env (Suc k) backoff1 (Suc c) s1))"

definition connect_parodus :: "aker_env \<Rightarrow> 'z aker_st_scheme \<Rightarrow> (bool \<times> 'z aker_st_scheme) option" where
  "connect_parodus env s = connect_loop env 0 0 2 s"

section \<open>The events made of an answer\<close>

abbreviation aker_version :: "'z aker_st_scheme \<Rightarrow> u32" where
  "aker_version s \<equiv> word_of_int (akerDocVersion s)"

lemma length_aker_event: "length (event_text ''aker'' x v st 0) \<le> 24 + length st" for x :: u16 and v :: u32
proof -
  have "unat x < 10 ^ Suc 4" "unat v < 2 ^ 32"
    using unsigned_less [of x, where 'a = nat] unsigned_less [of v, where 'a = nat] by simp_all
  then have "length (dec (unat x)) \<le> 5" "length (dec (unat v)) \<le> 10" using length_dec [of "unat x" 4] length_dec_u32 by simp_all
  then show ?thesis by (simp add: event_text_def dec_zero)
qed

lemma nul_free_Cons [simp]: "nul_free (c # a) \<longleftrightarrow> c \<noteq> NUL \<and> nul_free a"
  by (auto simp: nul_free_def)

lemma nul_free_takeWhile: "nul_free t \<Longrightarrow> takeWhile (\<lambda>c. c \<noteq> NUL) t = t"
  by (auto simp: nul_free_def takeWhile_eq_all_conv)

lemma aker_ack_data_text: "aker_ack_data s = event_text ''aker'' (akerTransId s) (aker_version s) ''ACK'' 0"
  using length_aker_event [of "akerTransId s" "aker_version s" "''ACK''"]
  by (simp add: aker_ack_data_def fit_def event_text_def)

lemma aker_nack_data_text:
  assumes "status = 534 \<or> status = 535" "length reason \<le> 200"
  shows "aker_nack_data status reason s =
    nack_text ''aker'' (akerTransId s) (aker_version s) ''NACK'' 0 ''aker'' (word_of_int status) reason"
proof -
  have "unat (word_of_int status :: u16) = nat status" "nat status < 10 ^ Suc 2" using assms(1) by auto
  then have "length (dec (unat (word_of_int status :: u16))) \<le> 3" "dec (nat status) = dec (unat (word_of_int status :: u16))"
    using length_dec [of "nat status" 2] by simp_all
  then show ?thesis using length_aker_event [of "akerTransId s" "aker_version s" "''NACK''"] assms(2)
    by (simp add: aker_nack_data_def fit_def nack_text_def event_text_def)
qed

lemma webcfgCallback_text:
  "mem_ok s \<Longrightarrow> nul_free txt \<Longrightarrow> webcfgCallback txt s = s\<lparr>eventDataQ := eventDataQ s @ [txt]\<rparr>"
  by (simp add: webcfgCallback_def nul_free_takeWhile addToEventQueue_def event_enqueue_def)

lemma nul_free_event: "nul_free name \<Longrightarrow> nul_free status \<Longrightarrow> nul_free (event_text name x v status to)"
  "nul_free name \<Longrightarrow> nul_free status \<Longrightarrow> nul_free proc \<Longrightarrow> nul_free reason \<Longrightarrow> nul_free (nack_text name x v status to proc code reason)"
  by (simp_all add: event_text_def nack_text_def)

lemma handleAkerStatus_ack:
  assumes "mem_ok s" "status = 200 \<or> status = 201"
  shows "handleAkerStatus status reason s = s\<lparr>eventDataQ := eventDataQ s @ [aker_ack_data s]\<rparr>"
    "parseEventData True (Some (aker_ack_data s)) = Some
      \<lparr>ev_subdoc_name = Some ''aker'', ev_trans_id = akerTransId s, ev_version = aker_version s, ev_status = Some ''ACK'',
       ev_timeout = 0, ev_process_name = None, ev_err_code = 0, ev_failure_reason = None\<rparr>"
proof -
  have "nul_free (aker_ack_data s)" unfolding aker_ack_data_text by (rule nul_free_event) (simp_all add: nul_free_def)
  then show "handleAkerStatus status reason s = s\<lparr>eventDataQ := eventDataQ s @ [aker_ack_data s]\<rparr>"
    using assms webcfgCallback_text by (auto simp: handleAkerStatus_def)
  show "parseEventData True (Some (aker_ack_data s)) = Some
      \<lparr>ev_subdoc_name = Some ''aker'', ev_trans_id = akerTransId s, ev_version = aker_version s, ev_status = Some ''ACK'',
       ev_timeout = 0, ev_process_name = None, ev_err_code = 0, ev_failure_reason = None\<rparr>"
    unfolding aker_ack_data_text by (rule parse_event_text) (simp_all add: no_comma_def)
qed

lemma handleAkerStatus_nack:
  assumes "mem_ok s" "status = 534 \<or> status = 535" "no_comma reason" "nul_free reason" "length reason \<le> 200"
  shows "handleAkerStatus status reason s = s\<lparr>eventDataQ := eventDataQ s @ [aker_nack_data status reason s]\<rparr>"
    "parseEventData True (Some (aker_nack_data status reason s)) = Some
      \<lparr>ev_subdoc_name = Some ''aker'', ev_trans_id = akerTransId s, ev_version = aker_version s, ev_status = Some ''NACK'',
       ev_timeout = 0, ev_process_name = Some ''aker'', ev_err_code = word_of_int status, ev_failure_reason = Some reason\<rparr>"
proof -
  note dt = aker_nack_data_text [OF assms(2,5), of s]
  have "nul_free (aker_nack_data status reason s)"
    unfolding dt by (rule nul_free_event) (use assms(4) in \<open>simp_all add: nul_free_def\<close>)
  then show "handleAkerStatus status reason s = s\<lparr>eventDataQ := eventDataQ s @ [aker_nack_data status reason s]\<rparr>"
    using assms(1,2) webcfgCallback_text by (auto simp: handleAkerStatus_def)
  show "parseEventData True (Some (aker_nack_data status reason s)) = Some
      \<lparr>ev_subdoc_name = Some ''aker'', ev_trans_id = akerTransId s, ev_version = aker_version s, ev_status = Some ''NACK'',
       ev_timeout = 0, ev_process_name = Some ''aker'', ev_err_code = word_of_int status, ev_failure_reason = Some reason\<rparr>"
    unfolding dt by (rule parse_nack_text) (use assms(3) in \<open>simp_all add: no_comma_def\<close>)
qed

text \<open>C23: the events that the answers of aker are turned into are read back by the processing of
  component events as what aker has said: the document, the transaction id and the version of the
  last request, and for an error the status as its code and the text as its reason, as long as
  the text has no comma and at most 200 bytes.\<close>

theorem aker_answer_read_back:
  assumes "mem_ok s" "status \<in> {200, 201, 534, 535}" "no_comma reason" "nul_free reason" "length reason \<le> 200"
  shows "\<exists>txt. handleAkerStatus status reason s = s\<lparr>eventDataQ := eventDataQ s @ [txt]\<rparr> \<and>
    parseEventData True (Some txt) = Some
      \<lparr>ev_subdoc_name = Some ''aker'', ev_trans_id = akerTransId s, ev_version = word_of_int (akerDocVersion s),
       ev_status = Some (if status < 500 then ''ACK'' else ''NACK''), ev_timeout = 0,
       ev_process_name = (if status < 500 then None else Some ''aker''),
       ev_err_code = (if status < 500 then 0 else word_of_int status),
       ev_failure_reason = (if status < 500 then None else Some reason)\<rparr>"
proof (cases "status < 500")
  case True
  then have "status = 200 \<or> status = 201" using assms(2) by auto
  from handleAkerStatus_ack [OF assms(1) this] True show ?thesis by (intro exI [of _ "aker_ack_data s"]) simp
next
  case False
  then have "status = 534 \<or> status = 535" using assms(2) by auto
  from handleAkerStatus_nack [OF assms(1) this assms(3-5)] False show ?thesis
    by (intro exI [of _ "aker_nack_data status reason s"]) simp
qed

theorem aker_answer_read_back_witness:
  "\<exists>txt. handleAkerStatus 534 ''bad schedule'' (ev_st.extend ev_st0 \<lparr>akerDocVersion = 5, akerTransId = 7, wakeFlag = False,
       aker_status = AkNull, send_aker_flag = True, sleep_counter = 0, crud_sent = [], aker_waits = []\<rparr>) =
     (ev_st.extend ev_st0 \<lparr>akerDocVersion = 5, akerTransId = 7, wakeFlag = False,
       aker_status = AkNull, send_aker_flag = True, sleep_counter = 0, crud_sent = [], aker_waits = []\<rparr>)\<lparr>eventDataQ := [txt]\<rparr>"
proof -
  let ?s = "ev_st.extend ev_st0 \<lparr>akerDocVersion = 5, akerTransId = 7, wakeFlag = False,
       aker_status = AkNull, send_aker_flag = True, sleep_counter = 0, crud_sent = [], aker_waits = []\<rparr>"
  have "mem_ok ?s" "eventDataQ ?s = []" by (simp_all add: ev_st.defs ev_st0_def db_st.defs db_st0_defs)
  with aker_answer_read_back [of ?s 534 "''bad schedule''"] show ?thesis by (auto simp: no_comma_def nul_free_def)
qed

section \<open>From sending to the answer\<close>

lemma akerwait_False: "akerwait env n s = (False, s') \<Longrightarrow> s' = s\<lparr>aker_waits := aker_waits s @ [n]\<rparr> \<and> \<not> g_shutdown s"
  by (cases s) (auto simp: akerwait_def Let_def)

lemma akerwait_goes_on:
  "\<not> g_shutdown s \<Longrightarrow> \<not> ak_shutdown env (length (aker_waits s)) \<Longrightarrow>
     akerwait env n s = (False, s\<lparr>aker_waits := aker_waits s @ [n]\<rparr>)"
  by (cases s) (simp add: akerwait_def)

lemma send_loop_success:
  assumes "send_loop env msg k c s = (True, s')"
  shows "\<exists>n ws. n \<le> 3 - k \<and> s' = s\<lparr>crud_sent := crud_sent s @ replicate (Suc n) msg, aker_waits := aker_waits s @ ws\<rparr>"
  using assms
proof (induction env msg k c s rule: send_loop.induct)
  case (1 env msg k c s)
  let ?s1 = "s\<lparr>crud_sent := crud_sent s @ [msg]\<rparr>"
  from "1.prems" have k: "k \<le> 3" by (subst (asm) send_loop.simps) (auto split: if_splits)
  have send: "libparodus_send env msg s = (ak_send env (length (crud_sent s)), ?s1)" by (simp add: libparodus_send_def)
  show ?case
  proof (cases "ak_send env (length (crud_sent s)) = 0")
    case True
    with "1.prems" k send have "s' = ?s1" by (subst (asm) send_loop.simps) simp
    then show ?thesis by (intro exI [of _ 0] exI [of _ "[]"]) simp
  next
    case False
    obtain s2 where w: "akerwait env (2 ^ c - 1) ?s1 = (False, s2)" "send_loop env msg (Suc k) (Suc c) s2 = (True, s')"
      using "1.prems" k send False by (subst (asm) send_loop.simps) (auto split: prod.splits bool.splits)
    from "1.IH" [OF k send [symmetric] False w(1) [symmetric] refl w(2)] obtain n ws where
      n: "n \<le> 3 - Suc k" "s' = s2\<lparr>crud_sent := crud_sent s2 @ replicate (Suc n) msg, aker_waits := aker_waits s2 @ ws\<rparr>" by blast
    have s2: "s2 = ?s1\<lparr>aker_waits := aker_waits s @ [2 ^ c - 1]\<rparr>" using akerwait_False [OF w(1)] by simp
    then have "Suc n \<le> 3 - k \<or> k = 3 \<and> n = 0" using n(1) k by linarith
    moreover have "k \<noteq> 3"
    proof
      assume "k = 3"
      then have "send_loop env msg (Suc k) (Suc c) s2 = (False, s2)" by (subst send_loop.simps) simp
      with w(2) show False by simp
    qed
    ultimately show ?thesis using n(2) s2
      by (intro exI [of _ "Suc n"] exI [of _ "(2 ^ c - 1) # ws"]) simp
  qed
qed

lemma send_aker_blob_success:
  assumes "send_aker_blob env name v sz tid ver s = (True, s')"
  shows "\<exists>ms ws. s' = s\<lparr>akerDocVersion := ver, akerTransId := tid, crud_sent := ms, aker_waits := ws\<rparr>"
  using assms send_loop_success [where s = "s\<lparr>akerDocVersion := ver, akerTransId := tid\<rparr>"]
  by (auto simp: send_aker_blob_def Let_def split: option.splits if_splits dest!: send_loop_success)

text \<open>The parameters of a document that is sent: each has marked the node with its transaction id.\<close>

abbreviation aker_sent_node :: "multipartdocs \<Rightarrow> u16 \<Rightarrow> webconfig_tmp_data \<Rightarrow> webconfig_tmp_data" where
  "aker_sent_node gmp tid \<equiv> tmp_update (mp_etag gmp) ''pending'' ''none'' 0 tid 0"

lemma aker_sent_node_simps [simp]:
  "aker_sent_node gmp x \<circ> aker_sent_node gmp y = aker_sent_node gmp x" "tmp_name (aker_sent_node gmp x t) = tmp_name t"
  by (simp_all add: fun_eq_iff tmp_update_def)

lemma validate_zero: "validate_request_param (req_zero # ps) = WEBCFG_FAILURE"
  by (simp add: validate_request_param_def req_zero_def)

lemma validate_Cons: "validate_request_param (p # ps) = WEBCFG_SUCCESS \<Longrightarrow> validate_request_param ps = WEBCFG_SUCCESS"
  by (simp add: validate_request_param_def split: if_splits)

lemma aker_params_effect:
  assumes "aker_params env gmp (Some i) j es tid s = Some (Some ps, tid', s')" "validate_request_param ps = WEBCFG_SUCCESS"
    "i < length (g_head s)" "tmp_name (g_head s ! i) = mp_name_space gmp" "es \<noteq> []"
  shows "s' = s\<lparr>g_head := upd_at i (aker_sent_node gmp tid') (g_head s)\<rparr>"
  using assms
proof (induction es arbitrary: j tid s ps)
  case (Cons e es)
  let ?a = "ak_apply env"
  obtain v where v: "wp_value e = Some v"
    using Cons.prems(1,2) validate_zero by (cases "wp_value e") auto
  have blob: "wp_type e = ae_WDMP_BLOB ?a" using Cons.prems(1) v by (auto split: if_splits)
  obtain doc t n where r: "webcfg_appendeddoc (ae_write ?a) (ae_b64 ?a) (rbus_direct ?a (mp_name_space gmp) s) (mem_ok s)
      (mp_name_space gmp) (mp_etag gmp) v (generateRandomId (ae_random ?a 0 j)) = Some (Some (doc, t, n))"
    using Cons.prems(1,2) v blob validate_zero by (fastforce simp: Let_def split: option.splits if_splits)
  define s1 where "s1 = snd (updateTmpList (Some i) (mp_name_space gmp) (mp_etag gmp) ''pending'' ''none'' 0 t 0 s)"
  have s1: "s1 = s\<lparr>g_head := upd_at i (aker_sent_node gmp t) (g_head s)\<rparr>"
    using Cons.prems(3,4) by (simp add: s1_def updateTmpList_def)
  obtain p ps' where rest: "aker_params env gmp (Some i) (Suc j) es t s1 = Some (Some ps', tid', s')" "ps = p # ps'"
    using Cons.prems(1) v blob r by (auto simp: Let_def s1_def split: if_splits)
  show ?case
  proof (cases "es = []")
    case True
    with rest(1) have "t = tid'" "s' = s1" by auto
    with s1 show ?thesis by simp
  next
    case False
    have "validate_request_param ps' = WEBCFG_SUCCESS" using Cons.prems(2) rest(2) validate_Cons by blast
    from Cons.IH [OF rest(1) this _ _ False] Cons.prems(3,4) s1
    have "s' = s1\<lparr>g_head := upd_at i (aker_sent_node gmp tid') (g_head s1)\<rparr>" by (simp add: upd_at_nth)
    then show ?thesis using s1 by simp
  qed
qed simp

lemma processAkerSubdoc_success:
  assumes "processAkerSubdoc env (Some i) (Some gmp) s = Some (AKER_SUCCESS, s')"
    "i < length (g_head s)" "tmp_name (g_head s ! i) = ''aker''"
  shows "\<exists>tid ms ws. s' = s\<lparr>g_head := upd_at i (aker_sent_node gmp tid) (g_head s), akerDocVersion := c_int (uint (mp_etag gmp)),
    akerTransId := tid, crud_sent := ms, aker_waits := ws, send_aker_flag := True\<rparr>"
proof -
  let ?a = "ak_apply env"
  have name: "mp_name_space gmp = ''aker''" using assms(1) by (auto simp: processAkerSubdoc_def split: if_splits)
  obtain pm err where pm: "webcfgparam_convert (mem_ok s) (ae_unpack ?a) (Some (mp_data gmp @ [ae_beyond ?a])) (ae_errno ?a) = (Some pm, err)"
    using assms(1) name by (cases "webcfgparam_convert (mem_ok s) (ae_unpack ?a) (Some (mp_data gmp @ [ae_beyond ?a])) (ae_errno ?a)")
      (auto simp: processAkerSubdoc_def Let_def split: option.splits)
  obtain ps tid s1 where p: "aker_params env gmp (Some i) 0 pm 0 s = Some (Some ps, tid, s1)"
    "validate_request_param ps = WEBCFG_SUCCESS" "aker_send env (Some i) gmp pm tid s1 = Some (AKER_SUCCESS, s')"
    using assms(1) name pm by (auto simp: processAkerSubdoc_def Let_def split: option.splits if_splits)
  have "pm \<noteq> []" using p(3) by (auto simp: aker_send_def)
  from aker_params_effect [OF p(1,2) assms(2) _ this] assms(3) name
  have s1: "s1 = s\<lparr>g_head := upd_at i (aker_sent_node gmp tid) (g_head s)\<rparr>" by simp
  from p(3) obtain n v sz s2 where s2: "send_aker_blob env n v sz tid (c_int (uint (mp_etag gmp))) s1 = (True, s2)"
    "s' = s2\<lparr>send_aker_flag := True\<rparr>"
    by (auto simp: aker_send_def split: list.splits option.splits prod.splits bool.splits)
  obtain ms ws where "s2 = s1\<lparr>akerDocVersion := c_int (uint (mp_etag gmp)), akerTransId := tid, crud_sent := ms, aker_waits := ws\<rparr>"
    using send_aker_blob_success [OF s2(1)] by blast
  with s2(2) s1 show ?thesis by (intro exI [of _ tid] exI [of _ ms] exI [of _ ws]) simp
qed

lemma c_int_u32: "(word_of_int (c_int (uint (w :: u32))) :: u32) = w"
proof -
  have "c_int x mod 2 ^ 32 = x mod 2 ^ 32" for x by (simp add: c_int_def mod_diff_left_eq)
  then have "(word_of_int (c_int x) :: u32) = word_of_int x" for x
    by (simp add: word_of_int_eq_iff take_bit_eq_mod)
  then show ?thesis by simp
qed

lemma ev_ok_aker [simp]:
  "ev_ok a (s\<lparr>akerDocVersion := x1, akerTransId := x2, crud_sent := x3, aker_waits := x4, send_aker_flag := x5\<rparr>) = ev_ok a s"
  by (simp add: ev_ok_def apply_inv_def tmp_inv_def db_inv_def timer_inv_def)

text \<open>C21: the life of an aker document. Once it was sent successfully and aker answers that the
  schedule was accepted, the answer becomes an event that is taken for the very document: its
  version enters the database and one success notification with its cloud transaction id is
  queued.\<close>

theorem aker_document_applied:
  assumes "ev_ok (ak_apply env) s" "getTmpNode ''aker'' s = Some i" "tmp_isSupplementarySync (tmp_node i s) = 0" "eventDataQ s = []"
    and sent: "processAkerSubdoc env (Some i) (Some gmp) s = Some (AKER_SUCCESS, s1)"
    and answer: "cr_service m = Some ''aker''" "cr_application m = Some ''schedule''" "cr_payload m = Some p" "cr_status m \<in> {200, 201}"
      "ak_unpack env p = Some (MpMap ((MpStr ''message'', MpStr txt) # kvs), after)"
  shows "\<exists>s2 s3 r. processAkerUpdateDelete env m s1 = Some s2 \<and> processSubdocEvent (ak_apply env) s2 = Some s3 \<and>
    db_map (webcfgdb_data s3) ''aker'' = Some (mp_etag gmp, r) \<and>
    notifyMsgQ s3 = notifyMsgQ s @ [notify_msg (Some ''aker'') (mp_etag gmp) (Some ''success'') (Some ''none'')
      (Some (tmp_cloud_trans_id (tmp_node i s))) 0 (Some ''status'') 0 None 200]"
proof -
  note n = tmp_node_found [OF assms(2)]
  obtain tid ms ws where s1: "s1 = s\<lparr>g_head := upd_at i (aker_sent_node gmp tid) (g_head s), akerDocVersion := c_int (uint (mp_etag gmp)),
    akerTransId := tid, crud_sent := ms, aker_waits := ws, send_aker_flag := True\<rparr>"
    using processAkerSubdoc_success [OF sent n(1,2)] by blast
  define e where "e = \<lparr>ev_subdoc_name = Some ''aker'', ev_trans_id = tid, ev_version = mp_etag gmp, ev_status = Some ''ACK'',
       ev_timeout = 0, ev_process_name = None, ev_err_code = 0, ev_failure_reason = None\<rparr>"
  have ok: "ev_ok (ak_apply env) s1" and q: "eventDataQ s1 = []" using assms(1,4)
    by (simp_all add: s1 ev_ok_def apply_inv_def tmp_inv_def db_inv_def timer_inv_def map_upd_at)
  then have mem: "mem_ok s1" by (simp add: ev_ok_def apply_inv_def)
  have look: "tmp_lookup ''aker'' s1 = Some (aker_sent_node gmp tid (tmp_node i s))"
  proof -
    have "tmp_lookup ''aker'' s1 = tmp_lookup ''aker'' (snd (updateTmpList (Some i) ''aker'' (mp_etag gmp) ''pending'' ''none'' 0 tid 0 s))"
      using n(1,2) by (simp add: tmp_lookup_def updateTmpList_def s1)
    with updateTmpList_lookup [OF assms(2)] n(3) show ?thesis by (simp add: tmp_node_def)
  qed
  define s2 where "s2 = s1\<lparr>eventDataQ := [aker_ack_data s1]\<rparr>"
  have st: "cr_status m = 200 \<or> cr_status m = 201" using answer(4) by auto
  note ack = handleAkerStatus_ack [OF mem st]
  have "processAkerUpdateDelete env m s1 = Some s2"
    using answer(1-3,5) ack(1) q by (simp add: processAkerUpdateDelete_def decodePayload_def match_key_def s2_def)
  moreover have "parseEventData True (Some (aker_ack_data s1)) = Some e"
    using ack(2) by (simp add: e_def s1 c_int_u32)
  then have "processSubdocEvent (ak_apply env) s2 = handle_event (ak_apply env) e s1"
    using mem q by (simp add: processSubdocEvent_def event_dequeue_def s2_def) (metis ev_st.surjective ev_st.update_convs(1))
  moreover have "pending_event e ''aker'' s1" by (simp add: pending_event_def look e_def tmp_update_def)
  then have "\<exists>s3 r. handle_event (ak_apply env) e s1 = Some s3 \<and> ev_ok (ak_apply env) s3 \<and>
      db_map (webcfgdb_data s3) ''aker'' = Some (ev_version e, r) \<and>
      (\<forall>d. d \<notin> {''aker'', ''root''} \<longrightarrow> db_map (webcfgdb_data s3) d = db_map (webcfgdb_data s1) d) \<and>
      notifyMsgQ s3 = notifyMsgQ s1 @ [notify_msg (Some ''aker'') (ev_version e) (Some ''success'') (Some ''none'')
        (Some (tmp_cloud_trans_id (aker_sent_node gmp tid (tmp_node i s)))) 0 (Some ''status'') 0 None 200] \<and>
      timer_lookup ''aker'' s3 = (case timer_lookup ''aker'' s1 of None \<Rightarrow> None
        | Some x \<Rightarrow> if et_running x \<and> et_txid x = ev_trans_id e then None else Some x)"
    using assms(3) by (intro ack_applied [OF ok _ _ _ look]) (simp_all add: e_def is_ack_def tmp_update_def)
  ultimately show ?thesis by (auto simp: e_def s1 tmp_update_def)
qed

text \<open>A device with one aker document in progress, its library and its connection.\<close>

definition aker_demo :: aker_st where
  "aker_demo = ev_st.extend (ev_st0\<lparr>g_head := [root_node, wan_node\<lparr>tmp_name := ''aker''\<rparr>], numOfMpDocs := 2\<rparr>)
     \<lparr>akerDocVersion = 0, akerTransId = 0, wakeFlag = False, aker_status = AkNull, send_aker_flag = False, sleep_counter = 0,
      crud_sent = [], aker_waits = []\<rparr>"

definition demo_aker :: aker_env where
  "demo_aker = \<lparr>ak_apply = demo_env\<lparr>ae_unpack := (\<lambda>_. Some (MpMap [(MpStr ''parameters'', MpArray [MpMap
       [(MpStr ''name'', MpStr AKER_UPDATE_PARAM), (MpStr ''value'', MpStr ''A''), (MpStr ''dataType'', MpPosInt 12)]])], 1))\<rparr>,
     ak_mac = Some ''001122334455'', ak_uuid = None, ak_send = (\<lambda>_. 0), ak_wakes = (\<lambda>_. []), ak_shutdown = (\<lambda>_. False),
     ak_init = (\<lambda>_. 0), ak_unpack = (\<lambda>_. Some (MpMap [(MpStr ''message'', MpStr ''done'')], [])),
     ak_service_status = (\<lambda>_. None)\<rparr>"

definition aker_doc :: multipartdocs where
  "aker_doc = \<lparr>mp_etag = 9, mp_name_space = ''aker'', mp_data = ''d'', mp_isSupplementarySync = 0\<rparr>"

lemma aker_demo_simps [simp]:
  "mem_ok aker_demo" "g_head aker_demo = [root_node, wan_node\<lparr>tmp_name := ''aker''\<rparr>]" "eventDataQ aker_demo = []"
  "crud_sent aker_demo = []" "aker_waits aker_demo = []" "\<not> wakeFlag aker_demo" "notifyMsgQ aker_demo = []"
  "g_shutdown aker_demo \<longleftrightarrow> g_shutdown ev_st0"
  by (simp_all add: aker_demo_def ev_st.defs ev_st0_def db_st.defs db_st0_defs)

lemma aker_demo_convert:
  "webcfgparam_convert True (ae_unpack (ak_apply demo_aker)) (Some (d @ [c])) e =
     (Some [\<lparr>wp_name = Some AKER_UPDATE_PARAM, wp_value = Some ''A'', wp_value_size = 1, wp_type = 12\<rparr>], HELPERS_OK)"
  by (simp add: demo_aker_def webcfgparam_convert_def helper_convert_def process_webcfgparam_def
      process_params_def process_params_kv_def wparam_zero_def strndup_def AKER_UPDATE_PARAM_def)

lemma aker_demo_sent:
  "\<exists>s1. processAkerSubdoc demo_aker (Some 1) (Some aker_doc) aker_demo = Some (AKER_SUCCESS, s1)"
proof -
  let ?a = "ak_apply demo_aker"
  have f: "ae_write ?a = (\<lambda>_. ''w'')" "ae_b64 ?a = (\<lambda>b. b)" "ae_WDMP_BLOB ?a = 12" "ae_WDMP_BASE64 ?a = 8" "\<not> ae_rbus_enabled ?a"
    "ae_random ?a = (\<lambda>_ _. Some 7)" "ak_send demo_aker n = 0" for n by (simp_all add: demo_aker_def demo_env_def)
  have d: "webcfg_appendeddoc (ae_write ?a) (ae_b64 ?a) False True ''aker'' 9 ''A'' 7 = Some (Some (''Dw'', 7, 2))"
    by (simp add: f webcfg_appendeddoc_def webcfg_pack_appenddoc_def appendWebcfgEncodedData_def alterMapData_def METADATA_MAP_SIZE_def char_of_def bit_iff_odd)
  have b: "aker_params demo_aker aker_doc (Some 1) 0 [\<lparr>wp_name = Some AKER_UPDATE_PARAM, wp_value = Some ''A'', wp_value_size = 1,
      wp_type = 12\<rparr>] 0 aker_demo = Some (Some [\<lparr>rp_name = Some AKER_UPDATE_PARAM, rp_value = Some ''Dw'', rp_type = 8\<rparr>], 7,
      snd (updateTmpList (Some 1) ''aker'' 9 ''pending'' ''none'' 0 7 0 aker_demo))"
    using d by (simp add: f aker_doc_def rbus_direct_def generateRandomId_def cstr_def Let_def)
  have v: "validate_request_param [\<lparr>rp_name = Some AKER_UPDATE_PARAM, rp_value = Some ''Dw'', rp_type = 8\<rparr>] = WEBCFG_SUCCESS"
    by (simp add: validate_request_param_def AKER_UPDATE_PARAM_def cstr_def MAX_PARAMETERNAME_LEN_def)
  have s: "\<exists>s1. send_aker_blob demo_aker (Some AKER_UPDATE_PARAM) ''A'' 1 7 9 s = (True, s1)" if "mem_ok s" for s :: aker_st
    using that by (simp add: send_aker_blob_def send_loop.simps libparodus_send_def f Let_def)
  have c: "c_int 9 = 9" by (simp add: c_int_def)
  have g: "mp_name_space aker_doc = ''aker''" "mp_etag aker_doc = 9" by (simp_all add: aker_doc_def)
  show ?thesis
    using s [of "snd (updateTmpList (Some 1) ''aker'' 9 ''pending'' ''none'' 0 7 0 aker_demo)"] b v
    by (auto simp: processAkerSubdoc_def aker_demo_convert aker_send_def g c updateTmpList_def simp del: aker_params.simps)
qed

theorem aker_document_applied_witness:
  "\<exists>s1 s2 s3 r. processAkerSubdoc demo_aker (Some 1) (Some aker_doc) aker_demo = Some (AKER_SUCCESS, s1) \<and>
     processAkerUpdateDelete demo_aker \<lparr>cr_type = CRUD_UPDATE, cr_service = Some ''aker'', cr_application = Some ''schedule'',
       cr_payload = Some ''p'', cr_status = 200\<rparr> s1 = Some s2 \<and>
     processSubdocEvent (ak_apply demo_aker) s2 = Some s3 \<and> db_map (webcfgdb_data s3) ''aker'' = Some (9, r)"
proof -
  let ?m = "\<lparr>cr_type = CRUD_UPDATE, cr_service = Some ''aker'', cr_application = Some ''schedule'', cr_payload = Some ''p'', cr_status = 200\<rparr>"
  obtain s1 where s1: "processAkerSubdoc demo_aker (Some 1) (Some aker_doc) aker_demo = Some (AKER_SUCCESS, s1)"
    using aker_demo_sent by blast
  have ok: "ev_ok (ak_apply demo_aker) aker_demo"
    by (simp add: aker_demo_def ev_ok_def apply_inv_def tmp_inv_def db_inv_def db_names_def timer_inv_def ev_st.defs ev_st0_def db_st.defs db_st0_defs)
  have node: "getTmpNode ''aker'' aker_demo = Some 1" "tmp_isSupplementarySync (tmp_node 1 aker_demo) = 0"
    by (simp_all add: getTmpNode_def tmp_node_def)
  have u: "ak_unpack demo_aker ''p'' = Some (MpMap ((MpStr ''message'', MpStr ''done'') # []), [])" by (simp add: demo_aker_def)
  from aker_document_applied [where m = ?m, OF ok node _ s1 _ _ _ _ u] obtain s2 s3 r where
    "processAkerUpdateDelete demo_aker ?m s1 = Some s2" "processSubdocEvent (ak_apply demo_aker) s2 = Some s3"
    "db_map (webcfgdb_data s3) ''aker'' = Some (mp_etag aker_doc, r)" by auto
  with s1 show ?thesis by (auto simp: aker_doc_def)
qed

section \<open>Waiting for aker in vain\<close>

text \<open>The answers to the question number \<open>k\<close> do not say that aker is online.\<close>

definition aker_offline :: "aker_env \<Rightarrow> bool" where
  "aker_offline env \<longleftrightarrow> (\<forall>k. \<not> ak_shutdown env k) \<and>
     (\<forall>k. ak_send env k \<noteq> 0 \<or> (\<forall>w\<in>set (ak_wakes env k). w \<noteq> WakeShutdown \<and> w \<noteq> WakeStatus AKER_STATUS_ONLINE))"

lemma get_global_status_offline:
  assumes "\<forall>w\<in>set ws. w \<noteq> WakeShutdown \<and> w \<noteq> WakeStatus AKER_STATUS_ONLINE" "\<not> wakeFlag s" "\<not> g_shutdown s"
    "get_global_status ws s = (p, s')"
  shows "p \<noteq> AkFreed \<and> p \<noteq> AkText AKER_STATUS_ONLINE \<and> (\<exists>x. s' = s\<lparr>aker_status := x\<rparr>)"
  using assms
proof (induction ws)
  case Nil
  then have "p = AkNull" "s' = s" by (subst (asm) get_global_status.simps, simp)+
  then show ?case by (cases s) auto
next
  case (Cons w ws)
  show ?case
  proof (cases w)
    case (WakeStatus st)
    have "get_global_status ws (set_global_status st s) = (AkText st, s\<lparr>aker_status := AkText st\<rparr>)"
      using Cons.prems(2) by (subst get_global_status.simps) (cases s, simp add: set_global_status_def)
    with Cons.prems WakeStatus have "p = AkText st" "s' = s\<lparr>aker_status := AkText st\<rparr>"
      by (subst (asm) get_global_status.simps, simp)+
    with Cons.prems(1) WakeStatus show ?thesis by auto
  next
    case WakeSpurious
    with Cons.prems have "get_global_status ws s = (p, s')" by (subst (asm) get_global_status.simps) simp
    with Cons show ?thesis by simp
  qed (use Cons.prems(1) in simp)
qed

lemma checkAkerStatus_offline:
  assumes "aker_offline env" "mem_ok s" "\<not> wakeFlag s" "\<not> g_shutdown s"
  shows "\<exists>m x. checkAkerStatus env s = Some (WEBCFG_FAILURE, s\<lparr>crud_sent := crud_sent s @ [m], aker_status := x\<rparr>) \<and>
    cm_type m = CRUD_RETRIEVE"
proof -
  let ?m = "\<lparr>cm_type = CRUD_RETRIEVE, cm_source = fit 64 (''mac:'' @ printf_s (ak_mac env) @ ''/webcfg''),
               cm_dest = fit 64 (''mac:'' @ printf_s (ak_mac env) @ ''/parodus/service-status/aker''),
               cm_uuid = ak_uuid env, cm_content_type = CONTENT_TYPE_JSON, cm_payload = None\<rparr>"
  let ?s1 = "s\<lparr>crud_sent := crud_sent s @ [?m]\<rparr>"
  have send: "libparodus_send env ?m s = (ak_send env (length (crud_sent s)), ?s1)" by (simp add: libparodus_send_def)
  show ?thesis
  proof (cases "ak_send env (length (crud_sent s)) = 0")
    case True
    obtain p s2 where g: "get_global_status (ak_wakes env (length (crud_sent s))) ?s1 = (p, s2)" by fastforce
    have "\<forall>w\<in>set (ak_wakes env (length (crud_sent s))). w \<noteq> WakeShutdown \<and> w \<noteq> WakeStatus AKER_STATUS_ONLINE"
      using assms(1) True by (auto simp: aker_offline_def)
    from get_global_status_offline [OF this _ _ g] assms(3,4) obtain x where
      "p \<noteq> AkFreed" "p \<noteq> AkText AKER_STATUS_ONLINE" "s2 = ?s1\<lparr>aker_status := x\<rparr>" by auto
    then show ?thesis using True g send assms(2)
      by (intro exI [of _ ?m] exI [of _ "if p = AkNull then x else AkFreed"]) (cases p; simp add: checkAkerStatus_def)
  next
    case False
    with send assms(2) show ?thesis
      by (intro exI [of _ ?m] exI [of _ "aker_status s"]) (simp add: checkAkerStatus_def)
  qed
qed

text \<open>The state after \<open>n\<close> questions, each followed by a wait.\<close>

definition aker_waiting :: "multipartdocs \<Rightarrow> nat \<Rightarrow> 'z aker_st_scheme \<Rightarrow> nat list \<Rightarrow> 'z aker_st_scheme \<Rightarrow> bool" where
  "aker_waiting mp i s0 ws s \<longleftrightarrow>
     (\<exists>ms x. s = s0\<lparr>crud_sent := crud_sent s0 @ ms, aker_status := x,
        g_head := (if ws = [] then g_head s0
                   else upd_at i (tmp_update (mp_etag mp) ''pending'' ''aker_service_unavailable'' 0 0 0) (g_head s0)),
        aker_waits := aker_waits s0 @ ws\<rparr> \<and> length ms = length ws \<and> (\<forall>m\<in>set ms. cm_type m = CRUD_RETRIEVE))"

lemma aker_pending_simps [simp]:
  "tmp_update v st d 0 0 0 \<circ> tmp_update v st d 0 0 0 = tmp_update v st d 0 0 0" "tmp_name (tmp_update v st d e x r t) = tmp_name t"
  by (simp_all add: fun_eq_iff tmp_update_def)

text \<open>One question and the node it leaves.\<close>

lemma aker_question:
  assumes "aker_offline env" "mem_ok s0" "\<not> wakeFlag s0" "\<not> g_shutdown s0" "i < length (g_head s0)"
    "tmp_name (g_head s0 ! i) = mp_name_space mp" "aker_waiting mp i s0 ws s"
  shows "\<exists>s1 ms x. checkAkerStatus env s = Some (WEBCFG_FAILURE, s1) \<and>
    snd (updateTmpList (Some i) (mp_name_space mp) (mp_etag mp) ''pending'' ''aker_service_unavailable'' 0 0 0 s1) =
      s0\<lparr>crud_sent := crud_sent s0 @ ms, aker_status := x,
        g_head := upd_at i (tmp_update (mp_etag mp) ''pending'' ''aker_service_unavailable'' 0 0 0) (g_head s0),
        aker_waits := aker_waits s0 @ ws\<rparr> \<and> length ms = Suc (length ws) \<and> (\<forall>m\<in>set ms. cm_type m = CRUD_RETRIEVE)"
proof -
  obtain ms x where s: "s = s0\<lparr>crud_sent := crud_sent s0 @ ms, aker_status := x,
        g_head := (if ws = [] then g_head s0
                   else upd_at i (tmp_update (mp_etag mp) ''pending'' ''aker_service_unavailable'' 0 0 0) (g_head s0)),
        aker_waits := aker_waits s0 @ ws\<rparr>" "length ms = length ws" "\<forall>m\<in>set ms. cm_type m = CRUD_RETRIEVE"
    using assms(7) by (auto simp: aker_waiting_def)
  then have f: "mem_ok s" "\<not> wakeFlag s" "\<not> g_shutdown s" using assms(2-4) by simp_all
  obtain m y where c: "checkAkerStatus env s = Some (WEBCFG_FAILURE, s\<lparr>crud_sent := crud_sent s @ [m], aker_status := y\<rparr>)"
    "cm_type m = CRUD_RETRIEVE" using checkAkerStatus_offline [OF assms(1) f] by blast
  show ?thesis
    by (rule exI [of _ "s\<lparr>crud_sent := crud_sent s @ [m], aker_status := y\<rparr>"], rule exI [of _ "ms @ [m]"], rule exI [of _ y])
      (use c s assms(5,6) in \<open>auto simp: updateTmpList_def upd_at_nth\<close>)
qed

lemma aker_round:
  assumes "aker_offline env" "mem_ok s0" "\<not> wakeFlag s0" "\<not> g_shutdown s0" "i < length (g_head s0)"
    "tmp_name (g_head s0 ! i) = mp_name_space mp" "aker_waiting mp i s0 ws s" "\<not> aker_max_retry_sleep \<le> b"
  shows "\<exists>s'. aker_rounds env (Some i) mp b c s = aker_rounds env (Some i) mp (2 ^ c - 1) (Suc c) s' \<and>
    aker_waiting mp i s0 (ws @ [2 ^ c - 1]) s'"
proof -
  obtain s1 ms x where q: "checkAkerStatus env s = Some (WEBCFG_FAILURE, s1)"
    "snd (updateTmpList (Some i) (mp_name_space mp) (mp_etag mp) ''pending'' ''aker_service_unavailable'' 0 0 0 s1) =
      s0\<lparr>crud_sent := crud_sent s0 @ ms, aker_status := x,
        g_head := upd_at i (tmp_update (mp_etag mp) ''pending'' ''aker_service_unavailable'' 0 0 0) (g_head s0),
        aker_waits := aker_waits s0 @ ws\<rparr>" "length ms = Suc (length ws)" "\<forall>m\<in>set ms. cm_type m = CRUD_RETRIEVE"
    using aker_question [OF assms(1-7)] by blast
  define s2 where "s2 = s0\<lparr>crud_sent := crud_sent s0 @ ms, aker_status := x,
        g_head := upd_at i (tmp_update (mp_etag mp) ''pending'' ''aker_service_unavailable'' 0 0 0) (g_head s0),
        aker_waits := aker_waits s0 @ ws\<rparr>"
  have w: "akerwait env (2 ^ c - 1) s2 = (False, s2\<lparr>aker_waits := aker_waits s2 @ [2 ^ c - 1]\<rparr>)"
    using assms(1,4) by (intro akerwait_goes_on) (simp_all add: aker_offline_def s2_def)
  have "aker_rounds env (Some i) mp b c s =
      aker_rounds env (Some i) mp (2 ^ c - 1) (Suc c) (s2\<lparr>aker_waits := aker_waits s2 @ [2 ^ c - 1]\<rparr>)"
    using assms(8) by (subst aker_rounds.simps) (simp add: q w [unfolded One_nat_def] flip: s2_def)
  moreover have "aker_waiting mp i s0 (ws @ [2 ^ c - 1]) (s2\<lparr>aker_waits := aker_waits s2 @ [2 ^ c - 1]\<rparr>)"
    unfolding aker_waiting_def using q(3,4) by (intro exI [of _ ms] exI [of _ x]) (simp add: s2_def)
  ultimately show ?thesis by blast
qed

lemma aker_four_rounds:
  assumes "aker_offline env" "mem_ok s" "\<not> wakeFlag s" "\<not> g_shutdown s" "i < length (g_head s)" "tmp_name (g_head s ! i) = mp_name_space mp"
  shows "\<exists>s4. aker_rounds env (Some i) mp 0 4 s = aker_rounds env (Some i) mp 127 8 s4 \<and> aker_waiting mp i s [15, 31, 63, 127] s4"
proof -
  note round = aker_round [OF assms]
  let ?W = "aker_waiting mp i s"
  have "?W [] s" by (auto simp: aker_waiting_def intro!: exI [of _ "[]"] exI [of _ "aker_status s"])
  from round [OF this, of 0 4] obtain s1 where s1: "aker_rounds env (Some i) mp 0 4 s = aker_rounds env (Some i) mp 15 5 s1" "?W [15] s1"
    by (auto simp: aker_max_retry_sleep_def)
  from round [OF s1(2), of 15 5] obtain s2 where s2: "aker_rounds env (Some i) mp 15 5 s1 = aker_rounds env (Some i) mp 31 6 s2" "?W [15, 31] s2"
    by (auto simp: aker_max_retry_sleep_def)
  from round [OF s2(2), of 31 6] obtain s3 where s3: "aker_rounds env (Some i) mp 31 6 s2 = aker_rounds env (Some i) mp 63 7 s3" "?W [15, 31, 63] s3"
    by (auto simp: aker_max_retry_sleep_def)
  from round [OF s3(2), of 63 7] obtain s4 where s4: "aker_rounds env (Some i) mp 63 7 s3 = aker_rounds env (Some i) mp 127 8 s4"
    "?W [15, 31, 63, 127] s4" by (auto simp: aker_max_retry_sleep_def)
  show ?thesis using s1(1) s2(1) s3(1) s4 by (intro exI [of _ s4]) simp
qed

lemma updateAkerMaxRetry_effect:
  assumes "mem_ok s" "i < length (g_head s)" "tmp_name (g_head s ! i) = d"
  shows "updateAkerMaxRetry (Some i) d s = s\<lparr>g_head := upd_at i (\<lambda>t. tmp_update (tmp_version t) ''failed'' ''aker_service_unavailable'' 0 0 0 t) (g_head s),
    notifyMsgQ := notifyMsgQ s @ [notify_msg (Some d) (tmp_version (tmp_node i s)) (Some ''failed'') (Some ''aker_service_unavailable'')
      (Some (tmp_cloud_trans_id (tmp_node i s))) 0 (Some ''status'') 0 None 200]\<rparr>"
proof -
  have "upd_at i (\<lambda>t. tmp_update (tmp_version t) st e 0 0 0 t) (g_head s) = upd_at i (tmp_update (tmp_version (g_head s ! i)) st e 0 0 0) (g_head s)" for st e
    using assms(2) by (simp add: upd_at_def)
  then show ?thesis using assms
    by (simp add: updateAkerMaxRetry_def aker_report_def updateTmpList_def tmp_node_def addWebConfgNotifyMsg_def notify_enqueue_def upd_at_nth)
      (simp add: tmp_update_def)
qed

text \<open>C22: an aker that never comes online holds up the sync for a bounded time. Its status is
  asked for five times with waits of 15, 31, 63 and 127 seconds in between; then the document is
  given up as failed with \<open>aker_service_unavailable\<close> and one notification says so. No request
  with the document is sent.\<close>

theorem aker_unavailable:
  assumes "aker_offline env" "mem_ok s" "\<not> wakeFlag s" "\<not> g_shutdown s" "getTmpNode ''aker'' s = Some i" "mp_name_space mp = ''aker''"
  shows "\<exists>s' ms. apply_aker env mp s = Some s' \<and> aker_waits s' = aker_waits s @ [15, 31, 63, 127] \<and>
    crud_sent s' = crud_sent s @ ms \<and> map cm_type ms = replicate 5 CRUD_RETRIEVE \<and>
    tmp_lookup ''aker'' s' = Some (tmp_update (mp_etag mp) ''failed'' ''aker_service_unavailable'' 0 0 0 (tmp_node i s)) \<and>
    notifyMsgQ s' = notifyMsgQ s @ [notify_msg (Some ''aker'') (mp_etag mp) (Some ''failed'') (Some ''aker_service_unavailable'')
      (Some (tmp_cloud_trans_id (tmp_node i s))) 0 (Some ''status'') 0 None 200]"
proof -
  note n = tmp_node_found [OF assms(5)]
  note node = n(1) n(2) [folded assms(6)]
  obtain s4 where s4: "aker_rounds env (Some i) mp 0 4 s = aker_rounds env (Some i) mp 127 8 s4" "aker_waiting mp i s [15, 31, 63, 127] s4"
    using aker_four_rounds [OF assms(1-4) node] by blast
  let ?pend = "tmp_update (mp_etag mp) ''pending'' ''aker_service_unavailable'' 0 0 0"
    and ?fail = "tmp_update (mp_etag mp) ''failed'' ''aker_service_unavailable'' 0 0 0"
  obtain s5 ms x where q: "checkAkerStatus env s4 = Some (WEBCFG_FAILURE, s5)"
    "snd (updateTmpList (Some i) (mp_name_space mp) (mp_etag mp) ''pending'' ''aker_service_unavailable'' 0 0 0 s5) =
      s\<lparr>crud_sent := crud_sent s @ ms, aker_status := x, g_head := upd_at i ?pend (g_head s), aker_waits := aker_waits s @ [15, 31, 63, 127]\<rparr>"
    "length ms = 5" "\<forall>m\<in>set ms. cm_type m = CRUD_RETRIEVE"
    using aker_question [OF assms(1-4) node s4(2)] by auto
  define s6 where "s6 = s\<lparr>crud_sent := crud_sent s @ ms, aker_status := x, g_head := upd_at i ?pend (g_head s),
    aker_waits := aker_waits s @ [15, 31, 63, 127]\<rparr>"
  have "apply_aker env mp s = Some (updateAkerMaxRetry (Some i) ''aker'' s6)"
    using assms(5,6) s4(1)
    by (simp add: apply_aker_def) (subst aker_rounds.simps, simp add: q [unfolded assms(6)] aker_max_retry_sleep_def flip: s6_def)
  moreover have "(\<lambda>t. tmp_update (tmp_version t) ''failed'' ''aker_service_unavailable'' 0 0 0 t) \<circ> ?pend = ?fail" "tmp_node i s6 = ?pend (tmp_node i s)"
    using n(1) by (simp_all add: s6_def tmp_node_def upd_at_nth fun_eq_iff tmp_update_def)
  ultimately have a: "apply_aker env mp s = Some (s6\<lparr>g_head := upd_at i ?fail (g_head s), notifyMsgQ := notifyMsgQ s @
      [notify_msg (Some ''aker'') (mp_etag mp) (Some ''failed'') (Some ''aker_service_unavailable'')
      (Some (tmp_cloud_trans_id (tmp_node i s))) 0 (Some ''status'') 0 None 200]\<rparr>)"
    using assms(2) n updateAkerMaxRetry_effect [of s6 i "''aker''"] by (simp add: s6_def upd_at_nth) (simp add: tmp_update_def)
  have "map cm_type ms = replicate 5 CRUD_RETRIEVE" using q(3,4) by (metis map_replicate_const map_cong)
  moreover have "find (\<lambda>t. tmp_name t = ''aker'') (upd_at i ?fail (g_head s)) = Some (?fail (tmp_node i s))"
    using updateTmpList_lookup [OF assms(5), of "mp_etag mp" "''failed''" "''aker_service_unavailable''" 0 0 0 "''aker''"] n
    by (simp add: updateTmpList_def tmp_lookup_def tmp_node_def)
  ultimately show ?thesis unfolding a
    by - (rule exI, rule exI [of _ ms], rule conjI, rule refl, simp add: s6_def tmp_lookup_def)
qed

theorem aker_unavailable_witness:
  "\<exists>s'. apply_aker demo_aker aker_doc aker_demo = Some s' \<and> aker_waits s' = [15, 31, 63, 127]"
proof -
  have "aker_offline demo_aker" by (simp add: aker_offline_def demo_aker_def)
  moreover have "\<not> g_shutdown aker_demo" by (simp add: ev_st0_def db_st.defs db_st0_defs)
  moreover have "getTmpNode ''aker'' aker_demo = Some 1" by (simp add: getTmpNode_def)
  moreover have "mp_name_space aker_doc = ''aker''" by (simp add: aker_doc_def)
  ultimately obtain s' where "apply_aker demo_aker aker_doc aker_demo = Some s'" "aker_waits s' = aker_waits aker_demo @ [15, 31, 63, 127]"
    using aker_unavailable [of demo_aker aker_demo 1 aker_doc] by auto
  then show ?thesis by auto
qed

text \<open>An answer that comes too late is taken for the answer to the next question, whatever is
  said then; and when the program is shut down while a further answer is awaited, the text of the
  one before is compared although it was freed.\<close>

theorem aker_late_answer:
  assumes "mem_ok s" "\<not> g_shutdown s" "\<forall>k. ak_send env k = 0" "ak_wakes env (Suc (length (crud_sent s))) = [WakeShutdown]"
  shows "\<exists>s1. checkAkerStatus env (set_global_status v s) =
      Some (if v = AKER_STATUS_ONLINE then WEBCFG_SUCCESS else WEBCFG_FAILURE, s1) \<and> checkAkerStatus env s1 = None"
proof -
  have now: "get_global_status ws x = (aker_status x, x\<lparr>wakeFlag := False\<rparr>)" if "wakeFlag x" for ws and x :: "'z aker_st_scheme"
    using that by (subst get_global_status.simps) simp
  have down: "get_global_status [WakeShutdown] x = (aker_status x, x\<lparr>g_shutdown := True, wakeFlag := False\<rparr>)"
    if "\<not> wakeFlag x" "\<not> g_shutdown x" for x :: "'z aker_st_scheme"
    using that by (subst get_global_status.simps) (simp, subst get_global_status.simps, simp)
  obtain s1 where c: "checkAkerStatus env (set_global_status v s) =
      Some (if v = AKER_STATUS_ONLINE then WEBCFG_SUCCESS else WEBCFG_FAILURE, s1)"
    "mem_ok s1" "\<not> g_shutdown s1" "\<not> wakeFlag s1" "aker_status s1 = AkFreed" "length (crud_sent s1) = Suc (length (crud_sent s))"
    using assms(1-3) by (simp add: checkAkerStatus_def libparodus_send_def set_global_status_def now)
  from c(2-6) have "checkAkerStatus env s1 = None"
    using assms(3,4) by (simp add: checkAkerStatus_def libparodus_send_def down)
  with c(1) show ?thesis by blast
qed

theorem aker_late_answer_witness:
  "\<exists>s1. checkAkerStatus (demo_aker\<lparr>ak_wakes := \<lambda>k. if k = 1 then [WakeShutdown] else [WakeStatus ''offline'']\<rparr>)
      (set_global_status ''online'' aker_demo) = Some (WEBCFG_SUCCESS, s1) \<and>
    checkAkerStatus (demo_aker\<lparr>ak_wakes := \<lambda>k. if k = 1 then [WakeShutdown] else [WakeStatus ''offline'']\<rparr>) s1 = None"
proof -
  let ?e = "demo_aker\<lparr>ak_wakes := \<lambda>k. if k = 1 then [WakeShutdown] else [WakeStatus ''offline'']\<rparr>"
  have "\<not> g_shutdown aker_demo" "\<forall>k. ak_send ?e k = 0" by (simp_all add: ev_st0_def db_st.defs db_st0_defs demo_aker_def)
  from aker_late_answer [OF _ this, of "''online''"] show ?thesis by (simp add: AKER_STATUS_ONLINE_def)
qed

section \<open>Connecting to parodus\<close>

lemma connect_loop_waits:
  assumes "\<forall>j. k \<le> j \<and> j < n \<longrightarrow> ak_init env j \<noteq> 0" "ak_init env n = 0" "k \<le> n" "\<forall>j. \<not> ak_shutdown env j" "\<not> g_shutdown s"
    "b = (if k mod 4 = 0 then 0 else 2 ^ (1 + k mod 4) - 1)" "c = 2 + k mod 4"
  shows "connect_loop env k b c s = Some (True, s\<lparr>aker_waits := aker_waits s @ map backoff_at [k..<n]\<rparr>)"
  using assms
proof (induction "n - k" arbitrary: k b c s)
  case 0
  then show ?case by (subst connect_loop.simps) simp
next
  case (Suc d)
  have km: "k mod 4 = 0 \<or> k mod 4 = 1 \<or> k mod 4 = 2 \<or> k mod 4 = 3" by presburger
  have b1: "(if b < 31 then 2 ^ c - 1 else b) = backoff_at k"
    using km Suc.prems(6,7) by (auto simp: backoff_at_def)
  let ?s1 = "s\<lparr>aker_waits := aker_waits s @ [backoff_at k]\<rparr>"
  have w: "akerwait env (backoff_at k) s = (False, ?s1)" using Suc.prems(4,5) by (intro akerwait_goes_on) simp_all
  have i: "ak_init env k \<noteq> 0" "k < n" using Suc.prems(1) Suc.hyps(2) by simp_all
  let ?b = "if Suc k mod 4 = 0 then 0 else (2 :: nat) ^ (1 + Suc k mod 4) - 1" and ?c = "2 + Suc k mod 4"
  have "backoff_at k = 31 \<and> ?b = 0 \<and> ?c = 2 \<or> backoff_at k \<noteq> 31 \<and> ?b = backoff_at k \<and> ?c = Suc c"
    using km Suc.prems(7) by (auto simp: backoff_at_def mod_Suc)
  then have "connect_loop env k b c s = connect_loop env (Suc k) ?b ?c ?s1"
    using i w by (subst connect_loop.simps) (auto simp only: b1 Let_def fst_conv snd_conv if_False if_True simp_thms)
  also have "\<dots> = Some (True, ?s1\<lparr>aker_waits := aker_waits ?s1 @ map backoff_at [Suc k..<n]\<rparr>)"
    using Suc.hyps(2) Suc.prems i by (intro Suc.hyps(1)) auto
  finally show ?case using i by (simp add: upt_conv_Cons)
qed

text \<open>The connection to parodus is tried again until it succeeds, with waits that repeat 3, 7,
  15 and 31 seconds: after \<open>n\<close> failures the program has waited \<open>n\<close> times and is connected.\<close>

theorem connect_parodus_waits:
  assumes "\<forall>k<n. ak_init env k \<noteq> 0" "ak_init env n = 0" "\<forall>k. \<not> ak_shutdown env k" "\<not> g_shutdown s"
  shows "connect_parodus env s = Some (True, s\<lparr>aker_waits := aker_waits s @ map (\<lambda>k. 2 ^ (k mod 4 + 2) - 1) [0..<n]\<rparr>)"
  using assms connect_loop_waits [of 0 n env s 0 2]
  by (simp add: connect_parodus_def backoff_at_def [abs_def])

theorem connect_parodus_waits_witness:
  "connect_parodus (demo_aker\<lparr>ak_init := \<lambda>k. if k < 6 then 1 else 0\<rparr>) aker_demo =
     Some (True, aker_demo\<lparr>aker_waits := [3, 7, 15, 31, 3, 7]\<rparr>)"
proof -
  let ?e = "demo_aker\<lparr>ak_init := \<lambda>k. if k < 6 then 1 else 0\<rparr>"
  have "\<not> g_shutdown aker_demo" "\<forall>k. \<not> ak_shutdown ?e k" "\<forall>k<6. ak_init ?e k \<noteq> 0" "ak_init ?e 6 = 0"
    by (simp_all add: ev_st0_def db_st.defs db_st0_defs demo_aker_def)
  from connect_parodus_waits [OF this(3,4,2,1)] show ?thesis by (simp add: upt_rec)
qed

end
