(* ===== verification/Mqtt.thy ===== *)
theory Mqtt
  imports Frame Rbus
begin

text \<open>
  The variant with \<open>FEATURE_SUPPORT_MQTTCM\<close>: requests and notifications over MQTT
  (\<open>src/src/webcfg_mqtt.c\<close>) and its hooks in \<open>src/src/webcfg_rbus.c\<close>. The program talks to
  the connection manager of MQTT over rbus: it subscribes to a topic, publishes a request in
  the form of HTTP headers, and gets the answer of the cloud, headers and body in one text,
  as an event. The result \<open>None\<close> marks undefined behaviour or a wait that does not end.
\<close>

section \<open>State and environment\<close>

text \<open>The static variables of the file. Those of \<open>createMqttHeader\<close> have a prefix, since
  \<open>webcfg_multipart.c\<close> has variables with the same names. \<open>mqtt_locked\<close>: \<open>mqtt_sync_mutex\<close>
  is held. Outputs: the copy of the headers in a file, the methods invoked with their
  parameters, the seconds slept.\<close>

record mqtt_st = rbus_st +
  systemStatus :: int
  g_deviceId :: string
  bootupsync :: int
  subscribeFlag :: int
  webcfg_onconnect_flag :: int
  mq_systemReadyTime :: string
  mq_FirmwareVersion :: string
  mq_bootTime :: string
  mq_productClass :: string
  mq_ModelName :: string
  mq_PartnerID :: string
  mq_AccountID :: string
  mq_deviceWanMac :: string
  mq_supportedVersion_header :: "string option"
  mq_supportedDocs_header :: "string option"
  mq_supplementaryDocs_header :: "string option"
  get_ClientID :: string
  poke_ClientID :: string
  mqtt_locked :: bool
  header_file :: "string option"
  mqtt_calls :: "(string \<times> (string \<times> string) list) list"
  mqtt_sleeps :: "nat list"

text \<open>\<open>me_device\<close> is the device during one call; \<open>me_client\<close> and \<open>me_location\<close> are what
  \<open>Get_Mqtt_ClientId\<close> and \<open>Get_Mqtt_LocationId\<close> yield; \<open>me_conn k\<close> is the answer to the
  \<open>k\<close>-th question for the connection status: the status of \<open>rbus_get\<close> and the string of the
  value; \<open>me_subscribe\<close> is the result of \<open>rbusEvent_Subscribe\<close>, \<open>me_invoke n\<close> that of the
  \<open>n\<close>-th \<open>rbusMethod_Invoke\<close>; \<open>me_can_open\<close>: the file for the copy of the headers can be opened.\<close>

record mqtt_env =
  me_device :: device_env
  me_client :: "string option"
  me_location :: string
  me_conn :: "nat \<Rightarrow> rbusError \<times> string option"
  me_subscribe :: "string \<Rightarrow> rbusError"
  me_invoke :: "nat \<Rightarrow> rbusError"
  me_can_open :: bool

definition MAX_MQTT_LEN :: nat where "MAX_MQTT_LEN = 128"
definition MQTT_PUBLISH_TOPIC_PREFIX :: string where "MQTT_PUBLISH_TOPIC_PREFIX = ''x/fr/''"
definition MQTT_SUBSCRIBE_TOPIC :: string where "MQTT_SUBSCRIBE_TOPIC = ''x/to/''"
definition WEBCFG_MODULE_NAME :: string where "WEBCFG_MODULE_NAME = ''webconfig''"
definition MQTT_SUBSCRIBE_PARAM :: string where "MQTT_SUBSCRIBE_PARAM = ''Device.X_RDK_MQTT.Subscribe''"
definition WEBCFG_MQTT_PUBLISH_PARAM :: string where "WEBCFG_MQTT_PUBLISH_PARAM = ''Device.X_RDK_MQTT.Publish''"
definition WEBCFG_SUBSCRIBE_CALLBACK :: string where
  "WEBCFG_SUBSCRIBE_CALLBACK = ''Device.X_RDK_MQTT.Webconfig.OnSubcribeCallback''"
definition WEBCFG_ONMESSAGE_CALLBACK :: string where
  "WEBCFG_ONMESSAGE_CALLBACK = ''Device.X_RDK_MQTT.Webconfig.OnMessageCallback''"
definition WEBCFG_ONPUBLISH_CALLBACK :: string where
  "WEBCFG_ONPUBLISH_CALLBACK = ''Device.X_RDK_MQTT.Webconfig.OnPublishCallback''"

definition rbusMethod_Invoke ::
  "mqtt_env \<Rightarrow> string \<Rightarrow> (string \<times> string) list \<Rightarrow> 'z mqtt_st_scheme \<Rightarrow> rbusError \<times> 'z mqtt_st_scheme" where
  "rbusMethod_Invoke env method inParams s =
     (me_invoke env (length (mqtt_calls s)), s\<lparr>mqtt_calls := mqtt_calls s @ [(method, inParams)]\<rparr>)"

section \<open>The request\<close>

abbreviation CRLF :: string where "CRLF \<equiv> [CR, LF]"

definition toupper :: "char \<Rightarrow> char" where
  "toupper c = (let n = (of_char c :: nat) in if 97 \<le> n \<and> n \<le> 122 then char_of (n - 32) else c)"

definition convertToUppercase :: "string \<Rightarrow> string" where
  "convertToUppercase deviceId = map toupper deviceId"

text \<open>The id is read twice; the second NULL would be copied.\<close>

definition fetch_deviceId :: "mqtt_env \<Rightarrow> 'z mqtt_st_scheme \<Rightarrow> 'z mqtt_st_scheme option" where
  "fetch_deviceId env s =
     (if g_deviceId s \<noteq> [] \<or> de_macs (me_device env) 0 = None then Some s
      else (case de_macs (me_device env) 1 of None \<Rightarrow> None | Some mac \<Rightarrow> Some (s\<lparr>g_deviceId := fit 64 mac\<rparr>)))"

definition deviceId_headers :: "mqtt_env \<Rightarrow> 'z mqtt_st_scheme \<Rightarrow> (string list \<times> 'z mqtt_st_scheme) option" where
  "deviceId_headers env s =
     (case fetch_deviceId env s of
        None \<Rightarrow> None
      | Some s1 \<Rightarrow>
          if g_deviceId s1 = [] \<or> \<not> mem_ok s1 then Some ([], s1)
          else (let i = convertToUppercase (g_deviceId s1)
                in Some (header True ''Device-Id: '' i, s1\<lparr>g_deviceId := i\<rparr>)))"

text \<open>The headers with the names and the versions of the documents, in the order of the
  request; both lists have buffers of 512 bytes, and the headers 256.\<close>

definition mqtt_version_headers :: "mqtt_env \<Rightarrow> 'z mqtt_st_scheme \<Rightarrow> (string list \<times> 'z mqtt_st_scheme) option" where
  "mqtt_version_headers env s =
     (if g_supplementarySync s \<noteq> 0 \<or> \<not> mem_ok s then Some ([], s)
      else (case refreshConfigVersionList (me_device env) 0 512 512 s of
          None \<Rightarrow> None
        | Some ((version, docList), s1) \<Rightarrow>
            Some (header True (CRLF @ ''Doc-Name:'') (if docList \<noteq> [] then docList else ''NULL'')
                    @ header True (CRLF @ ''IF-NONE-MATCH:'') (if version \<noteq> [] then version else ''0''), s1)))"

text \<open>A header formed once and kept. Its buffer has room for the label and the value, but not
  for the two bytes of the line end in front.\<close>

definition mqtt_kept :: "bool \<Rightarrow> string \<Rightarrow> string option \<Rightarrow> string option \<Rightarrow> string option" where
  "mqtt_kept mem label kept v =
     (case kept of
        Some h \<Rightarrow> Some h
      | None \<Rightarrow>
          (case v of
             None \<Rightarrow> None
           | Some x \<Rightarrow> if mem then Some (fit (length x + length label + 1) (CRLF @ label @ x)) else None))"

definition opt_header :: "string option \<Rightarrow> string list" where
  "opt_header h = (case h of None \<Rightarrow> [] | Some x \<Rightarrow> [x])"

definition keep_headers :: "'z mqtt_st_scheme \<Rightarrow> 'z mqtt_st_scheme" where
  "keep_headers s =
     (if g_supplementarySync s = 0
      then s\<lparr>mq_supportedVersion_header :=
                mqtt_kept (mem_ok s) ''X-System-Schema-Version: '' (mq_supportedVersion_header s) (supported_version s),
              mq_supportedDocs_header :=
                mqtt_kept (mem_ok s) ''X-System-Supported-Docs: '' (mq_supportedDocs_header s) (supported_bits s)\<rparr>
      else s\<lparr>mq_supplementaryDocs_header :=
                mqtt_kept (mem_ok s) ''X-System-SupplementaryService-Sync: '' (mq_supplementaryDocs_header s)
                  (supplementary_docs s)\<rparr>)"

text \<open>The values of the platform are fetched once; those for telemetry only in a supplementary
  sync.\<close>

definition fetch_device :: "device_env \<Rightarrow> 'z mqtt_st_scheme \<Rightarrow> 'z mqtt_st_scheme" where
  "fetch_device de s =
     s\<lparr>mq_bootTime := cached (mq_bootTime s) (de_boot_time de), mq_FirmwareVersion := cached (mq_FirmwareVersion s) (de_firmware de),
       mq_systemReadyTime := cached (mq_systemReadyTime s) (de_ready_time de),
       mq_productClass := cached (mq_productClass s) (de_product_class de),
       mq_ModelName := cached (mq_ModelName s) (de_model de), mq_PartnerID := cached (mq_PartnerID s) (de_partner_id de)\<rparr>"

definition fetch_telemetry :: "device_env \<Rightarrow> 'z mqtt_st_scheme \<Rightarrow> 'z mqtt_st_scheme" where
  "fetch_telemetry de s =
     (if g_supplementarySync s = 0 then s
      else s\<lparr>mq_AccountID := cached (mq_AccountID s) (de_account_id de),
             mq_deviceWanMac := cached (mq_deviceWanMac s) (de_wan_mac de)\<rparr>)"

definition mqtt_device_headers :: "device_env \<Rightarrow> 'z mqtt_st_scheme \<Rightarrow> string list" where
  "mqtt_device_headers de s =
     (let m = mem_ok s
      in cached_header m (CRLF @ ''X-System-Boot-Time: '') (mq_bootTime s)
           @ cached_header m (CRLF @ ''X-System-Firmware-Version: '') (mq_FirmwareVersion s)
           @ header m (CRLF @ ''X-System-Status: '') (if systemStatus s \<noteq> 0 then ''Non-Operational'' else ''Operational'')
           @ header m (CRLF @ ''X-System-Current-Time: '') (fit 32 (dec_int (c_int (de_time de))))
           @ cached_header m (CRLF @ ''X-System-Ready-Time: '') (mq_systemReadyTime s)
           @ header m (CRLF @ ''Transaction-ID: '') (de_uuid de)
           @ cached_header m (CRLF @ ''X-System-Product-Class: '') (mq_productClass s)
           @ cached_header m (CRLF @ ''X-System-Model-Name: '') (mq_ModelName s)
           @ header m (CRLF @ ''Content-type: application/json'') []
           @ header m (CRLF @ ''Content-length: 0'') []
           @ cached_header m (CRLF @ ''X-System-PartnerID: '') (mq_PartnerID s))"

definition mqtt_telemetry_headers :: "'z mqtt_st_scheme \<Rightarrow> string list" where
  "mqtt_telemetry_headers s =
     (if g_supplementarySync s = 0 then []
      else opt_header (mq_supplementaryDocs_header s)
             @ header (mem_ok s) (CRLF @ ''X-System-Telemetry-Profile-Version: '') ''2.0''
             @ cached_header (mem_ok s) (CRLF @ ''X-System-AccountID: '') (mq_AccountID s)
             @ cached_header (mem_ok s) (CRLF @ ''X-System-Wan-Mac: '') (mq_deviceWanMac s))"

text \<open>The list of 1024 bytes is cut where it is full.\<close>

definition createMqttHeader :: "mqtt_env \<Rightarrow> 'z mqtt_st_scheme \<Rightarrow> (string \<times> 'z mqtt_st_scheme) option" where
  "createMqttHeader env s =
     (case deviceId_headers env s of
        None \<Rightarrow> None
      | Some (dev, s1) \<Rightarrow>
          (case mqtt_version_headers env s1 of
             None \<Rightarrow> None
           | Some (versions, s2) \<Rightarrow>
               (let s3 = fetch_telemetry (me_device env) (fetch_device (me_device env) (keep_headers s2));
                    list = fit 1024 (concat (dev @ versions
                             @ header (mem_ok s) (CRLF @ ''Accept: application/msgpack'') []
                             @ header (mem_ok s) (CRLF @ ''Schema-Version: '') ''v2.0''
                             @ opt_header (mq_supportedVersion_header s3) @ opt_header (mq_supportedDocs_header s3)
                             @ mqtt_device_headers (me_device env) s3 @ mqtt_telemetry_headers s3) @ CRLF @ CRLF)
                in Some (list, if me_can_open env then s3\<lparr>header_file := Some list\<rparr> else s3))))"
section \<open>Publishing\<close>

text \<open>\<open>strncpy\<close> of a client id that is not empty into the variable of 64 bytes.\<close>

definition client_id :: "mqtt_env \<Rightarrow> string \<Rightarrow> string" where
  "client_id env g = (case me_client env of None \<Rightarrow> g | Some i \<Rightarrow> if i \<noteq> [] then fit 64 i else g)"

definition publish_topic :: "mqtt_env \<Rightarrow> string \<Rightarrow> string \<Rightarrow> string" where
  "publish_topic env i kind =
     fit MAX_MQTT_LEN (MQTT_PUBLISH_TOPIC_PREFIX @ i @ ''/'' @ me_location env @ ''/'' @ WEBCFG_MODULE_NAME @ ''/'' @ kind)"

definition mqtt_publish :: "mqtt_env \<Rightarrow> string \<Rightarrow> string \<Rightarrow> 'z mqtt_st_scheme \<Rightarrow> rbusError \<times> 'z mqtt_st_scheme" where
  "mqtt_publish env payload topic s =
     rbusMethod_Invoke env WEBCFG_MQTT_PUBLISH_PARAM [(''payload'', payload), (''topic'', topic), (''qos'', ''0'')] s"

definition setBootupSyncHeader :: "mqtt_env \<Rightarrow> string \<Rightarrow> 'z mqtt_st_scheme \<Rightarrow> rbusError \<times> 'z mqtt_st_scheme" where
  "setBootupSyncHeader env publishGetVal s =
     (if \<not> rbus_handle s then (RBUS_ERROR_BUS_ERROR, s)
      else (let s1 = s\<lparr>get_ClientID := client_id env (get_ClientID s)\<rparr>;
                (ret, s2) = mqtt_publish env publishGetVal (publish_topic env (get_ClientID s1) ''get'') s1
            in (ret, s2\<lparr>bootupsync := 1\<rparr>)))"

definition triggerMqttSync :: "mqtt_env \<Rightarrow> 'z mqtt_st_scheme \<Rightarrow> (int \<times> 'z mqtt_st_scheme) option" where
  "triggerMqttSync env s =
     (if \<not> mem_ok s then Some (0, s)
      else map_option (\<lambda>(list, s1). (1, snd (setBootupSyncHeader env list s1))) (createMqttHeader env s))"

text \<open>The message of a notification. Without a payload the buffer is read although nothing
  was written to it.\<close>

definition pub_headers :: "string option \<Rightarrow> string \<Rightarrow> string" where
  "pub_headers dest payload =
     (case dest of None \<Rightarrow> [] | Some d \<Rightarrow> fit MAX_BUF_SIZE (''Destination: '' @ d))
       @ fit MAX_BUF_SIZE (CRLF @ ''Content-type: application/json'')
       @ fit MAX_BUF_SIZE (CRLF @ ''Content-length: '' @ dec (length payload)) @ CRLF @ CRLF"

definition createMqttPubHeader ::
  "string option \<Rightarrow> string option \<Rightarrow> 'z mqtt_st_scheme \<Rightarrow> (string \<times> nat) option option" where
  "createMqttPubHeader payload dest s =
     (if \<not> mem_ok s then Some None
      else (case payload of
          None \<Rightarrow> None
        | Some p \<Rightarrow> (let text = fit 1024 (pub_headers dest p @ p @ CRLF) in Some (Some (text, length text)))))"

definition setPublishNotification :: "mqtt_env \<Rightarrow> string \<Rightarrow> 'z mqtt_st_scheme \<Rightarrow> rbusError \<times> 'z mqtt_st_scheme" where
  "setPublishNotification env publishNotifyVal s =
     (if \<not> rbus_handle s then (RBUS_ERROR_BUS_ERROR, s)
      else (let s1 = s\<lparr>poke_ClientID := client_id env (poke_ClientID s)\<rparr>
            in mqtt_publish env publishNotifyVal (publish_topic env (poke_ClientID s1) ''poke'') s1))"

definition publish_notify_mqtt :: "mqtt_env \<Rightarrow> string \<Rightarrow> string option \<Rightarrow> 'z mqtt_st_scheme \<Rightarrow> 'z mqtt_st_scheme option" where
  "publish_notify_mqtt env payload dest s =
     (if dest = None then Some s
      else (case createMqttPubHeader (Some payload) dest s of
          None \<Rightarrow> None
        | Some None \<Rightarrow> Some s
        | Some (Some (text, n)) \<Rightarrow> Some (snd (setPublishNotification env text s))))"

definition sendNotification_mqtt ::
  "mqtt_env \<Rightarrow> string option \<Rightarrow> string option \<Rightarrow> 'z mqtt_st_scheme \<Rightarrow> (int \<times> 'z mqtt_st_scheme) option" where
  "sendNotification_mqtt env payload destination s =
     (if webcfg_onconnect_flag s = 0 then Some (0, s)
      else (case payload of
          None \<Rightarrow> None
        | Some p \<Rightarrow> map_option (Pair 1) (publish_notify_mqtt env p destination s)))"

text \<open>\<open>sendNotification_rbus\<close> in this variant: the message built for rbus is freed unsent.\<close>

definition notification_over_mqtt ::
  "mqtt_env \<Rightarrow> string option \<Rightarrow> string option \<Rightarrow> string option \<Rightarrow> 'z mqtt_st_scheme \<Rightarrow> 'z mqtt_st_scheme option" where
  "notification_over_mqtt env payload source destination s =
     (if source = None \<or> destination = None \<or> \<not> mem_ok s then Some s
      else map_option snd (sendNotification_mqtt env payload destination s))"

section \<open>The connection\<close>

definition getMqttCMConnStatus :: "rbusError \<times> string option \<Rightarrow> int" where
  "getMqttCMConnStatus answer =
     (case answer of (rc, status) \<Rightarrow>
        if rc = RBUS_ERROR_SUCCESS \<and> (case status of None \<Rightarrow> False | Some t \<Rightarrow> strncmp_eq t ''Up'' 2) then 1 else 0)"

partial_function (option) conn_loop ::
  "(nat \<Rightarrow> rbusError \<times> string option) \<Rightarrow> nat \<Rightarrow> nat \<Rightarrow> nat \<Rightarrow> 'z mqtt_st_scheme \<Rightarrow> 'z mqtt_st_scheme option" where
  "conn_loop conn k backoff c s =
     (let b = (if backoff < 31 then 2 ^ c - 1 else backoff)
      in if getMqttCMConnStatus (conn k) \<noteq> 0 then Some s
         else conn_loop conn (Suc k) (if b = 31 then 0 else b) (if b = 31 then 2 else Suc c)
                (s\<lparr>mqtt_sleeps := mqtt_sleeps s @ [b]\<rparr>))"

definition checkMqttConnStatus :: "mqtt_env \<Rightarrow> 'z mqtt_st_scheme \<Rightarrow> 'z mqtt_st_scheme option" where
  "checkMqttConnStatus env s = conn_loop (me_conn env) 0 0 2 s"

text \<open>\<open>trigger_webcfg_forcedsync\<close> in this variant, after a restart of the WAN.\<close>

definition mqtt_forcedsync :: "mqtt_env \<Rightarrow> 'z mqtt_st_scheme \<Rightarrow> 'z mqtt_st_scheme option" where
  "mqtt_forcedsync env s =
     (case checkMqttConnStatus env s of None \<Rightarrow> None | Some s1 \<Rightarrow> map_option snd (triggerMqttSync env s1))"

definition mqttSubscribeInit :: "mqtt_env \<Rightarrow> 'z mqtt_st_scheme \<Rightarrow> (rbusError \<times> 'z mqtt_st_scheme) option" where
  "mqttSubscribeInit env s =
     (if \<not> rbus_handle s then Some (RBUS_ERROR_BUS_ERROR, s)
      else (case me_client env of
          None \<Rightarrow> None
        | Some i \<Rightarrow>
            if i = [] \<or> webcfg_onconnect_flag s = 0 then Some (RBUS_ERROR_BUS_ERROR, s)
            else Some (rbusMethod_Invoke env MQTT_SUBSCRIBE_PARAM
                   [(''compname'', WEBCFG_MODULE_NAME),
                    (''topic'', fit MAX_MQTT_LEN (MQTT_SUBSCRIBE_TOPIC @ fit 64 i @ ''/'' @ WEBCFG_MODULE_NAME))] s)))"

text \<open>The value of the event: missing, without a string, or a string.\<close>

definition webcfgSubscribeCallbackHandler ::
  "mqtt_env \<Rightarrow> string option option \<Rightarrow> 'z mqtt_st_scheme \<Rightarrow> 'z mqtt_st_scheme option" where
  "webcfgSubscribeCallbackHandler env incoming_value s =
     (case incoming_value of
        None \<Rightarrow> Some s
      | Some None \<Rightarrow> None
      | Some (Some inVal) \<Rightarrow>
          if \<not> strncmp_eq inVal ''success'' 7 then Some s
          else (let s1 = s\<lparr>subscribeFlag := 1\<rparr>
                in if bootupsync s1 \<noteq> 0 then Some s1
                   else map_option (\<lambda>(ret, s2). s2\<lparr>bootupsync := 1\<rparr>) (triggerMqttSync env s1)))"

text \<open>\<open>WebconfigMqttTask\<close> up to its wait. The flag says whether it waits; the returns before the
  wait leave the mutex locked.\<close>

definition mqtt_task_start :: "mqtt_env \<Rightarrow> int \<Rightarrow> 'z mqtt_st_scheme \<Rightarrow> (bool \<times> 'z mqtt_st_scheme) option" where
  "mqtt_task_start env status s =
     (if mqtt_locked s then None
      else (let s1 = s\<lparr>mqtt_locked := True, systemStatus := status\<rparr>
            in if \<not> rbus_handle s1 then Some (False, s1)
               else (case checkMqttConnStatus env s1 of
                   None \<Rightarrow> None
                 | Some s2 \<Rightarrow>
                     if me_subscribe env WEBCFG_SUBSCRIBE_CALLBACK \<noteq> RBUS_ERROR_SUCCESS
                       \<or> me_subscribe env WEBCFG_ONMESSAGE_CALLBACK \<noteq> RBUS_ERROR_SUCCESS
                       \<or> me_subscribe env WEBCFG_ONPUBLISH_CALLBACK \<noteq> RBUS_ERROR_SUCCESS then Some (False, s2)
                     else (let s3 = s2\<lparr>webcfg_onconnect_flag := 1\<rparr>
                           in case (if subscribeFlag s3 = 0 then map_option snd (mqttSubscribeInit env s3) else Some s3) of
                                None \<Rightarrow> None
                              | Some s4 \<Rightarrow> Some (True, s4\<lparr>mqtt_locked := False\<rparr>)))))"

text \<open>The end of \<open>WebconfigMqttTask\<close>, after the signal of \<open>set_rbus_RfcEnable\<close>.\<close>

definition mqtt_task_end :: "'z mqtt_st_scheme \<Rightarrow> 'z mqtt_st_scheme option" where
  "mqtt_task_end s = (if mqtt_locked s then None else Some (s\<lparr>webcfg_onconnect_flag := 0\<rparr>))"
section \<open>The response\<close>

text \<open>One of the loops of \<open>processPayload\<close>: the first place with the name of the header, up to the
  next carriage return. \<open>p\<close> is the rest of the copied buffer with its terminator; the result
  is the line, or none.\<close>

function find_line :: "string \<Rightarrow> string \<Rightarrow> string option option" where
  "find_line pat p =
     (if length p \<le> 1 then Some None
      else (case memchr (hd pat) (length p - 1) p of
          None \<Rightarrow> Some None
        | Some q \<Rightarrow>
            (case memcmp_eq q pat of
               None \<Rightarrow> None
             | Some True \<Rightarrow>
                 (case memchr CR (length q - 1) (tl q) of
                    None \<Rightarrow> None
                  | Some r \<Rightarrow> Some (Some (strndup q (length q - length r))))
             | Some False \<Rightarrow> find_line pat (tl q))))"
  by pat_completeness auto
termination
  by (relation "measure (\<lambda>(pat, p). length p)") (auto dest!: memchr_shorter)

declare find_line.simps [simp del]

text \<open>\<open>strtok (line, d); strtok (NULL, d)\<close>.\<close>

definition second_token :: "string \<Rightarrow> string \<Rightarrow> string option" where
  "second_token delims line = do { (_, r) \<leftarrow> strtok delims line; (t, _) \<leftarrow> strtok delims r; Some t }"

definition read_code :: "string option \<Rightarrow> int" where
  "read_code line =
     (case line of None \<Rightarrow> 0 | Some l \<Rightarrow> (case second_token '' '' l of None \<Rightarrow> 0 | Some t \<Rightarrow> atoi t))"

text \<open>The text behind the colon without its first character, meant to be a space. Without a
  second token the pointer is NULL plus one, which is read.\<close>

definition header_value :: "string option \<Rightarrow> string option option" where
  "header_value line =
     (case line of
        None \<Rightarrow> Some None
      | Some l \<Rightarrow> (case second_token '':'' l of None \<Rightarrow> None | Some t \<Rightarrow> Some (Some (tl t))))"

text \<open>A supplementary sync does not look at the pointer.\<close>

definition take_etag :: "string option \<Rightarrow> 'z mp_st_scheme \<Rightarrow> 'z mp_st_scheme option" where
  "take_etag line s =
     (if g_supplementarySync s \<noteq> 0 then Some s
      else map_option (\<lambda>v. case v of None \<Rightarrow> s | Some e \<Rightarrow> set_global_ETAG e s) (header_value line))"

text \<open>\<open>handleMqttResponse\<close>: whether the response is finished, 0 only for documents.\<close>

definition handleMqttResponse ::
  "device_env \<Rightarrow> int \<Rightarrow> string option \<Rightarrow> string \<Rightarrow> 'z http_st_scheme \<Rightarrow> (int \<times> 'z http_st_scheme) option" where
  "handleMqttResponse env response_code contentLength uuid s =
     (if response_code = 304 \<or> response_code = 204 \<or> response_code = 429
      then map_option (Pair 1) (notify_root None None None 0 response_code (Some uuid) s)
      else if response_code = 200 then
        (if contentLength = Some ''0''
         then map_option (\<lambda>(_, s1). (1, s1\<lparr>g_contentLen := None\<rparr>)) (refreshConfigVersionList env 200 512 512 s)
         else Some (0, s))
      else (case first_digit env response_code of
          None \<Rightarrow> None
        | Some digit \<Rightarrow>
            (case (if digit = 4 \<and> response_code = 404 then map_option snd (refreshConfigVersionList env 404 512 512 s) else Some s) of
               None \<Rightarrow> None
             | Some s1 \<Rightarrow> map_option (Pair 1) (notify_root None None None 0 response_code (Some uuid) s1))))"

text \<open>What the four loops find in the copied buffer.\<close>

record mqtt_lines =
  ml_status :: "string option"
  ml_ct :: "string option"
  ml_etag :: "string option"
  ml_length :: "string option"

definition response_lines :: "string \<Rightarrow> mqtt_lines option" where
  "response_lines body = do {
     h \<leftarrow> find_line ''HTTP'' body;
     c \<leftarrow> find_line ''Content-Type:'' body;
     e \<leftarrow> find_line ''Etag:'' body;
     l \<leftarrow> find_line ''Content-Length:'' body;
     Some \<lparr>ml_status = h, ml_ct = c, ml_etag = e, ml_length = l\<rparr>
   }"

text \<open>The message as received. The byte behind it, which is copied along, is taken to be the
  terminator of the value on the bus; the whole message, headers included, is parsed for the
  documents.\<close>

definition processPayload :: "device_env \<Rightarrow> string \<Rightarrow> 'z http_st_scheme \<Rightarrow> 'z http_st_scheme option" where
  "processPayload env data s =
     (if \<not> mem_ok s then Some s
      else do {
        lines \<leftarrow> response_lines (data @ [NUL]);
        s1 \<leftarrow> take_etag (ml_etag lines) s;
        len \<leftarrow> header_value (ml_length lines);
        (ret, s2) \<leftarrow> handleMqttResponse env (read_code (ml_status lines)) len (de_uuid env) s1;
        if ret = 1 then Some s2
        else map_option snd (parseMultipartDocument (de_apply env) (data @ [NUL])
               (case ml_ct lines of None \<Rightarrow> [] | Some t \<Rightarrow> fit 256 t) (Some (de_uuid env)) s2)
      })"

text \<open>The event with a message: none, or its bytes.\<close>

definition webcfgOnMessageCallbackHandler ::
  "device_env \<Rightarrow> string option \<Rightarrow> 'z http_st_scheme \<Rightarrow> 'z http_st_scheme option" where
  "webcfgOnMessageCallbackHandler env incoming_value s =
     (case incoming_value of None \<Rightarrow> Some s | Some data \<Rightarrow> processPayload env data s)"
section \<open>Finding the headers\<close>

lemma memchr_absent: "c \<notin> set p \<Longrightarrow> memchr c (length p) (p @ r) = None"
  by (induction p) auto

lemma memchr_first: "memchr c (length p) (p @ r) = (if c \<in> set p then Some (dropWhile (\<lambda>x. x \<noteq> c) p @ r) else None)"
  by (induction p) auto

lemma strstr_first:
  assumes "pat \<noteq> []"
  shows "strstr p pat = (if hd pat \<in> set p then strstr (dropWhile (\<lambda>x. x \<noteq> hd pat) p) pat else None)"
proof (induction p)
  case Nil
  then show ?case using assms by simp
next
  case (Cons c p)
  have "take (length pat) (c # p) \<noteq> pat" if "c \<noteq> hd pat" using that assms by (cases pat) auto
  with Cons show ?case by auto
qed

lemma memcmp_eq_terminated: "NUL \<notin> set pat \<Longrightarrow> memcmp_eq (p @ [NUL]) pat = Some (take (length pat) p = pat)"
proof (induction pat arbitrary: p)
  case (Cons c pat)
  then show ?case by (cases p) (auto split: if_splits)
qed auto

definition to_line_end :: "string \<Rightarrow> string" where
  "to_line_end q = takeWhile (\<lambda>c. c \<noteq> CR \<and> c \<noteq> NUL) q"

lemma takeWhile_both: "takeWhile P (takeWhile Q xs) = takeWhile (\<lambda>x. Q x \<and> P x) xs"
  by (induction xs) auto

lemma strndup_line:
  assumes "CR \<in> set q"
  shows "strndup q (length q - length (dropWhile (\<lambda>x. x \<noteq> CR) q)) = to_line_end q"
proof -
  have "length q - length (dropWhile (\<lambda>x. x \<noteq> CR) q) = length (takeWhile (\<lambda>x. x \<noteq> CR) q)"
    by (metis add_diff_cancel_right' length_append takeWhile_dropWhile_id)
  then have "take (length q - length (dropWhile (\<lambda>x. x \<noteq> CR) q)) q = takeWhile (\<lambda>x. x \<noteq> CR) q"
    by (simp add: takeWhile_eq_take [symmetric])
  then show ?thesis by (simp add: strndup_def to_line_end_def takeWhile_both)
qed

text \<open>A loop over the buffer finds what \<open>strstr\<close> finds in the message.\<close>

lemma find_line_strstr:
  assumes "pat \<noteq> []" "NUL \<notin> set pat" "hd pat \<noteq> CR"
  shows "find_line pat (data @ [NUL]) =
    (case strstr data pat of
       None \<Rightarrow> Some None
     | Some q \<Rightarrow> if CR \<in> set q then Some (Some (to_line_end q)) else None)"
proof (induction "length data" arbitrary: data rule: less_induct)
  case less
  let ?h = "hd pat"
  show ?case
  proof (cases "?h \<in> set data")
    case False
    then show ?thesis using strstr_first [OF assms(1), of data] memchr_first [of ?h data]
      by (subst find_line.simps) simp
  next
    case True
    then obtain a d where ad: "data = a @ ?h # d" "?h \<notin> set a" by (auto dest: split_list_first)
    from ad(2) have "dropWhile (\<lambda>x. x \<noteq> ?h) (a @ ?h # d) = ?h # d" by (induction a) auto
    with ad(1) have d: "dropWhile (\<lambda>x. x \<noteq> ?h) data = ?h # d" "length d < length data" by simp_all
    have st: "strstr data pat = strstr (?h # d) pat" using strstr_first [OF assms(1), of data] True d by simp
    have m: "memchr ?h (length (data @ [NUL]) - 1) (data @ [NUL]) = Some (?h # d @ [NUL])"
      using memchr_first [of ?h data] True d by simp
    have l: "\<not> length (data @ [NUL]) \<le> 1" using True by (cases data) auto
    have e: "memcmp_eq (?h # d @ [NUL]) pat = Some (take (length pat) (?h # d) = pat)"
      using memcmp_eq_terminated [OF assms(2), of "?h # d"] by simp
    show ?thesis
    proof (cases "take (length pat) (?h # d) = pat")
      case False
      then have "find_line pat (data @ [NUL]) = find_line pat (d @ [NUL])"
        using l m e by (subst find_line.simps) simp
      with less [OF d(2)] False st show ?thesis by simp
    next
      case True
      have n: "length (?h # d @ [NUL]) - 1 = length (d @ [NUL])" by simp
      have r: "memchr CR (length (d @ [NUL])) (d @ [NUL]) = (if CR \<in> set d then Some (dropWhile (\<lambda>x. x \<noteq> CR) (d @ [NUL])) else None)"
        using memchr_first [of CR "d @ [NUL]" "[]"] by simp
      have f: "find_line pat (data @ [NUL]) = (case memchr CR (length (d @ [NUL])) (d @ [NUL]) of None \<Rightarrow> None
          | Some r \<Rightarrow> Some (Some (strndup (?h # d @ [NUL]) (length (?h # d @ [NUL]) - length r))))"
        by (subst find_line.simps) (simp only: l m e True n if_False simp_thms option.case bool.case list.sel)
      show ?thesis
      proof (cases "CR \<in> set d")
        case cr: True
        have "strndup (?h # d @ [NUL]) (length (?h # d @ [NUL]) - length (dropWhile (\<lambda>x. x \<noteq> CR) (d @ [NUL]))) = to_line_end (?h # d @ [NUL])"
          using strndup_line [of "?h # d @ [NUL]"] cr assms(3) by simp
        also have "\<dots> = to_line_end (?h # d)"
          using takeWhile_append1 [of CR "?h # d" "\<lambda>c. c \<noteq> CR \<and> c \<noteq> NUL" "[NUL]"] cr by (simp add: to_line_end_def)
        finally show ?thesis using f r st True cr by simp
      next
        case False
        with f r st True assms(3) show ?thesis by simp
      qed
    qed
  qed
qed
section \<open>A response read back\<close>

text \<open>A message of header lines and a rest.\<close>

definition line_ok :: "string \<Rightarrow> bool" where
  "line_ok l \<longleftrightarrow> CR \<notin> set l \<and> NUL \<notin> set l"

definition text_lines :: "string list \<Rightarrow> string \<Rightarrow> string" where
  "text_lines ls rest = concat (map (\<lambda>l. l @ CRLF) ls) @ rest"

text \<open>The text from the name of a header on, in the first line that has it.\<close>

fun line_with :: "string \<Rightarrow> string list \<Rightarrow> string option" where
  "line_with pat [] = None"
| "line_with pat (l # ls) = (case strstr l pat of None \<Rightarrow> line_with pat ls | Some q \<Rightarrow> Some q)"

lemma strstr_skip: "pat \<noteq> [] \<Longrightarrow> c \<noteq> hd pat \<Longrightarrow> strstr (c # r) pat = strstr r pat"
  by (cases pat) auto

lemma strstr_line:
  assumes "pat \<noteq> []" "CR \<notin> set pat"
  shows "strstr (a @ CR # r) pat = (case strstr a pat of None \<Rightarrow> strstr r pat | Some q \<Rightarrow> Some (q @ CR # r))"
proof (induction a)
  case Nil
  have "CR \<noteq> hd pat" using assms by (metis list.set_sel(1))
  with strstr_skip [OF assms(1)] assms(1) show ?case by simp
next
  case (Cons c a)
  have "take (length pat) (c # a @ CR # r) = pat \<longleftrightarrow> take (length pat) (c # a) = pat"
  proof (cases "length pat \<le> length (c # a)")
    case True
    then have "take (length pat) ((c # a) @ CR # r) = take (length pat) (c # a)" by (subst take_append) simp
    then show ?thesis by simp
  next
    case False
    then have "CR \<in> set (take (length pat) ((c # a) @ CR # r))" using assms(1) by (simp add: take_Cons' split: if_splits)
    moreover have "length (take (length pat) (c # a)) < length pat" using False by simp
    ultimately show ?thesis using assms(2) by (metis append_Cons less_irrefl)
  qed
  with Cons show ?case by auto
qed

lemma strstr_suffix: "strstr s pat = Some q \<Longrightarrow> \<exists>a. s = a @ q"
proof (induction s)
  case (Cons c s)
  then show ?case by (auto split: if_splits intro: exI [of _ "c # _"] exI [of _ "[]"])
qed (auto split: if_splits)

lemma to_line_end_plain: "CR \<notin> set q \<Longrightarrow> NUL \<notin> set q \<Longrightarrow> to_line_end (q @ CR # r) = q"
  by (induction q) (auto simp: to_line_end_def)

lemma find_line_text:
  assumes "pat \<noteq> []" "NUL \<notin> set pat" "CR \<notin> set pat" "hd pat \<noteq> LF" "list_all line_ok ls"
  shows "find_line pat (text_lines ls rest @ [NUL]) =
    (case line_with pat ls of None \<Rightarrow> find_line pat (rest @ [NUL]) | Some q \<Rightarrow> Some (Some q))"
  using assms(5)
proof (induction ls)
  case Nil
  then show ?case by (simp add: text_lines_def)
next
  case (Cons l ls)
  have h: "hd pat \<noteq> CR" using assms(1,3) by (metis list.set_sel(1))
  let ?t = "text_lines ls rest"
  have t: "text_lines (l # ls) rest = l @ CR # LF # ?t" by (simp add: text_lines_def)
  have s: "strstr (text_lines (l # ls) rest) pat = (case strstr l pat of None \<Rightarrow> strstr ?t pat | Some q \<Rightarrow> Some (q @ CR # LF # ?t))"
    unfolding t strstr_line [OF assms(1,3)] using strstr_skip [OF assms(1), of LF] assms(4) by (metis)
  show ?case
  proof (cases "strstr l pat")
    case None
    then have "find_line pat (text_lines (l # ls) rest @ [NUL]) = find_line pat (?t @ [NUL])"
      using s find_line_strstr [OF assms(1,2) h] by simp
    with Cons None show ?thesis by simp
  next
    case (Some q)
    then have "CR \<notin> set q" "NUL \<notin> set q" using strstr_suffix [OF Some] Cons.prems by (auto simp: line_ok_def)
    with Some s show ?thesis using find_line_strstr [OF assms(1,2) h] to_line_end_plain by simp
  qed
qed
lemma dec_no_space: "CHR '' '' \<notin> set (dec n)" "CR \<notin> set (dec n)" "NUL \<notin> set (dec n)"
proof -
  have "isspace (CHR '' '')" "isspace CR" by (simp_all add: isspace_def)
  then show "CHR '' '' \<notin> set (dec n)" "CR \<notin> set (dec n)" "NUL \<notin> set (dec n)" using dec_plain by blast+
qed

lemma atoi_dec: "n < 2 ^ 31 \<Longrightarrow> atoi (dec n) = int n"
proof -
  assume n: "n < 2 ^ 31"
  obtain c cs where d: "dec n = c # cs" using dec_nonempty [of n] by (cases "dec n") auto
  then obtain k where k: "k < 10" "c = digit_char k" using dec_digits [of c n] by auto
  have "dropWhile isspace (dec n) = dec n" "strtoul_sign (dec n) = (False, dec n)"
    using d k by (simp_all add: strtoul_sign_def digit_char_plain)
  then show ?thesis using n by (simp add: atoi_def read_digits_dec c_int_def)
qed

definition status_line :: "nat \<Rightarrow> string \<Rightarrow> string" where
  "status_line code reason = ''HTTP/1.1 '' @ dec code @ '' '' @ reason"

definition response_head :: "nat \<Rightarrow> string \<Rightarrow> string \<Rightarrow> string \<Rightarrow> string \<Rightarrow> string list" where
  "response_head code reason ct etag len =
     [status_line code reason, ''Content-Type: '' @ ct, ''Etag: '' @ etag, ''Content-Length: '' @ len]"

text \<open>No value contains the name of a later header.\<close>

definition head_ok :: "nat \<Rightarrow> string \<Rightarrow> string \<Rightarrow> string \<Rightarrow> string \<Rightarrow> bool" where
  "head_ok code reason ct etag len \<longleftrightarrow> code < 2 ^ 31 \<and> list_all line_ok [reason, ct, etag, len]
     \<and> CHR '':'' \<notin> set etag \<and> CHR '':'' \<notin> set len
     \<and> strstr (status_line code reason) ''Content-Type:'' = None
     \<and> strstr (status_line code reason) ''Etag:'' = None \<and> strstr (''Content-Type: '' @ ct) ''Etag:'' = None
     \<and> strstr (status_line code reason) ''Content-Length:'' = None \<and> strstr (''Content-Type: '' @ ct) ''Content-Length:'' = None
     \<and> strstr (''Etag: '' @ etag) ''Content-Length:'' = None"

lemma head_lines_ok: "head_ok code reason ct etag len \<Longrightarrow> list_all line_ok (response_head code reason ct etag len)"
  by (auto simp: head_ok_def response_head_def line_ok_def status_line_def dec_no_space)

lemma response_lines_head:
  assumes "head_ok code reason ct etag len"
  shows "response_lines (text_lines (response_head code reason ct etag len) rest @ [NUL]) =
    Some \<lparr>ml_status = Some (status_line code reason), ml_ct = Some (''Content-Type: '' @ ct),
      ml_etag = Some (''Etag: '' @ etag), ml_length = Some (''Content-Length: '' @ len)\<rparr>"
proof -
  note ok = assms [unfolded head_ok_def]
  let ?h = "response_head code reason ct etag len"
  have "line_with ''HTTP'' ?h = Some (status_line code reason)" by (simp add: response_head_def status_line_def)
  moreover have "line_with ''Content-Type:'' ?h = Some (''Content-Type: '' @ ct)" using ok by (simp add: response_head_def)
  moreover have "line_with ''Etag:'' ?h = Some (''Etag: '' @ etag)"
    using ok by (simp add: response_head_def del: strstr.simps) simp
  moreover have "line_with ''Content-Length:'' ?h = Some (''Content-Length: '' @ len)"
    using ok by (simp add: response_head_def del: strstr.simps) simp
  ultimately show ?thesis using find_line_text [OF _ _ _ _ head_lines_ok [OF assms], of _ rest]
    by (simp add: response_lines_def)
qed

lemma strtok_token:
  "t \<noteq> [] \<Longrightarrow> \<forall>c\<in>set t. c \<notin> set d \<Longrightarrow> x \<in> set d \<Longrightarrow> strtok d (t @ x # r) = Some (t, r)"
  by (cases t) (auto simp: strtok_def)

lemma strtok_whole: "t \<noteq> [] \<Longrightarrow> \<forall>c\<in>set t. c \<notin> set d \<Longrightarrow> strtok d t = Some (t, [])"
proof -
  assume t: "t \<noteq> []" "\<forall>c\<in>set t. c \<notin> set d"
  then have "dropWhile (\<lambda>c. c \<in> set d) t = t" "takeWhile (\<lambda>c. c \<notin> set d) t = t" "dropWhile (\<lambda>c. c \<notin> set d) t = []"
    by (cases t, auto simp: takeWhile_eq_all_conv dropWhile_eq_Nil_conv)+
  with t(1) show ?thesis unfolding strtok_def Let_def by (simp only: if_False drop_Nil)
qed

lemma read_code_head: "code < 2 ^ 31 \<Longrightarrow> read_code (Some (status_line code reason)) = int code"
proof -
  assume c: "code < 2 ^ 31"
  have "strtok '' '' (''HTTP/1.1'' @ CHR '' '' # dec code @ '' '' @ reason) = Some (''HTTP/1.1'', dec code @ '' '' @ reason)"
    by (rule strtok_token) auto
  moreover have "strtok '' '' (dec code @ CHR '' '' # reason) = Some (dec code, reason)"
    using dec_nonempty by (intro strtok_token) (auto simp: dec_no_space)
  ultimately have "second_token '' '' (status_line code reason) = Some (dec code)"
    by (simp add: second_token_def status_line_def)
  moreover have "atoi (dec code) = int code" using c by (rule atoi_dec)
  ultimately show ?thesis by (simp add: read_code_def)
qed

lemma header_value_line:
  assumes "n \<noteq> []" "CHR '':'' \<notin> set n" "CHR '':'' \<notin> set v"
  shows "header_value (Some (n @ '': '' @ v)) = Some (Some v)"
proof -
  have "strtok '':'' (n @ CHR '':'' # '' '' @ v) = Some (n, '' '' @ v)" using assms by (intro strtok_token) auto
  moreover have "strtok '':'' ('' '' @ v) = Some ('' '' @ v, [])" using assms by (intro strtok_whole) auto
  ultimately show ?thesis by (simp add: header_value_def second_token_def)
qed

text \<open>What becomes of a message with well-formed headers.\<close>

lemma processPayload_head:
  assumes "head_ok code reason ct etag len" "mem_ok s"
  shows "processPayload env (text_lines (response_head code reason ct etag len) rest) s =
    (case handleMqttResponse env (int code) (Some len) (de_uuid env) (if g_supplementarySync s = 0 then set_global_ETAG etag s else s) of
       None \<Rightarrow> None
     | Some (ret, s2) \<Rightarrow>
         if ret = 1 then Some s2
         else map_option snd (parseMultipartDocument (de_apply env) (text_lines (response_head code reason ct etag len) rest @ [NUL])
                (fit 256 (''Content-Type: '' @ ct)) (Some (de_uuid env)) s2))"
proof -
  have "read_code (Some (status_line code reason)) = int code" using assms(1) by (simp add: head_ok_def read_code_head)
  moreover have "header_value (Some (''Etag: '' @ etag)) = Some (Some etag)" "header_value (Some (''Content-Length: '' @ len)) = Some (Some len)"
    using header_value_line [of "''Etag''" etag] header_value_line [of "''Content-Length''" len] assms(1) by (simp_all add: head_ok_def)
  ultimately show ?thesis
    using response_lines_head [OF assms(1), of rest] assms(2) by (simp add: processPayload_def take_etag_def split: option.split)
qed
section \<open>Documents over MQTT\<close>

lemma ct_boundary_header:
  assumes "b \<noteq> []" "CHR '';'' \<notin> set b" "CHR ''='' \<notin> set b"
  shows "ct_boundary (''Content-Type: multipart/mixed; boundary='' @ b) = Some b"
proof -
  have "strtok '';'' (''Content-Type: multipart/mixed'' @ CHR '';'' # '' boundary='' @ b) =
      Some (''Content-Type: multipart/mixed'', '' boundary='' @ b)" by (rule strtok_token) auto
  moreover have "strtok '';'' ('' boundary='' @ b) = Some ('' boundary='' @ b, [])" using assms(2) by (intro strtok_whole) auto
  moreover have "strtok ''='' ('' boundary'' @ CHR ''='' # b) = Some ('' boundary'', b)" by (rule strtok_token) auto
  moreover have "strtok ''='' b = Some (b, [])" using assms by (intro strtok_whole) auto
  ultimately show ?thesis by (simp add: ct_boundary_def)
qed

lemma add_docs_keeps:
  "g_ETAG (add_docs docs s) = g_ETAG s" "mem_ok (add_docs docs s) = mem_ok s"
  "g_supplementarySync (add_docs docs s) = g_supplementarySync s"
  by (induction docs arbitrary: s) (auto simp: add_docs_def addToMpList_def split: prod.splits)

text \<open>Text in front of the first boundary is skipped.\<close>

lemma parse_parts_preamble:
  assumes "boundary_ok b" "list_all (doc_ok b) docs" "mem_ok s" "g_mp_head s = []" "clear_of b x"
  shows "parse_parts b (x @ CR # LF # body_text b docs tail @ [NUL]) s = Some (add_docs docs s)"
proof -
  have "delete_mp_doc s = Some s"
    using delete_mp_doc_from_none [of s 0] assms(4) by (auto simp: delete_mp_doc_def)
  moreover have "x @ CR # LF # body_text b docs tail @ [NUL] =
      (x @ CR # LF # concat (map (part_text b) docs)) @ last_line_boundary b @ tail @ [NUL]" by (simp add: body_text_def)
  then obtain c where "count_parts b 0 (x @ CR # LF # body_text b docs tail @ [NUL]) = Some c"
    using count_parts_total [OF assms(1)] by blast
  moreover have "split_parts b (x @ CR # LF # body_text b docs (tail @ [NUL])) s = Some (add_docs docs s)"
    by (rule trans [OF split_parts_skip [OF assms(1) at_boundary_is [OF at_boundary_body] assms(5)] split_parts_body [OF assms(1-3)]])
  then have "split_parts b (x @ CR # LF # body_text b docs tail @ [NUL]) s = Some (add_docs docs s)" by (simp add: body_text_def)
  ultimately show ?thesis using assms(3) by (simp add: parse_parts_def)
qed

text \<open>C24: documents sent over MQTT are applied. A response 200 with its headers, a blank line and
  a multipart body is taken apart into its documents, although the headers are parsed along with
  the body; when the components accept them, the database then holds every document at the
  version it was sent with, and root at the version of the \<open>Etag\<close> header.\<close>

theorem mqtt_documents_applied:
  assumes "ct = ''multipart/mixed; boundary='' @ b" "head_ok 200 reason ct etag len" "len \<noteq> ''0''"
    and "boundary_ok b" "length b \<le> 200" "CHR '';'' \<notin> set b" "CHR ''='' \<notin> set b"
    and "list_all (doc_ok b) docs" "clear_of b (text_lines (response_head 200 reason ct etag len) [])"
    and "g_mp_head s = []" "fresh_primary (de_apply env) (add_docs docs (set_global_ETAG etag s))"
    and "\<forall>n r. fst (ae_set (de_apply env) n r)"
  shows "\<exists>s'. processPayload env (text_lines (response_head 200 reason ct etag len) (CRLF @ body_text b docs tail)) s = Some s' \<and>
    apply_inv s' \<and> (\<forall>(e, n, d)\<in>set docs. \<exists>r. db_map (webcfgdb_data s') n = Some (e, r)) \<and>
    db_map (webcfgdb_data s') ''root'' = Some (ucast (strtoul0 (fit 64 etag)), None)"
proof -
  let ?h = "response_head 200 reason ct etag len" and ?s1 = "set_global_ETAG etag s"
  note f = assms(11) [unfolded fresh_primary_def]
  have mem: "mem_ok s" "mem_ok ?s1" using f by (simp_all add: apply_inv_def add_docs_keeps set_global_ETAG_def)
  have sup: "g_supplementarySync s = 0" using f by (simp add: add_docs_keeps set_global_ETAG_def)
  have head: "g_mp_head (add_docs docs ?s1) =
      map (\<lambda>(e, n, d). \<lparr>mp_etag = e, mp_name_space = n, mp_data = d, mp_isSupplementarySync = 0\<rparr>) docs"
    using add_docs_head [OF mem(2)] assms(10) sup by (simp add: set_global_ETAG_def)
  have ct: "ct_boundary (fit 256 (''Content-Type: '' @ ct)) = Some b"
    using ct_boundary_header [OF _ assms(6,7)] assms(1,4,5) by (simp add: fit_def boundary_ok_def)
  have body: "text_lines ?h (CRLF @ body_text b docs tail) @ [NUL] = text_lines ?h [] @ CR # LF # body_text b docs tail @ [NUL]"
    by (simp add: text_lines_def)
  have parts: "parse_parts b (text_lines ?h (CRLF @ body_text b docs tail) @ [NUL]) ?s1 = Some (add_docs docs ?s1)"
    unfolding body using assms(10) by (intro parse_parts_preamble assms mem) (simp add: set_global_ETAG_def)
  have h: "handleMqttResponse env (int 200) (Some len) (de_uuid env) ?s1 = Some (0, ?s1)"
    using assms(3) by (simp add: handleMqttResponse_def)
  obtain s' where s':
    "processMsgpackSubdoc (de_apply env) (Some (de_uuid env)) (add_docs docs ?s1) = Some (WEBCFG_SUCCESS, s')" "apply_inv s'"
    "\<forall>mp\<in>set (g_mp_head (add_docs docs ?s1)). \<exists>r. db_map (webcfgdb_data s') (mp_name_space mp) = Some (mp_etag mp, r)"
    "db_map (webcfgdb_data s') ''root'' = Some (get_global_root (add_docs docs ?s1), None)"
    by (rule accepted_versions [OF assms(11,12)])
  have "parseMultipartDocument (de_apply env) (text_lines ?h (CRLF @ body_text b docs tail) @ [NUL])
      (fit 256 (''Content-Type: '' @ ct)) (Some (de_uuid env)) ?s1 = Some (WEBCFG_SUCCESS, s')"
    using ct parts s'(1) f by (simp add: parseMultipartDocument_def get_multipartdoc_count_def)
  then have "processPayload env (text_lines ?h (CRLF @ body_text b docs tail)) s = Some s'"
    using processPayload_head [OF assms(2) mem(1), of env "CRLF @ body_text b docs tail"] h sup by simp
  moreover have "\<forall>(e, n, d)\<in>set docs. \<exists>r. db_map (webcfgdb_data s') n = Some (e, r)" using s'(3) by (auto simp: head)
  moreover have "get_global_root (add_docs docs ?s1) = ucast (strtoul0 (fit 64 etag))"
    by (simp add: get_global_root_def add_docs_keeps set_global_ETAG_def webcfgStrncpy_def)
  ultimately show ?thesis using s'(2,4) by auto
qed
lemma demo_response_ok:
  "head_ok 200 ''OK'' (''multipart/mixed; boundary='' @ ''b1'') (dec 9) ''120''"
  "boundary_ok ''b1''" "length ''b1'' \<le> 200" "CHR '';'' \<notin> set ''b1''" "CHR ''='' \<notin> set ''b1''"
  "list_all (doc_ok ''b1'') [(5, ''wan'', CHR 0x81 # ''parameters'')]"
  "clear_of ''b1'' (text_lines (response_head 200 ''OK'' (''multipart/mixed; boundary='' @ ''b1'') (dec 9) ''120'') [])"
proof -
  have d: "dec 9 = ''9''" "dec 200 = ''200''" by (simp_all add: dec.simps digit_char_def char_of_def bit_iff_odd)
  show "head_ok 200 ''OK'' (''multipart/mixed; boundary='' @ ''b1'') (dec 9) ''120''"
    by (simp add: head_ok_def line_ok_def status_line_def d)
  show "boundary_ok ''b1''" "length ''b1'' \<le> 200" "CHR '';'' \<notin> set ''b1''" "CHR ''='' \<notin> set ''b1''" by (simp_all add: boundary_ok_def)
  show "list_all (doc_ok ''b1'') [(5, ''wan'', CHR 0x81 # ''parameters'')]"
    by (simp add: doc_ok_def part_ok_def clear_of_def part_content_def nul_free_def dec.simps digit_char_def char_of_def bit_iff_odd)
  show "clear_of ''b1'' (text_lines (response_head 200 ''OK'' (''multipart/mixed; boundary='' @ ''b1'') (dec 9) ''120'') [])"
    by (simp add: clear_of_def text_lines_def response_head_def status_line_def d)
qed

theorem mqtt_documents_applied_witness:
  "\<exists>s'. processPayload demo_device (text_lines (response_head 200 ''OK'' ''multipart/mixed; boundary=b1'' (dec 9) ''120'')
      (CRLF @ body_text ''b1'' [(5, ''wan'', CHR 0x81 # ''parameters'')] [])) http_st0 = Some s' \<and>
    (\<exists>r. db_map (webcfgdb_data s') ''wan'' = Some (5, r)) \<and> db_map (webcfgdb_data s') ''root'' = Some (9, None)"
proof -
  let ?b = "''b1''" and ?d = "(5, ''wan'', CHR 0x81 # ''parameters'')"
  have d: "dec 9 = ''9''" by (simp add: dec.simps digit_char_def char_of_def bit_iff_odd)
  have l: "length (dec 9) < 64" by (simp add: d)
  have "apply_inv (add_docs [?d] (set_global_ETAG (dec 9) http_st0))"
    by (simp add: add_docs_def addToMpList_def set_global_ETAG_def apply_inv_def tmp_inv_def db_inv_def db_names_def)
  moreover have "get_global_root (add_docs [?d] (set_global_ETAG (dec 9) http_st0)) = 9"
    using l by (simp add: get_global_root_def add_docs_keeps set_global_ETAG_def webcfgStrncpy_def fit_short strtoul0_dec)
  ultimately have f: "fresh_primary (de_apply demo_device) (add_docs [?d] (set_global_ETAG (dec 9) http_st0))"
    by (simp add: fresh_primary_def demo_device_def demo_plain) (simp add: add_docs_def addToMpList_def set_global_ETAG_def mp_append_def)
  have a: "\<forall>n r. fst (ae_set (de_apply demo_device) n r)" using demo_accepts by (simp add: demo_device_def)
  have "(ucast (strtoul0 (fit 64 (dec 9))) :: u32) = 9" using l by (simp add: fit_short strtoul0_dec)
  with mqtt_documents_applied [OF refl demo_response_ok(1) _ demo_response_ok(2-7) _ f a, of "[]"] show ?thesis by auto
qed

lemma etag_same:
  "db_inv (set_global_ETAG e s) = db_inv s" "mem_ok (set_global_ETAG e s) = mem_ok s"
  "notifyMsgQ (set_global_ETAG e s) = notifyMsgQ s" "g_head (set_global_ETAG e s) = g_head s"
  "g_mp_head (set_global_ETAG e s) = g_mp_head s" "webcfgdb_data (set_global_ETAG e s) = webcfgdb_data s"
  by (simp_all add: set_global_ETAG_def db_inv_def)

text \<open>C25: a response without documents is final over MQTT. Whatever its code but 200 and 404, the
  lists stay as they are and exactly one notification reports the code; unlike over HTTP no
  code leads to a retry, not even one of 5xx.\<close>

theorem mqtt_final_response:
  assumes "apply_inv s" "head_ok code reason ct etag len" "0 < code" "code \<noteq> 200" "code \<noteq> 404"
  shows "\<exists>s' m. processPayload env (text_lines (response_head code reason ct etag len) rest) s = Some s' \<and>
    notifyMsgQ s' = notifyMsgQ s @ [m] \<and> nt_response_code m = int code \<and> nt_transaction_uuid m = Some (de_uuid env) \<and>
    g_head s' = g_head s \<and> g_mp_head s' = g_mp_head s \<and> webcfgdb_data s' = webcfgdb_data s"
proof -
  define s1 where "s1 = (if g_supplementarySync s = 0 then set_global_ETAG etag s else s)"
  have s1: "db_inv s1" "mem_ok s1" "notifyMsgQ s1 = notifyMsgQ s" "g_head s1 = g_head s" "g_mp_head s1 = g_mp_head s"
    "webcfgdb_data s1 = webcfgdb_data s"
    using assms(1) by (auto simp: s1_def apply_inv_def etag_same)
  from notify_root_total [OF s1(1)] obtain v r where n: "\<And>name st e err code uuid. notify_root name st e err code uuid s1 =
      Some (addWebConfgNotifyMsg name v st e uuid 0 (Some ''status'') err r code s1)" by blast
  define s2 where "s2 = addWebConfgNotifyMsg None v None None (Some (de_uuid env)) 0 (Some ''status'') 0 r (int code) s1"
  have s2: "notifyMsgQ s2 = notifyMsgQ s @ [notify_msg None v None None (Some (de_uuid env)) 0 (Some ''status'') 0 r (int code)]"
    "g_head s2 = g_head s" "g_mp_head s2 = g_mp_head s" "webcfgdb_data s2 = webcfgdb_data s"
    using s1 by (simp_all add: s2_def addWebConfgNotifyMsg_def notify_enqueue_def)
  have d: "first_digit env (int code) = Some (int (lead_digit code))" using assms(3) by (simp add: first_digit_def)
  have "handleMqttResponse env (int code) (Some len) (de_uuid env) s1 = Some (1, s2)"
    using n assms(4,5) by (simp add: handleMqttResponse_def d s2_def)
  then have "processPayload env (text_lines (response_head code reason ct etag len) rest) s = Some s2"
    using processPayload_head [OF assms(2), of s env rest] assms(1) by (simp add: apply_inv_def flip: s1_def)
  with s2 show ?thesis by (intro exI conjI) (assumption, assumption, simp_all add: notify_msg_def)
qed

theorem mqtt_final_response_witness:
  "\<exists>s' m. processPayload demo_device (text_lines (response_head 503 ''Unavailable'' ''text/plain'' ''NONE'' ''0'') []) demo_http_st = Some s' \<and>
     notifyMsgQ s' = notifyMsgQ demo_http_st @ [m] \<and> nt_response_code m = 503"
proof -
  have d: "dec 503 = ''503''" by (simp add: dec.simps digit_char_def char_of_def bit_iff_odd)
  have "head_ok 503 ''Unavailable'' ''text/plain'' ''NONE'' ''0''" by (simp add: head_ok_def line_ok_def status_line_def d)
  from mqtt_final_response [OF demo_http_ok(1) this, of demo_device "[]"] show ?thesis by auto
qed

section \<open>A device for the examples\<close>

definition mqtt_st0 :: mqtt_st where
  "mqtt_st0 = rbus_st.extend rbus_st0 \<lparr>systemStatus = 0, g_deviceId = [], bootupsync = 0, subscribeFlag = 0, webcfg_onconnect_flag = 0,
     mq_systemReadyTime = [], mq_FirmwareVersion = [], mq_bootTime = [], mq_productClass = [], mq_ModelName = [], mq_PartnerID = [],
     mq_AccountID = [], mq_deviceWanMac = [], mq_supportedVersion_header = None, mq_supportedDocs_header = None,
     mq_supplementaryDocs_header = None, get_ClientID = [], poke_ClientID = [], mqtt_locked = False, header_file = None,
     mqtt_calls = [], mqtt_sleeps = []\<rparr>"

definition mqtt_demo :: mqtt_st where
  "mqtt_demo = mqtt_st0\<lparr>rbus_handle := True, webcfgdb_data := demo_db, success_doc_count := 2, db_file := Some ''f'',
     supported_bits := Some ''16777247,33554435''\<rparr>"

definition demo_mqtt :: mqtt_env where
  "demo_mqtt = \<lparr>me_device = demo_device, me_client = Some ''id'', me_location = ''loc'', me_conn = (\<lambda>_. (RBUS_ERROR_SUCCESS, Some ''Up'')),
     me_subscribe = (\<lambda>_. RBUS_ERROR_SUCCESS), me_invoke = (\<lambda>_. RBUS_ERROR_SUCCESS), me_can_open = True\<rparr>"

lemma mqtt_demo_simps [simp]:
  "mem_ok mqtt_demo" "rbus_handle mqtt_demo" "g_supplementarySync mqtt_demo = 0" "mqtt_calls mqtt_demo = []" "mqtt_sleeps mqtt_demo = []"
  "\<not> mqtt_locked mqtt_demo" "bootupsync mqtt_demo = 0" "g_deviceId mqtt_demo = []" "webcfgdb_data mqtt_demo = demo_db"
  "supported_bits mqtt_demo = Some ''16777247,33554435''" "mq_supportedDocs_header mqtt_demo = None"
  by (simp_all add: mqtt_demo_def mqtt_st0_def rbus_st.defs rbus_st0_def force_st.defs force_st0_def http_st.defs http_st0_def
      ev_st.defs ev_st0_def db_st.defs db_st0_defs)

section \<open>Notifications over MQTT\<close>

lemma length_fit: "length (fit n t) = min (length t) (n - 1)"
  by (simp add: fit_def)

lemma length_pub_headers: "length (pub_headers (Some d) p) \<le> 769"
  unfolding pub_headers_def by (simp add: length_fit MAX_BUF_SIZE_def)

text \<open>C40: a notification over MQTT is the headers, which announce the length of the payload, and
  the payload and a line end, as long as all of it fits into 1023 bytes; a longer one is
  published all the same, cut at 1023 bytes, with the length of the whole payload announced.\<close>

theorem mqtt_notification_cut:
  assumes "mem_ok s" "rbus_handle s" "webcfg_onconnect_flag s \<noteq> 0"
  shows "\<exists>s' text topic. sendNotification_mqtt env (Some p) (Some d) s = Some (1, s') \<and>
    mqtt_calls s' = mqtt_calls s @ [(WEBCFG_MQTT_PUBLISH_PARAM, [(''payload'', text), (''topic'', topic), (''qos'', ''0'')])] \<and>
    length text \<le> 1023 \<and>
    text = pub_headers (Some d) p @ take (1023 - length (pub_headers (Some d) p)) (p @ CRLF) \<and>
    (text = pub_headers (Some d) p @ p @ CRLF \<longleftrightarrow> length (pub_headers (Some d) p) + length p + 2 \<le> 1023)"
proof -
  let ?h = "pub_headers (Some d) p" and ?i = "client_id env (poke_ClientID s)"
  let ?text = "fit 1024 (?h @ p @ CRLF)"
  let ?s1 = "s\<lparr>poke_ClientID := ?i\<rparr>"
  let ?call = "(WEBCFG_MQTT_PUBLISH_PARAM, [(''payload'', ?text), (''topic'', publish_topic env ?i ''poke''), (''qos'', ''0'')])"
  have send: "sendNotification_mqtt env (Some p) (Some d) s = Some (1, ?s1\<lparr>mqtt_calls := mqtt_calls s @ [?call]\<rparr>)"
    using assms by (simp add: sendNotification_mqtt_def publish_notify_mqtt_def createMqttPubHeader_def setPublishNotification_def
        mqtt_publish_def rbusMethod_Invoke_def Let_def)
  have cut: "?text = ?h @ take (1023 - length ?h) (p @ CRLF)" using length_pub_headers [of d p] by (simp add: fit_def)
  have "?text = ?h @ p @ CRLF \<longleftrightarrow> length ?h + length p + 2 \<le> 1023" by (auto simp: fit_def dest: arg_cong [of _ _ length])
  moreover have "length ?text \<le> 1023" by (simp add: length_fit)
  ultimately show ?thesis
    by (intro exI [of _ "?s1\<lparr>mqtt_calls := mqtt_calls s @ [?call]\<rparr>"] exI [of _ ?text] exI [of _ "publish_topic env ?i ''poke''"])
      (use send cut in simp)
qed
theorem mqtt_notification_cut_witness:
  "\<exists>s' txt topic. sendNotification_mqtt demo_mqtt (Some (replicate 2000 (CHR ''x''))) (Some ''event:x'') (mqtt_demo\<lparr>webcfg_onconnect_flag := 1\<rparr>) = Some (1, s') \<and>
     mqtt_calls s' = [(WEBCFG_MQTT_PUBLISH_PARAM, [(''payload'', txt), (''topic'', topic), (''qos'', ''0'')])] \<and> length txt \<le> 1023"
proof -
  let ?s = "mqtt_demo\<lparr>webcfg_onconnect_flag := 1\<rparr>"
  have "mem_ok ?s" "rbus_handle ?s" "webcfg_onconnect_flag ?s \<noteq> 0" by simp_all
  from mqtt_notification_cut [OF this, of demo_mqtt "replicate 2000 (CHR ''x'')" "''event:x''"] show ?thesis by auto
qed

section \<open>Connecting\<close>

lemma conn_loop_waits:
  assumes "\<forall>j. k \<le> j \<and> j < n \<longrightarrow> getMqttCMConnStatus (conn j) = 0" "getMqttCMConnStatus (conn n) \<noteq> 0" "k \<le> n"
    "b = (if k mod 4 = 0 then 0 else 2 ^ (1 + k mod 4) - 1)" "c = 2 + k mod 4"
  shows "conn_loop conn k b c s = Some (s\<lparr>mqtt_sleeps := mqtt_sleeps s @ map backoff_at [k..<n]\<rparr>)"
  using assms
proof (induction "n - k" arbitrary: k b c s)
  case 0
  then show ?case by (subst conn_loop.simps) simp
next
  case (Suc d)
  have km: "k mod 4 = 0 \<or> k mod 4 = 1 \<or> k mod 4 = 2 \<or> k mod 4 = 3" by presburger
  have b1: "(if b < 31 then 2 ^ c - 1 else b) = backoff_at k"
    using km Suc.prems(4,5) by (auto simp: backoff_at_def)
  let ?s1 = "s\<lparr>mqtt_sleeps := mqtt_sleeps s @ [backoff_at k]\<rparr>"
  have i: "getMqttCMConnStatus (conn k) = 0" "k < n" using Suc.prems(1) Suc.hyps(2) by simp_all
  let ?b = "if Suc k mod 4 = 0 then 0 else (2 :: nat) ^ (1 + Suc k mod 4) - 1" and ?c = "2 + Suc k mod 4"
  have "?b = (if backoff_at k = 31 then 0 else backoff_at k)" "?c = (if backoff_at k = 31 then 2 else Suc c)"
    using km Suc.prems(5) by (auto simp: backoff_at_def mod_Suc)
  then have "conn_loop conn k b c s = conn_loop conn (Suc k) ?b ?c ?s1"
    using i by (subst conn_loop.simps) (simp only: b1 Let_def if_False if_True simp_thms)
  also have "\<dots> = Some (?s1\<lparr>mqtt_sleeps := mqtt_sleeps ?s1 @ map backoff_at [Suc k..<n]\<rparr>)"
    using Suc.hyps(2) Suc.prems i by (intro Suc.hyps(1)) auto
  finally show ?case using i by (simp add: upt_conv_Cons)
qed

text \<open>Once the manager of the MQTT connection reports that it is up, the task of MQTT gets
  through: it has slept 3, 7, 15, 31, 3, ... seconds, once for each answer before, listens to the
  three events, and asks for the topic of its client once, unless that was done before.\<close>

theorem mqtt_task_connects:
  assumes "\<not> mqtt_locked s" "rbus_handle s" "\<forall>k<n. getMqttCMConnStatus (me_conn env k) = 0" "getMqttCMConnStatus (me_conn env n) \<noteq> 0"
    and "\<forall>e. me_subscribe env e = RBUS_ERROR_SUCCESS" "me_client env = Some i" "i \<noteq> []"
  shows "\<exists>s'. mqtt_task_start env status s = Some (True, s') \<and> \<not> mqtt_locked s' \<and> webcfg_onconnect_flag s' = 1 \<and>
    mqtt_sleeps s' = mqtt_sleeps s @ map (\<lambda>k. 2 ^ (k mod 4 + 2) - 1) [0..<n] \<and>
    mqtt_calls s' = mqtt_calls s @ (if subscribeFlag s = 0 then [(MQTT_SUBSCRIBE_PARAM, [(''compname'', ''webconfig''),
      (''topic'', fit 128 (''x/to/'' @ fit 64 i @ ''/webconfig''))])] else [])"
proof -
  let ?s1 = "s\<lparr>mqtt_locked := True, systemStatus := status\<rparr>"
  let ?s2 = "?s1\<lparr>mqtt_sleeps := mqtt_sleeps s @ map backoff_at [0..<n]\<rparr>"
  have "checkMqttConnStatus env ?s1 = Some ?s2"
    using conn_loop_waits [of 0 n "me_conn env" 0 2 ?s1] assms(3,4) by (simp add: checkMqttConnStatus_def)
  then show ?thesis using assms(1,2,5-7)
    by (simp add: mqtt_task_start_def mqttSubscribeInit_def rbusMethod_Invoke_def backoff_at_def [abs_def]
        WEBCFG_MODULE_NAME_def MAX_MQTT_LEN_def MQTT_SUBSCRIBE_TOPIC_def)
qed

theorem mqtt_task_connects_witness:
  "\<exists>s'. mqtt_task_start (demo_mqtt\<lparr>me_conn := \<lambda>k. (RBUS_ERROR_SUCCESS, Some (if k < 5 then ''Down'' else ''Up''))\<rparr>) 0 mqtt_demo = Some (True, s') \<and>
     mqtt_sleeps s' = [3, 7, 15, 31, 3]"
proof -
  let ?e = "demo_mqtt\<lparr>me_conn := \<lambda>k. (RBUS_ERROR_SUCCESS, Some (if k < 5 then ''Down'' else ''Up''))\<rparr>"
  have "\<forall>k<5. getMqttCMConnStatus (me_conn ?e k) = 0" "getMqttCMConnStatus (me_conn ?e 5) \<noteq> 0"
    "\<forall>e. me_subscribe ?e e = RBUS_ERROR_SUCCESS" "me_client ?e = Some ''id''" "''id'' \<noteq> []"
    by (simp_all add: getMqttCMConnStatus_def demo_mqtt_def numeral_2_eq_2)
  from mqtt_task_connects [OF _ _ this, of mqtt_demo 0] show ?thesis by (simp add: upt_rec) blast
qed

lemma conn_loop_form: "conn_loop conn k b c s = Some s' \<Longrightarrow> \<exists>w. s' = s\<lparr>mqtt_sleeps := w\<rparr>"
proof (erule conn_loop.raw_induct [rotated, of conn k b c s s' "\<lambda>conn k b c s s'. \<exists>w. s' = s\<lparr>mqtt_sleeps := w\<rparr>"])
  fix conn_loop' conn k b c s y
  assume 1: "\<And>conn k b c s y. conn_loop' conn k b c s = Some y \<Longrightarrow> \<exists>w. y = s\<lparr>mqtt_sleeps := w\<rparr>"
    "(let b1 = if b < 31 then 2 ^ c - 1 else b
      in if getMqttCMConnStatus (conn k) \<noteq> 0 then Some s
         else conn_loop' conn (Suc k) (if b1 = 31 then 0 else b1) (if b1 = 31 then 2 else Suc c) (s\<lparr>mqtt_sleeps := mqtt_sleeps s @ [b1]\<rparr>)) = Some y"
  show "\<exists>w. y = s\<lparr>mqtt_sleeps := w\<rparr>"
  proof (cases "getMqttCMConnStatus (conn k) \<noteq> 0")
    case True
    with 1(2) have "y = s\<lparr>mqtt_sleeps := mqtt_sleeps s\<rparr>" by (simp add: Let_def)
    then show ?thesis by blast
  next
    case False
    let ?b = "if b < 31 then 2 ^ c - 1 else b"
    from False 1(2) have "conn_loop' conn (Suc k) (if ?b = 31 then 0 else ?b) (if ?b = 31 then 2 else Suc c) (s\<lparr>mqtt_sleeps := mqtt_sleeps s @ [?b]\<rparr>) = Some y"
      by (simp only: Let_def if_False simp_thms)
    from 1(1) [OF this] show ?thesis by auto
  qed
qed

text \<open>The returns before the wait keep the mutex: a task that could not subscribe is the last one,
  and no later task, nor the end of a task, gets past the mutex.\<close>

theorem mqtt_task_keeps_mutex:
  assumes "mqtt_task_start env status s = Some (False, s')"
  shows "mqtt_task_start env' status' s' = None \<and> mqtt_task_end s' = None"
proof -
  have "mqtt_locked s'"
    using assms by (auto simp: mqtt_task_start_def checkMqttConnStatus_def Let_def dest!: conn_loop_form split: if_splits option.splits)
  then show ?thesis by (simp add: mqtt_task_start_def mqtt_task_end_def)
qed
section \<open>What the operations leave alone\<close>

text \<open>The flags of the subscription and the calls made.\<close>

definition mqtt_same :: "'z mqtt_st_scheme \<Rightarrow> 'z mqtt_st_scheme \<Rightarrow> bool" where
  "mqtt_same s s' \<longleftrightarrow> bootupsync s' = bootupsync s \<and> subscribeFlag s' = subscribeFlag s \<and> mqtt_calls s' = mqtt_calls s
     \<and> rbus_handle s' = rbus_handle s \<and> mqtt_locked s' = mqtt_locked s \<and> webcfg_onconnect_flag s' = webcfg_onconnect_flag s"

lemma mqtt_same_refl [simp]: "mqtt_same s s"
  by (simp add: mqtt_same_def)

lemma mqtt_same_of: "sync_outer s' = sync_outer s \<Longrightarrow> mqtt_same s s'"
  by (cases s; cases s') (simp add: sync_outer_def mqtt_same_def)

lemma mqtt_same_trans: "mqtt_same s s' \<Longrightarrow> mqtt_same s' s'' \<Longrightarrow> mqtt_same s s''"
  by (simp add: mqtt_same_def)

lemma sync_outer_handleMqttResponse:
  "handleMqttResponse env c l u s = Some (r, s') \<Longrightarrow> sync_outer s' = sync_outer s"
proof -
  have l: "sync_outer (s1\<lparr>g_contentLen := x\<rparr>) = sync_outer s1" for x and s1 :: "'a http_st_scheme"
    by (simp add: sync_outer_def flags_def)
  show "handleMqttResponse env c l u s = Some (r, s') \<Longrightarrow> sync_outer s' = sync_outer s"
    by (auto simp: handleMqttResponse_def l dest!: sync_outer_notify_root sync_outer_refresh split: option.splits if_splits)
qed

lemma sync_outer_processPayload: "processPayload env d s = Some s' \<Longrightarrow> sync_outer s' = sync_outer s"
proof -
  have e: "take_etag l s = Some s1 \<Longrightarrow> sync_outer s1 = sync_outer s" for l s1
    by (auto simp: take_etag_def set_global_ETAG_def sync_outer_def flags_def split: if_splits option.splits)
  show "processPayload env d s = Some s' \<Longrightarrow> sync_outer s' = sync_outer s"
    by (auto simp: processPayload_def Option.bind_eq_Some_conv dest!: e sync_outer_handleMqttResponse
        dest!: outer_parseMultipartDocument [THEN sync_outer_of] split: if_splits)
qed

lemma mqtt_same_fetch:
  "mqtt_same s (keep_headers s)" "mqtt_same s (fetch_device de s)" "mqtt_same s (fetch_telemetry de s)" "mqtt_same s (s\<lparr>header_file := f\<rparr>)"
  by (simp_all add: mqtt_same_def keep_headers_def fetch_device_def fetch_telemetry_def)

lemma mqtt_version_headers_same: "mqtt_version_headers env s = Some (vs, s') \<Longrightarrow> mqtt_same s s'"
proof (cases "g_supplementarySync s \<noteq> 0 \<or> \<not> mem_ok s")
  case False
  assume "mqtt_version_headers env s = Some (vs, s')"
  with False obtain x where "refreshConfigVersionList (me_device env) 0 512 512 s = Some (x, s')"
    by (auto simp: mqtt_version_headers_def split: option.splits)
  then show ?thesis by (rule mqtt_same_of [OF sync_outer_refresh])
qed (simp add: mqtt_version_headers_def)

lemma deviceId_headers_same: "deviceId_headers env s = Some (dev, s') \<Longrightarrow> mqtt_same s s'"
  by (auto simp: deviceId_headers_def fetch_deviceId_def mqtt_same_def Let_def split: option.splits if_splits)

lemma createMqttHeader_same:
  assumes "createMqttHeader env s = Some (list, s')"
  shows "mqtt_same s s'"
proof -
  obtain dev s1 vs s2 where s1: "deviceId_headers env s = Some (dev, s1)" "mqtt_version_headers env s1 = Some (vs, s2)"
    using assms by (auto simp: createMqttHeader_def split: option.splits)
  let ?s3 = "fetch_telemetry (me_device env) (fetch_device (me_device env) (keep_headers s2))"
  have "mqtt_same s s2" using deviceId_headers_same [OF s1(1)] mqtt_version_headers_same [OF s1(2)] by (rule mqtt_same_trans)
  moreover have "mqtt_same s2 ?s3" by (rule mqtt_same_trans [OF mqtt_same_trans [OF mqtt_same_fetch(1) mqtt_same_fetch(2)] mqtt_same_fetch(3)])
  ultimately have "mqtt_same s ?s3" by (rule mqtt_same_trans)
  moreover obtain f where "s' = (if me_can_open env then ?s3\<lparr>header_file := f\<rparr> else ?s3)"
    using assms s1 by (auto simp: createMqttHeader_def Let_def)
  ultimately show ?thesis using mqtt_same_trans [OF _ mqtt_same_fetch(4)] by (cases "me_can_open env") simp_all
qed

section \<open>The boot sync\<close>

text \<open>What happens in the program as far as MQTT is concerned; the device may change in between.\<close>

inductive mqtt_step :: "'z mqtt_st_scheme \<Rightarrow> 'z mqtt_st_scheme \<Rightarrow> bool" where
  Subscribed: "webcfgSubscribeCallbackHandler env v s = Some s' \<Longrightarrow> mqtt_step s s'"
| Message: "webcfgOnMessageCallbackHandler de v s = Some s' \<Longrightarrow> mqtt_step s s'"
| Notification: "notification_over_mqtt env p src dest s = Some s' \<Longrightarrow> mqtt_step s s'"
| WanRestart: "mqtt_forcedsync env s = Some s' \<Longrightarrow> mqtt_step s s'"
| TaskStart: "mqtt_task_start env status s = Some (w, s') \<Longrightarrow> mqtt_step s s'"
| TaskEnd: "mqtt_task_end s = Some s' \<Longrightarrow> mqtt_step s s'"

lemma setBootupSyncHeader_flags:
  "subscribeFlag (snd (setBootupSyncHeader env l s)) = subscribeFlag s"
  "bootupsync (snd (setBootupSyncHeader env l s)) = (if rbus_handle s then 1 else bootupsync s)"
  by (simp_all add: setBootupSyncHeader_def mqtt_publish_def rbusMethod_Invoke_def Let_def)

lemma triggerMqttSync_flags:
  assumes "triggerMqttSync env s = Some (r, s')"
  shows "subscribeFlag s' = subscribeFlag s \<and> (bootupsync s' = bootupsync s \<or> bootupsync s' = 1)"
proof -
  consider "s' = s" | l s1 where "createMqttHeader env s = Some (l, s1)" "s' = snd (setBootupSyncHeader env l s1)"
    using assms by (auto simp: triggerMqttSync_def split: if_splits)
  then show ?thesis
  proof cases
    case 2
    from createMqttHeader_same [OF 2(1)] show ?thesis by (simp add: 2(2) mqtt_same_def setBootupSyncHeader_flags)
  qed simp
qed

lemma callback_boot_done:
  assumes "webcfgSubscribeCallbackHandler env v s = Some s'" "bootupsync s \<noteq> 0"
  shows "bootupsync s' = bootupsync s" "mqtt_calls s' = mqtt_calls s" "subscribeFlag s = 1 \<Longrightarrow> subscribeFlag s' = 1"
  using assms by (auto simp: webcfgSubscribeCallbackHandler_def Let_def split: option.splits if_splits)

lemma mqtt_step_boot:
  assumes "mqtt_step s s'" "bootupsync s \<noteq> 0" "subscribeFlag s = 1"
  shows "bootupsync s' \<noteq> 0 \<and> subscribeFlag s' = 1"
  using assms(1)
proof (cases rule: mqtt_step.cases)
  case (Subscribed env v)
  then show ?thesis using callback_boot_done assms(2,3) by metis
next
  case (Message de v)
  then have "mqtt_same s s'"
    by (auto simp: webcfgOnMessageCallbackHandler_def dest: sync_outer_processPayload [THEN mqtt_same_of] split: option.splits)
  then show ?thesis using assms(2,3) by (simp add: mqtt_same_def)
next
  case (Notification env p src dest)
  then show ?thesis using assms(2,3)
    by (auto simp: notification_over_mqtt_def sendNotification_mqtt_def publish_notify_mqtt_def setPublishNotification_def
        mqtt_publish_def rbusMethod_Invoke_def Let_def split: if_splits option.splits)
next
  case (WanRestart env)
  then obtain s1 r where "conn_loop (me_conn env) 0 0 2 s = Some s1" "triggerMqttSync env s1 = Some (r, s')"
    by (auto simp: mqtt_forcedsync_def checkMqttConnStatus_def split: option.splits)
  with assms(2,3) show ?thesis by (auto dest!: conn_loop_form triggerMqttSync_flags)
next
  case (TaskStart env status w)
  then show ?thesis using assms(2,3)
    by (auto simp: mqtt_task_start_def checkMqttConnStatus_def Let_def dest!: conn_loop_form split: if_splits option.splits)
next
  case TaskEnd
  then show ?thesis using assms(2,3) by (auto simp: mqtt_task_end_def split: if_splits)
qed

text \<open>C29: the boot sync is requested once. After the first successful subscription nothing that
  happens makes the callback of the subscription publish a request again, and no later task
  asks for the subscription again; this holds also when the first request could not be sent.\<close>

theorem mqtt_boot_sync_once:
  assumes "webcfgSubscribeCallbackHandler env (Some (Some v)) s = Some s1" "strncmp_eq v ''success'' 7"
    and "mqtt_step\<^sup>*\<^sup>* s1 s2" "webcfgSubscribeCallbackHandler env' w s2 = Some s3"
  shows "mqtt_calls s3 = mqtt_calls s2 \<and> subscribeFlag s3 = 1 \<and> bootupsync s3 \<noteq> 0"
proof -
  have "bootupsync s1 \<noteq> 0 \<and> subscribeFlag s1 = 1"
    using assms(1,2) by (auto simp: webcfgSubscribeCallbackHandler_def Let_def dest!: triggerMqttSync_flags split: if_splits)
  with assms(3) have "bootupsync s2 \<noteq> 0 \<and> subscribeFlag s2 = 1"
    by (induction rule: rtranclp_induct) (auto dest: mqtt_step_boot)
  with callback_boot_done [OF assms(4)] show ?thesis by simp
qed

section \<open>The request as published\<close>

lemma deviceId_headers_eq:
  assumes "mem_ok s" "g_deviceId s = []" "de_macs (me_device env) 0 \<noteq> None" "de_macs (me_device env) 1 = Some mac" "mac \<noteq> []"
  shows "deviceId_headers env s = Some ([''Device-Id: '' @ map toupper (fit 64 mac)], s\<lparr>g_deviceId := map toupper (fit 64 mac)\<rparr>)"
proof -
  have "fit 64 mac \<noteq> []" "length (fit 64 mac) \<le> 63" using assms(5) by (simp_all add: fit_def)
  then show ?thesis using assms
    by (simp add: deviceId_headers_def fetch_deviceId_def convertToUppercase_def header_def MAX_BUF_SIZE_def fit_short Let_def)
qed

text \<open>The lists are cut to what the buffers of the headers hold.\<close>

lemma mqtt_version_headers_eq:
  fixes s :: "'z mqtt_st_scheme"
  assumes "apply_inv s" "g_supplementarySync s = 0" "lists_short 512 (webcfgdb_data s)"
  obtains rs rv and s' :: "'z mqtt_st_scheme" where
    "mqtt_version_headers env s = Some ([CRLF @ ''Doc-Name:'' @ take 244 (name_text (webcfgdb_data s')),
       CRLF @ ''IF-NONE-MATCH:'' @ take 239 (version_text rs rv (webcfgdb_data s'))], s')"
    "refreshConfigVersionList (me_device env) 0 512 512 s = Some ((version_text rs rv (webcfgdb_data s'), name_text (webcfgdb_data s')), s')"
    "db_map (webcfgdb_data s') = db_update ''root'' rv rs (db_map (webcfgdb_data s))"
    "doc_versions (webcfgdb_data s') = doc_versions (webcfgdb_data s)" "doc_names (webcfgdb_data s') = doc_names (webcfgdb_data s)"
proof -
  have mem: "mem_ok s" using assms(1) by (simp add: apply_inv_def)
  from refresh_short [OF assms(1,3), of "me_device env" 0] obtain rs rv s1 and s' :: "'z mqtt_st_scheme" where
    d: "derive_root_doc_version_string (me_device env) 0 s = Some ((rs, rv), s1)"
    and r: "refreshConfigVersionList (me_device env) 0 512 512 s = Some ((version_text rs rv (webcfgdb_data s'), name_text (webcfgdb_data s')), s')"
    and s': "db_map (webcfgdb_data s') = db_update ''root'' rv rs (db_map (webcfgdb_data s))"
      "doc_versions (webcfgdb_data s') = doc_versions (webcfgdb_data s)" "doc_names (webcfgdb_data s') = doc_names (webcfgdb_data s)"
    by metis
  let ?v = "version_text rs rv (webcfgdb_data s')" and ?n = "name_text (webcfgdb_data s')"
  have "?v \<noteq> []" using length_join_hd [of "root_text rs rv" "'',''" "doc_versions (webcfgdb_data s')"]
    root_text_nonempty [of rs rv] by (auto simp: version_text_def simp del: join.simps root_text_nonempty)
  moreover have "?n \<noteq> []" using length_join_hd [of "''root''" "'',''" "doc_names (webcfgdb_data s')"]
    by (auto simp: name_text_def simp del: join.simps)
  ultimately have "mqtt_version_headers env s = Some ([CRLF @ ''Doc-Name:'' @ take 244 ?n, CRLF @ ''IF-NONE-MATCH:'' @ take 239 ?v], s')"
    using r mem assms(2) by (simp add: mqtt_version_headers_def header_def fit_def MAX_BUF_SIZE_def)
  with that r s' show thesis by blast
qed


lemma mqtt_demo_ok:
  "apply_inv (mqtt_demo\<lparr>subscribeFlag := k\<rparr>)" "lists_short 512 demo_db"
proof -
  have d: "apply_inv demo_http_st" by (rule demo_http_ok(1))
  show "apply_inv (mqtt_demo\<lparr>subscribeFlag := k\<rparr>)"
    using d by (simp add: apply_inv_def tmp_inv_def db_inv_def demo_http_st_def mqtt_demo_def mqtt_st0_def rbus_st.defs rbus_st0_def
        force_st.defs force_st0_def http_st.defs http_st0_def ev_st.defs ev_st0_def db_st.defs db_st0_defs)
  have "root_string_length demo_db = 0" by (simp add: root_string_length_def demo_db_lists)
  then show "lists_short 512 demo_db" by (simp add: lists_short_def name_text_def demo_db_lists MAX_LBUFF_SIZE_def)
qed


lemma mqtt_demo_trigger: "\<exists>r s'. triggerMqttSync demo_mqtt (mqtt_demo\<lparr>subscribeFlag := 1\<rparr>) = Some (r, s')"
proof -
  let ?s = "mqtt_demo\<lparr>subscribeFlag := 1\<rparr>"
  have s: "apply_inv (?s\<lparr>g_deviceId := i\<rparr>)" "g_supplementarySync (?s\<lparr>g_deviceId := i\<rparr>) = 0" "lists_short 512 (webcfgdb_data (?s\<lparr>g_deviceId := i\<rparr>))"
    for i using mqtt_demo_ok(1) [of 1] mqtt_demo_ok(2) by (simp_all add: apply_inv_def tmp_inv_def db_inv_def)
  have "deviceId_headers demo_mqtt ?s = Some ([''Device-Id: '' @ map toupper (fit 64 ''0a1b2c3d4e5f'')], ?s\<lparr>g_deviceId := map toupper (fit 64 ''0a1b2c3d4e5f'')\<rparr>)"
    by (rule deviceId_headers_eq) (simp_all add: demo_mqtt_def demo_device_def)
  moreover obtain vs s2 where "mqtt_version_headers demo_mqtt (?s\<lparr>g_deviceId := map toupper (fit 64 ''0a1b2c3d4e5f'')\<rparr>) = Some (vs, s2)"
    using mqtt_version_headers_eq [OF s] by metis
  ultimately show ?thesis by (simp add: triggerMqttSync_def createMqttHeader_def Let_def)
qed

theorem mqtt_boot_sync_once_witness:
  "\<exists>s1 s3. webcfgSubscribeCallbackHandler demo_mqtt (Some (Some ''success'')) mqtt_demo = Some s1 \<and>
     webcfgSubscribeCallbackHandler demo_mqtt (Some (Some ''success'')) s1 = Some s3 \<and> mqtt_calls s3 = mqtt_calls s1"
proof -
  from mqtt_demo_trigger obtain r s0 where "triggerMqttSync demo_mqtt (mqtt_demo\<lparr>subscribeFlag := 1\<rparr>) = Some (r, s0)" by blast
  then have s1: "webcfgSubscribeCallbackHandler demo_mqtt (Some (Some ''success'')) mqtt_demo = Some (s0\<lparr>bootupsync := 1\<rparr>)"
    by (simp add: webcfgSubscribeCallbackHandler_def)
  have "webcfgSubscribeCallbackHandler demo_mqtt (Some (Some ''success'')) (s0\<lparr>bootupsync := 1\<rparr>) = Some (s0\<lparr>bootupsync := 1, subscribeFlag := 1\<rparr>)"
    by (simp add: webcfgSubscribeCallbackHandler_def)
  with mqtt_boot_sync_once [OF s1 _ rtranclp.rtrancl_refl this] s1 show ?thesis by auto
qed

end
