(* ===== verification/Auth.thy ===== *)
theory Auth
  imports Sync
begin

text \<open>
  The authorisation token of a request (\<open>src/src/webcfg_auth.c\<close>). It is read from the output of
  a script; when that says ERROR, a second script creates a token, which is then read again.
\<close>

section \<open>State and environment\<close>

text \<open>The static variables, and as an output the commands run.\<close>

record auth_st =
  webpa_auth_token :: string
  serialNum :: string
  flag_unk :: int
  auth_commands :: "string list"

text \<open>\<open>au_read\<close> and \<open>au_create\<close> are the names of the scripts, fixed when the program is built;
  \<open>au_file\<close>: a script can be opened; \<open>au_run k\<close> is what the \<open>k\<close>-th command prints, or nothing
  when \<open>popen\<close> fails.\<close>

record auth_env =
  au_read :: string
  au_create :: string
  au_mac :: "string option"
  au_serial :: "string option"
  au_file :: "string \<Rightarrow> bool"
  au_run :: "nat \<Rightarrow> string option"

text \<open>\<open>fgets\<close> leaves the buffer alone when there is nothing to read.\<close>

definition first_line :: "nat \<Rightarrow> string \<Rightarrow> string \<Rightarrow> string" where
  "first_line len out token = (if out = [] then token else cstr (fst (fgets len out)))"

section \<open>The operations\<close>

text \<open>The new contents of the buffer \<open>token\<close> of \<open>len\<close> bytes.\<close>

definition execute_token_script ::
  "auth_env \<Rightarrow> string \<Rightarrow> string \<Rightarrow> nat \<Rightarrow> string \<Rightarrow> string \<Rightarrow> auth_st \<Rightarrow> string \<times> auth_st" where
  "execute_token_script env token name len mac serNum s =
     (if name = [] \<or> \<not> au_file env name then (token, s)
      else (case au_run env (length (auth_commands s)) of None \<Rightarrow> token | Some out \<Rightarrow> first_line len out token,
            s\<lparr>auth_commands := auth_commands s @ [fit MAX_BUF_SIZE (name @ '' '' @ serNum @ '' '' @ mac)]\<rparr>))"

definition createNewAuthToken ::
  "auth_env \<Rightarrow> string \<Rightarrow> nat \<Rightarrow> string \<Rightarrow> string \<Rightarrow> auth_st \<Rightarrow> string \<times> auth_st" where
  "createNewAuthToken env newToken len hw_mac hw_serial_number s =
     (case execute_token_script env [] (au_create env) 12 hw_mac hw_serial_number s of
        (output, s1) \<Rightarrow>
          if output = ''SUCCESS'' then execute_token_script env newToken (au_read env) len hw_mac hw_serial_number s1
          else (newToken, s1))"

text \<open>The serial number is asked for until it is known.\<close>

definition fetch_serial :: "auth_env \<Rightarrow> auth_st \<Rightarrow> auth_st" where
  "fetch_serial env s =
     (if serialNum s = [] \<or> flag_unk s = 1 then
        (case au_serial env of
           Some n \<Rightarrow> if n \<noteq> [] then s\<lparr>serialNum := fit 64 n, flag_unk := 0\<rparr> else s\<lparr>serialNum := ''unknown'', flag_unk := 1\<rparr>
         | None \<Rightarrow> s\<lparr>serialNum := ''unknown'', flag_unk := 1\<rparr>)
      else s)"

definition getAuthToken :: "auth_env \<Rightarrow> auth_st \<Rightarrow> auth_st" where
  "getAuthToken env s =
     (let s0 = s\<lparr>webpa_auth_token := []\<rparr>
      in if au_read env = [] \<or> au_create env = [] then s0
         else (case au_mac env of
             None \<Rightarrow> s0
           | Some mac \<Rightarrow>
               if mac = [] then s0
               else (let s1 = fetch_serial env s0
                     in if serialNum s1 = [] then s1
                        else (case execute_token_script env [] (au_read env) 4069 mac (serialNum s1) s1 of
                            (output, s2) \<Rightarrow>
                              if output = [] then s2
                              else if output = ''ERROR''
                              then (case createNewAuthToken env (webpa_auth_token s2) 4096 mac (serialNum s2) s2 of
                                  (t, s3) \<Rightarrow> s3\<lparr>webpa_auth_token := t\<rparr>)
                              else s2\<lparr>webpa_auth_token := webcfgStrncpy output 4096\<rparr>))))"

text \<open>The call after a response 403.\<close>

definition expired_token :: "auth_env \<Rightarrow> auth_st \<Rightarrow> auth_st" where
  "expired_token env s =
     (case createNewAuthToken env (webpa_auth_token s) 4096 (printf_s (au_mac env)) (serialNum s) s of
        (t, s1) \<Rightarrow> s1\<lparr>webpa_auth_token := t\<rparr>)"

section \<open>What is read\<close>

lemma length_first_line: "length (first_line len out []) \<le> len - 1"
proof -
  have "length (fst (fgets len out)) \<le> len - 1" by (simp add: fgets_def Let_def)
  then show ?thesis using length_takeWhile_le [of "\<lambda>c. c \<noteq> NUL" "fst (fgets len out)"] by (simp add: first_line_def cstr_def)
qed

lemma fetch_serial_known: "serialNum (fetch_serial env s) \<noteq> []"
  by (simp add: fetch_serial_def fit_def split: option.split)

lemma fetch_serial_same [simp]:
  "auth_commands (fetch_serial env s) = auth_commands s" "webpa_auth_token (fetch_serial env s) = webpa_auth_token s"
  by (simp_all add: fetch_serial_def split: option.split)

text \<open>The scripts are there and run.\<close>

definition scripts_run :: "auth_env \<Rightarrow> bool" where
  "scripts_run env \<longleftrightarrow> au_read env \<noteq> [] \<and> au_create env \<noteq> [] \<and> au_file env (au_read env) \<and> au_file env (au_create env)"

lemma execute_reads:
  assumes "name \<noteq> []" "au_file env name" "au_run env (length (auth_commands s)) = Some out"
  shows "execute_token_script env token name len mac i s =
    (first_line len out token, s\<lparr>auth_commands := auth_commands s @ [fit MAX_BUF_SIZE (name @ '' '' @ i @ '' '' @ mac)]\<rparr>)"
  using assms by (simp add: execute_token_script_def)

lemma createNewAuthToken_reads:
  assumes "scripts_run env" "length (auth_commands s) = k" "au_run env k = Some b" "au_run env (Suc k) = Some c"
  shows "fst (createNewAuthToken env token len mac i s) = (if first_line 12 b [] = ''SUCCESS'' then first_line len c token else token)"
    "length (auth_commands (snd (createNewAuthToken env token len mac i s))) = k + (if first_line 12 b [] = ''SUCCESS'' then 2 else 1)"
  using assms by (simp_all add: createNewAuthToken_def scripts_run_def execute_reads)

text \<open>C28: the token of a request. With the scripts in place and a MAC known, the token is the first
  line the reading script prints; when this line is ERROR, the creating script is run, and only
  if it answers SUCCESS the reading script is asked again and what it prints then is the token;
  otherwise there is none. One, two or three commands are run.\<close>

theorem auth_token_outcome:
  assumes "scripts_run env" "au_mac env = Some mac" "mac \<noteq> []" "length (auth_commands s) = k"
    and "au_run env k = Some a" "au_run env (Suc k) = Some b" "au_run env (Suc (Suc k)) = Some c"
  shows "webpa_auth_token (getAuthToken env s) =
      (if first_line 4069 a [] \<noteq> ''ERROR'' then first_line 4069 a []
       else if first_line 12 b [] = ''SUCCESS'' then first_line 4096 c [] else []) \<and>
    length (auth_commands (getAuthToken env s)) =
      k + (if first_line 4069 a [] \<noteq> ''ERROR'' then 1 else if first_line 12 b [] = ''SUCCESS'' then 3 else 2)"
proof -
  define s1 where "s1 = fetch_serial env (s\<lparr>webpa_auth_token := []\<rparr>)"
  have s1: "serialNum s1 \<noteq> []" "auth_commands s1 = auth_commands s" "webpa_auth_token s1 = []"
    by (simp_all add: s1_def fetch_serial_known)
  have r: "au_read env \<noteq> []" "au_create env \<noteq> []" "au_file env (au_read env)" using assms(1) by (simp_all add: scripts_run_def)
  let ?o = "first_line 4069 a []"
  define s2 where "s2 = s1\<lparr>auth_commands := auth_commands s @ [fit MAX_BUF_SIZE (au_read env @ '' '' @ serialNum s1 @ '' '' @ mac)]\<rparr>"
  have e: "execute_token_script env [] (au_read env) 4069 mac (serialNum s1) s1 = (?o, s2)"
    using execute_reads [OF r(1,3), of s1 a] assms(4,5) s1(2) by (simp add: s2_def)
  have g: "getAuthToken env s =
      (if ?o = [] then s2
       else if ?o = ''ERROR'' then (case createNewAuthToken env [] 4096 mac (serialNum s2) s2 of (t, s3) \<Rightarrow> s3\<lparr>webpa_auth_token := t\<rparr>)
       else s2\<lparr>webpa_auth_token := webcfgStrncpy ?o 4096\<rparr>)"
    unfolding getAuthToken_def Let_def s1_def [symmetric] using r(1,2) assms(2,3) s1(1,3) e by (simp add: s2_def)
  have w: "webcfgStrncpy ?o 4096 = ?o" using length_first_line [of 4069 a] by (simp add: webcfgStrncpy_def fit_def)
  have k: "length (auth_commands s2) = Suc k" "webpa_auth_token s2 = []" using assms(4) s1(3) by (simp_all add: s2_def)
  show ?thesis
    unfolding g using w k createNewAuthToken_reads [OF assms(1) k(1) assms(6,7), of "[]" 4096 mac "serialNum s2"]
    by (auto simp: split_beta)
qed

definition demo_auth :: auth_env where
  "demo_auth = \<lparr>au_read = ''/etc/read.sh'', au_create = ''/etc/create.sh'', au_mac = Some ''0a1b2c3d4e5f'', au_serial = None,
     au_file = (\<lambda>_. True), au_run = (\<lambda>k. Some (if k = 0 then ''ERROR'' else if k = 1 then ''SUCCESS'' else ''token''))\<rparr>"

definition auth_st0 :: auth_st where
  "auth_st0 = \<lparr>webpa_auth_token = [], serialNum = [], flag_unk = 0, auth_commands = []\<rparr>"

theorem auth_token_outcome_witness:
  "webpa_auth_token (getAuthToken demo_auth auth_st0) = ''token'' \<and> length (auth_commands (getAuthToken demo_auth auth_st0)) = 3"
proof -
  have l: "first_line 4069 ''ERROR'' [] = ''ERROR''" "first_line 12 ''SUCCESS'' [] = ''SUCCESS''" "first_line 4096 ''token'' [] = ''token''"
    by (simp_all add: first_line_def fgets_def cstr_def)
  have "scripts_run demo_auth" "au_mac demo_auth = Some ''0a1b2c3d4e5f''" "''0a1b2c3d4e5f'' \<noteq> []" "length (auth_commands auth_st0) = 0"
    "au_run demo_auth 0 = Some ''ERROR''" "au_run demo_auth (Suc 0) = Some ''SUCCESS''" "au_run demo_auth (Suc (Suc 0)) = Some ''token''"
    by (simp_all add: scripts_run_def demo_auth_def auth_st0_def)
  from auth_token_outcome [OF this] show ?thesis by (simp add: l)
qed

text \<open>The line end is part of the line: a reading script that ends its ERROR with a line end does
  not make the program create a token, and ERROR and the line end are the token.\<close>

theorem auth_error_line:
  assumes "scripts_run env" "au_mac env = Some mac" "mac \<noteq> []" "au_run env (length (auth_commands s)) = Some (''ERROR'' @ [CHR 0x0A])"
  shows "webpa_auth_token (getAuthToken env s) = ''ERROR'' @ [CHR 0x0A] \<and>
    length (auth_commands (getAuthToken env s)) = Suc (length (auth_commands s))"
proof -
  have l: "first_line 4069 (''ERROR'' @ [CHR 0x0A]) [] = ''ERROR'' @ [CHR 0x0A]" by (simp add: first_line_def fgets_def cstr_def)
  have "serialNum (fetch_serial env (s\<lparr>webpa_auth_token := []\<rparr>)) \<noteq> []" by (rule fetch_serial_known)
  then show ?thesis using assms l
    by (simp add: getAuthToken_def Let_def scripts_run_def execute_reads webcfgStrncpy_def fit_def)
qed

end
