(* ===== verification/TestFile.thy ===== *)
theory TestFile
  imports Mqtt
begin

text \<open>
  The test utility, compiled with \<open>MULTIPART_UTILITY\<close>: \<open>testUtility\<close> of \<open>src/src/webcfg.c\<close>,
  \<open>readFromFile\<close> of \<open>src/src/webcfg_multipart.c\<close>, and the loop of \<open>processWebconfgSync\<close> that
  calls the utility in front of each request. A file with a response in it is applied in place
  of what the cloud would send.
\<close>

section \<open>State and operations\<close>

text \<open>\<open>test_file\<close> holds the bytes of the file at \<open>TEST_FILE_LOCATION\<close>, less than 2 GB of them.\<close>

record test_st = http_st +
  g_testfile :: int
  test_file :: "string option"

text \<open>The data with a terminator, and its length; \<open>fread\<close> of an empty file fails.\<close>

definition readFromFile :: "bool \<Rightarrow> string option \<Rightarrow> (string \<times> nat) option" where
  "readFromFile mem file =
     (case file of
        None \<Rightarrow> None
      | Some bytes \<Rightarrow> if \<not> mem \<or> bytes = [] then None else Some (bytes @ [NUL], length bytes))"

text \<open>One of the two loops of \<open>testUtility\<close>. They compare at the result of \<open>memchr\<close> without a
  test, unlike those of \<open>processPayload\<close>.\<close>

function find_in_file :: "string \<Rightarrow> string \<Rightarrow> string option option" where
  "find_in_file pat p =
     (if length p \<le> 1 then Some None
      else (case memchr (hd pat) (length p - 1) p of
          None \<Rightarrow> None
        | Some q \<Rightarrow>
            (case memcmp_eq q pat of
               None \<Rightarrow> None
             | Some True \<Rightarrow>
                 (case memchr CR (length q - 1) (tl q) of
                    None \<Rightarrow> None
                  | Some r \<Rightarrow> Some (Some (strndup q (length q - length r))))
             | Some False \<Rightarrow> find_in_file pat (tl q))))"
  by pat_completeness auto
termination
  by (relation "measure (\<lambda>(pat, p). length p)") (auto dest!: memchr_shorter)

declare find_in_file.simps [simp del]

text \<open>\<open>rm_ok\<close>: the command that removes the file has run. A copy that cannot be allocated ends
  the utility with the data; \<open>readFromFile\<close> has allocated as much before.\<close>

definition testUtility :: "device_env \<Rightarrow> bool \<Rightarrow> 'z test_st_scheme \<Rightarrow> (int \<times> 'z test_st_scheme) option" where
  "testUtility env rm_ok s =
     (case readFromFile (mem_ok s) (test_file s) of
        None \<Rightarrow> Some (0, s\<lparr>g_testfile := 0\<rparr>)
      | Some (data, len) \<Rightarrow>
          if len = 0 then Some (0, s)
          else do {
            ct \<leftarrow> find_in_file ''Content-type:'' data;
            etag \<leftarrow> find_in_file ''Etag:'' data;
            s1 \<leftarrow> take_etag etag (s\<lparr>g_testfile := 1\<rparr>);
            (status, s2) \<leftarrow> parseMultipartDocument (de_apply env) data
              (case ct of None \<Rightarrow> [] | Some t \<Rightarrow> fit 256 t) (Some (de_uuid env)) s1;
            Some (1, if rm_ok then s2\<lparr>test_file := None\<rparr> else s2)
          })"

text \<open>The loop of \<open>processWebconfgSync\<close> in this variant; the utility is called once more after the
  last request. \<open>rm_ok n\<close> is for the call in front of round \<open>n\<close>.\<close>

function test_rounds ::
  "(nat \<Rightarrow> device_env \<times> curl_reply) \<Rightarrow> (nat \<Rightarrow> bool) \<Rightarrow> int \<Rightarrow> string option \<Rightarrow> nat \<Rightarrow> sync_vars \<Rightarrow>
   'z test_st_scheme \<Rightarrow> 'z test_st_scheme option" where
  "test_rounds io rm_ok status docname retry_count v s =
     (case testUtility (fst (io retry_count)) (rm_ok retry_count) s of
        None \<Rightarrow> None
      | Some (used, s0) \<Rightarrow>
          if used = 1 \<or> 3 < retry_count then Some s0
          else (case webcfg_http_request (fst (io retry_count)) (snd (io retry_count)) retry_count status docname v s0 of
              None \<Rightarrow> None
            | Some ((ret, code, uuid, v1), s1) \<Rightarrow>
                if ret then
                  (case handlehttpResponse (fst (io retry_count)) code retry_count uuid v1 s1 of
                     None \<Rightarrow> None
                   | Some (rv, s2) \<Rightarrow> if rv = 1 then Some s2 else test_rounds io rm_ok status docname (Suc retry_count) v1 s2)
                else test_rounds io rm_ok status docname (Suc retry_count) v1 s1))"
  by pat_completeness auto
termination
  by (relation "measure (\<lambda>(io, rm_ok, status, docname, retry_count, v, s). 4 - retry_count)") auto

declare test_rounds.simps [simp del]

definition sync_with_utility ::
  "(nat \<Rightarrow> device_env \<times> curl_reply) \<Rightarrow> (nat \<Rightarrow> bool) \<Rightarrow> int \<Rightarrow> string option \<Rightarrow> 'z test_st_scheme \<Rightarrow> 'z test_st_scheme option" where
  "sync_with_utility io rm_ok status docname s =
     test_rounds io rm_ok status docname 0 \<lparr>sv_data = None, sv_ct = []\<rparr> s"
section \<open>Finding the headers in the file\<close>

text \<open>Where the loop over a response finds a header, so does the loop over the file.\<close>

lemma find_in_file_found: "find_line pat p = Some (Some l) \<Longrightarrow> find_in_file pat p = Some (Some l)"
proof (induction pat p rule: find_line.induct)
  case (1 pat p)
  from 1(2) have n: "\<not> length p \<le> 1" by (auto simp: find_line.simps [of pat p])
  obtain q where q: "memchr (hd pat) (length p - 1) p = Some q"
    using 1(2) n by (cases "memchr (hd pat) (length p - 1) p") (auto simp: find_line.simps [of pat p])
  show ?case
  proof (cases "memcmp_eq q pat")
    case None
    then show ?thesis using 1(2) n q by (simp add: find_line.simps [of pat p])
  next
    case (Some e)
    then show ?thesis
      using 1 n q by (cases e) (auto simp: find_line.simps [of pat p] find_in_file.simps [of pat p] split: option.splits)
  qed
qed

text \<open>A file without the header is searched past its end, unless it ends in the first letter
  of the header.\<close>

lemma find_in_file_absent:
  assumes "pat \<noteq> []" "NUL \<notin> set pat" "hd pat \<noteq> CR"
  shows "strstr data pat = None \<Longrightarrow> data \<noteq> [] \<Longrightarrow> last data \<noteq> hd pat \<Longrightarrow> find_in_file pat (data @ [NUL]) = None"
proof (induction "length data" arbitrary: data rule: less_induct)
  case less
  let ?h = "hd pat"
  have l: "\<not> length (data @ [NUL]) \<le> 1" using less.prems(2) by (cases data) auto
  show ?case
  proof (cases "?h \<in> set data")
    case False
    then show ?thesis using memchr_first [of ?h data] l by (subst find_in_file.simps) simp
  next
    case True
    then obtain a d where ad: "data = a @ ?h # d" "?h \<notin> set a" by (auto dest: split_list_first)
    from ad(2) have "dropWhile (\<lambda>x. x \<noteq> ?h) (a @ ?h # d) = ?h # d" by (induction a) auto
    with ad(1) have d: "dropWhile (\<lambda>x. x \<noteq> ?h) data = ?h # d" by simp
    have st: "strstr (?h # d) pat = None" using strstr_first [OF assms(1), of data] True d less.prems(1) by simp
    then have t: "take (length pat) (?h # d) \<noteq> pat" "strstr d pat = None" by (simp_all split: if_splits)
    have m: "memchr ?h (length (data @ [NUL]) - 1) (data @ [NUL]) = Some (?h # d @ [NUL])"
      using memchr_first [of ?h data] True d by simp
    have e: "memcmp_eq (?h # d @ [NUL]) pat = Some False"
      using memcmp_eq_terminated [OF assms(2), of "?h # d"] t(1) by simp
    have "d \<noteq> []" "last d \<noteq> ?h" using less.prems(3) ad(1) by (auto split: if_splits)
    moreover have "length d < length data" using ad(1) by simp
    ultimately have "find_in_file pat (d @ [NUL]) = None" using less.hyps t(2) by blast
    then show ?thesis using l m e by (subst find_in_file.simps) simp
  qed
qed

definition file_head :: "string \<Rightarrow> string \<Rightarrow> string list" where
  "file_head ct etag = [''Content-type: '' @ ct, ''Etag: '' @ etag]"

definition file_ok :: "string \<Rightarrow> string \<Rightarrow> bool" where
  "file_ok ct etag \<longleftrightarrow> list_all line_ok [ct, etag] \<and> CHR '':'' \<notin> set etag \<and> strstr (''Content-type: '' @ ct) ''Etag:'' = None"

lemma find_in_file_head:
  assumes "file_ok ct etag"
  shows "find_in_file ''Content-type:'' (text_lines (file_head ct etag) rest @ [NUL]) = Some (Some (''Content-type: '' @ ct))"
    "find_in_file ''Etag:'' (text_lines (file_head ct etag) rest @ [NUL]) = Some (Some (''Etag: '' @ etag))"
proof -
  have l: "list_all line_ok (file_head ct etag)" using assms by (auto simp: file_ok_def file_head_def line_ok_def)
  have "line_with ''Content-type:'' (file_head ct etag) = Some (''Content-type: '' @ ct)" by (simp add: file_head_def)
  moreover have "line_with ''Etag:'' (file_head ct etag) = Some (''Etag: '' @ etag)"
    using assms by (simp add: file_head_def file_ok_def del: strstr.simps) simp
  ultimately show "find_in_file ''Content-type:'' (text_lines (file_head ct etag) rest @ [NUL]) = Some (Some (''Content-type: '' @ ct))"
    "find_in_file ''Etag:'' (text_lines (file_head ct etag) rest @ [NUL]) = Some (Some (''Etag: '' @ etag))"
    using find_line_text [OF _ _ _ _ l, of _ rest] by (simp_all add: find_in_file_found)
qed
section \<open>The file in place of a response\<close>

lemma ct_boundary_file:
  assumes "b \<noteq> []" "CHR '';'' \<notin> set b" "CHR ''='' \<notin> set b"
  shows "ct_boundary (''Content-type: multipart/mixed; boundary='' @ b) = Some b"
proof -
  have "strtok '';'' (''Content-type: multipart/mixed'' @ CHR '';'' # '' boundary='' @ b) =
      Some (''Content-type: multipart/mixed'', '' boundary='' @ b)" by (rule strtok_token) auto
  moreover have "strtok '';'' ('' boundary='' @ b) = Some ('' boundary='' @ b, [])" using assms(2) by (intro strtok_whole) auto
  moreover have "strtok ''='' ('' boundary'' @ CHR ''='' # b) = Some ('' boundary'', b)" by (rule strtok_token) auto
  moreover have "strtok ''='' b = Some (b, [])" using assms by (intro strtok_whole) auto
  ultimately show ?thesis by (simp add: ct_boundary_def)
qed

lemma take_etag_line: "CHR '':'' \<notin> set etag \<Longrightarrow>
  take_etag (Some (''Etag: '' @ etag)) s = Some (if g_supplementarySync s = 0 then set_global_ETAG etag s else s)"
  using header_value_line [of "''Etag''" etag] by (simp add: take_etag_def)

lemma parse_same_docs:
  assumes "ct_boundary c1 = Some b" "ct_boundary c2 = Some b" "boundary_ok b" "list_all (doc_ok b) docs" "mem_ok s" "g_mp_head s = []"
    and "clear_of b (text_lines h1 [])" "clear_of b (text_lines h2 [])"
  shows "parseMultipartDocument env (text_lines h1 (CRLF @ body_text b docs tail) @ [NUL]) c1 u s =
    parseMultipartDocument env (text_lines h2 (CRLF @ body_text b docs tail) @ [NUL]) c2 u s"
proof -
  have t: "text_lines h (CRLF @ body_text b docs tail) @ [NUL] = text_lines h [] @ CR # LF # body_text b docs tail @ [NUL]" for h
    by (simp add: text_lines_def)
  have "parse_parts b (text_lines h1 (CRLF @ body_text b docs tail) @ [NUL]) s = Some (add_docs docs s)"
    "parse_parts b (text_lines h2 (CRLF @ body_text b docs tail) @ [NUL]) s = Some (add_docs docs s)"
    unfolding t using parse_parts_preamble [OF assms(3-6) assms(7)] parse_parts_preamble [OF assms(3-6) assms(8)] by blast+
  with assms(1,2) show ?thesis by (simp add: parseMultipartDocument_def)
qed

lemma testUtility_file:
  assumes "file_ok ct etag" "mem_ok s" "test_file s = Some (text_lines (file_head ct etag) rest)"
  shows "testUtility env rm_ok s =
    map_option (\<lambda>(status, s'). (1, if rm_ok then s'\<lparr>test_file := None\<rparr> else s'))
      (parseMultipartDocument (de_apply env) (text_lines (file_head ct etag) rest @ [NUL]) (fit 256 (''Content-type: '' @ ct))
        (Some (de_uuid env)) ((if g_supplementarySync s = 0 then set_global_ETAG etag else id) (s\<lparr>g_testfile := 1\<rparr>)))"
  (is "_ = map_option _ ?p")
proof -
  have "text_lines (file_head ct etag) rest \<noteq> []" by (simp add: text_lines_def file_head_def)
  moreover have "CHR '':'' \<notin> set etag" using assms(1) by (simp add: file_ok_def)
  ultimately show ?thesis
    using assms(2,3) find_in_file_head [OF assms(1), of rest] take_etag_line [of etag "s\<lparr>g_testfile := 1\<rparr>"]
    by (cases ?p) (auto simp: testUtility_def readFromFile_def)
qed

text \<open>C27: a test file stands for a response. A sync of a build with the test utility that finds a
  file with the two headers and a multipart body does what the response 200 over MQTT with the
  same version and body would do, asks the cloud for nothing, and removes the file, or, when the
  command for this cannot be run, leaves it for the next sync.\<close>

theorem test_file_as_response:
  assumes "ct = ''multipart/mixed; boundary='' @ b" "file_ok ct etag" "head_ok 200 reason ct etag len" "len \<noteq> ''0''"
    and "boundary_ok b" "length b \<le> 200" "CHR '';'' \<notin> set b" "CHR ''='' \<notin> set b" "list_all (doc_ok b) docs"
    and "clear_of b (text_lines (file_head ct etag) [])" "clear_of b (text_lines (response_head 200 reason ct etag len) [])"
    and "mem_ok s" "g_mp_head s = []" "test_file s = Some (text_lines (file_head ct etag) (CRLF @ body_text b docs tail))"
  shows "sync_with_utility io rm_ok status docname s =
      map_option (\<lambda>s'. if rm_ok 0 then s'\<lparr>test_file := None\<rparr> else s')
        (processPayload (fst (io 0)) (text_lines (response_head 200 reason ct etag len) (CRLF @ body_text b docs tail)) (s\<lparr>g_testfile := 1\<rparr>)) \<and>
    (\<forall>s'. sync_with_utility io rm_ok status docname s = Some s' \<longrightarrow>
       requests s' = requests s \<and> test_file s' = (if rm_ok 0 then None else test_file s))"
proof -
  let ?env = "fst (io 0)" and ?s = "s\<lparr>g_testfile := 1\<rparr>" and ?rest = "CRLF @ body_text b docs tail"
  define s1 where "s1 = (if g_supplementarySync s = 0 then set_global_ETAG etag else id) ?s"
  have s1: "mem_ok s1" "g_mp_head s1 = []" using assms(12,13) by (simp_all add: s1_def set_global_ETAG_def)
  have b: "b \<noteq> []" using assms(5) by (simp add: boundary_ok_def)
  have c: "ct_boundary (fit 256 (''Content-type: '' @ ct)) = Some b" "ct_boundary (fit 256 (''Content-Type: '' @ ct)) = Some b"
    using ct_boundary_file [OF b assms(7,8)] ct_boundary_header [OF b assms(7,8)] assms(1,6) by (simp_all add: fit_def)
  have h: "handleMqttResponse ?env (int 200) (Some len) (de_uuid ?env) s1 = Some (0, s1)"
    using assms(4) by (simp add: handleMqttResponse_def)
  let ?p = "parseMultipartDocument (de_apply ?env) (text_lines (file_head ct etag) ?rest @ [NUL]) (fit 256 (''Content-type: '' @ ct))
      (Some (de_uuid ?env)) s1"
  have pay: "processPayload ?env (text_lines (response_head 200 reason ct etag len) ?rest) ?s = map_option snd ?p"
    using processPayload_head [OF assms(3), of ?s ?env ?rest] assms(12) h
      parse_same_docs [OF c assms(5,9) s1 assms(10,11), of "de_apply ?env" tail "Some (de_uuid ?env)"]
    by (simp add: s1_def split: if_splits)
  have util: "testUtility ?env (rm_ok 0) s = map_option (\<lambda>(st, s'). (1, if rm_ok 0 then s'\<lparr>test_file := None\<rparr> else s')) ?p"
    using testUtility_file [OF assms(2,12,14), of ?env "rm_ok 0"] by (simp add: s1_def)
  have sync: "sync_with_utility io rm_ok status docname s = map_option (\<lambda>(st, s'). if rm_ok 0 then s'\<lparr>test_file := None\<rparr> else s') ?p"
    unfolding sync_with_utility_def by (subst test_rounds.simps) (use util in \<open>cases ?p; auto\<close>)
  have "requests s' = requests s \<and> test_file s' = test_file s" if "?p = Some (st, s')" for st s'
  proof -
    have "outer s' = outer s1" by (rule outer_parseMultipartDocument [OF that])
    then have "db_st.more s' = db_st.more s1" by (simp add: outer_def)
    then have "requests s' = requests s1 \<and> test_file s' = test_file s1" by (cases s'; cases s1) simp
    then show ?thesis by (simp add: s1_def set_global_ETAG_def)
  qed
  then show ?thesis unfolding pay sync by (cases ?p) auto
qed
definition test_st0 :: test_st where
  "test_st0 = http_st.extend http_st0 \<lparr>g_testfile = 0, test_file =
     Some (text_lines (file_head (''multipart/mixed; boundary='' @ ''b1'') (dec 9))
             (CRLF @ body_text ''b1'' [(5, ''wan'', CHR 0x81 # ''parameters'')] []))\<rparr>"

lemma test_st0_simps [simp]:
  "mem_ok test_st0" "g_mp_head test_st0 = []" "g_testfile test_st0 = 0" "requests test_st0 = []"
  by (simp_all add: test_st0_def http_st0_def http_st.defs ev_st.defs ev_st0_def db_st.defs db_st0_defs)

theorem test_file_as_response_witness:
  "sync_with_utility (\<lambda>_. (demo_device, demo_reply 200)) (\<lambda>_. True) 0 None test_st0 =
     map_option (\<lambda>s'. s'\<lparr>test_file := None\<rparr>)
       (processPayload demo_device (text_lines (response_head 200 ''OK'' (''multipart/mixed; boundary='' @ ''b1'') (dec 9) ''120'')
          (CRLF @ body_text ''b1'' [(5, ''wan'', CHR 0x81 # ''parameters'')] [])) (test_st0\<lparr>g_testfile := 1\<rparr>))"
proof -
  let ?ct = "''multipart/mixed; boundary='' @ ''b1''"
  have d: "dec 9 = ''9''" by (simp add: dec.simps digit_char_def char_of_def bit_iff_odd)
  have f: "file_ok ?ct (dec 9)" by (simp add: file_ok_def line_ok_def d)
  have c: "clear_of ''b1'' (text_lines (file_head ?ct (dec 9)) [])" by (simp add: clear_of_def text_lines_def file_head_def d)
  have t: "test_file test_st0 = Some (text_lines (file_head ?ct (dec 9)) (CRLF @ body_text ''b1'' [(5, ''wan'', CHR 0x81 # ''parameters'')] []))"
    by (simp add: test_st0_def http_st.defs)
  have l: "''120'' \<noteq> ''0''" by simp
  from test_file_as_response [OF refl f demo_response_ok(1) l demo_response_ok(2-6) c demo_response_ok(7) test_st0_simps(1,2) t,
      of "\<lambda>_. (demo_device, demo_reply 200)" "\<lambda>_. True" 0 None]
  show ?thesis by simp
qed

text \<open>Without a file the utility changes nothing.\<close>

theorem no_test_file:
  fixes s :: "'z test_st_scheme"
  assumes "test_file s = None" "g_testfile s = 0"
  shows "sync_with_utility io rm_ok status docname s = processWebconfgSync io status docname s"
proof -
  have u: "testUtility env rm s = Some (0, s)" if "test_file s = None" "g_testfile s = 0" for env rm and s :: "'z test_st_scheme"
    using that by (simp add: testUtility_def readFromFile_def)
  have k: "test_file s' = test_file s \<and> g_testfile s' = g_testfile s" if "sync_outer s' = sync_outer s" for s s' :: "'z test_st_scheme"
    using that by (cases s; cases s') (simp add: sync_outer_def)
  have "test_rounds io rm_ok status docname n v s = sync_rounds io status docname n v s"
    if "test_file s = None" "g_testfile s = 0" for n v and s :: "'z test_st_scheme"
    using that
  proof (induction "4 - n" arbitrary: n v s rule: less_induct)
    case less
    show ?case
    proof (cases "3 < n")
      case True
      with u less.prems show ?thesis by (simp add: test_rounds.simps [of _ _ _ _ n] sync_rounds.simps [of _ _ _ n])
    next
      case False
      then have ih: "test_file s1 = None \<Longrightarrow> g_testfile s1 = 0 \<Longrightarrow>
          test_rounds io rm_ok status docname (Suc n) v1 s1 = sync_rounds io status docname (Suc n) v1 s1" for v1 and s1 :: "'z test_st_scheme"
        using less.hyps [of "Suc n"] by simp
      show ?thesis
      proof (cases "webcfg_http_request (fst (io n)) (snd (io n)) n status docname v s")
        case None
        with False u less.prems show ?thesis by (simp add: test_rounds.simps [of _ _ _ _ n] sync_rounds.simps [of _ _ _ n])
      next
        case (Some a)
        then obtain ret code uuid v1 s1 where a: "webcfg_http_request (fst (io n)) (snd (io n)) n status docname v s = Some ((ret, code, uuid, v1), s1)"
          by (metis prod.exhaust)
        have s1: "test_file s1 = None" "g_testfile s1 = 0" using k [OF sync_outer_request [OF a]] less.prems by simp_all
        have s2: "test_file s2 = None \<and> g_testfile s2 = 0" if "handlehttpResponse (fst (io n)) code n uuid v1 s1 = Some (rv, s2)" for rv s2
          using k [OF sync_outer_response [OF that]] s1 by simp
        show ?thesis using False u less.prems a ih s1 s2
          by (simp add: test_rounds.simps [of _ _ _ _ n] sync_rounds.simps [of _ _ _ n] split: option.split)
      qed
    qed
  qed
  with assms show ?thesis by (simp add: sync_with_utility_def processWebconfgSync_def)
qed
text \<open>The file must have its headers: without a \<open>Content-type\<close> the search runs past the end of
  the data, unless these end in C.\<close>

theorem test_file_without_type:
  assumes "mem_ok s" "test_file s = Some bytes" "bytes \<noteq> []" "strstr bytes ''Content-type:'' = None" "last bytes \<noteq> CHR ''C''"
  shows "sync_with_utility io rm_ok status docname s = None"
proof -
  have "find_in_file ''Content-type:'' (bytes @ [NUL]) = None" by (rule find_in_file_absent) (use assms(3-5) in simp_all)
  then have "testUtility env rm s = None" for env rm using assms(1-3) by (simp add: testUtility_def readFromFile_def)
  then show ?thesis by (simp add: sync_with_utility_def test_rounds.simps)
qed

end
