(* ===== verification/Platform.thy ===== *)
theory Platform
  imports Mqtt Auth
begin

text \<open>
  The platform functions of a build on a PC (\<open>src/src/webcfg_generic_pc.c\<close>): constants in place
  of the values of a device. They instantiate the environments of the other theories; the fields
  that do not come from the platform stay those of a given environment. The functions of the
  file on forced syncs and on the bus are the ones of \<open>webcfg_generic.c\<close>, modelled in \<open>Force\<close> and
  \<open>BusIo\<close>.
\<close>

section \<open>The functions\<close>

text \<open>The URL functions leave the buffer of the caller alone and report success.\<close>

definition Get_Webconfig_URL :: "string \<Rightarrow> int \<times> string" where
  "Get_Webconfig_URL pString = (0, pString)"

definition Set_Webconfig_URL :: "string \<Rightarrow> int" where
  "Set_Webconfig_URL pString = 0"

definition Get_Supplementary_URL :: "string \<Rightarrow> string \<Rightarrow> int \<times> string" where
  "Get_Supplementary_URL name pString = (0, pString)"

definition Set_Supplementary_URL :: "string \<Rightarrow> string \<Rightarrow> int" where
  "Set_Supplementary_URL name pString = 0"

text \<open>The variable \<open>global_systemReadyTime\<close> afterwards; NULL would be copied.\<close>

definition set_global_systemReadyTime :: "string option \<Rightarrow> string option \<Rightarrow> string option option" where
  "set_global_systemReadyTime systemReadyTime global = map_option Some systemReadyTime"

text \<open>\<open>pc_device\<close> takes the variable \<open>global_systemReadyTime\<close>. The buffer for a URL is cleared before it is handed over; \<open>getTimeOffset\<close> and the times of
  a firmware upgrade are not part of \<open>device_env\<close>.\<close>

definition pc_device :: "string option \<Rightarrow> device_env \<Rightarrow> device_env" where
  "pc_device systemReadyTime env =
     env\<lparr>de_boot_time := Some ''1634658266'', de_product_class := Some ''XB6'', de_model := Some ''CGM4140COM'',
         de_partner_id := Some ''comcast'', de_account_id := Some ''unknown'', de_reboot_reason := Some ''Forced_Software_upgrade'',
         de_firmware := Some ''CGM4140COM_DEV_master_202100000000000sdy'', de_macs := (\<lambda>_. Some ''123456789000''),
         de_wan_mac := Some ''123456789000'', de_ready_time := systemReadyTime, de_url := snd (Get_Webconfig_URL []),
         de_supplementary_url := (\<lambda>name. snd (Get_Supplementary_URL name [])),
         de_set_url_ok := (Set_Webconfig_URL [] = 0 \<and> Set_Supplementary_URL [] [] = 0)\<rparr>"

definition pc_auth :: "auth_env \<Rightarrow> auth_env" where
  "pc_auth env = env\<lparr>au_mac := Some ''123456789000'', au_serial := Some ''123456789123456789''\<rparr>"

definition pc_mqtt :: "string option \<Rightarrow> mqtt_env \<Rightarrow> mqtt_env" where
  "pc_mqtt systemReadyTime env =
     env\<lparr>me_device := pc_device systemReadyTime (me_device env), me_client := None, me_location := []\<rparr>"
section \<open>A sync on a PC\<close>

lemma pc_url [simp]: "de_url (pc_device t env) = []" "de_supplementary_url (pc_device t env) name = []"
  by (simp_all add: pc_device_def Get_Webconfig_URL_def Get_Supplementary_URL_def)

lemma request_without_url:
  assumes "sync_ready s" "de_url env = []"
  obtains uuid s' where "webcfg_http_request env reply rc status docname v s = Some ((False, 0, uuid, v), s')"
    "sync_ready s'" "requests s' = requests s" "notifyMsgQ s' = notifyMsgQ s" "doc_versions (webcfgdb_data s') = doc_versions (webcfgdb_data s)"
proof (cases "cr_init reply \<and> mem_ok s")
  case False
  with that [of None s] assms(1) show thesis by (simp add: webcfg_http_request_def)
next
  case True
  note r = assms(1) [unfolded sync_ready_def]
  obtain hs uuid s1 where s1: "createCurlHeader env status s = Some ((hs, Some uuid), s1)" "sync_same s s1" "requests s1 = requests s"
    "apply_inv s1" "lists_short MAX_LBUFF_SIZE (webcfgdb_data s1)" "doc_versions (webcfgdb_data s1) = doc_versions (webcfgdb_data s)"
    by (rule createCurlHeader_primary [of s env status]) (use r in auto)
  moreover have "sync_ready s1" "notifyMsgQ s1 = notifyMsgQ s" using s1 r by (simp_all add: sync_ready_def sync_same_def)
  moreover have "config_url env docname s1 = None" using s1(2) r assms(2) by (simp add: config_url_def sync_same_def)
  ultimately show thesis using True that by (simp add: webcfg_http_request_def)
qed

text \<open>Without a URL no sync reaches the cloud: on a PC a primary sync ends after its four rounds, without
  a request, a notification or a change to the versions of the documents.\<close>

theorem pc_sync_asks_nothing:
  fixes s :: "'z http_st_scheme"
  assumes "sync_ready s" "\<forall>n<4. fst (io n) = pc_device t (base n)"
  shows "\<exists>s'. processWebconfgSync io status docname s = Some s' \<and> requests s' = requests s \<and>
    notifyMsgQ s' = notifyMsgQ s \<and> doc_versions (webcfgdb_data s') = doc_versions (webcfgdb_data s)"
proof -
  have "\<exists>s'. sync_rounds io status docname n v s = Some s' \<and> requests s' = requests s \<and>
    notifyMsgQ s' = notifyMsgQ s \<and> doc_versions (webcfgdb_data s') = doc_versions (webcfgdb_data s)"
    if "sync_ready s" for n v and s :: "'z http_st_scheme"
    using that
  proof (induction "4 - n" arbitrary: n s rule: less_induct)
    case less
    show ?case
    proof (cases "3 < n")
      case True
      then show ?thesis by (simp add: sync_rounds.simps [of _ _ _ n])
    next
      case False
      then have "de_url (fst (io n)) = []" using assms(2) by simp
      from request_without_url [OF less.prems this] obtain uuid s1 where s1:
        "webcfg_http_request (fst (io n)) (snd (io n)) n status docname v s = Some ((False, 0, uuid, v), s1)" "sync_ready s1"
        "requests s1 = requests s" "notifyMsgQ s1 = notifyMsgQ s" "doc_versions (webcfgdb_data s1) = doc_versions (webcfgdb_data s)"
        by metis
      have "4 - Suc n < 4 - n" using False by simp
      from less.hyps [OF this s1(2)] False s1(1,3-5) show ?thesis by (subst sync_rounds.simps) simp
    qed
  qed
  with assms(1) show ?thesis by (simp add: processWebconfgSync_def)
qed

text \<open>The client id is NULL on a PC: with MQTT, a task whose connection comes up copies NULL.\<close>

theorem pc_mqtt_task:
  assumes "\<not> mqtt_locked s" "rbus_handle s" "subscribeFlag s = 0" "\<forall>e. me_subscribe env e = RBUS_ERROR_SUCCESS"
  shows "mqtt_task_start (pc_mqtt t env) status s = None"
proof -
  define e where "e = pc_mqtt t env"
  have e: "me_subscribe e v = RBUS_ERROR_SUCCESS" "me_client e = None" for v using assms(4) by (simp_all add: e_def pc_mqtt_def)
  let ?s1 = "s\<lparr>mqtt_locked := True, systemStatus := status\<rparr>"
  have "mqtt_task_start e status s = None"
  proof (cases "checkMqttConnStatus e ?s1")
    case None
    then show ?thesis using assms(1,2) by (simp add: mqtt_task_start_def)
  next
    case (Some s')
    then have "subscribeFlag s' = 0" "rbus_handle s'"
      using conn_loop_form [OF Some [unfolded checkMqttConnStatus_def]] assms(2,3) by auto
    then show ?thesis using Some assms(1,2) e by (simp add: mqtt_task_start_def mqttSubscribeInit_def)
  qed
  then show ?thesis by (simp add: e_def)
qed

end
