(* ===== verification/Spec2Isabelle.thy ===== *)
theory Spec2Isabelle
  imports Multipart Blob Reset BusIo Aker Mqtt Auth TestFile Platform
begin

text \<open>
  A model of the webconfig client \<open>webcfg\<close>, a C program under \<open>src/src\<close> that keeps the
  configuration of a device in step with the cloud.

  \<^bold>\<open>The program.\<close> The sync thread (\<open>webcfg.c\<close>) asks the cloud for documents: it sends the
  versions it has, gets a multipart body back, splits it into documents, decodes each into
  parameters (msgpack), and sets the parameters on the components of the device. Documents of
  scalar parameters are applied at once; for a blob the component answers later by an event
  (\<open>webcfg_event.c\<close>): accepted with a timeout, applied, refused, expired, or crashed. What was
  applied is kept in a list and a file (\<open>webcfg_db.c\<close>), what is in progress in a second list.
  Every outcome is reported to the cloud by a notification (\<open>webcfg_notify.c\<close>). Requests for a
  sync (pokes) come over rbus into a queue (\<open>webcfg_rbus.c\<close>) and wake the sync thread, which
  otherwise waits for the maintenance window or for a retry (\<open>webcfg_timer.c\<close>). On the same bus
  the program offers a data model: the switch that enables it, the URLs, the state of the
  documents, and the reset of documents by force.

  \<^bold>\<open>The theories\<close>, each one importing those whose operations it calls:

  \<^item> \<open>Webcfg_Prelude\<close>: C strings and buffers, \<open>strtok\<close>, \<open>strncmp\<close>, list operations of the
    linked lists, the two interfaces, the collections of rules.
  \<^item> \<open>Msgpack\<close>, \<open>Param\<close>, \<open>Codec\<close>: msgpack objects as seen by the helpers of
    \<open>webcfg_helpers.c\<close>, the decoder of \<open>webcfg_param.c\<close>, and the packer operations of
    \<open>webcfg_pack.c\<close> with a reader for them.
  \<^item> \<open>Notify\<close>, \<open>Timer\<close>, \<open>Metadata\<close>: \<open>webcfg_notify.c\<close>, \<open>webcfg_timer.c\<close>,
    \<open>webcfg_metadata.c\<close>.
  \<^item> \<open>MpList\<close>, \<open>Multipart\<close>: the cached documents and the parser of the body, from
    \<open>webcfg_multipart.c\<close>.
  \<^item> \<open>Db\<close>, \<open>TmpList\<close>: the applied documents with their file and the documents in progress,
    from \<open>webcfg_db.c\<close>. \<open>Blob\<close>: the metadata added to a blob, from \<open>webcfg_blob.c\<close>.
  \<^item> \<open>Apply\<close>, \<open>Applied\<close>: \<open>processMsgpackSubdoc\<close> and what it achieves.
  \<^item> \<open>DocTimer\<close>, \<open>Events\<close>: the queue of component events, the timers of the documents, the
    handling of an event, and the retries \<open>retryMultipartSubdoc\<close> and \<open>failedDocsRetry\<close>.
  \<^item> \<open>Url\<close>, \<open>Versions\<close>, \<open>Sync\<close>: the URL of a request, the versions reported, and
    \<open>webcfg_http_request\<close>, \<open>handlehttpResponse\<close> and \<open>processWebconfgSync\<close>.
  \<^item> \<open>Force\<close>: the queue of forced syncs. \<open>Frame\<close>: what a sync and a retry leave alone.
    \<open>Task\<close>: the sync thread, and the transition system of the thread and its environment.
  \<^item> \<open>Rbus\<close>, \<open>Reset\<close>: the handlers of the data model in \<open>webcfg_rbus.c\<close>, and what the reset of
    documents does to the lists and how often it is allowed. \<open>BusIo\<close>: setting and reading the
    parameters of other components, notifications, registration (\<open>webcfg_rbus.c\<close>,
    \<open>webcfg_generic.c\<close>), the events of the WAN and the start of the program (\<open>main.c\<close>).
  \<^item> \<open>Aker\<close>: the documents of aker, which are sent over parodus (\<open>webcfg_aker.c\<close>), the connection
    to parodus (\<open>webcfg_client.c\<close>), and the last part of \<open>processMsgpackSubdoc\<close>, which waits
    for aker. It is compiled only with \<open>FEATURE_SUPPORT_AKER\<close>; \<open>apply_aker\<close> takes the state that
    \<open>processMsgpackSubdoc\<close> leaves.
  \<^item> \<open>Mqtt\<close>: requests, responses and notifications over MQTT (\<open>webcfg_mqtt.c\<close>) in place of
    those over HTTP, with the places of \<open>webcfg_rbus.c\<close> that call them. It is compiled only with
    \<open>FEATURE_SUPPORT_MQTTCM\<close>. A response ends in the operations of \<open>Multipart\<close> and \<open>Apply\<close>.
  \<^item> \<open>Auth\<close>: the authorisation token (\<open>webcfg_auth.c\<close>), which a request over HTTP takes from
    its \<open>device_env\<close>, and its renewal after a response 403.
  \<^item> \<open>TestFile\<close>: the test utility (\<open>testUtility\<close> of \<open>webcfg.c\<close>, compiled with
    \<open>MULTIPART_UTILITY\<close>), which applies a file in place of a response. \<open>Platform\<close>: the values
    of a build on a PC (\<open>webcfg_generic_pc.c\<close>) as instances of the environments.

  \<^bold>\<open>State.\<close> One record holds the static variables of the files, extended theory by theory
  (\<open>base_st\<close>, \<open>sync_st\<close>, \<open>notify_st\<close>, \<open>timer_st\<close>, \<open>meta_st\<close>, \<open>mp_st\<close>, \<open>db_st\<close>,
  \<open>ev_st\<close>, \<open>http_st\<close>, \<open>force_st\<close>, \<open>rbus_st\<close>, \<open>mqtt_st\<close>, and \<open>aker_st\<close> on \<open>ev_st\<close>, \<open>test_st\<close> on \<open>http_st\<close>), so that an operation applies to every extension of the
  record it needs. \<open>auth_st\<close> stands alone. A linked list is the list of its nodes, a pointer into it an index; an
  operation that frees the node it stands on has no result. \<open>mem_ok\<close> tells whether
  \<open>malloc\<close> succeeds; where the code does not look at its result the model has none.

  \<^bold>\<open>Results.\<close> \<open>None\<close> as the result of an operation stands for undefined behaviour of the C
  code (a read or write outside a buffer, NULL, freed memory) or for a loop that does not end.
  Status codes and \<open>errno\<close> are values. Unsigned integers of a fixed width are words and wrap
  around; \<open>int\<close> is \<open>int\<close> with the conversion \<open>c_int\<close> where the width matters.

  \<^bold>\<open>What is outside.\<close> msgpack, base64, libcurl, cJSON, rbus and the platform are arguments,
  collected in records: \<open>apply_env\<close> (decoding, packing, setting parameters, clock, random
  numbers), \<open>device_env\<close> and \<open>curl_reply\<close> (values of the platform, the answer to a request),
  \<open>force_env\<close>, \<open>task_env\<close>, \<open>rbus_env\<close>, \<open>bus_env\<close>, \<open>aker_env\<close>, \<open>mqtt_env\<close> and \<open>auth_env\<close>. What the proofs need of them is a hypothesis of the theorem;
  each such theorem has a witness with concrete functions. Where a law of the packer is used,
  the reader \<open>read_ops\<close> of \<open>Codec\<close> provides it.

  \<^bold>\<open>Interfaces.\<close> \<open>doc_list\<close> (a list of documents with unique names: search, deletion,
  insertion) is interpreted by the three linked lists of the program (cached documents, documents in
  progress, timers); \<open>msg_queue\<close> (first in,
  first out) by the queues of notifications, events and forced syncs.

  \<^bold>\<open>Threads.\<close> A handler of an event, a request or a turn of a thread is atomic. The turns of
  the sync thread are cut where another thread can change what they depend on (\<open>task_pc\<close>); a
  request that arrives in the course of a sync finds the flags it would find at its end, since
  a sync keeps them (\<open>sync_outer_processWebconfgSync\<close>). The relation \<open>sys_step\<close> interleaves the
  turns with wake-ups, timeouts, requests, shutdown and all other activity.

  \<^bold>\<open>What the lemmas show.\<close> For each list: that its operations implement the interface and keep
  its counter. For the database: that updating it implements an update of the map from names
  to versions, and that the file and the blob can be read back. For the parsers: round trips
  with the text they were written for. For applying and events: the absence of undefined
  behaviour from every state in order in which every document that decodes has a parameter and
  its blobs can be extended; the outcome on each branch, for acceptance of a whole sync only
  with documents of plain parameters; that a refused version is not sent again, and for which
  failures the limit on the retries holds. For syncs: the end of the requests and what is
  reported.
  For the threads: the meaning of the flags in every reachable state, the service of pending
  requests, and the cases in which a request is lost. For the data model: that nothing is given
  away or changed while the program is disabled, that a reset concerns all named documents or
  none, the bound on resets, and the outcome of setting parameters and sending notifications.
  For MQTT: that the documents of a response end in the database as over HTTP, and what is cut;
  for the test utility, that a file stands for a response.

  \<^bold>\<open>Bounds and fuel.\<close> \<open>checkValidURL\<close>, \<open>replaceMacWord\<close>, \<open>connect_loop\<close> and \<open>conn_loop\<close> loop as partial
  functions: a result means that the loop ends, and the theorems give it. All other loops are
  recursive over lists or with a measure (\<open>wait_loop\<close> on the sleeps left, \<open>send_loop\<close> on the
  attempts left, \<open>aker_rounds\<close> on the exponent of the waiting time, \<open>find_line\<close> and \<open>find_in_file\<close> on the rest of the buffer). \<open>sync_rounds\<close> makes four requests at most.

  \<^bold>\<open>Not modelled.\<close> The variant is the one with \<open>WEBCONFIG_BIN_SUPPORT\<close>, over HTTP but for
  \<open>Mqtt\<close> and \<open>TestFile\<close>, which state the functions of two other variants over the same
  state. The code for OneStack is an optional feature that is left out; of WAN failover the two event handlers are modelled, not the
  header it adds to a request. Creating and joining threads, signal handlers and logging
  only call other software;
  the weak functions of the platform layer (\<open>webcfg_generic.c\<close>) return what the model takes
  as a parameter.
\<close>

end
